(* ===== verification/Prelude.thy ===== *)
theory Prelude
  imports Main
begin

text \<open>
  Shared vocabulary of the development: the collections of rewrite rules the component
  theories extend, the result type of code that throws, and the string functions of the
  language the sources use.

  A string of the program is a sequence of UTF-16 code units. Here it is the list of the
  bytes of its UTF-8 encoding (a lone surrogate is kept as its three-byte form), so that one
  type serves for the bytes on a socket and for decoded text: equality, concatenation,
  splitting at an ASCII separator and prefix tests mean the same on both sides, and the few
  operations that count code units go through \<open>utf16_units\<close>. Header text is read by the
  source one character per byte; that is the identity on this type.
\<close>

named_theorems gate_simps \<open>unfolding rules of the small definitions of the components\<close>
named_theorems result_simps \<open>rules for the error monad\<close>

section \<open>Results\<close>

text \<open>
  A function that throws returns \<open>Inl e\<close>. \<open>rbind\<close> is the sequencing of statements: the
  first throw wins.
\<close>

type_synonym ('e, 'a) result = "'e + 'a"

fun rbind :: "('e, 'a) result \<Rightarrow> ('a \<Rightarrow> ('e, 'b) result) \<Rightarrow> ('e, 'b) result" where
  "rbind (Inl e) f = Inl e"
| "rbind (Inr x) f = f x"

fun rmap_list :: "('a \<Rightarrow> ('e, 'b) result) \<Rightarrow> 'a list \<Rightarrow> ('e, 'b list) result" where
  "rmap_list f [] = Inr []"
| "rmap_list f (x # xs) = rbind (f x) (\<lambda>y. rbind (rmap_list f xs) (\<lambda>ys. Inr (y # ys)))"

lemma rbind_Inr_iff [result_simps]:
  "rbind m f = Inr y \<longleftrightarrow> (\<exists>x. m = Inr x \<and> f x = Inr y)"
  by (cases m) auto

lemma rbind_Inl_iff [result_simps]:
  "rbind m f = Inl e \<longleftrightarrow> m = Inl e \<or> (\<exists>x. m = Inr x \<and> f x = Inl e)"
  by (cases m) auto

lemma rbind_assoc: "rbind (rbind m f) g = rbind m (\<lambda>x. rbind (f x) g)"
  by (cases m) auto

lemma rbind_cong [fundef_cong]:
  "m = m' \<Longrightarrow> (\<And>x. m' = Inr x \<Longrightarrow> f x = f' x) \<Longrightarrow> rbind m f = rbind m' f'"
  by (cases m') auto

lemma rmap_list_cong [fundef_cong]:
  "xs = ys \<Longrightarrow> (\<And>x. x \<in> set ys \<Longrightarrow> f x = g x) \<Longrightarrow> rmap_list f xs = rmap_list g ys"
proof (induction ys arbitrary: xs)
  case (Cons y ys)
  from Cons.IH [OF refl] Cons.prems have "rmap_list f ys = rmap_list g ys" by simp
  with Cons.prems show ?case by simp
qed simp

lemma rmap_list_Inr_iff:
  "rmap_list f xs = Inr ys \<longleftrightarrow> list_all2 (\<lambda>x y. f x = Inr y) xs ys"
proof (induction xs arbitrary: ys)
  case Nil
  then show ?case by auto
next
  case (Cons x xs)
  then show ?case by (cases ys) (auto simp: result_simps)
qed

lemma rmap_list_length: "rmap_list f xs = Inr ys \<Longrightarrow> length ys = length xs"
  by (metis list_all2_lengthD rmap_list_Inr_iff)

section \<open>Strings\<close>

definition starts_with :: "string \<Rightarrow> string \<Rightarrow> bool" where
  "starts_with p s \<longleftrightarrow> take (length p) s = p"

definition ends_with :: "string \<Rightarrow> string \<Rightarrow> bool" where
  "ends_with p s \<longleftrightarrow> starts_with (rev p) (rev s)"

fun includes_str :: "string \<Rightarrow> string \<Rightarrow> bool" where
  "includes_str p [] \<longleftrightarrow> p = []"
| "includes_str p (x # xs) \<longleftrightarrow> starts_with p (x # xs) \<or> includes_str p xs"

fun index_of :: "char \<Rightarrow> string \<Rightarrow> nat option" where
  "index_of c [] = None"
| "index_of c (x # xs) = (if x = c then Some 0 else map_option Suc (index_of c xs))"

definition last_index_of :: "char \<Rightarrow> string \<Rightarrow> nat option" where
  "last_index_of c s = map_option (\<lambda>i. length s - 1 - i) (index_of c (rev s))"

fun split_on :: "char \<Rightarrow> string \<Rightarrow> string list" where
  "split_on c [] = [[]]"
| "split_on c (x # xs) =
     (if x = c then [] # split_on c xs
      else (case split_on c xs of [] \<Rightarrow> [[x]] | y # ys \<Rightarrow> (x # y) # ys))"

fun join_with :: "string \<Rightarrow> string list \<Rightarrow> string" where
  "join_with sep [] = []"
| "join_with sep [x] = x"
| "join_with sep (x # y # ys) = x @ sep @ join_with sep (y # ys)"

definition to_lower_char :: "char \<Rightarrow> char" where
  "to_lower_char c = (if 65 \<le> (of_char c :: nat) \<and> (of_char c :: nat) \<le> 90
     then char_of ((of_char c :: nat) + 32) else c)"

definition to_upper_char :: "char \<Rightarrow> char" where
  "to_upper_char c = (if 97 \<le> (of_char c :: nat) \<and> (of_char c :: nat) \<le> 122
     then char_of ((of_char c :: nat) - 32) else c)"

text \<open>
  Case mapping is modelled on ASCII letters, which is the whole of it wherever the sources
  fold names they have already checked to be ASCII (header names, struct field names) or
  compare the outcome with ASCII words only.
\<close>

definition to_lower :: "string \<Rightarrow> string" where
  "to_lower = map to_lower_char"

definition to_upper :: "string \<Rightarrow> string" where
  "to_upper = map to_upper_char"

definition is_digit :: "char \<Rightarrow> bool" where
  "is_digit c \<longleftrightarrow> 48 \<le> (of_char c :: nat) \<and> (of_char c :: nat) \<le> 57"

definition is_lower :: "char \<Rightarrow> bool" where
  "is_lower c \<longleftrightarrow> 97 \<le> (of_char c :: nat) \<and> (of_char c :: nat) \<le> 122"

definition is_upper :: "char \<Rightarrow> bool" where
  "is_upper c \<longleftrightarrow> 65 \<le> (of_char c :: nat) \<and> (of_char c :: nat) \<le> 90"

definition is_alnum :: "char \<Rightarrow> bool" where
  "is_alnum c \<longleftrightarrow> is_digit c \<or> is_lower c \<or> is_upper c"

definition is_hex :: "char \<Rightarrow> bool" where
  "is_hex c \<longleftrightarrow> is_digit c \<or> (97 \<le> (of_char c :: nat) \<and> (of_char c :: nat) \<le> 102)
     \<or> (65 \<le> (of_char c :: nat) \<and> (of_char c :: nat) \<le> 70)"

definition digit_value :: "char \<Rightarrow> nat" where
  "digit_value c = (if is_digit c then of_char c - 48
     else if is_lower c then of_char c - 87 else of_char c - 55)"

definition nat_of_digits :: "nat \<Rightarrow> string \<Rightarrow> nat" where
  "nat_of_digits base s = fold (\<lambda>c n. n * base + digit_value c) s 0"

fun digits_of_nat :: "nat \<Rightarrow> string" where
  "digits_of_nat n = (if n < 10 then [char_of (48 + n)]
     else digits_of_nat (n div 10) @ [char_of (48 + n mod 10)])"

declare digits_of_nat.simps [simp del]

subsection \<open>Laws of the string functions\<close>

lemma starts_with_append [simp]: "starts_with p (p @ s)"
  by (simp add: starts_with_def)

lemma starts_with_iff: "starts_with p s \<longleftrightarrow> (\<exists>r. s = p @ r)"
  by (metis append_eq_conv_conj append_take_drop_id starts_with_def)

lemma starts_with_Nil [simp]: "starts_with [] s"
  by (simp add: starts_with_def)

lemma starts_with_Cons [simp]:
  "starts_with (c # p) s \<longleftrightarrow> (case s of [] \<Rightarrow> False | x # xs \<Rightarrow> x = c \<and> starts_with p xs)"
  by (auto simp: starts_with_def split: list.splits)

lemma ends_with_iff: "ends_with p s \<longleftrightarrow> (\<exists>r. s = r @ p)"
proof
  assume "ends_with p s"
  then obtain r where "rev s = rev p @ r"
    by (auto simp: ends_with_def starts_with_iff)
  then have "s = rev r @ p" by (metis rev_append rev_rev_ident)
  then show "\<exists>r. s = r @ p" ..
qed (auto simp: ends_with_def)

lemma includes_str_iff: "includes_str p s \<longleftrightarrow> (\<exists>a b. s = a @ p @ b)"
proof (induction s)
  case Nil
  then show ?case by auto
next
  case (Cons x xs)
  show ?case
  proof
    assume "includes_str p (x # xs)"
    then show "\<exists>a b. x # xs = a @ p @ b"
      using Cons.IH by (metis append_Cons append_Nil includes_str.simps(2) starts_with_iff)
  next
    assume "\<exists>a b. x # xs = a @ p @ b"
    then obtain a b where ab: "x # xs = a @ p @ b" by blast
    show "includes_str p (x # xs)"
    proof (cases a)
      case Nil
      with ab show ?thesis by (metis append_Nil includes_str.simps(2) starts_with_append)
    next
      case (Cons y ys)
      with ab have "xs = ys @ p @ b" by simp
      then show ?thesis using \<open>includes_str p xs = (\<exists>a b. xs = a @ p @ b)\<close> by auto
    qed
  qed
qed

lemma includes_str_char [simp]: "includes_str [c] s \<longleftrightarrow> c \<in> set s"
  by (induction s) auto

lemma index_of_None [simp]: "index_of c s = None \<longleftrightarrow> c \<notin> set s"
  by (induction s) auto

lemma index_of_Some:
  "index_of c s = Some i \<Longrightarrow> i < length s \<and> s ! i = c \<and> c \<notin> set (take i s)"
proof (induction s arbitrary: i)
  case Nil
  then show ?case by simp
next
  case (Cons x xs)
  then show ?case by (cases i) (auto split: if_splits)
qed

lemma split_on_nonempty [simp]: "split_on c s \<noteq> []"
  by (cases s) (auto split: list.splits)

lemma split_on_Cons:
  "split_on c (x # xs) =
     (if x = c then [] # split_on c xs
      else (x # hd (split_on c xs)) # tl (split_on c xs))"
  using split_on_nonempty [of c xs] by (auto split: list.splits)

lemma join_split [simp]: "join_with [c] (split_on c s) = s"
proof (induction s)
  case Nil
  then show ?case by simp
next
  case (Cons x xs)
  obtain y ys where sp: "split_on c xs = y # ys"
    by (cases "split_on c xs") auto
  show ?case
  proof (cases "x = c")
    case True
    with Cons.IH sp show ?thesis by simp
  next
    case False
    with Cons.IH sp show ?thesis by (cases ys) auto
  qed
qed

lemma split_on_no_sep: "p \<in> set (split_on c s) \<Longrightarrow> c \<notin> set p"
proof (induction s arbitrary: p)
  case Nil
  then show ?case by simp
next
  case (Cons x xs)
  then show ?case by (auto split: if_splits list.splits)
qed

lemma split_on_id: "c \<notin> set s \<Longrightarrow> split_on c s = [s]"
  by (induction s) auto

lemma split_on_append_sep:
  "c \<notin> set p \<Longrightarrow> split_on c (p @ c # s) = p # split_on c s"
  by (induction p) auto

lemma split_on_append: "split_on c (a @ c # b) = split_on c a @ split_on c b"
proof (induction a)
  case (Cons x a)
  then show ?case by (cases "split_on c a") auto
qed simp

lemma split_join:
  "ps \<noteq> [] \<Longrightarrow> \<forall>p \<in> set ps. c \<notin> set p \<Longrightarrow> split_on c (join_with [c] ps) = ps"
proof (induction "[c]" ps rule: join_with.induct)
  case (3 x y ys)
  then show ?case by (simp add: split_on_append_sep)
qed (auto simp: split_on_id)

lemma split_on_set: "c \<noteq> d \<Longrightarrow> d \<in> set s \<longleftrightarrow> (\<exists>p \<in> set (split_on c s). d \<in> set p)"
proof (induction s)
  case Nil
  then show ?case by simp
next
  case (Cons x xs)
  then show ?case by (auto split: list.splits)
qed

lemma split_on_subset: "p \<in> set (split_on c s) \<Longrightarrow> set p \<subseteq> set s"
proof (induction s arbitrary: p)
  case Nil
  then show ?case by simp
next
  case (Cons x xs)
  then show ?case by (fastforce split: if_splits list.splits)
qed

lemma to_lower_char_idem [simp]: "to_lower_char (to_lower_char c) = to_lower_char c"
  by (auto simp: to_lower_char_def)

lemma to_lower_idem [simp]: "to_lower (to_lower s) = to_lower s"
  by (simp add: to_lower_def)

lemma length_to_lower [simp]: "length (to_lower s) = length s"
  by (simp add: to_lower_def)

subsection \<open>Evaluation on character bits\<close>

text \<open>
  Code equations that read the bits of a character, so that evaluation inside the kernel
  need not go through its number.
\<close>

lemma to_lower_char_code [code]:
  "to_lower_char (Char b0 b1 b2 b3 b4 b5 b6 b7) =
    (if \<not> b7 \<and> b6 \<and> \<not> b5 \<and> (b0 \<or> b1 \<or> b2 \<or> b3 \<or> b4) \<and> \<not> (b4 \<and> b3 \<and> (b2 \<or> b1 \<and> b0))
     then Char b0 b1 b2 b3 b4 True b6 b7 else Char b0 b1 b2 b3 b4 b5 b6 b7)"
  by (cases b0; cases b1; cases b2; cases b3; cases b4; cases b5; cases b6; cases b7;
      simp add: to_lower_char_def; code_simp)

lemma to_upper_char_code [code]:
  "to_upper_char (Char b0 b1 b2 b3 b4 b5 b6 b7) =
    (if \<not> b7 \<and> b6 \<and> b5 \<and> (b0 \<or> b1 \<or> b2 \<or> b3 \<or> b4) \<and> \<not> (b4 \<and> b3 \<and> (b2 \<or> b1 \<and> b0))
     then Char b0 b1 b2 b3 b4 False b6 b7 else Char b0 b1 b2 b3 b4 b5 b6 b7)"
  by (cases b0; cases b1; cases b2; cases b3; cases b4; cases b5; cases b6; cases b7;
      simp add: to_upper_char_def; code_simp)

lemma is_digit_code [code]:
  "is_digit (Char b0 b1 b2 b3 b4 b5 b6 b7) \<longleftrightarrow>
     \<not> b7 \<and> \<not> b6 \<and> b5 \<and> b4 \<and> \<not> (b3 \<and> (b2 \<or> b1))"
  by (cases b0; cases b1; cases b2; cases b3; cases b4; cases b5; cases b6; cases b7;
      simp add: is_digit_def)

lemma is_lower_code [code]:
  "is_lower (Char b0 b1 b2 b3 b4 b5 b6 b7) \<longleftrightarrow>
     \<not> b7 \<and> b6 \<and> b5 \<and> (b0 \<or> b1 \<or> b2 \<or> b3 \<or> b4) \<and> \<not> (b4 \<and> b3 \<and> (b2 \<or> b1 \<and> b0))"
  by (cases b0; cases b1; cases b2; cases b3; cases b4; cases b5; cases b6; cases b7;
      simp add: is_lower_def)

lemma is_upper_code [code]:
  "is_upper (Char b0 b1 b2 b3 b4 b5 b6 b7) \<longleftrightarrow>
     \<not> b7 \<and> b6 \<and> \<not> b5 \<and> (b0 \<or> b1 \<or> b2 \<or> b3 \<or> b4) \<and> \<not> (b4 \<and> b3 \<and> (b2 \<or> b1 \<and> b0))"
  by (cases b0; cases b1; cases b2; cases b3; cases b4; cases b5; cases b6; cases b7;
      simp add: is_upper_def)

end
