(* ===== verification/Regex.thy ===== *)
theory Regex
  imports Prelude
begin

text \<open>
  The anchored regular expressions of the sources (\<open>/^...$/\<close> tested against a whole
  string), as data: each pattern of a component is the term that reads like its source text.
  \<open>re_match\<close> is an executable matcher by derivatives; \<open>re_match_iff\<close> shows that it decides
  the language \<open>lang\<close> that the pattern denotes, so the components reason about languages and
  the witnesses compute.
\<close>

datatype re =
    RZero
  | ROne
  | RCls "char \<Rightarrow> bool"
  | RSeq re re
  | RAlt re re
  | RStar re

inductive_set star_lang :: "string set \<Rightarrow> string set" for A where
  star_Nil: "[] \<in> star_lang A"
| star_step: "x \<in> A \<Longrightarrow> y \<in> star_lang A \<Longrightarrow> x @ y \<in> star_lang A"

fun lang :: "re \<Rightarrow> string set" where
  "lang RZero = {}"
| "lang ROne = {[]}"
| "lang (RCls P) = {[c] |c. P c}"
| "lang (RSeq r s) = {x @ y |x y. x \<in> lang r \<and> y \<in> lang s}"
| "lang (RAlt r s) = lang r \<union> lang s"
| "lang (RStar r) = star_lang (lang r)"

section \<open>The matcher\<close>

fun nullable :: "re \<Rightarrow> bool" where
  "nullable RZero = False"
| "nullable ROne = True"
| "nullable (RCls P) = False"
| "nullable (RSeq r s) = (nullable r \<and> nullable s)"
| "nullable (RAlt r s) = (nullable r \<or> nullable s)"
| "nullable (RStar r) = True"

fun mk_alt :: "re \<Rightarrow> re \<Rightarrow> re" where
  "mk_alt RZero s = s"
| "mk_alt r s = (case s of RZero \<Rightarrow> r | _ \<Rightarrow> RAlt r s)"

fun mk_seq :: "re \<Rightarrow> re \<Rightarrow> re" where
  "mk_seq RZero s = RZero"
| "mk_seq ROne s = s"
| "mk_seq r s = RSeq r s"

fun deriv :: "char \<Rightarrow> re \<Rightarrow> re" where
  "deriv c RZero = RZero"
| "deriv c ROne = RZero"
| "deriv c (RCls P) = (if P c then ROne else RZero)"
| "deriv c (RSeq r s) =
     (if nullable r then mk_alt (mk_seq (deriv c r) s) (deriv c s) else mk_seq (deriv c r) s)"
| "deriv c (RAlt r s) = mk_alt (deriv c r) (deriv c s)"
| "deriv c (RStar r) = mk_seq (deriv c r) (RStar r)"

fun is_zero :: "re \<Rightarrow> bool" where
  "is_zero RZero = True"
| "is_zero _ = False"

fun re_match :: "re \<Rightarrow> string \<Rightarrow> bool" where
  "re_match r [] = nullable r"
| "re_match r (c # s) = (let r' = deriv c r in if is_zero r' then False else re_match r' s)"

section \<open>Pattern vocabulary\<close>

fun re_str :: "string \<Rightarrow> re" where
  "re_str [] = ROne"
| "re_str [c] = RCls (\<lambda>x. x = c)"
| "re_str (c # d # s) = RSeq (RCls (\<lambda>x. x = c)) (re_str (d # s))"

fun re_alts :: "re list \<Rightarrow> re" where
  "re_alts [] = RZero"
| "re_alts [r] = r"
| "re_alts (r # s # rs) = RAlt r (re_alts (s # rs))"

definition re_words :: "string list \<Rightarrow> re" where
  "re_words ws = re_alts (map re_str ws)"

fun re_seqs :: "re list \<Rightarrow> re" where
  "re_seqs [] = ROne"
| "re_seqs [r] = r"
| "re_seqs (r # s # rs) = RSeq r (re_seqs (s # rs))"

definition re_opt :: "re \<Rightarrow> re" where
  "re_opt r = RAlt ROne r"

definition re_plus :: "re \<Rightarrow> re" where
  "re_plus r = RSeq r (RStar r)"

text \<open>\<open>r{m,n}\<close>: \<open>re_upto n r\<close> is up to \<open>n\<close> copies, \<open>re_rep m n r\<close> between \<open>m\<close> and \<open>n\<close>.\<close>

fun re_upto :: "nat \<Rightarrow> re \<Rightarrow> re" where
  "re_upto 0 r = ROne"
| "re_upto (Suc n) r = RAlt ROne (RSeq r (re_upto n r))"

fun re_times :: "nat \<Rightarrow> re \<Rightarrow> re" where
  "re_times 0 r = ROne"
| "re_times (Suc n) r = RSeq r (re_times n r)"

definition re_rep :: "nat \<Rightarrow> nat \<Rightarrow> re \<Rightarrow> re" where
  "re_rep m n r = RSeq (re_times m r) (re_upto (n - m) r)"

text \<open>
  The dot: any character but the four line terminators (LF, CR, U+2028, U+2029), over the
  bytes of UTF-8.
\<close>

definition byte_in :: "nat \<Rightarrow> nat \<Rightarrow> char \<Rightarrow> bool" where
  "byte_in lo hi c \<longleftrightarrow> lo \<le> (of_char c :: nat) \<and> (of_char c :: nat) \<le> hi"

definition re_cont :: re where
  "re_cont = RCls (byte_in 128 191)"

definition re_dot :: re where
  "re_dot = re_alts
     [RCls (\<lambda>c. byte_in 0 127 c \<and> of_char c \<noteq> (10 :: nat) \<and> of_char c \<noteq> (13 :: nat)),
      RSeq (RCls (byte_in 192 223)) re_cont,
      re_seqs [RCls (byte_in 224 225), re_cont, re_cont],
      re_seqs [RCls (byte_in 226 226), RCls (byte_in 129 191), re_cont],
      re_seqs [RCls (byte_in 226 226), RCls (byte_in 128 128),
        RCls (\<lambda>c. byte_in 128 191 c \<and> of_char c \<noteq> (168 :: nat) \<and> of_char c \<noteq> (169 :: nat))],
      re_seqs [RCls (byte_in 227 239), re_cont, re_cont],
      re_seqs [RCls (byte_in 240 247), re_cont, re_cont, re_cont]]"

section \<open>The matcher decides the language\<close>

lemma nullable_iff: "nullable r \<longleftrightarrow> [] \<in> lang r"
  by (induction r) (auto intro: star_lang.intros)

lemma lang_mk_alt [simp]: "lang (mk_alt r s) = lang r \<union> lang s"
  by (cases r; cases s) auto

lemma lang_mk_seq [simp]: "lang (mk_seq r s) = lang (RSeq r s)"
  by (cases r) auto

lemma star_lang_Cons:
  "c # s \<in> star_lang A \<Longrightarrow> \<exists>x y. s = x @ y \<and> c # x \<in> A \<and> y \<in> star_lang A"
proof (induction "c # s" arbitrary: c s rule: star_lang.induct)
  case (star_step x y)
  show ?case
  proof (cases x)
    case Nil
    with star_step show ?thesis by simp
  next
    case (Cons d x')
    with star_step show ?thesis by auto
  qed
qed

lemma lang_deriv: "lang (deriv c r) = {s. c # s \<in> lang r}"
proof (induction r)
  case (RSeq r s)
  show ?case
  proof (intro set_eqI iffI)
    fix x assume "x \<in> lang (deriv c (RSeq r s))"
    then consider a b where "x = a @ b" "c # a \<in> lang r" "b \<in> lang s"
      | "nullable r" "c # x \<in> lang s"
      using RSeq by (auto split: if_splits)
    then show "x \<in> {x. c # x \<in> lang (RSeq r s)}"
    proof cases
      case 1
      then have "c # x = (c # a) @ b" by simp
      with 1(2,3) show ?thesis unfolding lang.simps(4) by blast
    next
      case 2
      then have "c # x = [] @ (c # x)" "[] \<in> lang r" by (simp_all add: nullable_iff)
      with 2(2) show ?thesis unfolding lang.simps(4) by blast
    qed
  next
    fix x assume "x \<in> {x. c # x \<in> lang (RSeq r s)}"
    then obtain a b where "c # x = a @ b" "a \<in> lang r" "b \<in> lang s" by auto
    with RSeq show "x \<in> lang (deriv c (RSeq r s))"
      by (cases a) (auto simp: nullable_iff)
  qed
next
  case (RStar r)
  show ?case
  proof (intro set_eqI iffI)
    fix x assume "x \<in> lang (deriv c (RStar r))"
    then obtain a b where "x = a @ b" "c # a \<in> lang r" "b \<in> star_lang (lang r)"
      using RStar by auto
    then have "(c # a) @ b \<in> star_lang (lang r)" by (intro star_lang.star_step)
    with \<open>x = a @ b\<close> show "x \<in> {s. c # s \<in> lang (RStar r)}" by simp
  next
    fix x assume "x \<in> {s. c # s \<in> lang (RStar r)}"
    then show "x \<in> lang (deriv c (RStar r))"
      using RStar by (auto dest: star_lang_Cons)
  qed
qed auto

lemma is_zero_lang: "is_zero r \<Longrightarrow> lang r = {}"
  by (cases r) auto

lemma re_match_iff: "re_match r s \<longleftrightarrow> s \<in> lang r"
proof (induction s arbitrary: r)
  case Nil
  then show ?case by (simp add: nullable_iff)
next
  case (Cons c s)
  then show ?case
    using is_zero_lang [of "deriv c r"] by (auto simp: Let_def lang_deriv)
qed

section \<open>Languages of the vocabulary\<close>

lemma Nil_in_Seq_Cls [simp]: "[] \<notin> lang (RSeq (RCls P) r)"
  by simp

lemma Cons_in_Seq_Cls [simp]: "c # s \<in> lang (RSeq (RCls P) r) \<longleftrightarrow> P c \<and> s \<in> lang r"
proof
  assume "P c \<and> s \<in> lang r"
  then have "c # s = [c] @ s" "[c] \<in> lang (RCls P)" "s \<in> lang r" by auto
  then show "c # s \<in> lang (RSeq (RCls P) r)" unfolding lang.simps(4) by blast
qed auto

lemma in_Seq_iff:
  "s \<in> lang (RSeq r t) \<longleftrightarrow> (\<exists>i \<le> length s. take i s \<in> lang r \<and> drop i s \<in> lang t)"
proof
  assume "s \<in> lang (RSeq r t)"
  then obtain x y where "s = x @ y" "x \<in> lang r" "y \<in> lang t" by auto
  then show "\<exists>i \<le> length s. take i s \<in> lang r \<and> drop i s \<in> lang t"
    by (intro exI [of _ "length x"]) simp
next
  assume "\<exists>i \<le> length s. take i s \<in> lang r \<and> drop i s \<in> lang t"
  then show "s \<in> lang (RSeq r t)" by (auto intro: append_take_drop_id [symmetric])
qed

lemma lang_re_str [simp]: "lang (re_str s) = {s}"
  by (induction s rule: re_str.induct) auto

lemma lang_re_alts [simp]: "lang (re_alts rs) = (\<Union>r \<in> set rs. lang r)"
  by (induction rs rule: re_alts.induct) auto

lemma lang_re_words [simp]: "lang (re_words ws) = set ws"
  by (auto simp: re_words_def)

lemma lang_re_opt [simp]: "lang (re_opt r) = insert [] (lang r)"
  by (simp add: re_opt_def)

lemma star_lang_Cls: "star_lang {[c] |c. P c} = {s. \<forall>c \<in> set s. P c}"
proof (intro set_eqI iffI)
  fix s assume "s \<in> star_lang {[c] |c. P c}"
  then show "s \<in> {s. \<forall>c \<in> set s. P c}"
    by (induction rule: star_lang.induct) auto
next
  fix s assume "s \<in> {s. \<forall>c \<in> set s. P c}"
  then show "s \<in> star_lang {[c] |c. P c}"
  proof (induction s)
    case Nil
    then show ?case by (simp add: star_lang.star_Nil)
  next
    case (Cons c s)
    then have "[c] @ s \<in> star_lang {[c] |c. P c}"
      by (intro star_lang.star_step) auto
    then show ?case by simp
  qed
qed

lemma lang_star_Cls [simp]: "lang (RStar (RCls P)) = {s. \<forall>c \<in> set s. P c}"
  by (simp add: star_lang_Cls)

lemma lang_plus_Cls [simp]:
  "lang (re_plus (RCls P)) = {s. s \<noteq> [] \<and> (\<forall>c \<in> set s. P c)}"
proof (intro set_eqI)
  fix s
  show "s \<in> lang (re_plus (RCls P)) \<longleftrightarrow> s \<in> {s. s \<noteq> [] \<and> (\<forall>c \<in> set s. P c)}"
    unfolding re_plus_def
    by (cases s) (simp_all only: Nil_in_Seq_Cls Cons_in_Seq_Cls lang_star_Cls, auto)
qed

lemma re_match_plus_Cls: "re_match (re_plus (RCls P)) s \<longleftrightarrow> s \<noteq> [] \<and> list_all P s"
  by (simp add: re_match_iff list_all_iff)

lemma lang_times_Cls: "s \<in> lang (re_times n (RCls P)) \<longleftrightarrow> length s = n \<and> (\<forall>c \<in> set s. P c)"
proof (induction n arbitrary: s)
  case (Suc n)
  then show ?case
    by (cases s) (simp_all only: re_times.simps Nil_in_Seq_Cls Cons_in_Seq_Cls, auto)
qed auto

lemma lang_upto_Cls: "s \<in> lang (re_upto n (RCls P)) \<longleftrightarrow> length s \<le> n \<and> (\<forall>c \<in> set s. P c)"
proof (induction n arbitrary: s)
  case (Suc n)
  then show ?case
    by (cases s) (simp_all only: re_upto.simps lang.simps(5) Un_iff Nil_in_Seq_Cls Cons_in_Seq_Cls,
      auto)
qed auto

lemma lang_rep_Cls:
  assumes "m \<le> n"
  shows "s \<in> lang (re_rep m n (RCls P)) \<longleftrightarrow>
    m \<le> length s \<and> length s \<le> n \<and> (\<forall>c \<in> set s. P c)"
proof
  assume "s \<in> lang (re_rep m n (RCls P))"
  then obtain x y where "s = x @ y" "x \<in> lang (re_times m (RCls P))"
    "y \<in> lang (re_upto (n - m) (RCls P))"
    by (auto simp: re_rep_def)
  with assms show "m \<le> length s \<and> length s \<le> n \<and> (\<forall>c \<in> set s. P c)"
    by (auto simp: lang_times_Cls lang_upto_Cls)
next
  assume s: "m \<le> length s \<and> length s \<le> n \<and> (\<forall>c \<in> set s. P c)"
  then have "take m s \<in> lang (re_times m (RCls P))"
    "drop m s \<in> lang (re_upto (n - m) (RCls P))"
    by (auto simp: lang_times_Cls lang_upto_Cls dest: in_set_takeD in_set_dropD)
  with s show "s \<in> lang (re_rep m n (RCls P))"
    unfolding re_rep_def in_Seq_iff by blast
qed

lemma lang_seq_str:
  "s \<in> lang (RSeq (re_str p) r) \<longleftrightarrow> starts_with p s \<and> drop (length p) s \<in> lang r"
  by (auto simp: starts_with_iff)

end
