(* ===== verification/Text_Encoding.thy ===== *)
theory Text_Encoding
  imports Regex
begin

text \<open>
  The text functions of the language runtime that the sources call on decoded text:
  UTF-8 validity (\<open>TextDecoder\<close> in fatal mode), the UTF-16 code units that \<open>length\<close>,
  \<open>slice\<close> and \<open><\<close> count, \<open>trim\<close>, \<open>decodeURIComponent\<close>, and the base64 alphabet of
  \<open>atob\<close>.
\<close>

section \<open>UTF-8 and UTF-16\<close>

definition code :: "char \<Rightarrow> nat" where
  "code c = of_char c"

text \<open>Well-formed byte sequences (Unicode table 3-7): what a fatal decoder accepts.\<close>

fun utf8_valid :: "string \<Rightarrow> bool" where
  "utf8_valid [] = True"
| "utf8_valid (a # s) =
     (if code a < 128 then utf8_valid s
      else if byte_in 194 223 a then
        (case s of b # s' \<Rightarrow> byte_in 128 191 b \<and> utf8_valid s' | _ \<Rightarrow> False)
      else if byte_in 224 239 a then
        (case s of b # c # s' \<Rightarrow>
           byte_in (if code a = 224 then 160 else 128) (if code a = 237 then 159 else 191) b
           \<and> byte_in 128 191 c \<and> utf8_valid s'
         | _ \<Rightarrow> False)
      else if byte_in 240 244 a then
        (case s of b # c # d # s' \<Rightarrow>
           byte_in (if code a = 240 then 144 else 128) (if code a = 244 then 143 else 191) b
           \<and> byte_in 128 191 c \<and> byte_in 128 191 d \<and> utf8_valid s'
         | _ \<Rightarrow> False)
      else False)"

text \<open>
  The code units of a string. A four-byte sequence is a surrogate pair; a sequence cut short
  does not occur in decoded text and reads as its bytes.
\<close>

fun utf16_units :: "string \<Rightarrow> nat list" where
  "utf16_units [] = []"
| "utf16_units (a # s) =
     (if code a < 192 then code a # utf16_units s
      else if code a < 224 then
        (case s of b # s' \<Rightarrow> ((code a - 192) * 64 + code b mod 64) # utf16_units s'
         | [] \<Rightarrow> [code a])
      else if code a < 240 then
        (case s of b # c # s' \<Rightarrow>
           ((code a - 224) * 4096 + (code b mod 64) * 64 + code c mod 64) # utf16_units s'
         | _ \<Rightarrow> map code (a # s))
      else
        (case s of b # c # d # s' \<Rightarrow>
           (let p = (code a - 240) * 262144 + (code b mod 64) * 4096
                    + (code c mod 64) * 64 + code d mod 64 - 65536
            in (55296 + p div 1024) # (56320 + p mod 1024) # utf16_units s')
         | _ \<Rightarrow> map code (a # s)))"

definition enc3 :: "nat \<Rightarrow> string" where
  "enc3 u = [char_of (224 + u div 4096), char_of (128 + (u div 64) mod 64), char_of (128 + u mod 64)]"

fun utf8_of_units :: "nat list \<Rightarrow> string" where
  "utf8_of_units [] = []"
| "utf8_of_units (u # us) =
     (if u < 128 then char_of u # utf8_of_units us
      else if u < 2048 then
        char_of (192 + u div 64) # char_of (128 + u mod 64) # utf8_of_units us
      else (case us of v # vs \<Rightarrow>
          (if 55296 \<le> u \<and> u < 56320 \<and> 56320 \<le> v \<and> v < 57344 then
             (let p = 65536 + (u - 55296) * 1024 + (v - 56320)
              in char_of (240 + p div 262144) # char_of (128 + (p div 4096) mod 64)
                 # char_of (128 + (p div 64) mod 64) # char_of (128 + p mod 64)
                 # utf8_of_units vs)
           else enc3 u @ utf8_of_units us)
        | [] \<Rightarrow> enc3 u))"

definition js_length :: "string \<Rightarrow> nat" where
  "js_length s = length (utf16_units s)"

text \<open>\<open>s.slice(0, k)\<close>.\<close>

definition js_slice0 :: "nat \<Rightarrow> string \<Rightarrow> string" where
  "js_slice0 k s = utf8_of_units (take k (utf16_units s))"

fun units_less :: "nat list \<Rightarrow> nat list \<Rightarrow> bool" where
  "units_less _ [] = False"
| "units_less [] (v # vs) = True"
| "units_less (u # us) (v # vs) = (u < v \<or> u = v \<and> units_less us vs)"

definition js_less :: "string \<Rightarrow> string \<Rightarrow> bool" where
  "js_less a b = units_less (utf16_units a) (utf16_units b)"

section \<open>trim\<close>

text \<open>The white space and line terminators of the language, in UTF-8.\<close>

definition js_spaces :: "string list" where
  "js_spaces = map (map char_of)
     ([[9], [10], [11], [12], [13], [32], [194, 160], [225, 154, 128],
       [226, 128, 168], [226, 128, 169], [226, 128, 175], [226, 129, 159],
       [227, 128, 128], [239, 187, 191]] @ map (\<lambda>k. [226, 128, k]) [128 ..< 139 :: nat])"

definition strip_one :: "string list \<Rightarrow> string \<Rightarrow> string option" where
  "strip_one ws s = (case filter (\<lambda>w. starts_with w s) ws of
     [] \<Rightarrow> None | w # _ \<Rightarrow> Some (drop (length w) s))"

fun strip_fuel :: "nat \<Rightarrow> string list \<Rightarrow> string \<Rightarrow> string" where
  "strip_fuel 0 ws s = s"
| "strip_fuel (Suc n) ws s = (case strip_one ws s of None \<Rightarrow> s | Some s' \<Rightarrow> strip_fuel n ws s')"

definition strip_left :: "string list \<Rightarrow> string \<Rightarrow> string" where
  "strip_left ws s = strip_fuel (length s) ws s"

definition js_trim :: "string \<Rightarrow> string" where
  "js_trim s = rev (strip_left (map rev js_spaces) (rev (strip_left js_spaces s)))"

section \<open>decodeURIComponent\<close>

fun percent_decode :: "string \<Rightarrow> string option" where
  "percent_decode [] = Some []"
| "percent_decode (c # s) =
     (if c = CHR ''%'' then
        (case s of a # b # s' \<Rightarrow>
           (if is_hex a \<and> is_hex b
            then map_option ((#) (char_of (digit_value a * 16 + digit_value b))) (percent_decode s')
            else None)
         | _ \<Rightarrow> None)
      else map_option ((#) c) (percent_decode s))"

text \<open>
  On an ASCII argument (the request targets it is called on) a multi-byte sequence can only
  come from adjacent escapes, so the per-sequence check of the language is validity of the
  whole.
\<close>

definition decode_uri_component :: "string \<Rightarrow> string option" where
  "decode_uri_component s =
     (case percent_decode s of None \<Rightarrow> None | Some t \<Rightarrow> if utf8_valid t then Some t else None)"

text \<open>\<open>encodeURIComponent\<close> leaves letters, digits and eight marks; every other byte is escaped.\<close>

definition hex_upper :: "nat \<Rightarrow> char" where
  "hex_upper n = (if n < 10 then char_of (48 + n) else char_of (55 + n))"

definition uri_unreserved :: "char \<Rightarrow> bool" where
  "uri_unreserved c \<longleftrightarrow> is_alnum c \<or> c \<in> set ''-_.!~*'' \<or> c \<in> {CHR 0x27, CHR ''('', CHR '')''}"

definition encode_byte :: "char \<Rightarrow> string" where
  "encode_byte c = (if uri_unreserved c then [c]
     else [CHR ''%'', hex_upper (code c div 16), hex_upper (code c mod 16)])"

definition encode_uri_component :: "string \<Rightarrow> string" where
  "encode_uri_component s = concat (map encode_byte s)"

section \<open>Base64\<close>

definition b64_value :: "char \<Rightarrow> int option" where
  "b64_value c = (if is_upper c then Some ((of_char c :: int) - 65)
     else if is_lower c then Some ((of_char c :: int) - 71)
     else if is_digit c then Some ((of_char c :: int) + 4)
     else if c = CHR ''+'' then Some 62
     else if c = CHR ''/'' then Some 63 else None)"

text \<open>
  \<open>atob\<close> on text of the alphabet without padding (the callers strip it or add what it needs):
  groups of four characters are three bytes, a last group of three is two, of two is one, and
  a single last character is an error. Bits beyond the last whole byte are dropped.
\<close>

fun b64_decode :: "int list \<Rightarrow> string option" where
  "b64_decode [] = Some []"
| "b64_decode [a] = None"
| "b64_decode [a, b] = Some [char_of ((a * 4 + b div 16) mod 256)]"
| "b64_decode [a, b, c] =
     Some [char_of ((a * 4 + b div 16) mod 256), char_of ((b * 16 + c div 4) mod 256)]"
| "b64_decode (a # b # c # d # r) =
     map_option (\<lambda>t. char_of ((a * 4 + b div 16) mod 256) # char_of ((b * 16 + c div 4) mod 256)
       # char_of ((c * 64 + d) mod 256) # t) (b64_decode r)"

definition b64_char :: "nat \<Rightarrow> char" where
  "b64_char n = (if n < 26 then char_of (65 + n) else if n < 52 then char_of (71 + n)
     else if n < 62 then char_of (n - 4) else if n = 62 then CHR ''-'' else CHR ''_'')"

text \<open>\<open>btoa\<close> in the URL alphabet without padding.\<close>

fun b64url_encode :: "nat list \<Rightarrow> string" where
  "b64url_encode [] = []"
| "b64url_encode [a] = [b64_char (a div 4), b64_char ((a mod 4) * 16)]"
| "b64url_encode [a, b] =
     [b64_char (a div 4), b64_char ((a mod 4) * 16 + b div 16), b64_char ((b mod 16) * 4)]"
| "b64url_encode (a # b # c # r) =
     b64_char (a div 4) # b64_char ((a mod 4) * 16 + b div 16)
       # b64_char ((b mod 16) * 4 + c div 64) # b64_char (c mod 64) # b64url_encode r"

section \<open>Laws\<close>

lemma code_less: "code c < 256"
  by (simp add: code_def)

lemma char_of_code [simp]: "char_of (code c) = c"
  by (simp add: code_def)

lemma code_char_of [simp]: "n < 256 \<Longrightarrow> code (char_of n) = n"
  by (simp add: code_def)

lemma byte_in_code: "byte_in lo hi c \<longleftrightarrow> lo \<le> code c \<and> code c \<le> hi"
  by (simp add: byte_in_def code_def)

text \<open>On ASCII text the units are the bytes, and slicing is taking.\<close>

lemma utf16_units_ascii: "\<forall>c \<in> set s. code c < 128 \<Longrightarrow> utf16_units s = map code s"
  by (induction s) auto

lemma utf8_of_units_ascii: "\<forall>u \<in> set us. u < 128 \<Longrightarrow> utf8_of_units us = map char_of us"
  by (induction us) auto

lemma js_slice0_ascii: "\<forall>c \<in> set s. code c < 128 \<Longrightarrow> js_slice0 k s = take k s"
proof -
  assume s: "\<forall>c \<in> set s. code c < 128"
  then have "\<forall>u \<in> set (take k (map code s)). u < 128"
    by (auto simp: take_map dest: in_set_takeD)
  with s show ?thesis
    by (simp add: js_slice0_def utf16_units_ascii utf8_of_units_ascii take_map comp_def)
qed

lemma js_length_ascii: "\<forall>c \<in> set s. code c < 128 \<Longrightarrow> js_length s = length s"
  by (simp add: js_length_def utf16_units_ascii)

lemma utf8_valid_ascii: "\<forall>c \<in> set s. code c < 128 \<Longrightarrow> utf8_valid s"
  by (induction s) auto

lemma percent_decode_plain: "CHR ''%'' \<notin> set s \<Longrightarrow> percent_decode s = Some s"
  by (induction s) auto

lemma decode_uri_component_plain:
  "CHR ''%'' \<notin> set s \<Longrightarrow> \<forall>c \<in> set s. code c < 128 \<Longrightarrow> decode_uri_component s = Some s"
  by (simp add: decode_uri_component_def percent_decode_plain utf8_valid_ascii)

text \<open>Escaping a byte and decoding it gives the byte back.\<close>

lemma hex_digit: "n < 16 \<Longrightarrow> is_hex (hex_upper n) \<and> digit_value (hex_upper n) = n"
proof -
  have "list_all (\<lambda>n. is_hex (hex_upper n) \<and> digit_value (hex_upper n) = n) [0..<16]"
    by code_simp
  then show "n < 16 \<Longrightarrow> is_hex (hex_upper n) \<and> digit_value (hex_upper n) = n"
    by (simp add: list_all_iff)
qed

lemma percent_decode_encode_byte:
  "percent_decode (encode_byte c @ s) = map_option ((#) c) (percent_decode s)"
proof (cases "uri_unreserved c")
  case True
  then have "c \<noteq> CHR ''%''"
    by (auto simp: uri_unreserved_def is_alnum_def is_digit_def is_lower_def is_upper_def)
  with True show ?thesis by (simp add: encode_byte_def)
next
  case False
  have "code c div 16 < 16" "code c mod 16 < 16"
    using code_less [of c] by auto
  moreover have "code c div 16 * 16 + code c mod 16 = code c"
    by simp
  ultimately show ?thesis
    using False by (simp add: encode_byte_def hex_digit)
qed

lemma percent_decode_encode: "percent_decode (encode_uri_component s) = Some s"
  by (induction s) (simp_all add: encode_uri_component_def percent_decode_encode_byte)

lemma decode_encode_uri_component:
  "utf8_valid s \<Longrightarrow> decode_uri_component (encode_uri_component s) = Some s"
  by (simp add: decode_uri_component_def percent_decode_encode)

subsection \<open>Evaluation on character bits\<close>

fun ascii_char :: "char \<Rightarrow> bool" where
  "ascii_char (Char b0 b1 b2 b3 b4 b5 b6 b7) = (\<not> b7)"

fun control_char :: "char \<Rightarrow> bool" where
  "control_char (Char b0 b1 b2 b3 b4 b5 b6 b7) = (\<not> b5 \<and> \<not> b6 \<and> \<not> b7)"

lemma code_less_128 [code_unfold]: "code c < 128 \<longleftrightarrow> ascii_char c"
proof (cases c)
  case (Char b0 b1 b2 b3 b4 b5 b6 b7)
  then show ?thesis
    by (cases b0; cases b1; cases b2; cases b3; cases b4; cases b5; cases b6; cases b7;
        simp add: code_def)
qed

lemma code_less_32 [code_unfold]: "code c < 32 \<longleftrightarrow> control_char c"
proof (cases c)
  case (Char b0 b1 b2 b3 b4 b5 b6 b7)
  then show ?thesis
    by (cases b0; cases b1; cases b2; cases b3; cases b4; cases b5; cases b6; cases b7;
        simp add: code_def)
qed

lemma js_length_code [code]:
  "js_length s = (if list_all ascii_char s then length s else length (utf16_units s))"
  using js_length_ascii [of s] by (simp add: js_length_def list_all_iff code_less_128)

section \<open>Decoding with replacement\<close>

text \<open>
  \<open>new TextDecoder().decode\<close>: every maximal ill-formed part becomes U+FFFD, and a leading
  byte order mark is dropped (\<open>text_decode\<close>).
\<close>

definition REPLACEMENT :: string where
  "REPLACEMENT = map char_of [239, 191, 189 :: nat]"

definition byte_order_mark :: string where
  "byte_order_mark = map char_of [239, 187, 191 :: nat]"

fun utf8_lossy :: "string \<Rightarrow> string" where
  "utf8_lossy [] = []"
| "utf8_lossy (a # s) =
     (if code a < 128 then a # utf8_lossy s
      else if byte_in 194 223 a then
        (case s of b # s' \<Rightarrow> if byte_in 128 191 b then a # b # utf8_lossy s'
             else REPLACEMENT @ utf8_lossy s
         | [] \<Rightarrow> REPLACEMENT)
      else if byte_in 224 239 a then
        (case s of b # s' \<Rightarrow>
           if byte_in (if code a = 224 then 160 else 128) (if code a = 237 then 159 else 191) b
           then (case s' of c # s'' \<Rightarrow> if byte_in 128 191 c then a # b # c # utf8_lossy s''
                   else REPLACEMENT @ utf8_lossy s'
                 | [] \<Rightarrow> REPLACEMENT)
           else REPLACEMENT @ utf8_lossy s
         | [] \<Rightarrow> REPLACEMENT)
      else if byte_in 240 244 a then
        (case s of b # s' \<Rightarrow>
           if byte_in (if code a = 240 then 144 else 128) (if code a = 244 then 143 else 191) b
           then (case s' of c # s'' \<Rightarrow>
                   if byte_in 128 191 c
                   then (case s'' of d # s3 \<Rightarrow>
                           if byte_in 128 191 d then a # b # c # d # utf8_lossy s3
                           else REPLACEMENT @ utf8_lossy s''
                         | [] \<Rightarrow> REPLACEMENT)
                   else REPLACEMENT @ utf8_lossy s'
                 | [] \<Rightarrow> REPLACEMENT)
           else REPLACEMENT @ utf8_lossy s
         | [] \<Rightarrow> REPLACEMENT)
      else REPLACEMENT @ utf8_lossy s)"

definition text_decode :: "string \<Rightarrow> string" where
  "text_decode s = utf8_lossy (if starts_with byte_order_mark s then drop 3 s else s)"

lemma utf8_lossy_valid: "utf8_valid s \<Longrightarrow> utf8_lossy s = s"
proof (induction s rule: utf8_valid.induct)
  case (2 a s)
  consider "code a < 128" | "\<not> code a < 128" "byte_in 194 223 a"
    | "\<not> code a < 128" "\<not> byte_in 194 223 a" "byte_in 224 239 a"
    | "\<not> code a < 128" "\<not> byte_in 194 223 a" "\<not> byte_in 224 239 a" "byte_in 240 244 a"
    | "\<not> code a < 128" "\<not> byte_in 194 223 a" "\<not> byte_in 224 239 a" "\<not> byte_in 240 244 a"
    by blast
  then show ?case
  proof cases
    case 2
    then show ?thesis using "2.IH" "2.prems" by (cases s) simp_all
  next
    case 3
    then obtain b c s' where "s = b # c # s'"
      using "2.prems" by (simp split: list.splits)
    then show ?thesis using 3 "2.IH" "2.prems" by simp
  next
    case 4
    then obtain b c d s' where "s = b # c # d # s'"
      using "2.prems" by (simp split: list.splits)
    then show ?thesis using 4 "2.IH" "2.prems" by simp
  qed (use "2.IH" "2.prems" in simp_all)
qed simp

section \<open>toUpperCase\<close>

text \<open>
  Upper-casing for a comparison with ASCII names: ASCII letters, and the ten other characters
  whose upper-case form is ASCII (sharp s, dotless i, long s and the Latin ligatures). Every
  other character maps outside ASCII and is left as it is.
\<close>

definition special_upper :: "(string \<times> string) list" where
  "special_upper =
     [(map char_of [195, 159 :: nat], ''SS''), (map char_of [196, 177 :: nat], ''I''),
      (map char_of [197, 191 :: nat], ''S''), (map char_of [239, 172, 128 :: nat], ''FF''),
      (map char_of [239, 172, 129 :: nat], ''FI''), (map char_of [239, 172, 130 :: nat], ''FL''),
      (map char_of [239, 172, 131 :: nat], ''FFI''), (map char_of [239, 172, 132 :: nat], ''FFL''),
      (map char_of [239, 172, 133 :: nat], ''ST''), (map char_of [239, 172, 134 :: nat], ''ST'')]"

fun js_upper :: "string \<Rightarrow> string" where
  "js_upper [] = []"
| "js_upper [a] = [to_upper_char a]"
| "js_upper [a, b] = (case map_of special_upper [a, b] of
     Some u \<Rightarrow> u | None \<Rightarrow> to_upper_char a # js_upper [b])"
| "js_upper (a # b # c # s) = (case map_of special_upper [a, b] of
     Some u \<Rightarrow> u @ js_upper (c # s)
   | None \<Rightarrow> (case map_of special_upper [a, b, c] of
       Some u \<Rightarrow> u @ js_upper s
     | None \<Rightarrow> to_upper_char a # js_upper (b # c # s)))"

section \<open>URLSearchParams\<close>

text \<open>A \<open>%\<close> that two hex digits do not follow stands for itself.\<close>

fun percent_lenient :: "string \<Rightarrow> string" where
  "percent_lenient [] = []"
| "percent_lenient (c # s) =
     (if c = CHR ''%'' then
        (case s of h # l # s' \<Rightarrow>
           if is_hex h \<and> is_hex l
           then char_of (digit_value h * 16 + digit_value l) # percent_lenient s'
           else c # percent_lenient s
         | _ \<Rightarrow> c # percent_lenient s)
      else c # percent_lenient s)"

definition form_decode :: "string \<Rightarrow> string" where
  "form_decode s = utf8_lossy (percent_lenient (map (\<lambda>c. if c = CHR ''+'' then CHR '' '' else c) s))"

type_synonym query = "(string \<times> string) list"

text \<open>\<open>new URLSearchParams(raw)\<close>: a leading question mark is dropped, empty parts are skipped.\<close>

definition search_params :: "string \<Rightarrow> query" where
  "search_params raw = map (\<lambda>part. (case index_of (CHR ''='') part of
       None \<Rightarrow> (form_decode part, [])
     | Some i \<Rightarrow> (form_decode (take i part), form_decode (drop (Suc i) part))))
     (filter (\<lambda>part. part \<noteq> [])
       (split_on (CHR ''&'') (if starts_with ''?'' raw then drop 1 raw else raw)))"

definition query_get :: "query \<Rightarrow> string \<Rightarrow> string option" where
  "query_get q k = map_of q k"

end
