(* ===== verification/Gate_Http.thy ===== *)
theory Gate_Http
  imports Text_Encoding
begin

text \<open>
  Message heads and body framing of the Docker gate
  (\<open>orchestration/roles/docker-gate/files/http.ts\<close>): the strict request and response head
  parsers, the header lookups, and the rules that say how a body is delimited. Bytes are
  characters (\<open>latin1\<close> reads them one to one). An \<open>HttpError\<close> is a status and a message.
\<close>

datatype http_error = HttpError (err_status: nat) (err_message: string)

type_synonym header = "string \<times> string"

record request_head =
  req_method :: string
  req_target :: string
  req_version :: string
  req_headers :: "header list"
  req_raw :: string

record response_head =
  resp_version :: string
  resp_status :: nat
  resp_headers :: "header list"
  resp_raw :: string

datatype framing = FNone | FLength nat | FChunked | FEof

section \<open>Heads\<close>

definition re_token_char :: "char \<Rightarrow> bool" where
  "re_token_char c \<longleftrightarrow> is_alnum c \<or> c \<in> set ''!#$%&*+.^_|~-'' \<or> c = CHR 0x27 \<or> c = CHR 0x60"

definition TOKEN :: re where
  "TOKEN = re_plus (RCls re_token_char)"

definition METHOD :: re where
  "METHOD = re_plus (RCls is_upper)"

definition TARGET :: re where
  "TARGET = RSeq (re_str ''/'') (RStar (RCls (\<lambda>c. byte_in 33 34 c \<or> byte_in 36 126 c)))"

definition VERSION :: re where
  "VERSION = RSeq (re_str ''HTTP/1.'') (RCls (\<lambda>c. c = CHR ''0'' \<or> c = CHR ''1''))"

text \<open>\<open>text.split("\\r\\n")\<close>: a two-character separator.\<close>

fun split_crlf :: "string \<Rightarrow> string list" where
  "split_crlf [] = [[]]"
| "split_crlf [c] = [[c]]"
| "split_crlf (a # b # s) =
     (if a = CHR 0x0D \<and> b = CHR 0x0A then [] # split_crlf s
      else (case split_crlf (b # s) of [] \<Rightarrow> [[a]] | y # ys \<Rightarrow> (a # y) # ys))"

definition splitHeadLines :: "string \<Rightarrow> (http_error, string list) result" where
  "splitHeadLines raw =
     (let text = take (length raw - 4) raw; lines = split_crlf text
      in if CHR 0x00 \<in> set text then Inl (HttpError 400 ''NUL in message head'')
         else if list_ex (\<lambda>l. CHR 0x0A \<in> set l \<or> CHR 0x0D \<in> set l) lines
         then Inl (HttpError 400 ''bare CR or LF in message head'')
         else Inr lines)"

definition isOws :: "char \<Rightarrow> bool" where
  "isOws c \<longleftrightarrow> c = CHR '' '' \<or> c = CHR 0x09"

definition trimOws :: "string \<Rightarrow> string" where
  "trimOws s = rev (dropWhile isOws (rev (dropWhile isOws s)))"

definition parseHeaderLine :: "string \<Rightarrow> (http_error, header) result" where
  "parseHeaderLine line =
     (if starts_with '' '' line \<or> starts_with [CHR 0x09] line
      then Inl (HttpError 400 ''obsolete header folding'')
      else case index_of (CHR '':'') line of
          None \<Rightarrow> Inl (HttpError 400 ''malformed header line'')
        | Some colon \<Rightarrow>
          if colon = 0 then Inl (HttpError 400 ''malformed header line'')
          else if \<not> re_match TOKEN (take colon line)
          then Inl (HttpError 400 ''invalid header name'')
          else Inr (take colon line, trimOws (drop (Suc colon) line)))"

definition parseHeaders :: "string list \<Rightarrow> (http_error, header list) result" where
  "parseHeaders = rmap_list parseHeaderLine"

definition parseRequestHead :: "string \<Rightarrow> (http_error, request_head) result" where
  "parseRequestHead raw = rbind (splitHeadLines raw) (\<lambda>lines.
     (case split_on (CHR '' '') (hd lines) of
        [method, target, version] \<Rightarrow>
          if \<not> re_match METHOD method then Inl (HttpError 400 ''invalid method'')
          else if \<not> re_match TARGET target then Inl (HttpError 400 ''invalid request target'')
          else if \<not> re_match VERSION version
          then Inl (HttpError 505 ''only HTTP/1.0 and HTTP/1.1 are supported'')
          else rbind (parseHeaders (tl lines)) (\<lambda>headers.
            Inr \<lparr>req_method = method, req_target = target, req_version = version,
                 req_headers = headers, req_raw = raw\<rparr>)
      | _ \<Rightarrow> Inl (HttpError 400 ''malformed request line'')))"

text \<open>
  The status line \<open>/^(HTTP\\/1\\.[01]) (\\d{3})(?: .*)?$/\<close>: eight characters of version, a
  space, three digits, then nothing or a space and text with no line terminator (the lines
  hold no CR or LF and, read one character per byte, no other one).
\<close>

definition parseResponseHead :: "string \<Rightarrow> (http_error, response_head) result" where
  "parseResponseHead raw = rbind (splitHeadLines raw) (\<lambda>lines.
     let l = hd lines; ver = take 8 l; st = take 3 (drop 9 l); more = drop 12 l
     in if re_match VERSION ver \<and> take 1 (drop 8 l) = '' '' \<and> length st = 3
          \<and> list_all is_digit st \<and> (more = [] \<or> starts_with '' '' more)
        then rbind (parseHeaders (tl lines)) (\<lambda>headers.
          Inr \<lparr>resp_version = ver, resp_status = nat_of_digits 10 st,
               resp_headers = headers, resp_raw = raw\<rparr>)
        else Inl (HttpError 502 ''malformed status line''))"

section \<open>Header lookups\<close>

definition headerTokens :: "header list \<Rightarrow> string \<Rightarrow> string list" where
  "headerTokens headers name =
     concat (map (\<lambda>(key, value).
       if to_lower key \<noteq> to_lower name then []
       else filter (\<lambda>t. t \<noteq> []) (map (\<lambda>p. to_lower (trimOws p)) (split_on (CHR '','') value)))
     headers)"

definition headerValue :: "header list \<Rightarrow> string \<Rightarrow> string option" where
  "headerValue headers name =
     map_option snd (find (\<lambda>(key, _). to_lower key = to_lower name) headers)"

definition countHeader :: "header list \<Rightarrow> string \<Rightarrow> nat" where
  "countHeader headers name = length (filter (\<lambda>(key, _). to_lower key = to_lower name) headers)"

section \<open>Framing\<close>

definition parseContentLength :: "header list \<Rightarrow> (http_error, nat option) result" where
  "parseContentLength headers =
     (case headerTokens headers ''content-length'' of
        [] \<Rightarrow> Inr None
      | [v] \<Rightarrow>
        if countHeader headers ''content-length'' \<noteq> 1
        then Inl (HttpError 400 ''repeated Content-Length'')
        else if \<not> re_match (re_rep 1 15 (RCls is_digit)) v
        then Inl (HttpError 400 ''invalid Content-Length'')
        else Inr (Some (nat_of_digits 10 v))
      | _ \<Rightarrow> Inl (HttpError 400 ''repeated Content-Length''))"

text \<open>\<open>Inr True\<close> is \<open>"chunked"\<close>, \<open>Inr False\<close> is \<open>undefined\<close>.\<close>

definition transferCoding :: "header list \<Rightarrow> (http_error, bool) result" where
  "transferCoding headers =
     (case headerTokens headers ''transfer-encoding'' of
        [] \<Rightarrow> Inr False
      | [v] \<Rightarrow> if v = ''chunked'' then Inr True
               else Inl (HttpError 400 ''unsupported Transfer-Encoding'')
      | _ \<Rightarrow> Inl (HttpError 400 ''unsupported Transfer-Encoding''))"

definition sharedFraming :: "header list \<Rightarrow> (http_error, framing option) result" where
  "sharedFraming headers =
     rbind (transferCoding headers) (\<lambda>coding.
     rbind (parseContentLength headers) (\<lambda>len.
       if coding \<and> len \<noteq> None
       then Inl (HttpError 400 ''both Content-Length and Transfer-Encoding'')
       else if coding then Inr (Some FChunked)
       else Inr (map_option FLength len)))"

definition requestFraming :: "request_head \<Rightarrow> (http_error, framing) result" where
  "requestFraming head =
     (if req_version head = ''HTTP/1.0'' \<and> headerTokens (req_headers head) ''transfer-encoding'' \<noteq> []
      then Inl (HttpError 400 ''Transfer-Encoding on an HTTP/1.0 request'')
      else rbind (sharedFraming (req_headers head)) (\<lambda>f.
        Inr (case f of None \<Rightarrow> FNone | Some g \<Rightarrow> g)))"

definition FORM_CONTENT_TYPE :: string where
  "FORM_CONTENT_TYPE = ''application/x-www-form-urlencoded''"

definition carriesFormBody :: "request_head \<Rightarrow> framing \<Rightarrow> bool" where
  "carriesFormBody head framing =
     (if framing = FNone then False
      else if framing = FLength 0 then False
      else list_ex (\<lambda>(name, value). to_lower name = ''content-type''
             \<and> starts_with FORM_CONTENT_TYPE (to_lower (trimOws value))) (req_headers head))"

definition responseFraming :: "string \<Rightarrow> response_head \<Rightarrow> (http_error, framing) result" where
  "responseFraming method head =
     (if method = ''HEAD'' \<or> resp_status head = 204 \<or> resp_status head = 304 \<or> resp_status head < 200
      then Inr FNone
      else rbind (sharedFraming (resp_headers head)) (\<lambda>f.
        Inr (case f of None \<Rightarrow> FEof | Some g \<Rightarrow> g)))"

definition wantsClose :: "header list \<Rightarrow> string \<Rightarrow> bool" where
  "wantsClose headers version =
     (let tokens = headerTokens headers ''connection''
      in if ''close'' \<in> set tokens then True
         else version = ''HTTP/1.0'' \<and> ''keep-alive'' \<notin> set tokens)"

definition parseChunkSize :: "string \<Rightarrow> (http_error, nat) result" where
  "parseChunkSize line =
     (let size = trimOws (hd (split_on (CHR '';'') (take (length line - 2) line)))
      in if re_match (re_rep 1 15 (RCls is_hex)) size then Inr (nat_of_digits 16 size)
         else Inl (HttpError 400 ''invalid chunk size''))"

section \<open>The canned error response\<close>

definition STATUS_TEXT :: "nat \<Rightarrow> string option" where
  "STATUS_TEXT = map_of
     [(400, ''Bad Request''), (403, ''Forbidden''), (413, ''Content Too Large''),
      (417, ''Expectation Failed''), (431, ''Request Header Fields Too Large''),
      (502, ''Bad Gateway''), (505, ''HTTP Version Not Supported'')]"

text \<open>
  \<open>JSON.stringify\<close> of a string: quotes, backslashes and control characters are escaped; text
  decoded from UTF-8 holds no lone surrogate.
\<close>

definition hex_lower :: "nat \<Rightarrow> char" where
  "hex_lower n = (if n < 10 then char_of (48 + n) else char_of (87 + n))"

definition quote_char :: "char \<Rightarrow> string" where
  "quote_char c =
     (if c = CHR 0x22 then [CHR 0x5C, CHR 0x22]
      else if c = CHR 0x5C then [CHR 0x5C, CHR 0x5C]
      else if code c = 8 then [CHR 0x5C, CHR ''b'']
      else if code c = 9 then [CHR 0x5C, CHR ''t'']
      else if code c = 10 then [CHR 0x5C, CHR ''n'']
      else if code c = 12 then [CHR 0x5C, CHR ''f'']
      else if code c = 13 then [CHR 0x5C, CHR ''r'']
      else if code c < 32
      then CHR 0x5C # ''u00'' @ [hex_lower (code c div 16), hex_lower (code c mod 16)]
      else [c])"

definition json_quote :: "string \<Rightarrow> string" where
  "json_quote s = CHR 0x22 # concat (map quote_char s) @ [CHR 0x22]"

definition crlf :: string where
  "crlf = [CHR 0x0D, CHR 0x0A]"

definition errorResponse :: "nat \<Rightarrow> string \<Rightarrow> string" where
  "errorResponse status message =
     (let body = CHR ''{'' # json_quote ''message'' @ '':'' @ json_quote message @ ''}'';
          reason = (case STATUS_TEXT status of None \<Rightarrow> ''Error'' | Some r \<Rightarrow> r)
      in ''HTTP/1.1 '' @ digits_of_nat status @ '' '' @ reason @ crlf
         @ ''Content-Type: application/json'' @ crlf
         @ ''Content-Length: '' @ digits_of_nat (length body) @ crlf
         @ ''Connection: close'' @ crlf @ crlf @ body)"

end
