(* ===== verification/Gate_Http_Laws.thy ===== *)
theory Gate_Http_Laws
  imports Gate_Http
begin

text \<open>
  What the head parser and the framing rules of \<open>Gate_Http\<close> guarantee: an accepted request
  line has one reading, an accepted body has exactly one delimiter rule, and the error page
  the gate writes is well framed by the gate's own parser.
\<close>

section \<open>Header lists\<close>

lemma headerTokens_Nil [simp]: "headerTokens [] n = []"
  by (simp add: headerTokens_def)

lemma headerTokens_nonempty: "t \<in> set (headerTokens hs n) \<Longrightarrow> t \<noteq> []"
  by (auto simp: headerTokens_def split: if_splits)

lemma countHeader_0: "countHeader hs n = 0 \<Longrightarrow> headerTokens hs n = []"
  by (auto simp: countHeader_def headerTokens_def filter_empty_conv)

section \<open>Framing\<close>

lemma nat_of_digits_bound:
  "\<forall>c \<in> set s. digit_value c < b \<Longrightarrow> nat_of_digits b s < b ^ length s \<or> s = [] \<and> b = 0"
proof (induction s rule: rev_induct)
  case Nil
  then show ?case by (auto simp: nat_of_digits_def)
next
  case (snoc c s)
  then have "digit_value c < b" and IH: "nat_of_digits b s < b ^ length s" by auto
  then have "nat_of_digits b s * b + digit_value c < nat_of_digits b s * b + b" by simp
  also have "\<dots> = (nat_of_digits b s + 1) * b" by simp
  also have "\<dots> \<le> b ^ length s * b"
    using IH by (intro mult_le_mono1) simp
  finally show ?case by (simp add: nat_of_digits_def mult.commute)
qed

lemma digit_value_digit: "is_digit c \<Longrightarrow> digit_value c < 10"
  by (auto simp: digit_value_def is_digit_def)

lemma digit_value_hex: "is_hex c \<Longrightarrow> digit_value c < 16"
  by (auto simp: digit_value_def is_hex_def is_digit_def is_lower_def)

lemma parseContentLength_Some:
  assumes "parseContentLength hs = Inr (Some n)"
  shows "\<exists>v. headerTokens hs ''content-length'' = [v] \<and> countHeader hs ''content-length'' = 1
    \<and> n = nat_of_digits 10 v \<and> n < 10 ^ 15"
proof -
  from assms obtain v where v: "headerTokens hs ''content-length'' = [v]"
    "countHeader hs ''content-length'' = 1" "n = nat_of_digits 10 v"
    "re_match (re_rep 1 15 (RCls is_digit)) v"
    by (auto simp: parseContentLength_def split: list.splits if_splits)
  from v(4) have d: "length v \<le> 15" "\<forall>c \<in> set v. digit_value c < 10" "v \<noteq> []"
    by (auto simp: re_match_iff lang_rep_Cls digit_value_digit)
  then have "n < 10 ^ length v" using nat_of_digits_bound [of v 10] v(3) by auto
  also have "(10::nat) ^ length v \<le> 10 ^ 15" using d(1) by (intro power_increasing) auto
  finally show ?thesis using v by blast
qed

lemma parseContentLength_None:
  "parseContentLength hs = Inr None \<longleftrightarrow> headerTokens hs ''content-length'' = []"
  by (auto simp: parseContentLength_def split: list.splits if_splits)

lemma transferCoding_iff:
  "transferCoding hs = Inr b \<longleftrightarrow>
     (if b then headerTokens hs ''transfer-encoding'' = [''chunked'']
      else headerTokens hs ''transfer-encoding'' = [])"
  by (auto simp: transferCoding_def split: list.splits if_splits)

lemma sharedFraming_Some:
  "sharedFraming hs = Inr (Some f) \<longleftrightarrow>
     (f = FChunked \<and> transferCoding hs = Inr True \<and> parseContentLength hs = Inr None)
     \<or> (\<exists>n. f = FLength n \<and> transferCoding hs = Inr False \<and> parseContentLength hs = Inr (Some n))"
  by (auto simp: sharedFraming_def rbind_Inr_iff split: if_splits)

lemma sharedFraming_None:
  "sharedFraming hs = Inr None \<longleftrightarrow> transferCoding hs = Inr False \<and> parseContentLength hs = Inr None"
  by (auto simp: sharedFraming_def rbind_Inr_iff split: if_splits)

section \<open>Properties\<close>

text \<open>C39: an accepted request has exactly one body delimiter, and it is the one an engine that
  follows RFC 9112 would use: chunked means the only transfer coding and no length header; a
  length means one length header, one value below ten to the fifteenth, and no transfer
  coding; no body means neither. A request that offers both, repeats a length, or sends a
  coding on HTTP/1.0 is refused, so no request can be read two ways.\<close>

theorem requestFraming_unambiguous:
  assumes "requestFraming head = Inr f"
  shows "case f of
      FChunked \<Rightarrow> req_version head \<noteq> ''HTTP/1.0''
        \<and> headerTokens (req_headers head) ''transfer-encoding'' = [''chunked'']
        \<and> headerTokens (req_headers head) ''content-length'' = []
    | FLength n \<Rightarrow> n < 10 ^ 15
        \<and> headerTokens (req_headers head) ''transfer-encoding'' = []
        \<and> countHeader (req_headers head) ''content-length'' = 1
        \<and> (\<exists>v. headerTokens (req_headers head) ''content-length'' = [v] \<and> n = nat_of_digits 10 v)
    | FNone \<Rightarrow> headerTokens (req_headers head) ''transfer-encoding'' = []
        \<and> headerTokens (req_headers head) ''content-length'' = []
    | FEof \<Rightarrow> False"
proof -
  from assms obtain g where g: "sharedFraming (req_headers head) = Inr g"
    "f = (case g of None \<Rightarrow> FNone | Some h \<Rightarrow> h)"
    "req_version head = ''HTTP/1.0'' \<longrightarrow> headerTokens (req_headers head) ''transfer-encoding'' = []"
    by (auto simp: requestFraming_def rbind_Inr_iff split: if_splits)
  show ?thesis
  proof (cases g)
    case None
    with g show ?thesis
      by (simp add: sharedFraming_None transferCoding_iff parseContentLength_None)
  next
    case (Some h)
    with g have "(f = FChunked \<and> transferCoding (req_headers head) = Inr True
          \<and> parseContentLength (req_headers head) = Inr None)
        \<or> (\<exists>n. f = FLength n \<and> transferCoding (req_headers head) = Inr False
          \<and> parseContentLength (req_headers head) = Inr (Some n))"
      by (simp add: sharedFraming_Some)
    with g(3) show ?thesis
      by (auto simp: transferCoding_iff parseContentLength_None dest!: parseContentLength_Some)
  qed
qed

theorem requestFraming_unambiguous_witness:
  "requestFraming \<lparr>req_method = ''POST'', req_target = ''/containers/create'', req_version = ''HTTP/1.1'',
      req_headers = [(''Host'', ''docker''), (''Content-Length'', ''42'')], req_raw = ''''\<rparr> = Inr (FLength 42)
   \<and> (42::nat) < 10 ^ 15"
proof -
  have e: "requestFraming \<lparr>req_method = ''POST'', req_target = ''/containers/create'',
      req_version = ''HTTP/1.1'', req_headers = [(''Host'', ''docker''), (''Content-Length'', ''42'')],
      req_raw = ''''\<rparr> = Inr (FLength 42)"
    by code_simp
  from requestFraming_unambiguous [OF e] e show ?thesis by simp
qed

text \<open>The parts of an accepted head.\<close>

lemma parseRequestHead_parts:
  assumes "parseRequestHead raw = Inr head"
  obtains lines m tg v hs where "splitHeadLines raw = Inr lines"
    "split_on (CHR '' '') (hd lines) = [m, tg, v]"
    "re_match METHOD m" "re_match TARGET tg" "re_match VERSION v" "parseHeaders (tl lines) = Inr hs"
    "head = \<lparr>req_method = m, req_target = tg, req_version = v, req_headers = hs, req_raw = raw\<rparr>"
proof -
  from assms obtain lines where lines: "splitHeadLines raw = Inr lines"
    "(case split_on (CHR '' '') (hd lines) of
        [method, target, version] \<Rightarrow>
          if \<not> re_match METHOD method then Inl (HttpError 400 ''invalid method'')
          else if \<not> re_match TARGET target then Inl (HttpError 400 ''invalid request target'')
          else if \<not> re_match VERSION version
          then Inl (HttpError 505 ''only HTTP/1.0 and HTTP/1.1 are supported'')
          else rbind (parseHeaders (tl lines)) (\<lambda>headers.
            Inr \<lparr>req_method = method, req_target = target, req_version = version,
                 req_headers = headers, req_raw = raw\<rparr>)
      | _ \<Rightarrow> Inl (HttpError 400 ''malformed request line'')) = Inr head"
    unfolding parseRequestHead_def rbind_Inr_iff by blast
  from lines(2) obtain m tg v hs where "splitHeadLines raw = Inr lines"
    "split_on (CHR '' '') (hd lines) = [m, tg, v]"
    "re_match METHOD m" "re_match TARGET tg" "re_match VERSION v" "parseHeaders (tl lines) = Inr hs"
    "head = \<lparr>req_method = m, req_target = tg, req_version = v, req_headers = hs, req_raw = raw\<rparr>"
    using lines(1) by (auto simp: rbind_Inr_iff split: list.splits if_splits)
  then show ?thesis by (rule that)
qed

lemma parseRequestHead_raw: "parseRequestHead raw = Inr head \<Longrightarrow> req_raw head = raw"
  by (erule parseRequestHead_parts) simp

text \<open>A request head the gate accepts has a request line of exactly three parts: an
  upper-case method, a target that starts with a slash and holds only visible ASCII and no
  hash sign, and HTTP/1.0 or HTTP/1.1; and every header name is a non-empty token without a
  colon or white space.\<close>

lemma parseRequestHead_wellformed:
  assumes "parseRequestHead raw = Inr head"
  shows "req_raw head = raw
    \<and> req_method head \<noteq> [] \<and> list_all is_upper (req_method head)
    \<and> starts_with ''/'' (req_target head)
    \<and> list_all (\<lambda>c. 33 \<le> code c \<and> code c \<le> 126 \<and> c \<noteq> CHR ''#'') (req_target head)
    \<and> req_version head \<in> {''HTTP/1.0'', ''HTTP/1.1''}
    \<and> (\<forall>(name, value) \<in> set (req_headers head). name \<noteq> [] \<and> list_all re_token_char name)"
proof -
  from assms obtain lines m tg v hs where h: "splitHeadLines raw = Inr lines"
    "split_on (CHR '' '') (hd lines) = [m, tg, v]"
    "re_match METHOD m" "re_match TARGET tg" "re_match VERSION v" "parseHeaders (tl lines) = Inr hs"
    "head = \<lparr>req_method = m, req_target = tg, req_version = v, req_headers = hs, req_raw = raw\<rparr>"
    by (rule parseRequestHead_parts)
  have m: "m \<noteq> [] \<and> list_all is_upper m"
    using h(3) by (simp add: METHOD_def re_match_plus_Cls)
  have "tg \<in> lang TARGET" using h(4) by (simp add: re_match_iff)
  then obtain t where t: "tg = ''/'' @ t"
    "\<forall>c \<in> set t. byte_in 33 34 c \<or> byte_in 36 126 c"
    by (auto simp: TARGET_def simp del: lang.simps(6))
  have tg: "starts_with ''/'' tg"
    "list_all (\<lambda>c. 33 \<le> code c \<and> code c \<le> 126 \<and> c \<noteq> CHR ''#'') tg"
    using t by (auto simp: list_all_iff byte_in_code code_def)
  have v: "v \<in> {''HTTP/1.0'', ''HTTP/1.1''}"
    using h(5) by (auto simp: re_match_iff VERSION_def)
  have hdr: "n \<noteq> [] \<and> list_all re_token_char n" if "parseHeaderLine l = Inr (n, w)" for l n w
    using that by (auto simp: parseHeaderLine_def TOKEN_def re_match_plus_Cls
        split: if_splits option.splits)
  have "list_all2 (\<lambda>l h. parseHeaderLine l = Inr h) (tl lines) hs"
    using h(6) by (simp add: parseHeaders_def rmap_list_Inr_iff)
  then have "\<forall>(name, value) \<in> set hs. name \<noteq> [] \<and> list_all re_token_char name"
    using hdr by (fastforce simp: list_all2_conv_all_nth in_set_conv_nth)
  with m tg v h(7) show ?thesis by simp
qed

end
