(* ===== verification/Gate_Reader.thy ===== *)
theory Gate_Reader
  imports Gate_Http
begin

text \<open>
  The gate's buffered reader and its byte relays
  (\<open>orchestration/roles/docker-gate/files/http.ts\<close>, \<open>BufferedReader\<close> to \<open>relayBody\<close>).

  A source is the list of what its successive \<open>read\<close> calls return; an empty read, or the end
  of the list, is the end of the stream. A sink takes at least one byte of every non-empty
  write (\<open>accepts\<close> says how many more each call takes, all of them once the list is used up).
  The \<open>repeatSequential\<close> loops are recursive functions whose measure is what the source still
  holds. \<open>rest\<close> is the abstraction every law is stated over: the bytes the reader can still
  deliver.
\<close>

record reader =
  buffer :: string
  source :: "string list"
  eof :: bool

record sink =
  written :: string
  accepts :: "nat list"

definition new_reader :: "string list \<Rightarrow> reader" where
  "new_reader reads = \<lparr>buffer = [], source = reads, eof = False\<rparr>"

definition new_sink :: sink where
  "new_sink = \<lparr>written = [], accepts = []\<rparr>"

definition MAX_HEAD_BYTES :: nat where "MAX_HEAD_BYTES = 64 * 1024"
definition MAX_LINE_BYTES :: nat where "MAX_LINE_BYTES = 4096"

definition indexOfSequence :: "string \<Rightarrow> string \<Rightarrow> nat \<Rightarrow> nat option" where
  "indexOfSequence haystack needle from =
     find (\<lambda>i. take (length needle) (drop i haystack) = needle)
       [from ..< Suc (length haystack) - length needle]"

definition CRLF_CRLF :: string where "CRLF_CRLF = crlf @ crlf"

section \<open>Reading\<close>

definition takeBuffered :: "reader \<Rightarrow> string \<times> reader" where
  "takeBuffered r = (buffer r, r\<lparr>buffer := []\<rparr>)"

definition fill :: "reader \<Rightarrow> bool \<times> reader" where
  "fill r = (if eof r then (False, r)
     else case source r of
         [] \<Rightarrow> (False, r\<lparr>eof := True\<rparr>)
       | chunk # later \<Rightarrow>
         if chunk = [] then (False, r\<lparr>eof := True, source := later\<rparr>)
         else (True, r\<lparr>buffer := buffer r @ chunk, source := later\<rparr>))"

definition atEof :: "reader \<Rightarrow> bool \<times> reader" where
  "atEof r = (if buffer r \<noteq> [] then (False, r) else (let (got, r') = fill r in (\<not> got, r')))"

definition consume :: "nat \<Rightarrow> reader \<Rightarrow> string \<times> reader" where
  "consume count r = (take count (buffer r), r\<lparr>buffer := drop count (buffer r)\<rparr>)"

lemma fill_source: "fill r = (True, r') \<Longrightarrow> length (source r') < length (source r)"
  by (auto simp: fill_def split: if_splits list.splits)

function readThrough_from ::
  "string \<Rightarrow> nat \<Rightarrow> string \<Rightarrow> nat \<Rightarrow> reader \<Rightarrow> (http_error, string option \<times> reader) result" where
  "readThrough_from delimiter limit tooLong searchFrom r =
     (case indexOfSequence (buffer r) delimiter searchFrom of
        Some at \<Rightarrow> (let (out, r') = consume (at + length delimiter) r in Inr (Some out, r'))
      | None \<Rightarrow>
        if length (buffer r) > limit then Inl (HttpError 431 tooLong)
        else case fill r of (got, r') \<Rightarrow>
          if got then
            readThrough_from delimiter limit tooLong (Suc (length (buffer r)) - length delimiter) r'
          else if buffer r = [] then Inr (None, r')
          else Inl (HttpError 400 ''connection closed inside a message head''))"
  by pat_completeness auto
termination
  by (relation "measure (\<lambda>(_, _, _, _, r). length (source r))") (auto dest: fill_source [OF sym])

declare readThrough_from.simps [simp del]

definition readThrough ::
  "string \<Rightarrow> nat \<Rightarrow> string \<Rightarrow> reader \<Rightarrow> (http_error, string option \<times> reader) result" where
  "readThrough delimiter limit tooLong = readThrough_from delimiter limit tooLong 0"

definition readHead :: "reader \<Rightarrow> (http_error, string option \<times> reader) result" where
  "readHead = readThrough CRLF_CRLF MAX_HEAD_BYTES ''message head too large''"

definition readLine :: "reader \<Rightarrow> (http_error, string \<times> reader) result" where
  "readLine r = rbind (readThrough crlf MAX_LINE_BYTES ''line too long'' r) (\<lambda>(line, r').
     case line of None \<Rightarrow> Inl (HttpError 400 ''connection closed in a body'')
     | Some l \<Rightarrow> Inr (l, r'))"

function readExact :: "nat \<Rightarrow> reader \<Rightarrow> (http_error, string \<times> reader) result" where
  "readExact count r =
     (if length (buffer r) \<ge> count then Inr (consume count r)
      else case fill r of (got, r') \<Rightarrow>
        if got then readExact count r'
        else Inl (HttpError 400 ''connection closed inside a body''))"
  by pat_completeness auto
termination
  by (relation "measure (\<lambda>(_, r). length (source r))") (auto dest: fill_source [OF sym])

declare readExact.simps [simp del]

section \<open>Writing and relaying\<close>

definition sink_write :: "sink \<Rightarrow> string \<Rightarrow> nat \<times> sink" where
  "sink_write s p =
     (let n = (case accepts s of [] \<Rightarrow> length p | k # _ \<Rightarrow> min (Suc k) (length p))
      in (n, s\<lparr>written := written s @ take n p, accepts := tl (accepts s)\<rparr>))"

function writeAll_from :: "sink \<Rightarrow> string \<Rightarrow> nat \<Rightarrow> sink" where
  "writeAll_from s data offset =
     (if offset \<ge> length data then s
      else case sink_write s (drop offset data) of (n, s') \<Rightarrow>
        if offset + n < length data then writeAll_from s' data (offset + n) else s')"
  by pat_completeness auto
termination
  by (relation "measure (\<lambda>(_, data, offset). length data - offset)")
    (auto simp: sink_write_def Let_def split: list.splits)

declare writeAll_from.simps [simp del]

definition writeAll :: "sink \<Rightarrow> string \<Rightarrow> sink" where
  "writeAll s data = writeAll_from s data 0"

text \<open>What the reader still holds, in bytes: the measure of the relay loops.\<close>

definition held :: "reader \<Rightarrow> nat" where
  "held r = length (buffer r) + length (concat (source r)) + length (source r)"

lemma held_fill: "fill r = (got, r') \<Longrightarrow> held r' \<le> held r"
  by (auto simp: fill_def held_def split: if_splits list.splits)

lemma held_fill_True: "fill r = (True, r') \<Longrightarrow> held r' < held r"
  by (auto simp: fill_def held_def split: if_splits list.splits)

lemma held_consume: "consume n r = (out, r') \<Longrightarrow> held r' + length out = held r"
  by (auto simp: consume_def held_def)

lemma copy_step:
  assumes "remaining \<noteq> 0"
    and x: "(got, r1) = (if buffer r = [] then fill r else (True, r))" "\<not> \<not> got"
    and y: "(out, r2) = consume (min remaining (length (buffer r1))) r1"
  shows "held r2 < held r"
proof -
  have "held r1 \<le> held r" "0 < length (buffer r1)"
    using x by (auto simp: fill_def held_def split: if_splits list.splits)
  moreover have "held r2 + min remaining (length (buffer r1)) = held r1"
    using y by (auto simp: consume_def held_def)
  moreover have "0 < min remaining (length (buffer r1))"
    using assms(1) calculation(2) by simp
  ultimately show ?thesis by linarith
qed

function copyExact :: "nat \<Rightarrow> reader \<Rightarrow> sink \<Rightarrow> (http_error, reader \<times> sink) result" where
  "copyExact remaining r s =
     (if remaining = 0 then Inr (r, s)
      else case (if buffer r = [] then fill r else (True, r)) of (got, r1) \<Rightarrow>
        if \<not> got then Inl (HttpError 400 ''connection closed inside a body'')
        else case consume (min remaining (length (buffer r1))) r1 of (out, r2) \<Rightarrow>
          copyExact (remaining - min remaining (length (buffer r1))) r2 (writeAll s out))"
  by pat_completeness auto
termination
  by (relation "measure (\<lambda>(_, r, _). held r)", simp) (simp only: in_measure prod.case, rule copy_step)

declare copyExact.simps [simp del]

function copyToEnd :: "reader \<Rightarrow> sink \<Rightarrow> reader \<times> sink" where
  "copyToEnd r s =
     (let (out, r1) = consume (length (buffer r)) r;
          s1 = (if buffer r \<noteq> [] then writeAll s out else s)
      in case fill r1 of (got, r2) \<Rightarrow> if got then copyToEnd r2 s1 else (r2, s1))"
  by pat_completeness auto
termination
  by (relation "measure (\<lambda>(r, _). length (source r))")
    (auto simp: consume_def dest!: fill_source [OF sym])

declare copyToEnd.simps [simp del]

text \<open>What a chunked relay keeps: the payloads, their cap, and their running total.\<close>

record chunk_capture =
  chunks :: "string list"
  maxBytes :: nat
  held_bytes :: nat

definition new_capture :: "nat \<Rightarrow> chunk_capture" where
  "new_capture m = \<lparr>chunks = [], maxBytes = m, held_bytes = 0\<rparr>"

definition relayCapturedChunk ::
  "reader \<Rightarrow> sink \<Rightarrow> nat \<Rightarrow> chunk_capture \<Rightarrow> (http_error, reader \<times> sink \<times> chunk_capture) result" where
  "relayCapturedChunk r s sz capture =
     (if held_bytes capture + sz > maxBytes capture
      then Inl (HttpError 413 ''request body too large'')
      else rbind (readExact (sz + 2) r) (\<lambda>(data, r').
        Inr (r', writeAll s data,
             capture\<lparr>chunks := chunks capture @ [take sz data],
                     held_bytes := held_bytes capture + sz\<rparr>)))"

lemma readThrough_from_Some:
  assumes "readThrough_from d m t f r = Inr (Some out, r')"
  obtains (found) at where "indexOfSequence (buffer r) d f = Some at"
      "consume (at + length d) r = (out, r')"
    | (more) r1 where "indexOfSequence (buffer r) d f = None" "length (buffer r) \<le> m"
      "fill r = (True, r1)"
      "readThrough_from d m t (Suc (length (buffer r)) - length d) r1 = Inr (Some out, r')"
proof (cases "indexOfSequence (buffer r) d f")
  case None
  obtain got r1 where fl: "fill r = (got, r1)" by fastforce
  with None assms have "got" "length (buffer r) \<le> m"
    by (auto simp: readThrough_from.simps [of d m t f r] split: if_splits)
  with None fl assms show ?thesis
    by (intro more [of r1]) (simp_all add: readThrough_from.simps [of d m t f r])
next
  case (Some at)
  with assms show ?thesis
    by (intro found [of at]) (auto simp: readThrough_from.simps [of d m t f r] split: prod.splits)
qed

lemma held_readThrough_from:
  "readThrough_from d m t f r = Inr (Some out, r') \<Longrightarrow> held r' + length out \<le> held r"
proof (induction d m t f r rule: readThrough_from.induct)
  case (1 d m t f r)
  from 1(2) show ?case
  proof (cases rule: readThrough_from_Some)
    case (more r1)
    with 1(1) [of True r1] have "held r' + length out \<le> held r1" by simp
    with held_fill [OF more(3)] show ?thesis by simp
  next
    case (found at)
    with held_consume [OF found(2)] show ?thesis by simp
  qed
qed

lemma readThrough_from_length:
  "readThrough_from d m t f r = Inr (Some out, r') \<Longrightarrow> length d \<le> length out"
proof (induction d m t f r rule: readThrough_from.induct)
  case (1 d m t f r)
  from 1(2) show ?case
  proof (cases rule: readThrough_from_Some)
    case (more r1)
    with 1(1) [of True r1] show ?thesis by simp
  next
    case (found at)
    then have "at + length d \<le> length (buffer r)"
      by (auto simp: indexOfSequence_def find_Some_iff)
    with found(2) show ?thesis by (auto simp: consume_def)
  qed
qed

lemma readLine_Inr:
  "readLine r = Inr (l, r') \<longleftrightarrow>
     readThrough_from crlf MAX_LINE_BYTES ''line too long'' 0 r = Inr (Some l, r')"
  by (auto simp: readLine_def readThrough_def rbind_Inr_iff split: option.splits)

lemma held_readLine_less:
  assumes "readLine r = Inr (l, r')"
  shows "held r' < held r"
  using held_readThrough_from [OF assms [unfolded readLine_Inr]]
    readThrough_from_length [OF assms [unfolded readLine_Inr]]
  by (simp add: crlf_def)

lemma readExact_Inr:
  assumes "readExact n r = Inr (out, r')"
  obtains (enough) "n \<le> length (buffer r)" "consume n r = (out, r')"
    | (more) r1 where "length (buffer r) < n" "fill r = (True, r1)" "readExact n r1 = Inr (out, r')"
proof (cases "n \<le> length (buffer r)")
  case True
  with assms show ?thesis by (intro enough) (simp_all add: readExact.simps [of n r])
next
  case False
  obtain got r1 where fl: "fill r = (got, r1)" by fastforce
  with False assms have got by (simp add: readExact.simps [of n r] split: if_splits)
  with False fl assms show ?thesis
    by (intro more [of r1]) (simp_all add: readExact.simps [of n r])
qed

lemma held_readExact: "readExact n r = Inr (out, r') \<Longrightarrow> held r' \<le> held r"
proof (induction "held r" arbitrary: r rule: less_induct)
  case less
  from less.prems show ?case
  proof (cases rule: readExact_Inr)
    case enough
    then show ?thesis using held_consume by fastforce
  next
    case (more r1)
    then have "held r1 < held r" by (simp add: held_fill_True)
    with less.hyps [OF _ more(3)] show ?thesis by simp
  qed
qed

lemma copyExact_Inr:
  assumes "copyExact n r s = Inr (r', s')" "n \<noteq> 0"
  obtains r1 out r2 where "(if buffer r = [] then fill r else (True, r)) = (True, r1)"
    "consume (min n (length (buffer r1))) r1 = (out, r2)"
    "copyExact (n - min n (length (buffer r1))) r2 (writeAll s out) = Inr (r', s')"
    "held r2 < held r"
proof -
  obtain got r1 where g: "(if buffer r = [] then fill r else (True, r)) = (got, r1)" by fastforce
  obtain out r2 where c: "consume (min n (length (buffer r1))) r1 = (out, r2)" by fastforce
  have got: got
    using assms g by (auto simp: copyExact.simps [of n r s] split: if_splits)
  then have "copyExact (n - min n (length (buffer r1))) r2 (writeAll s out) = Inr (r', s')"
    using assms g c by (simp add: copyExact.simps [of n r s])
  moreover have "held r2 < held r"
    using copy_step [OF assms(2) g [symmetric] _ c [symmetric]] got by simp
  ultimately show ?thesis using that g c got by simp
qed

lemma held_copyExact: "copyExact n r s = Inr (r', s') \<Longrightarrow> held r' \<le> held r"
proof (induction "held r" arbitrary: n r s rule: less_induct)
  case less
  show ?case
  proof (cases "n = 0")
    case False
    from less.prems False show ?thesis
      by (rule copyExact_Inr) (use less.hyps in fastforce)
  qed (use less.prems in \<open>simp add: copyExact.simps [of 0 r s]\<close>)
qed

lemma held_relayCapturedChunk:
  "relayCapturedChunk r s n c = Inr (r', s', c') \<Longrightarrow> held r' \<le> held r"
  by (auto simp: relayCapturedChunk_def rbind_Inr_iff dest: held_readExact split: if_splits)

function relayTrailers :: "reader \<Rightarrow> sink \<Rightarrow> (http_error, reader \<times> sink) result" where
  "relayTrailers r s = rbind (readLine r) (\<lambda>(line, r').
     if length line \<noteq> 2 then relayTrailers r' (writeAll s line) else Inr (r', writeAll s line))"
  by pat_completeness auto
termination
  by (relation "measure (\<lambda>(r, _). held r)") (auto dest: held_readLine_less)

declare relayTrailers.simps [simp del]

function relayChunks ::
  "reader \<Rightarrow> sink \<Rightarrow> chunk_capture option
   \<Rightarrow> (http_error, reader \<times> sink \<times> chunk_capture option) result" where
  "relayChunks r out capture = rbind (readLine r) (\<lambda>(sizeLine, r1).
     rbind (parseChunkSize sizeLine) (\<lambda>n.
       if n = 0 then Inr (r1, writeAll out sizeLine, capture)
       else case capture of
           Some c \<Rightarrow> rbind (relayCapturedChunk r1 (writeAll out sizeLine) n c) (\<lambda>(r2, out2, c2).
             relayChunks r2 out2 (Some c2))
         | None \<Rightarrow> rbind (copyExact (n + 2) r1 (writeAll out sizeLine)) (\<lambda>(r2, out2).
             relayChunks r2 out2 None)))"
  by pat_completeness auto
termination
  by (relation "measure (\<lambda>(r, _). held r)")
    (auto dest!: held_readLine_less held_relayCapturedChunk held_copyExact)

declare relayChunks.simps [simp del]

definition relayChunked ::
  "reader \<Rightarrow> sink option \<Rightarrow> chunk_capture option
   \<Rightarrow> (http_error, reader \<times> sink \<times> chunk_capture option) result" where
  "relayChunked r sink capture =
     (let out = (case sink of None \<Rightarrow> new_sink | Some s \<Rightarrow> s)
      in rbind (relayChunks r out capture) (\<lambda>(r1, out1, c1).
         rbind (relayTrailers r1 out1) (\<lambda>(r2, out2). Inr (r2, out2, c1))))"

definition relayBody :: "reader \<Rightarrow> framing \<Rightarrow> sink \<Rightarrow> (http_error, reader \<times> sink) result" where
  "relayBody r framing s =
     (case framing of
        FNone \<Rightarrow> Inr (r, s)
      | FLength n \<Rightarrow> copyExact n r s
      | FChunked \<Rightarrow> rbind (relayChunked r (Some s) None) (\<lambda>(r', s', _). Inr (r', s'))
      | FEof \<Rightarrow> Inr (copyToEnd r s))"

end
