(* ===== verification/Gate_Reader_Laws.thy ===== *)
theory Gate_Reader_Laws
  imports Gate_Reader
begin

text \<open>
  What the buffered reader and the relays of \<open>Gate_Reader\<close> promise, stated over the bytes
  the reader can still deliver (\<open>rest\<close>) and so independent of how the source cuts them into
  reads: reading through a delimiter finds its first occurrence, exact reads and copies move
  exactly the bytes asked for, and every relay is transparent (locale \<open>relay\<close>: what was
  consumed is what was written, in order).
\<close>

definition rest :: "reader \<Rightarrow> string" where
  "rest r = buffer r @ (if eof r then [] else concat (takeWhile (\<lambda>c. c \<noteq> []) (source r)))"

definition occurs_at :: "string \<Rightarrow> string \<Rightarrow> nat \<Rightarrow> bool" where
  "occurs_at h d i \<longleftrightarrow> i + length d \<le> length h \<and> take (length d) (drop i h) = d"

section \<open>Filling and consuming\<close>

lemma rest_fill: "fill r = (got, r') \<Longrightarrow> rest r' = rest r"
  by (auto simp: fill_def rest_def split: if_splits list.splits)

lemma fill_False: "fill r = (False, r') \<Longrightarrow> rest r = buffer r \<and> rest r' = buffer r"
  by (auto simp: fill_def rest_def split: if_splits list.splits)

lemma fill_True: "fill r = (True, r') \<Longrightarrow> \<exists>c. c \<noteq> [] \<and> buffer r' = buffer r @ c"
  by (auto simp: fill_def split: if_splits list.splits)

lemma rest_consume: "consume n r = (out, r') \<Longrightarrow> rest r = out @ rest r'"
  by (auto simp: consume_def rest_def)

lemma buffer_prefix: "\<exists>t. rest r = buffer r @ t"
  by (simp add: rest_def)

lemma indexOfSequence_Some:
  "indexOfSequence h d f = Some i \<longleftrightarrow>
     f \<le> i \<and> occurs_at h d i \<and> (\<forall>j. f \<le> j \<and> j < i \<longrightarrow> \<not> occurs_at h d j)"
proof -
  define P where "P = (\<lambda>i. take (length d) (drop i h) = d)"
  have "indexOfSequence h d f = Some i \<longleftrightarrow>
      f \<le> i \<and> i + length d \<le> length h \<and> P i \<and> (\<forall>j. f \<le> j \<and> j < i \<longrightarrow> \<not> P j)"
  proof
    assume "indexOfSequence h d f = Some i"
    then obtain k where k: "k < length [f ..< Suc (length h) - length d]"
      "i = [f ..< Suc (length h) - length d] ! k" "P i"
      "\<forall>j < k. \<not> P ([f ..< Suc (length h) - length d] ! j)"
      by (auto simp: indexOfSequence_def P_def find_Some_iff)
    then have i: "i = f + k" "f + k < Suc (length h) - length d" by auto
    have "\<not> P j" if "f \<le> j" "j < i" for j
      using k(4) that i by (auto simp: less_diff_conv elim!: allE [of _ "j - f"])
    with k(3) i show "f \<le> i \<and> i + length d \<le> length h \<and> P i \<and> (\<forall>j. f \<le> j \<and> j < i \<longrightarrow> \<not> P j)"
      by auto
  next
    assume a: "f \<le> i \<and> i + length d \<le> length h \<and> P i \<and> (\<forall>j. f \<le> j \<and> j < i \<longrightarrow> \<not> P j)"
    then show "indexOfSequence h d f = Some i"
      unfolding indexOfSequence_def find_Some_iff P_def [symmetric]
      by (intro exI [of _ "i - f"]) auto
  qed
  then show ?thesis by (auto simp: P_def occurs_at_def)
qed

lemma indexOfSequence_None:
  "indexOfSequence h d f = None \<longleftrightarrow> (\<forall>i. f \<le> i \<longrightarrow> \<not> occurs_at h d i)"
  by (auto simp: indexOfSequence_def find_None_iff occurs_at_def)

lemma occurs_at_append: "occurs_at h d i \<Longrightarrow> occurs_at (h @ t) d i"
  by (simp add: occurs_at_def)

lemma occurs_at_appendD: "occurs_at (h @ t) d i \<Longrightarrow> i + length d \<le> length h \<Longrightarrow> occurs_at h d i"
  by (simp add: occurs_at_def)

lemma occurs_at_rest: "occurs_at (buffer r) d i \<Longrightarrow> occurs_at (rest r) d i"
  using occurs_at_append buffer_prefix by metis

lemma occurs_at_restD:
  "occurs_at (rest r) d i \<Longrightarrow> i + length d \<le> length (buffer r) \<Longrightarrow> occurs_at (buffer r) d i"
  using occurs_at_appendD buffer_prefix by metis

text \<open>
  The search resumes where an occurrence could still begin: whatever starts earlier would
  already lie inside the bytes searched before.
\<close>

definition searched :: "reader \<Rightarrow> string \<Rightarrow> nat \<Rightarrow> bool" where
  "searched r d f \<longleftrightarrow> (\<forall>i < f. \<not> occurs_at (rest r) d i)"

lemma searched_more:
  assumes "searched r d f" "indexOfSequence (buffer r) d f = None" "fill r = (True, r')"
  shows "searched r' d (Suc (length (buffer r)) - length d)"
  unfolding searched_def rest_fill [OF assms(3)]
proof (intro allI impI notI)
  fix i assume i: "i < Suc (length (buffer r)) - length d" and occ: "occurs_at (rest r) d i"
  from i have "i + length d \<le> length (buffer r)" by simp
  with occ have "occurs_at (buffer r) d i" by (rule occurs_at_restD)
  with assms(2) have "i < f" by (auto simp: indexOfSequence_None not_le [symmetric])
  with assms(1) occ show False by (simp add: searched_def)
qed

section \<open>Reading through a delimiter\<close>

lemma readThrough_from_sound:
  assumes "readThrough_from d m t f r = Inr (Some out, r')" "searched r d f"
  shows "rest r = out @ rest r' \<and> length d \<le> length out
    \<and> indexOfSequence (rest r) d 0 = Some (length out - length d)"
  using assms
proof (induction "held r" arbitrary: r f rule: less_induct)
  case less
  from less.prems(1) show ?case
  proof (cases rule: readThrough_from_Some)
    case (found at)
    then have occ: "occurs_at (buffer r) d at" and first: "\<forall>j. f \<le> j \<and> j < at \<longrightarrow> \<not> occurs_at (buffer r) d j"
      by (auto simp: indexOfSequence_Some)
    have "\<not> occurs_at (rest r) d j" if "j < at" for j
    proof
      assume o: "occurs_at (rest r) d j"
      with less.prems(2) have "f \<le> j" by (auto simp: searched_def not_less [symmetric])
      moreover have "occurs_at (buffer r) d j"
        using o that occ by (intro occurs_at_restD) (auto simp: occurs_at_def)
      ultimately show False using first that by blast
    qed
    with occ have "indexOfSequence (rest r) d 0 = Some at"
      by (auto simp: indexOfSequence_Some intro: occurs_at_rest)
    moreover have "length out = at + length d"
      using found(2) occ by (auto simp: consume_def occurs_at_def)
    ultimately show ?thesis using rest_consume [OF found(2)] by simp
  next
    case (more r1)
    have "searched r1 d (Suc (length (buffer r)) - length d)"
      using less.prems(2) more(1,3) by (rule searched_more)
    from less.hyps [OF held_fill_True [OF more(3)] more(4) this]
    show ?thesis unfolding rest_fill [OF more(3)] .
  qed
qed

lemma readThrough_from_None:
  assumes "readThrough_from d m t f r = Inr (None, r')"
  shows "rest r = [] \<and> rest r' = []"
  using assms
proof (induction "held r" arbitrary: r f rule: less_induct)
  case less
  obtain got r1 where fl: "fill r = (got, r1)" by fastforce
  show ?case
  proof (cases got)
    case True
    with less.prems fl have
      "readThrough_from d m t (Suc (length (buffer r)) - length d) r1 = Inr (None, r')"
      by (auto simp: readThrough_from.simps [of d m t f r] split: option.splits if_splits prod.splits)
    with less.hyps [of r1] True fl have "rest r1 = [] \<and> rest r' = []"
      by (simp add: held_fill_True)
    with rest_fill [OF fl] show ?thesis by simp
  next
    case False
    with less.prems fl have "buffer r = []" "r' = r1"
      by (auto simp: readThrough_from.simps [of d m t f r] split: option.splits if_splits prod.splits)
    with fill_False [of r r1] fl False show ?thesis by simp
  qed
qed

lemma readThrough_from_finds:
  assumes "indexOfSequence (rest r) d 0 = Some i" "i + length d \<le> Suc m" "searched r d f" "d \<noteq> []"
  shows "\<exists>out r'. readThrough_from d m t f r = Inr (Some out, r')"
  using assms
proof (induction "held r" arbitrary: r f rule: less_induct)
  case less
  from less.prems(1) have occ: "occurs_at (rest r) d i" by (simp add: indexOfSequence_Some)
  show ?case
  proof (cases "indexOfSequence (buffer r) d f")
    case (Some at)
    then show ?thesis
      by (simp add: readThrough_from.simps [of d m t f r] consume_def)
  next
    case None
    have "f \<le> i" using less.prems(3) occ by (auto simp: searched_def not_less [symmetric])
    with None have "\<not> occurs_at (buffer r) d i" by (simp add: indexOfSequence_None)
    with occ occurs_at_restD have short: "length (buffer r) < i + length d" by force
    obtain got r1 where fl: "fill r = (got, r1)" by fastforce
    have got
    proof (rule ccontr)
      assume "\<not> got"
      with fl fill_False have "rest r = buffer r" by auto
      with occ short show False by (simp add: occurs_at_def)
    qed
    with None fl short less.prems(2) have step: "readThrough_from d m t f r =
        readThrough_from d m t (Suc (length (buffer r)) - length d) r1"
      by (simp add: readThrough_from.simps [of d m t f r])
    have "searched r1 d (Suc (length (buffer r)) - length d)"
      using less.prems(3) None fl \<open>got\<close> by (intro searched_more) auto
    with less.hyps [of r1] less.prems rest_fill [OF fl] fl \<open>got\<close> show ?thesis
      unfolding step by (simp add: held_fill_True)
  qed
qed

lemma searched_0 [simp]: "searched r d 0"
  by (simp add: searched_def)

section \<open>Exact reads and copies\<close>

lemma readExact_spec:
  "readExact n r = Inr (out, r') \<Longrightarrow> rest r = out @ rest r' \<and> length out = n"
proof (induction "held r" arbitrary: r rule: less_induct)
  case less
  from less.prems show ?case
  proof (cases rule: readExact_Inr)
    case enough
    then show ?thesis using rest_consume [OF enough(2)] by (auto simp: consume_def)
  next
    case (more r1)
    with less.hyps [OF held_fill_True [OF more(2)] more(3)] rest_fill [OF more(2)]
    show ?thesis by simp
  qed
qed

lemma readExact_returns:
  "n \<le> length (rest r) \<Longrightarrow> \<exists>out r'. readExact n r = Inr (out, r')"
proof (induction "held r" arbitrary: r rule: less_induct)
  case less
  obtain got r1 where fl: "fill r = (got, r1)" by fastforce
  show ?case
  proof (cases "n \<le> length (buffer r)")
    case True
    then show ?thesis by (simp add: readExact.simps [of n r] consume_def)
  next
    case False
    with fl fill_False less.prems have got by (cases got) auto
    with less.hyps [of r1] less.prems False fl rest_fill [OF fl] show ?thesis
      by (simp add: readExact.simps [of n r] held_fill_True)
  qed
qed

lemma writeAll_from_written:
  "written (writeAll_from s data k) = written s @ drop k data"
proof (induction s data k rule: writeAll_from.induct)
  case (1 s data k)
  show ?case
  proof (cases "k < length data")
    case True
    obtain n s' where w: "sink_write s (drop k data) = (n, s')" by fastforce
    then have s': "written s' = written s @ take n (drop k data)" "n \<le> length data - k"
      by (auto simp: sink_write_def Let_def split: list.splits)
    show ?thesis
    proof (cases "k + n < length data")
      case more: True
      with 1 True w s' have "written (writeAll_from s' data (k + n)) =
          written s @ take n (drop k data) @ drop (k + n) data"
        by simp
      moreover have "take n (drop k data) @ drop (k + n) data = drop k data"
        by (metis add.commute append_take_drop_id drop_drop)
      ultimately show ?thesis
        using True w more by (simp add: writeAll_from.simps [of s data k])
    next
      case False
      with s'(2) True have "n = length data - k" by simp
      with s'(1) False True w show ?thesis by (simp add: writeAll_from.simps [of s data k])
    qed
  qed (simp add: writeAll_from.simps [of s data k])
qed

lemma writeAll_written [simp]: "written (writeAll s data) = written s @ data"
  by (simp add: writeAll_def writeAll_from_written)

lemma copyExact_spec:
  "copyExact n r s = Inr (r', s') \<Longrightarrow>
     \<exists>out. length out = n \<and> rest r = out @ rest r' \<and> written s' = written s @ out"
proof (induction "held r" arbitrary: n r s rule: less_induct)
  case less
  show ?case
  proof (cases "n = 0")
    case True
    with less.prems show ?thesis by (simp add: copyExact.simps [of 0 r s])
  next
    case False
    from less.prems False show ?thesis
    proof (rule copyExact_Inr)
      fix r1 out r2
      assume g: "(if buffer r = [] then fill r else (True, r)) = (True, r1)"
        and c: "consume (min n (length (buffer r1))) r1 = (out, r2)"
        and rec: "copyExact (n - min n (length (buffer r1))) r2 (writeAll s out) = Inr (r', s')"
        and lt: "held r2 < held r"
      obtain out2 where o2: "length out2 = n - min n (length (buffer r1))"
        "rest r2 = out2 @ rest r'" "written s' = written s @ out @ out2"
        using less.hyps [OF lt rec] by auto
      have "rest r1 = rest r" using g rest_fill by (auto split: if_splits)
      moreover have "rest r1 = out @ rest r2" "length out = min n (length (buffer r1))"
        using rest_consume [OF c] c by (auto simp: consume_def)
      ultimately show ?thesis using o2 by (intro exI [of _ "out @ out2"]) auto
    qed
  qed
qed

lemma copyExact_returns:
  "n \<le> length (rest r) \<Longrightarrow> \<exists>r' s'. copyExact n r s = Inr (r', s')"
proof (induction "held r" arbitrary: n r s rule: less_induct)
  case less
  obtain got r1 where g: "(if buffer r = [] then fill r else (True, r)) = (got, r1)" by fastforce
  obtain out r2 where c: "consume (min n (length (buffer r1))) r1 = (out, r2)" by fastforce
  show ?case
  proof (cases "n = 0")
    case False
    with g fill_False less.prems have got by (cases got) (auto split: if_splits)
    have "rest r1 = rest r" using g rest_fill by (auto split: if_splits)
    moreover have "rest r1 = out @ rest r2" "length out = min n (length (buffer r1))"
      using rest_consume [OF c] c by (auto simp: consume_def)
    ultimately have "length (rest r) = min n (length (buffer r1)) + length (rest r2)"
      by (metis length_append)
    with less.prems have "n - min n (length (buffer r1)) \<le> length (rest r2)"
      by linarith
    moreover have "held r2 < held r"
      using copy_step [OF False g [symmetric] _ c [symmetric]] \<open>got\<close> by simp
    ultimately show ?thesis
      using less.hyps [of r2] False g c \<open>got\<close> by (simp add: copyExact.simps [of n r s])
  qed (simp add: copyExact.simps [of 0 r s])
qed

lemma copyToEnd_spec:
  "copyToEnd r s = (r', s') \<Longrightarrow> rest r' = [] \<and> written s' = written s @ rest r"
proof (induction "length (source r)" arbitrary: r s rule: less_induct)
  case less
  obtain out r1 where c: "consume (length (buffer r)) r = (out, r1)" by fastforce
  then have r1: "out = buffer r" "buffer r1 = []" "source r1 = source r" "rest r = out @ rest r1"
    using rest_consume [OF c] by (auto simp: consume_def)
  obtain got r2 where fl: "fill r1 = (got, r2)" by fastforce
  have w: "written (if buffer r \<noteq> [] then writeAll s out else s) = written s @ buffer r"
    using r1(1) by simp
  show ?case
  proof (cases got)
    case True
    then have "length (source r2) < length (source r)"
      using fill_source [of r1 r2] fl r1(3) by simp
    moreover have "copyToEnd r2 (if buffer r \<noteq> [] then writeAll s out else s) = (r', s')"
      using less.prems True c fl by (simp add: copyToEnd.simps [of r s])
    ultimately show ?thesis
      using less.hyps [of r2] w r1 rest_fill [OF fl] by simp
  next
    case False
    with less.prems c fl have "r' = r2" "s' = (if buffer r \<noteq> [] then writeAll s out else s)"
      by (auto simp: copyToEnd.simps [of r s])
    with w r1 fill_False [of r1 r2] fl False show ?thesis by auto
  qed
qed

section \<open>Transparent relays\<close>

text \<open>
  The contract of everything that moves bytes from a reader to a sink: what was consumed is
  what was written, in order, and nothing else.
\<close>

locale relay =
  fixes move :: "reader \<Rightarrow> sink \<Rightarrow> (http_error, reader \<times> sink) result"
  assumes relays: "move r s = Inr (r', s') \<Longrightarrow>
    \<exists>out. rest r = out @ rest r' \<and> written s' = written s @ out"
begin

lemma conserves: "move r s = Inr (r', s') \<Longrightarrow> written s' @ rest r' = written s @ rest r"
  by (drule relays) auto

lemma never_invents: "move r s = Inr (r', s') \<Longrightarrow> length (rest r') \<le> length (rest r)"
  by (drule relays) auto

lemma fresh_sink:
  assumes "move r s = Inr (r', s')" "written s = []"
  shows "rest r = written s' @ rest r'"
  using relays [OF assms(1)] assms(2) by auto

end

locale relay_pair = first: relay move1 + second: relay move2
  for move1 move2
begin

lemma in_sequence:
  assumes "rbind (move1 r s) (\<lambda>(r1, s1). move2 r1 s1) = Inr (r', s')"
  shows "\<exists>out. rest r = out @ rest r' \<and> written s' = written s @ out"
proof -
  from assms obtain r1 s1 where "move1 r s = Inr (r1, s1)" "move2 r1 s1 = Inr (r', s')"
    by (auto simp: rbind_Inr_iff)
  with first.relays second.relays show ?thesis by fastforce
qed

end

sublocale relay_pair \<subseteq> both: relay "\<lambda>r s. rbind (move1 r s) (\<lambda>(r1, s1). move2 r1 s1)"
  by unfold_locales (rule in_sequence)

interpretation copy_exact: relay "copyExact n"
  by unfold_locales (blast dest: copyExact_spec)

interpretation copy_to_end: relay "\<lambda>r s. Inr (copyToEnd r s)"
  by unfold_locales (auto dest: copyToEnd_spec)

lemma readLine_spec: "readLine r = Inr (l, r') \<Longrightarrow> rest r = l @ rest r'"
  unfolding readLine_Inr using readThrough_from_sound [OF _ searched_0] by blast

lemma relayTrailers_relays:
  "relayTrailers r s = Inr (r', s') \<Longrightarrow>
     \<exists>out. rest r = out @ rest r' \<and> written s' = written s @ out"
proof (induction r s rule: relayTrailers.induct)
  case (1 r s)
  from 1(2) obtain l r1 where l: "readLine r = Inr (l, r1)"
    "(if length l \<noteq> 2 then relayTrailers r1 (writeAll s l) else Inr (r1, writeAll s l)) = Inr (r', s')"
    by (auto simp: relayTrailers.simps [of r s] rbind_Inr_iff)
  show ?case
  proof (cases "length l = 2")
    case True
    with l readLine_spec [OF l(1)] show ?thesis by auto
  next
    case False
    with 1(1) [OF l(1) refl] l readLine_spec [OF l(1)] show ?thesis by fastforce
  qed
qed

interpretation trailers: relay relayTrailers
  by unfold_locales (rule relayTrailers_relays)

text \<open>One turn of the chunk loop.\<close>

lemma relayChunks_Inr:
  assumes "relayChunks r s c = Inr (r', s', c')"
  obtains (last) l r1 where "readLine r = Inr (l, r1)" "parseChunkSize l = Inr 0"
      "r' = r1" "s' = writeAll s l" "c' = c"
    | (captured) l r1 n c1 r2 s2 c2 where "readLine r = Inr (l, r1)" "parseChunkSize l = Inr n"
      "n \<noteq> 0" "c = Some c1" "relayCapturedChunk r1 (writeAll s l) n c1 = Inr (r2, s2, c2)"
      "relayChunks r2 s2 (Some c2) = Inr (r', s', c')" "held r2 < held r"
    | (passed) l r1 n r2 s2 where "readLine r = Inr (l, r1)" "parseChunkSize l = Inr n"
      "n \<noteq> 0" "c = None" "copyExact (n + 2) r1 (writeAll s l) = Inr (r2, s2)"
      "relayChunks r2 s2 None = Inr (r', s', c')" "held r2 < held r"
proof -
  from assms obtain l r1 n where l: "readLine r = Inr (l, r1)" "parseChunkSize l = Inr n"
    by (auto simp: relayChunks.simps [of r s c] rbind_Inr_iff)
  show ?thesis
  proof (cases "n = 0")
    case True
    with l assms last show ?thesis by (simp add: relayChunks.simps [of r s c])
  next
    case nz: False
    show ?thesis
    proof (cases c)
      case None
      with assms l nz obtain r2 s2 where c2: "copyExact (n + 2) r1 (writeAll s l) = Inr (r2, s2)"
        "relayChunks r2 s2 None = Inr (r', s', c')"
        by (auto simp: relayChunks.simps [of r s None] rbind_Inr_iff)
      moreover have "held r2 < held r"
        using held_readLine_less [OF l(1)] held_copyExact [OF c2(1)] by simp
      ultimately show ?thesis using passed l nz None by blast
    next
      case (Some c1)
      with assms l nz obtain r2 s2 c2 where
        c2: "relayCapturedChunk r1 (writeAll s l) n c1 = Inr (r2, s2, c2)"
        "relayChunks r2 s2 (Some c2) = Inr (r', s', c')"
        by (auto simp: relayChunks.simps [of r s "Some c1"] rbind_Inr_iff)
      moreover have "held r2 < held r"
        using held_readLine_less [OF l(1)] held_relayCapturedChunk [OF c2(1)] by simp
      ultimately show ?thesis using captured l nz Some by blast
    qed
  qed
qed

lemma relayCapturedChunk_relays:
  assumes "relayCapturedChunk r s n c = Inr (r', s', c')"
  shows "\<exists>d e. rest r = d @ e @ rest r' \<and> length d = n \<and> length e = 2
    \<and> written s' = written s @ d @ e \<and> chunks c' = chunks c @ [d]
    \<and> held_bytes c' = held_bytes c + n \<and> maxBytes c' = maxBytes c
    \<and> held_bytes c + n \<le> maxBytes c"
proof -
  from assms obtain data r1 where d: "readExact (n + 2) r = Inr (data, r1)" "r' = r1"
    "s' = writeAll s data" "held_bytes c + n \<le> maxBytes c"
    "c' = c\<lparr>chunks := chunks c @ [take n data], held_bytes := held_bytes c + n\<rparr>"
    by (auto simp: relayCapturedChunk_def rbind_Inr_iff split: if_splits)
  from readExact_spec [OF d(1)] d show ?thesis
    by (intro exI [of _ "take n data"] exI [of _ "drop n data"]) auto
qed

lemma relayChunks_relays:
  "relayChunks r s c = Inr (r', s', c') \<Longrightarrow>
     \<exists>out. rest r = out @ rest r' \<and> written s' = written s @ out"
proof (induction "held r" arbitrary: r s c rule: less_induct)
  case less
  from less.prems show ?case
  proof (cases rule: relayChunks_Inr)
    case (last l r1)
    with readLine_spec [OF last(1)] show ?thesis by auto
  next
    case (captured l r1 n c1 r2 s2 c2)
    obtain out where "rest r2 = out @ rest r'" "written s' = written s2 @ out"
      using less.hyps [OF captured(7) captured(6)] by blast
    with readLine_spec [OF captured(1)] relayCapturedChunk_relays [OF captured(5)]
    show ?thesis by auto
  next
    case (passed l r1 n r2 s2)
    obtain out where "rest r2 = out @ rest r'" "written s' = written s2 @ out"
      using less.hyps [OF passed(7) passed(6)] by blast
    with readLine_spec [OF passed(1)] copyExact_spec [OF passed(5)]
    show ?thesis by auto
  qed
qed

interpretation chunk_loop: relay "\<lambda>r s. rbind (relayChunks r s c) (\<lambda>(r', s', _). Inr (r', s'))"
  by unfold_locales (auto simp: rbind_Inr_iff dest: relayChunks_relays)

interpretation chunked: relay_pair
  "\<lambda>r s. rbind (relayChunks r s c) (\<lambda>(r', s', _). Inr (r', s'))" relayTrailers
  by unfold_locales

lemma relayChunked_as_pair:
  "rbind (relayChunked r (Some s) c) (\<lambda>(r', s', _). Inr (r', s')) =
     rbind (rbind (relayChunks r s c) (\<lambda>(r', s', _). Inr (r', s'))) (\<lambda>(r1, s1). relayTrailers r1 s1)"
  by (auto simp: relayChunked_def rbind_assoc split: prod.splits intro!: rbind_cong)
    (metis (no_types, lifting) rbind.simps(1) rbind.simps(2) sum.exhaust split_conv prod.exhaust)

interpretation body: relay "\<lambda>r s. relayBody r f s"
proof unfold_locales
  fix r s r' s' assume m: "relayBody r f s = Inr (r', s')"
  show "\<exists>out. rest r = out @ rest r' \<and> written s' = written s @ out"
  proof (cases f)
    case FChunked
    with m show ?thesis
      using chunked.both.relays [of r s None r' s']
      by (simp add: relayBody_def relayChunked_as_pair)
  qed (use m copy_exact.relays copy_to_end.relays in \<open>auto simp: relayBody_def\<close>)
qed

section \<open>Captured chunks\<close>

definition capture_ok :: "chunk_capture \<Rightarrow> bool" where
  "capture_ok c \<longleftrightarrow> held_bytes c = length (concat (chunks c)) \<and> held_bytes c \<le> maxBytes c"

lemma capture_ok_new [simp]: "capture_ok (new_capture m)"
  by (simp add: capture_ok_def new_capture_def)

lemma relayChunks_capture_ok:
  "relayChunks r s (Some c) = Inr (r', s', c') \<Longrightarrow> capture_ok c \<Longrightarrow>
     \<exists>c1. c' = Some c1 \<and> capture_ok c1 \<and> maxBytes c1 = maxBytes c"
proof (induction "held r" arbitrary: r s c rule: less_induct)
  case less
  from less.prems(1) show ?case
  proof (cases rule: relayChunks_Inr)
    case (captured l r1 n c1 r2 s2 c2)
    with less.prems(2) relayCapturedChunk_relays [OF captured(5)]
    have "capture_ok c2" "maxBytes c2 = maxBytes c" by (auto simp: capture_ok_def)
    with less.hyps [OF captured(7) captured(6)] show ?thesis by simp
  qed (use less.prems(2) in simp_all)
qed

section \<open>The chunked coding\<close>

text \<open>
  The sender's side, as RFC 9112 writes it (no extensions, no trailers): the relay of an
  encoded body delivers the chunks and leaves what follows the body untouched.
\<close>

fun hex_of_nat :: "nat \<Rightarrow> string" where
  "hex_of_nat n = (if n < 16 then [hex_lower n] else hex_of_nat (n div 16) @ [hex_lower (n mod 16)])"

declare hex_of_nat.simps [simp del]

definition encode_chunk :: "string \<Rightarrow> string" where
  "encode_chunk d = hex_of_nat (length d) @ crlf @ d @ crlf"

definition encode_chunks :: "string list \<Rightarrow> string" where
  "encode_chunks ds = concat (map encode_chunk ds) @ ''0'' @ crlf @ crlf"

lemma hex_of_nat_0: "hex_of_nat 0 = ''0''"
  by code_simp

lemma hex_lower_digit: "n < 16 \<Longrightarrow> is_hex (hex_lower n) \<and> digit_value (hex_lower n) = n"
proof -
  have "list_all (\<lambda>n. is_hex (hex_lower n) \<and> digit_value (hex_lower n) = n) [0..<16]"
    by code_simp
  then show "n < 16 \<Longrightarrow> is_hex (hex_lower n) \<and> digit_value (hex_lower n) = n"
    by (simp add: list_all_iff)
qed

lemma nat_of_digits_snoc:
  "nat_of_digits b (s @ [c]) = nat_of_digits b s * b + digit_value c"
  by (simp add: nat_of_digits_def)

lemma hex_of_nat_value: "nat_of_digits 16 (hex_of_nat n) = n"
proof (induction n rule: hex_of_nat.induct)
  case (1 n)
  show ?case
  proof (cases "n < 16")
    case True
    then show ?thesis
      by (simp add: hex_of_nat.simps [of n] nat_of_digits_def hex_lower_digit)
  next
    case False
    with 1 show ?thesis
      by (simp add: hex_of_nat.simps [of n] nat_of_digits_snoc hex_lower_digit)
  qed
qed

lemma hex_of_nat_hex: "\<forall>c \<in> set (hex_of_nat n). is_hex c"
proof (induction n rule: hex_of_nat.induct)
  case (1 n)
  then show ?case
    by (cases "n < 16") (auto simp: hex_of_nat.simps [of n] hex_lower_digit)
qed

lemma hex_of_nat_length: "n < 16 ^ Suc k \<Longrightarrow> 1 \<le> length (hex_of_nat n) \<and> length (hex_of_nat n) \<le> Suc k"
proof (induction k arbitrary: n)
  case 0
  then show ?case by (simp add: hex_of_nat.simps [of n])
next
  case (Suc k)
  show ?case
  proof (cases "n < 16")
    case True
    then show ?thesis by (simp add: hex_of_nat.simps [of n])
  next
    case False
    have "n div 16 < 16 ^ Suc k"
      using Suc.prems by (simp add: less_mult_imp_div_less)
    from Suc.IH [OF this] False show ?thesis by (simp add: hex_of_nat.simps [of n])
  qed
qed

lemma is_hex_plain: "is_hex c \<Longrightarrow> \<not> isOws c \<and> c \<noteq> CHR '';'' \<and> c \<noteq> CHR 0x0D"
  by (auto simp: is_hex_def is_digit_def isOws_def)

lemma trimOws_id: "\<forall>c \<in> set s. \<not> isOws c \<Longrightarrow> trimOws s = s"
proof -
  assume s: "\<forall>c \<in> set s. \<not> isOws c"
  then have "dropWhile isOws s = s" by (cases s) auto
  moreover from s have "dropWhile isOws (rev s) = rev s" by (cases s rule: rev_cases) auto
  ultimately show ?thesis by (simp add: trimOws_def)
qed

lemma parseChunkSize_hex:
  assumes "n < 16 ^ 15"
  shows "parseChunkSize (hex_of_nat n @ crlf) = Inr n"
proof -
  let ?h = "hex_of_nat n"
  have "\<forall>c \<in> set ?h. \<not> isOws c" "CHR '';'' \<notin> set ?h"
    using hex_of_nat_hex [of n] is_hex_plain by auto
  moreover have "re_match (re_rep 1 15 (RCls is_hex)) ?h"
    using hex_of_nat_length [of n 14] assms hex_of_nat_hex [of n]
    by (simp add: re_match_iff lang_rep_Cls)
  ultimately show ?thesis
    by (simp add: parseChunkSize_def crlf_def split_on_id trimOws_id hex_of_nat_value)
qed

lemma readLine_plain:
  assumes "rest r = l @ crlf @ t" "CHR 0x0D \<notin> set l" "length l < MAX_LINE_BYTES"
  shows "\<exists>r'. readLine r = Inr (l @ crlf, r') \<and> rest r' = t"
proof -
  have "\<not> occurs_at (l @ crlf @ t) crlf j" if "j < length l" for j
  proof
    assume "occurs_at (l @ crlf @ t) crlf j"
    with that have "l ! j = CHR 0x0D"
      by (auto simp: occurs_at_def crlf_def Cons_nth_drop_Suc [symmetric])
    with assms(2) nth_mem [OF that] show False by simp
  qed
  then have idx: "indexOfSequence (rest r) crlf 0 = Some (length l)"
    using assms(1) by (auto simp: indexOfSequence_Some occurs_at_def)
  obtain out r' where o: "readThrough_from crlf MAX_LINE_BYTES ''line too long'' 0 r = Inr (Some out, r')"
    using readThrough_from_finds [OF idx, of MAX_LINE_BYTES 0 "''line too long''"] assms(3) by (auto simp: crlf_def)
  from readThrough_from_sound [OF o searched_0] idx
  have "rest r = out @ rest r'" "length out = length l + 2" "2 \<le> length out"
    by (auto simp: crlf_def)
  then have "out = l @ crlf" "rest r' = t"
    using assms(1) append_eq_append_conv [of out "l @ crlf" "rest r'" t]
    by (auto simp: crlf_def)
  with o show ?thesis by (auto simp: readLine_Inr)
qed

lemma readExact_plain:
  assumes "rest r = d @ t" "length d = n"
  shows "\<exists>r'. readExact n r = Inr (d, r') \<and> rest r' = t"
proof -
  obtain out r' where o: "readExact n r = Inr (out, r')"
    using readExact_returns [of n r] assms by auto
  with readExact_spec [OF o] assms show ?thesis by auto
qed

lemma relayChunks_roundtrip:
  assumes "rest r = encode_chunks ds @ t" "\<forall>d \<in> set ds. d \<noteq> [] \<and> length d < 16 ^ 15"
    "held_bytes c + length (concat ds) \<le> maxBytes c"
  shows "\<exists>r' s' c'. relayChunks r s (Some c) = Inr (r', s', Some c') \<and> rest r' = crlf @ t
    \<and> chunks c' = chunks c @ ds"
  using assms
proof (induction ds arbitrary: r s c)
  case Nil
  then have "rest r = hex_of_nat 0 @ crlf @ crlf @ t"
    by (simp add: encode_chunks_def hex_of_nat_0)
  moreover have "CHR 0x0D \<notin> set (hex_of_nat 0)" "length (hex_of_nat 0) < MAX_LINE_BYTES"
    by (simp_all add: hex_of_nat_0 MAX_LINE_BYTES_def)
  ultimately obtain r' where "readLine r = Inr (hex_of_nat 0 @ crlf, r')" "rest r' = crlf @ t"
    using readLine_plain [of r "hex_of_nat 0" "crlf @ t"] by auto
  then show ?case
    by (simp add: relayChunks.simps [of r s] parseChunkSize_hex)
next
  case (Cons d ds)
  let ?n = "length d"
  have n: "?n < 16 ^ 15" "?n \<noteq> 0" using Cons.prems(2) by auto
  have "rest r = hex_of_nat ?n @ crlf @ (d @ crlf @ encode_chunks ds @ t)"
    using Cons.prems(1) by (simp add: encode_chunks_def encode_chunk_def)
  moreover have "CHR 0x0D \<notin> set (hex_of_nat ?n)"
    using hex_of_nat_hex [of ?n] is_hex_plain by blast
  moreover have "length (hex_of_nat ?n) < MAX_LINE_BYTES"
    using hex_of_nat_length [of ?n 14] n(1) by (simp add: MAX_LINE_BYTES_def)
  ultimately obtain r1 where r1: "readLine r = Inr (hex_of_nat ?n @ crlf, r1)"
    "rest r1 = (d @ crlf) @ encode_chunks ds @ t"
    using readLine_plain [of r "hex_of_nat ?n" "d @ crlf @ encode_chunks ds @ t"] by auto
  obtain r2 where r2: "readExact (?n + 2) r1 = Inr (d @ crlf, r2)" "rest r2 = encode_chunks ds @ t"
    using readExact_plain [OF r1(2), of "?n + 2"] by (auto simp: crlf_def)
  define c2 where "c2 = c\<lparr>chunks := chunks c @ [d], held_bytes := held_bytes c + ?n\<rparr>"
  have cap: "relayCapturedChunk r1 s1 ?n c = Inr (r2, writeAll s1 (d @ crlf), c2)" for s1
    using r2(1) Cons.prems(3) by (simp add: relayCapturedChunk_def c2_def)
  have "held_bytes c2 + length (concat ds) \<le> maxBytes c2"
    using Cons.prems(3) by (simp add: c2_def)
  from Cons.IH [OF r2(2) _ this, of "writeAll (writeAll s (hex_of_nat ?n @ crlf)) (d @ crlf)"]
    Cons.prems(2)
  obtain r' s' c' where "relayChunks r2 (writeAll (writeAll s (hex_of_nat ?n @ crlf)) (d @ crlf)) (Some c2)
      = Inr (r', s', Some c')" "rest r' = crlf @ t" "chunks c' = chunks c @ d # ds"
    by (auto simp: c2_def)
  then show ?case
    using r1(1) n cap by (simp add: relayChunks.simps [of r s] parseChunkSize_hex)
qed

lemma relayTrailers_empty:
  assumes "rest r = crlf @ t"
  shows "\<exists>r' s'. relayTrailers r s = Inr (r', s') \<and> rest r' = t"
proof -
  obtain r' where "readLine r = Inr (crlf, r')" "rest r' = t"
    using readLine_plain [of r "[]" t] assms by (auto simp: MAX_LINE_BYTES_def)
  then show ?thesis by (simp add: relayTrailers.simps [of r s] crlf_def)
qed

section \<open>Properties\<close>

text \<open>Reading through a delimiter returns the bytes up to and including its first
  occurrence in the stream, whatever the cuts between reads: resuming the search near the
  end of the old buffer never misses an occurrence and never finds a later one.\<close>

lemma readThrough_first_occurrence:
  assumes "readThrough d m t r = Inr (Some out, r')"
  shows "rest r = out @ rest r' \<and> length d \<le> length out
    \<and> indexOfSequence (rest r) d 0 = Some (length out - length d)"
  using readThrough_from_sound [OF assms [unfolded readThrough_def] searched_0] .

text \<open>A message head that fits the limit is read whole and exactly, however the bytes
  arrive: the result is a function of the stream, not of its fragmentation.\<close>

lemma readHead_total:
  assumes "indexOfSequence (rest r) CRLF_CRLF 0 = Some i" "i + 4 \<le> Suc MAX_HEAD_BYTES"
  shows "\<exists>r'. readHead r = Inr (Some (take (i + 4) (rest r)), r') \<and> rest r' = drop (i + 4) (rest r)"
proof -
  obtain out r' where o: "readThrough_from CRLF_CRLF MAX_HEAD_BYTES ''message head too large'' 0 r
      = Inr (Some out, r')"
    using readThrough_from_finds [OF assms(1), of MAX_HEAD_BYTES 0 "''message head too large''"] assms(2)
    by (auto simp: CRLF_CRLF_def crlf_def)
  from readThrough_from_sound [OF o searched_0] assms(1)
  have "rest r = out @ rest r'" "length out = i + 4"
    by (auto simp: CRLF_CRLF_def crlf_def)
  with o show ?thesis by (auto simp: readHead_def readThrough_def)
qed

text \<open>Relaying a body is transparent for every framing: the bytes written to the peer are
  exactly the bytes consumed, in order; none is added, dropped or changed.\<close>

lemma relayBody_transparent:
  assumes "relayBody r f s = Inr (r', s')"
  shows "\<exists>out. rest r = out @ rest r' \<and> written s' = written s @ out"
  using assms by (rule body.relays)

text \<open>Decoding is the inverse of the chunked coding: relaying an encoded body captures
  exactly the chunks that were sent, forwards their encoding unchanged and stops before the
  next message.\<close>

lemma relayChunked_roundtrip:
  assumes "rest r = encode_chunks ds @ t" "\<forall>d \<in> set ds. d \<noteq> [] \<and> length d < 16 ^ 15"
    "length (concat ds) \<le> m"
  shows "\<exists>r' s' c. relayChunked r (Some s) (Some (new_capture m)) = Inr (r', s', Some c)
    \<and> chunks c = ds \<and> rest r' = t \<and> written s' = written s @ encode_chunks ds"
proof -
  obtain r1 s1 c where c: "relayChunks r s (Some (new_capture m)) = Inr (r1, s1, Some c)"
    "rest r1 = crlf @ t" "chunks c = ds"
    using relayChunks_roundtrip [OF assms(1,2), of "new_capture m" s] assms(3)
    by (auto simp: new_capture_def)
  obtain r2 s2 where t: "relayTrailers r1 s1 = Inr (r2, s2)" "rest r2 = t"
    using relayTrailers_empty [OF c(2)] by blast
  have m: "rbind (relayChunks r s (Some (new_capture m))) (\<lambda>(r', s', _). Inr (r', s')) = Inr (r1, s1)"
    using c(1) by simp
  obtain out where "rest r = out @ rest r2" "written s2 = written s @ out"
    using chunk_loop.relays [OF m] relayTrailers_relays [OF t(1)] by auto
  then show ?thesis
    using c t assms(1) by (auto simp: relayChunked_def)
qed

text \<open>What a capturing relay holds in memory never exceeds its cap, and its running total
  is the size of what it holds.\<close>

lemma relayChunked_bounded:
  assumes "relayChunked r (Some s) (Some (new_capture m)) = Inr (r', s', Some c)"
  shows "length (concat (chunks c)) \<le> m \<and> held_bytes c = length (concat (chunks c))"
proof -
  from assms obtain r1 s1 where c: "relayChunks r s (Some (new_capture m)) = Inr (r1, s1, Some c)"
    by (auto simp: relayChunked_def rbind_Inr_iff)
  show ?thesis
    using relayChunks_capture_ok [OF c capture_ok_new] by (auto simp: capture_ok_def new_capture_def)
qed

end
