(* ===== verification/Json.thy ===== *)
theory Json
  imports Text_Encoding "HOL-Library.AList"
begin

text \<open>
  JSON values as the program handles them, and the runtime's \<open>JSON.parse\<close>.

  An object is the list of its entries in insertion order with distinct keys
  (\<open>from_entries\<close>: a repeated key keeps its place and takes the last value). A number is a
  decimal \<open>m * 10 ^ e\<close>; the comparisons the sources make are the ones of the double nearest
  to it (\<open>num_positive\<close>: a literal that rounds to zero is not positive). \<open>undefined\<close> is
  \<open>None\<close> of \<open>json option\<close>.
\<close>

datatype json =
    JNull
  | JBool bool
  | JNum int int
  | JStr string
  | JArr "json list"
  | JObj "(string \<times> json) list"

type_synonym fields = "(string \<times> json) list"

section \<open>Objects\<close>

definition from_entries :: "(string \<times> 'a) list \<Rightarrow> (string \<times> 'a) list" where
  "from_entries es = fold (\<lambda>(k, v). AList.update k v) es []"

definition obj_get :: "fields \<Rightarrow> string \<Rightarrow> json option" where
  "obj_get o1 k = map_of o1 k"

text \<open>\<open>v[k]\<close> where \<open>v\<close> may be any value: only objects have named fields.\<close>

fun jprop :: "json option \<Rightarrow> string \<Rightarrow> json option" where
  "jprop (Some (JObj o1)) k = obj_get o1 k"
| "jprop _ k = None"

text \<open>\<open>a ?? b\<close>: \<open>undefined\<close> and \<open>null\<close> take the default.\<close>

fun nullish :: "json option \<Rightarrow> json \<Rightarrow> json" where
  "nullish None d = d"
| "nullish (Some JNull) d = d"
| "nullish (Some v) d = v"

text \<open>Array-index keys come first in ascending order when the keys of an object are listed.\<close>

definition is_array_index :: "string \<Rightarrow> bool" where
  "is_array_index k \<longleftrightarrow> k \<noteq> [] \<and> list_all is_digit k \<and> (hd k = CHR ''0'' \<longrightarrow> length k = 1)
     \<and> nat_of_digits 10 k < 4294967295"

definition object_keys :: "fields \<Rightarrow> string list" where
  "object_keys o1 = sort_key (nat_of_digits 10) (filter is_array_index (map fst o1))
     @ filter (\<lambda>k. \<not> is_array_index k) (map fst o1)"

section \<open>Numbers\<close>

text \<open>
  The double nearest to \<open>m * 10 ^ e\<close> is zero exactly when its magnitude is at most
  \<open>2 ^ -1075\<close> (half of the smallest positive double, a tie that rounds to even).
\<close>

definition num_positive :: "int \<Rightarrow> int \<Rightarrow> bool" where
  "num_positive m e \<longleftrightarrow> (if e \<ge> 0 then m > 0 else m * 2 ^ 1075 > 10 ^ nat (- e))"

definition num_negative :: "int \<Rightarrow> int \<Rightarrow> bool" where
  "num_negative m e \<longleftrightarrow> num_positive (- m) e"

section \<open>Tokens\<close>

definition is_ws :: "char \<Rightarrow> bool" where
  "is_ws c \<longleftrightarrow> c \<in> {CHR '' '', CHR 0x09, CHR 0x0A, CHR 0x0D}"

definition skip_ws :: "string \<Rightarrow> string" where
  "skip_ws s = dropWhile is_ws s"

text \<open>The raw text of a string token after its opening quote, and what follows the closing one.\<close>

fun string_token :: "string \<Rightarrow> (string \<times> string) option" where
  "string_token [] = None"
| "string_token (c # s) =
     (if c = CHR 0x22 then Some ([], s)
      else if c = CHR 0x5C then
        (case s of [] \<Rightarrow> None
         | d # s' \<Rightarrow> map_option (\<lambda>(b, r). (c # d # b, r)) (string_token s'))
      else map_option (\<lambda>(b, r). (c # b, r)) (string_token s))"

definition simple_escape :: "char \<Rightarrow> char option" where
  "simple_escape d = map_of
     [(CHR 0x22, CHR 0x22), (CHR 0x5C, CHR 0x5C), (CHR ''/'', CHR ''/''),
      (CHR ''b'', CHR 0x08), (CHR ''f'', CHR 0x0C), (CHR ''n'', CHR 0x0A),
      (CHR ''r'', CHR 0x0D), (CHR ''t'', CHR 0x09)] d"

definition hex4 :: "string \<Rightarrow> nat option" where
  "hex4 s = (if length s \<ge> 4 \<and> list_all is_hex (take 4 s)
     then Some (nat_of_digits 16 (take 4 s)) else None)"

definition low_surrogate_escape :: "string \<Rightarrow> nat option" where
  "low_surrogate_escape s = (case s of b # u # r \<Rightarrow>
       (if b = CHR 0x5C \<and> u = CHR ''u'' then
          (case hex4 r of Some v \<Rightarrow> if 56320 \<le> v \<and> v < 57344 then Some v else None | None \<Rightarrow> None)
        else None)
     | _ \<Rightarrow> None)"

text \<open>
  The value of a token: control characters and unknown escapes are errors; two adjacent
  escapes that form a surrogate pair are one character.
\<close>

fun unescape :: "string \<Rightarrow> string option" where
  "unescape [] = Some []"
| "unescape (c # s) =
     (if code c < 32 then None
      else if c \<noteq> CHR 0x5C then map_option ((#) c) (unescape s)
      else (case s of [] \<Rightarrow> None
        | d # s' \<Rightarrow>
          (if d = CHR ''u'' then
             (case hex4 s' of None \<Rightarrow> None
              | Some u \<Rightarrow>
                (case (if 55296 \<le> u \<and> u < 56320 then low_surrogate_escape (drop 4 s') else None) of
                   Some v \<Rightarrow> map_option ((@) (utf8_of_units [u, v])) (unescape (drop 10 s'))
                 | None \<Rightarrow> map_option ((@) (utf8_of_units [u])) (unescape (drop 4 s'))))
           else (case simple_escape d of None \<Rightarrow> None
              | Some x \<Rightarrow> map_option ((#) x) (unescape s')))))"

text \<open>\<open>-?(?:0|[1-9]\d*)(?:\.\d+)?(?:[eE][+-]?\d+)?\<close> at the start of the text.\<close>

definition scan_int_part :: "string \<Rightarrow> (string \<times> string) option" where
  "scan_int_part s = (case s of [] \<Rightarrow> None
     | c # r \<Rightarrow> if c = CHR ''0'' then Some ([c], r)
         else if is_digit c then Some (takeWhile is_digit s, dropWhile is_digit s) else None)"

definition scan_frac :: "string \<Rightarrow> string \<times> string" where
  "scan_frac s = (case s of c # d # r \<Rightarrow>
       if c = CHR ''.'' \<and> is_digit d
       then (takeWhile is_digit (d # r), dropWhile is_digit (d # r)) else ([], s)
     | _ \<Rightarrow> ([], s))"

definition scan_digits :: "string \<Rightarrow> (nat \<times> string) option" where
  "scan_digits s = (if takeWhile is_digit s = [] then None
     else Some (nat_of_digits 10 (takeWhile is_digit s), dropWhile is_digit s))"

definition scan_exp :: "string \<Rightarrow> int \<times> string" where
  "scan_exp s = (case s of [] \<Rightarrow> (0, s)
     | c # r \<Rightarrow> if c = CHR ''e'' \<or> c = CHR ''E'' then
         (let (neg, r') = (case r of x # r' \<Rightarrow> if x = CHR ''-'' then (True, r')
             else if x = CHR ''+'' then (False, r') else (False, r) | [] \<Rightarrow> (False, r))
          in case scan_digits r' of None \<Rightarrow> (0, s)
             | Some (n, t) \<Rightarrow> (if neg then - int n else int n, t))
       else (0, s))"

definition scan_number :: "string \<Rightarrow> (json \<times> string) option" where
  "scan_number s =
     (let neg = starts_with ''-'' s; s1 = (if neg then tl s else s)
      in case scan_int_part s1 of None \<Rightarrow> None
         | Some (ip, s2) \<Rightarrow>
           (let (fp, s3) = scan_frac s2; (ex, s4) = scan_exp s3; m = int (nat_of_digits 10 (ip @ fp))
            in Some (JNum (if neg then - m else m) (ex - int (length fp)), s4)))"

definition literals :: "(string \<times> json) list" where
  "literals = [(''true'', JBool True), (''false'', JBool False), (''null'', JNull)]"

definition scan_scalar :: "string \<Rightarrow> (json \<times> string) option" where
  "scan_scalar s = (case filter (\<lambda>(w, _). starts_with w s) literals of
     (w, v) # _ \<Rightarrow> Some (v, drop (length w) s)
   | [] \<Rightarrow> scan_number s)"

definition scan_string :: "string \<Rightarrow> (string \<times> string) option" where
  "scan_string s = (case s of [] \<Rightarrow> None
     | q # r \<Rightarrow> if q \<noteq> CHR 0x22 then None
         else (case string_token r of None \<Rightarrow> None
           | Some (b, r') \<Rightarrow> map_option (\<lambda>v. (v, r')) (unescape b)))"

definition eat :: "char \<Rightarrow> string \<Rightarrow> string option" where
  "eat c s = (case skip_ws s of [] \<Rightarrow> None | x # r \<Rightarrow> if x = c then Some r else None)"

section \<open>JSON.parse\<close>

text \<open>
  Recursive descent with fuel: each call spends one unit and every second one consumes a
  character, so twice the length of the text plus one is enough fuel (\<open>pvalue_enough\<close>).
\<close>

fun pvalue :: "nat \<Rightarrow> string \<Rightarrow> (json \<times> string) option"
  and pmembers :: "nat \<Rightarrow> string \<Rightarrow> ((string \<times> json) list \<times> string) option"
  and pitems :: "nat \<Rightarrow> string \<Rightarrow> (json list \<times> string) option"
where
  "pvalue 0 s = None"
| "pvalue (Suc n) s =
     (case skip_ws s of
        [] \<Rightarrow> None
      | c # r \<Rightarrow>
        if c = CHR ''{'' then
          (case eat (CHR ''}'') r of
             Some r' \<Rightarrow> Some (JObj [], r')
           | None \<Rightarrow> map_option (\<lambda>(es, t). (JObj (from_entries es), t)) (pmembers n r))
        else if c = CHR ''['' then
          (case eat (CHR '']'') r of
             Some r' \<Rightarrow> Some (JArr [], r')
           | None \<Rightarrow> map_option (\<lambda>(xs, t). (JArr xs, t)) (pitems n r))
        else if c = CHR 0x22 then map_option (\<lambda>(v, t). (JStr v, t)) (scan_string (c # r))
        else scan_scalar (c # r))"
| "pmembers 0 s = None"
| "pmembers (Suc n) s =
     Option.bind (scan_string (skip_ws s)) (\<lambda>(k, s1).
     Option.bind (eat (CHR '':'') s1) (\<lambda>s2.
     Option.bind (pvalue n s2) (\<lambda>(v, s3).
       (case eat (CHR '','') s3 of
          Some s4 \<Rightarrow> map_option (\<lambda>(es, t). ((k, v) # es, t)) (pmembers n s4)
        | None \<Rightarrow> map_option (\<lambda>t. ([(k, v)], t)) (eat (CHR ''}'') s3)))))"
| "pitems 0 s = None"
| "pitems (Suc n) s =
     Option.bind (pvalue n s) (\<lambda>(v, s1).
       (case eat (CHR '','') s1 of
          Some s2 \<Rightarrow> map_option (\<lambda>(vs, t). (v # vs, t)) (pitems n s2)
        | None \<Rightarrow> map_option (\<lambda>t. ([v], t)) (eat (CHR '']'') s1)))"

definition json_parse :: "string \<Rightarrow> json option" where
  "json_parse s = (case pvalue (Suc (2 * length s)) s of
     None \<Rightarrow> None | Some (v, r) \<Rightarrow> if skip_ws r = [] then Some v else None)"

section \<open>Laws\<close>

lemma map_of_update: "map_of (AList.update k v o1) = (map_of o1)(k \<mapsto> v)"
  by (simp add: AList.update_conv')

lemma distinct_from_entries: "distinct (map fst (from_entries es))"
proof -
  have "distinct (map fst o1) \<Longrightarrow>
      distinct (map fst (fold (\<lambda>(k, v). AList.update k v) es o1))" for o1 :: "(string \<times> 'a) list"
    by (induction es arbitrary: o1) (auto intro: AList.distinct_update)
  then show ?thesis by (simp add: from_entries_def)
qed

lemma map_of_from_entries: "map_of (from_entries es) = map_of (rev es)"
proof -
  have "map_of (fold (\<lambda>(k, v). AList.update k v) es o1) = map_of o1 ++ map_of (rev es)"
    for o1 :: "(string \<times> 'a) list"
    by (induction es arbitrary: o1) (auto simp: map_of_update map_add_assoc [symmetric] fun_eq_iff map_add_def split: option.splits)
  then show ?thesis by (simp add: from_entries_def)
qed

lemma set_update_subset: "set (AList.update k v o1) \<subseteq> insert (k, v) (set o1)"
  by (induction o1) auto

lemma set_from_entries: "set (from_entries es) \<subseteq> set es"
proof -
  have "set (fold (\<lambda>(k, v). AList.update k v) es o1) \<subseteq> set es \<union> set o1" for o1 :: "(string \<times> 'a) list"
  proof (induction es arbitrary: o1)
    case (Cons e es)
    then show ?case using set_update_subset [of "fst e" "snd e" o1]
      by (cases e) fastforce
  qed simp
  from this [of "[]"] show ?thesis by (simp add: from_entries_def)
qed

lemma from_entries_distinct:
  assumes "distinct (map fst es)"
  shows "from_entries es = es"
proof -
  have "fold (\<lambda>(k, v). AList.update k v) es o1 = o1 @ es"
    if "distinct (map fst (o1 @ es))" for o1
    using that
  proof (induction es arbitrary: o1)
    case (Cons e es)
    obtain k v where e: "e = (k, v)" by (cases e)
    have "AList.update k v o1 = o1 @ [(k, v)]" if "k \<notin> fst ` set o1" for o1 :: "(string \<times> 'a) list"
      using that by (induction o1) auto
    then show ?case using Cons.IH [of "o1 @ [e]"] Cons.prems by (simp add: e)
  qed simp
  from this [of "[]"] assms show ?thesis by (simp add: from_entries_def)
qed

lemma set_object_keys [simp]: "set (object_keys o1) = fst ` set o1"
  by (auto simp: object_keys_def)

lemma length_skip_ws: "length (skip_ws s) \<le> length s"
  by (simp add: skip_ws_def length_dropWhile_le)

lemma skip_ws_idem [simp]: "skip_ws (skip_ws s) = skip_ws s"
  by (simp add: skip_ws_def)

lemma length_eat: "eat c s = Some r \<Longrightarrow> length r < length s"
  using length_skip_ws [of s] by (auto simp: eat_def split: list.splits if_splits)

lemma length_string_token: "string_token s = Some (b, r) \<Longrightarrow> length r < length s"
proof (induction s arbitrary: b r rule: string_token.induct)
  case (2 c s)
  then show ?case by (fastforce split: if_splits list.splits)
qed simp

lemma length_scan_string: "scan_string s = Some (v, r) \<Longrightarrow> length r < length s"
  by (fastforce simp: scan_string_def dest: length_string_token split: list.splits if_splits option.splits)

lemma scan_int_part_length: "scan_int_part s = Some (a, r) \<Longrightarrow> length r < length s"
  by (auto simp: scan_int_part_def is_digit_def le_imp_less_Suc length_dropWhile_le
      split: list.splits if_splits)

lemma scan_frac_length: "scan_frac s = (a, r) \<Longrightarrow> length r \<le> length s"
  by (auto simp: scan_frac_def split: list.splits if_splits)
    (metis Suc_leD Suc_le_mono le_SucI length_Cons length_dropWhile_le)+

lemma scan_digits_length: "scan_digits s = Some (a, r) \<Longrightarrow> length r \<le> length s"
  by (auto simp: scan_digits_def length_dropWhile_le split: if_splits)

lemma scan_exp_length: "scan_exp s = (a, r) \<Longrightarrow> length r \<le> length s"
  by (auto simp: scan_exp_def Let_def split: list.splits if_splits option.splits prod.splits
      dest!: scan_digits_length)

lemma scan_number_length: "scan_number s = Some (v, r) \<Longrightarrow> length r < length s"
  by (fastforce simp: scan_number_def Let_def split: option.splits prod.splits if_splits
      dest: scan_int_part_length scan_frac_length scan_exp_length)

lemma scan_scalar_length: "scan_scalar s = Some (v, r) \<Longrightarrow> length r < length s"
  by (auto simp: scan_scalar_def literals_def starts_with_iff dest: scan_number_length
      split: list.splits if_splits)

lemmas scan_lengths = length_eat length_scan_string scan_scalar_length

text \<open>What a call returns is shorter than what it was given.\<close>

lemma pvalue_shorter:
  shows "pvalue n s = Some (v, r) \<Longrightarrow> length r < length s"
    and "pmembers n s = Some (es, r) \<Longrightarrow> length r < length s"
    and "pitems n s = Some (vs, r) \<Longrightarrow> length r < length s"
proof (induction n s and n s and n s arbitrary: v r and es r and vs r
    rule: pvalue_pmembers_pitems.induct)
  case (2 n s)
  show ?case
  proof (cases "skip_ws s")
    case (Cons c t)
    moreover have "length (c # t) \<le> length s"
      using Cons length_skip_ws [of s] by simp
    ultimately show ?thesis
      using 2 by (fastforce split: if_splits option.splits dest: scan_lengths)
  qed (use 2 in simp)
next
  case (4 n s)
  then show ?case
    using length_skip_ws [of s]
    by (fastforce simp: bind_eq_Some_conv split: option.splits dest: scan_lengths)
next
  case (6 n s)
  then show ?case
    by (fastforce simp: bind_eq_Some_conv split: option.splits dest: scan_lengths)
qed auto

text \<open>With more fuel than twice the length, one more unit changes nothing.\<close>

declare pvalue.simps [simp del] pmembers.simps [simp del] pitems.simps [simp del]

lemma pvalue_step_all:
  "(\<forall>s. 2 * length s < n \<longrightarrow> pvalue (Suc n) s = pvalue n s)
   \<and> (\<forall>s. 2 * length s < n \<longrightarrow> pmembers (Suc n) s = pmembers n s)
   \<and> (\<forall>s. 2 * length s + 1 < n \<longrightarrow> pitems (Suc n) s = pitems n s)"
proof (induction n)
  case 0
  then show ?case by simp
next
  case (Suc n)
  then have V: "pvalue (Suc n) t = pvalue n t" if "2 * length t < n" for t
    using that by blast
  from Suc have M: "pmembers (Suc n) t = pmembers n t" if "2 * length t < n" for t
    using that by blast
  from Suc have I: "pitems (Suc n) t = pitems n t" if "2 * length t + 1 < n" for t
    using that by blast
  show ?case
  proof (intro conjI allI impI)
    fix s :: string assume s: "2 * length s < Suc n"
    show "pvalue (Suc (Suc n)) s = pvalue (Suc n) s"
    proof (cases "skip_ws s")
      case (Cons c t)
      then have "2 * length t + 1 < n" "2 * length t < n"
        using s length_skip_ws [of s] by simp_all
      then show ?thesis
        using Cons M [of t] I [of t] by (simp add: pvalue.simps(2) split: option.split)
    qed (simp add: pvalue.simps(2))
    show "pmembers (Suc (Suc n)) s = pmembers (Suc n) s"
      unfolding pmembers.simps(2) [of "Suc n" s] pmembers.simps(2) [of n s]
    proof (rule Option.bind_cong [OF refl], clarify, rule Option.bind_cong [OF refl],
        rule Option.bind_cong)
      fix k s1 s2
      assume "scan_string (skip_ws s) = Some (k, s1)" "eat (CHR '':'') s1 = Some s2"
      then have len: "2 * length s2 < n"
        using s length_skip_ws [of s] by (auto dest!: scan_lengths)
      then show "pvalue (Suc n) s2 = pvalue n s2" by (rule V)
      fix x assume "pvalue n s2 = Some x"
      then show "(case x of (v, s3) \<Rightarrow> case eat (CHR '','') s3 of
            None \<Rightarrow> map_option (\<lambda>t. ([(k, v)], t)) (eat (CHR ''}'') s3)
          | Some s4 \<Rightarrow> map_option (\<lambda>(es, t). ((k, v) # es, t)) (pmembers (Suc n) s4)) =
        (case x of (v, s3) \<Rightarrow> case eat (CHR '','') s3 of
            None \<Rightarrow> map_option (\<lambda>t. ([(k, v)], t)) (eat (CHR ''}'') s3)
          | Some s4 \<Rightarrow> map_option (\<lambda>(es, t). ((k, v) # es, t)) (pmembers n s4))"
        using len M
        by (cases x) (fastforce split: option.split dest: scan_lengths pvalue_shorter(1))
    qed
  next
    fix s :: string assume s: "2 * length s + 1 < Suc n"
    then show "pitems (Suc (Suc n)) s = pitems (Suc n) s"
      unfolding pitems.simps(2) [of "Suc n" s] pitems.simps(2) [of n s]
      by (fastforce intro!: Option.bind_cong V simp: I
          dest!: scan_lengths dest: pvalue_shorter(1) split: option.splits)
  qed
qed

lemma pvalue_enough:
  assumes "2 * length s < n" "n \<le> m"
  shows "pvalue m s = pvalue n s"
  using assms(2)
proof (induction rule: dec_induct)
  case (step k)
  then show ?case using pvalue_step_all [of k] assms(1) by simp
qed simp

end
