(* ===== verification/Gate_Platform.thy ===== *)
theory Gate_Platform
  imports Json Regex
begin

text \<open>
  Who a container belongs to and what the platform's own containers may do
  (\<open>orchestration/roles/docker-gate/files/platform.ts\<close>): labels, the owner classes, the
  platform's bind trees, and the rules on exec, attach, archive and export requests.
  A pattern with a captured path segment is a regular expression together with the index of
  the segment (\<open>captured\<close>): the captured part holds no slash.
\<close>

type_synonym labels = "(string \<times> string) list"

datatype owner = Platform | Tenant | Unlabeled

record platform_roots =
  ro_roots :: "string list"
  rw_roots :: "string list"

datatype platform_bind = Allowed | ConfigWritable

record exec_allowance =
  engine :: bool
  component :: "string option"
  commands :: "string list option"

datatype owned_object = OwnedVolume string | OwnedNetwork string

section \<open>Labels\<close>

definition PLATFORM_ROLES :: "string list" where
  "PLATFORM_ROLES = [''turbopanel'', ''ingress'']"

definition PLATFORM_COMPONENTS :: "string list" where
  "PLATFORM_COMPONENTS = [''hosting-ingress'', ''managed-ingress'', ''managed-ha'', ''database'',
     ''queue'', ''backup-copy'', ''backup-restore'', ''managed-files'', ''volume-copy'']"

definition LABEL_ROLE :: string where "LABEL_ROLE = ''turbopanel.role''"
definition LABEL_SYSTEM_COMPONENT :: string where
  "LABEL_SYSTEM_COMPONENT = ''com.turbopanel.system.component''"
definition LABEL_MANAGED_ENGINE :: string where "LABEL_MANAGED_ENGINE = ''tp.managed.engine''"
definition LABEL_COMPOSE_PROJECT :: string where
  "LABEL_COMPOSE_PROJECT = ''com.docker.compose.project''"

definition BACKUP_ROOT :: string where "BACKUP_ROOT = ''/backup''"

definition DEFAULT_PLATFORM_ROOTS :: platform_roots where
  "DEFAULT_PLATFORM_ROOTS =
     \<lparr>ro_roots = [''/etc/turbopanel/proxysql'', ''/etc/turbopanel/orchestrator'', BACKUP_ROOT],
      rw_roots = [''/var/lib/turbopanel/orchestrator'', ''/var/lib/turbopanel/managed'']\<rparr>"

definition DEFAULT_INGRESS_SOCKET_DIR :: string where
  "DEFAULT_INGRESS_SOCKET_DIR = ''/run/turbopanel-gate/ro''"

text \<open>
  Assigning a string to the key \<open>__proto__\<close> of an object literal sets no entry (the
  assignment reaches the prototype accessor, which ignores strings).
\<close>

definition labelsOf :: "json option \<Rightarrow> labels" where
  "labelsOf v = (case v of
     Some (JObj fs) \<Rightarrow> concat (map (\<lambda>key.
       (case obj_get fs key of
          Some (JStr item) \<Rightarrow> if key = ''__proto__'' then [] else [(key, item)]
        | _ \<Rightarrow> [])) (object_keys fs))
   | _ \<Rightarrow> [])"

text \<open>\<open>labels[key] ?? ""\<close>.\<close>

definition label_or :: "labels \<Rightarrow> string \<Rightarrow> string" where
  "label_or ls key = (case map_of ls key of None \<Rightarrow> [] | Some v \<Rightarrow> v)"

definition isIngressContainer :: "labels \<Rightarrow> bool" where
  "isIngressContainer ls \<longleftrightarrow> map_of ls LABEL_ROLE = Some ''ingress''"

definition isPlatformContainer :: "labels \<Rightarrow> bool" where
  "isPlatformContainer ls =
     (if label_or ls LABEL_MANAGED_ENGINE \<noteq> [] then True
      else label_or ls LABEL_ROLE \<in> set PLATFORM_ROLES
        \<and> label_or ls LABEL_SYSTEM_COMPONENT \<in> set PLATFORM_COMPONENTS)"

definition hasTurbopanelLabel :: "labels \<Rightarrow> bool" where
  "hasTurbopanelLabel ls =
     list_ex (\<lambda>(key, _). starts_with ''com.turbopanel.'' key \<or> key = LABEL_ROLE) ls"

definition ownerOf :: "labels \<Rightarrow> owner" where
  "ownerOf ls = (if isPlatformContainer ls then Platform
     else let project = label_or ls LABEL_COMPOSE_PROJECT
       in if project \<noteq> [] \<or> hasTurbopanelLabel ls then Tenant else Unlabeled)"

section \<open>Platform binds\<close>

definition within_tree :: "string \<Rightarrow> string \<Rightarrow> bool" where
  "within_tree path root \<longleftrightarrow> path = root \<or> starts_with (root @ ''/'') path"

definition platformBindVerdict :: "string \<Rightarrow> bool \<Rightarrow> platform_roots \<Rightarrow> platform_bind option" where
  "platformBindVerdict resolved readOnly roots =
     (if list_ex (within_tree resolved) (ro_roots roots)
      then Some (if readOnly then Allowed else ConfigWritable)
      else if list_ex (within_tree resolved) (rw_roots roots) then Some Allowed
      else None)"

section \<open>Targets\<close>

definition not_slash :: "char \<Rightarrow> bool" where
  "not_slash c \<longleftrightarrow> c \<noteq> CHR ''/''"

definition re_segment :: re where
  "re_segment = re_plus (RCls not_slash)"

definition captured :: "re \<Rightarrow> nat \<Rightarrow> string \<Rightarrow> string option" where
  "captured r i path = (if re_match r path then Some (split_on (CHR ''/'') path ! i) else None)"

definition OWNED_TARGET :: re where
  "OWNED_TARGET = re_seqs [re_str ''/containers/'', re_segment, re_str ''/'',
     re_words [''start'', ''stop'', ''restart'', ''kill'', ''pause'', ''unpause'', ''rename'',
       ''update'', ''exec'', ''attach'', ''archive'', ''wait'', ''resize'', ''export'', ''attach/ws'']]"

definition OWNED_REMOVE :: re where
  "OWNED_REMOVE = RSeq (re_str ''/containers/'') re_segment"

definition ownedTarget :: "string \<Rightarrow> string \<Rightarrow> string option" where
  "ownedTarget method path =
     (if method = ''DELETE'' then captured OWNED_REMOVE 2 path
      else if method \<in> {''POST'', ''PUT'', ''GET'', ''HEAD''}
      then (let ident = captured OWNED_TARGET 2 path
            in if ident = Some ''json'' then None else ident)
      else None)"

definition PLATFORM_EXEC_ALLOWLIST :: "exec_allowance list" where
  "PLATFORM_EXEC_ALLOWLIST =
     [\<lparr>engine = True, component = None, commands = None\<rparr>,
      \<lparr>engine = False, component = Some ''managed-ingress'', commands = Some [''mysql'']\<rparr>]"

definition PLATFORM_ATTACH_ALLOWLIST :: "string list" where
  "PLATFORM_ATTACH_ALLOWLIST =
     [''backup-copy'', ''backup-restore'', ''managed-files'', ''volume-copy'']"

definition PLATFORM_ACCESS :: re where
  "PLATFORM_ACCESS = re_seqs [re_str ''/containers/'', re_segment, re_str ''/'',
     re_words [''exec'', ''attach'', ''attach/ws'', ''archive'', ''export'']]"

text \<open>The captured access kind is all that follows the container's segment.\<close>

definition access_kind :: "string \<Rightarrow> string option" where
  "access_kind path = (if re_match PLATFORM_ACCESS path
     then Some (join_with ''/'' (drop 3 (split_on (CHR ''/'') path))) else None)"

definition execCommand :: "json option \<Rightarrow> string option" where
  "execCommand body = (case jprop body ''Cmd'' of
     Some (JArr (JStr c # _)) \<Rightarrow> Some (last (split_on (CHR ''/'') c))
   | _ \<Rightarrow> None)"

definition allowanceMatches :: "exec_allowance \<Rightarrow> labels \<Rightarrow> string option \<Rightarrow> bool" where
  "allowanceMatches allowance ls command =
     (let same = (if engine allowance then label_or ls LABEL_MANAGED_ENGINE \<noteq> []
                  else map_of ls LABEL_SYSTEM_COMPONENT = component allowance)
      in if \<not> same then False
         else (case commands allowance of
             None \<Rightarrow> True
           | Some cs \<Rightarrow> (case command of None \<Rightarrow> False | Some c \<Rightarrow> c \<in> set cs)))"

definition platformAccessRule :: "string \<Rightarrow> labels \<Rightarrow> json option \<Rightarrow> string option" where
  "platformAccessRule path ls body =
     (case access_kind path of
        None \<Rightarrow> None
      | Some kind \<Rightarrow>
        if \<not> isPlatformContainer ls then None
        else if kind = ''archive'' then Some ''platform-archive''
        else if kind = ''export'' then Some ''platform-export''
        else if kind \<noteq> ''exec'' then
          (if label_or ls LABEL_SYSTEM_COMPONENT \<in> set PLATFORM_ATTACH_ALLOWLIST then None
           else Some ''platform-attach'')
        else let command = execCommand body
          in if list_ex (\<lambda>a. allowanceMatches a ls command) PLATFORM_EXEC_ALLOWLIST then None
             else Some ''platform-exec'')"

definition OWNED_OBJECT_REMOVE :: re where
  "OWNED_OBJECT_REMOVE =
     re_seqs [re_str ''/'', re_words [''volumes'', ''networks''], re_str ''/'', re_segment]"

definition OWNED_NETWORK_ATTACH :: re where
  "OWNED_NETWORK_ATTACH = re_seqs [re_str ''/networks/'', re_segment, re_str ''/'',
     re_words [''connect'', ''disconnect'']]"

definition ownedObject :: "string \<Rightarrow> string \<Rightarrow> owned_object option" where
  "ownedObject method path =
     (if method = ''DELETE'' then
        (case captured OWNED_OBJECT_REMOVE 2 path of
           None \<Rightarrow> None
         | Some name \<Rightarrow> if name \<in> {''create'', ''prune''} then None
             else Some (if captured OWNED_OBJECT_REMOVE 1 path = Some ''volumes''
               then OwnedVolume name else OwnedNetwork name))
      else if method \<noteq> ''POST'' then None
      else map_option OwnedNetwork (captured OWNED_NETWORK_ATTACH 2 path))"

section \<open>Laws\<close>

lemma map_of_labelsOf:
  assumes "distinct (map fst fs)"
  shows "map_of (labelsOf (Some (JObj fs))) k
    = (if k = ''__proto__'' then None
       else case obj_get fs k of Some (JStr v) \<Rightarrow> Some v | _ \<Rightarrow> None)"
proof -
  define g where "g key = (case obj_get fs key of
      Some (JStr item) \<Rightarrow> if key = ''__proto__'' then [] else [(key, item)] | _ \<Rightarrow> [])" for key
  have keys: "(k, v) \<in> set (g j) \<Longrightarrow> j = k" for j k v
    by (auto simp: g_def split: option.splits json.splits if_splits)
  have "map_of (concat (map g ks)) k = (if k \<in> set ks then map_of (g k) k else None)" for ks
  proof (induction ks)
    case (Cons j ks)
    have "map_of (g j) k = None" if "j \<noteq> k"
      using that keys by (meson map_of_SomeD not_None_eq)
    then show ?case using Cons by (cases "j = k") (auto simp: map_add_def split: option.splits)
  qed simp
  moreover have "map_of (g k) k = (if k = ''__proto__'' then None
       else case obj_get fs k of Some (JStr v) \<Rightarrow> Some v | _ \<Rightarrow> None)"
    by (auto simp: g_def split: option.splits json.splits)
  moreover have "obj_get fs k = None" if "k \<notin> fst ` set fs"
    using that by (simp add: obj_get_def map_of_eq_None_iff)
  ultimately show ?thesis
    by (auto simp: labelsOf_def g_def [symmetric])
qed

lemma segment_route:
  "s \<in> lang (re_seqs [re_str p, re_segment, re_str q, re_words ws]) \<longleftrightarrow>
     (\<exists>i w. s = p @ i @ q @ w \<and> i \<noteq> [] \<and> CHR ''/'' \<notin> set i \<and> w \<in> set ws)"
proof -
  have "lang re_segment = {i. i \<noteq> [] \<and> CHR ''/'' \<notin> set i}"
    by (auto simp: re_segment_def not_slash_def)
  then show ?thesis by auto
qed

lemma split_path:
  assumes "CHR ''/'' \<notin> set a" "CHR ''/'' \<notin> set i"
  shows "split_on (CHR ''/'') (''/'' @ a @ ''/'' @ i @ ''/'' @ w) = [] # a # i # split_on (CHR ''/'') w"
  using split_on_append_sep [OF assms(1), of "i @ ''/'' @ w"] split_on_append_sep [OF assms(2), of w]
  by simp

definition access_words :: "string list" where
  "access_words = [''exec'', ''attach'', ''attach/ws'', ''archive'', ''export'']"

lemma access_kind_iff:
  "access_kind path = Some kind \<longleftrightarrow>
     (\<exists>i. path = ''/containers/'' @ i @ ''/'' @ kind \<and> i \<noteq> [] \<and> CHR ''/'' \<notin> set i
        \<and> kind \<in> set access_words)"
proof -
  have m: "re_match PLATFORM_ACCESS path \<longleftrightarrow> (\<exists>i w. path = ''/containers/'' @ i @ ''/'' @ w
      \<and> i \<noteq> [] \<and> CHR ''/'' \<notin> set i \<and> w \<in> set access_words)"
    unfolding re_match_iff PLATFORM_ACCESS_def segment_route access_words_def ..
  have d: "join_with ''/'' (drop 3 (split_on (CHR ''/'') (''/containers/'' @ i @ ''/'' @ w))) = w"
    if "CHR ''/'' \<notin> set i" for i w
    using split_path [of "''containers''" i w] that by simp
  show ?thesis
  proof
    assume "access_kind path = Some kind"
    then show "\<exists>i. path = ''/containers/'' @ i @ ''/'' @ kind \<and> i \<noteq> [] \<and> CHR ''/'' \<notin> set i
        \<and> kind \<in> set access_words"
      unfolding access_kind_def by (metis d m option.distinct(1) option.inject)
  next
    assume "\<exists>i. path = ''/containers/'' @ i @ ''/'' @ kind \<and> i \<noteq> [] \<and> CHR ''/'' \<notin> set i
        \<and> kind \<in> set access_words"
    then show "access_kind path = Some kind"
      unfolding access_kind_def by (metis d m)
  qed
qed

lemma within_tree_trans: "within_tree a b \<Longrightarrow> within_tree b c \<Longrightarrow> within_tree a c"
  by (auto simp: within_tree_def starts_with_iff)

text \<open>The whole table of platform access: a request that touches a container by exec,
  attach, archive or export is refused exactly when the container is the platform's own, with
  the two exceptions the table lists (exec into a managed engine, or of \<open>mysql\<close> in the
  managed ingress; attach to a helper container).\<close>

lemma platformAccessRule_table:
  assumes "CHR ''/'' \<notin> set i" "i \<noteq> []" "kind \<in> set access_words"
  shows "platformAccessRule (''/containers/'' @ i @ ''/'' @ kind) ls body =
    (if \<not> isPlatformContainer ls then None
     else if kind = ''archive'' then Some ''platform-archive''
     else if kind = ''export'' then Some ''platform-export''
     else if kind = ''exec'' then
       (if label_or ls LABEL_MANAGED_ENGINE \<noteq> []
          \<or> label_or ls LABEL_SYSTEM_COMPONENT = ''managed-ingress''
            \<and> execCommand body = Some ''mysql''
        then None else Some ''platform-exec'')
     else if label_or ls LABEL_SYSTEM_COMPONENT \<in> set PLATFORM_ATTACH_ALLOWLIST then None
     else Some ''platform-attach'')"
proof -
  have k: "access_kind (''/containers/'' @ i @ ''/'' @ kind) = Some kind"
    using assms access_kind_iff by blast
  have "list_ex (\<lambda>a. allowanceMatches a ls c) PLATFORM_EXEC_ALLOWLIST \<longleftrightarrow>
      label_or ls LABEL_MANAGED_ENGINE \<noteq> []
      \<or> label_or ls LABEL_SYSTEM_COMPONENT = ''managed-ingress'' \<and> c = Some ''mysql''" for c
    by (auto simp: PLATFORM_EXEC_ALLOWLIST_def allowanceMatches_def label_or_def Let_def
        split: option.splits)
  then show ?thesis
    unfolding platformAccessRule_def k by (simp add: Let_def)
qed

end
