(* ===== verification/Gate_Policy.thy ===== *)
theory Gate_Policy
  imports Gate_Platform
begin

text \<open>
  The strict-profile policy of the Docker gate
  (\<open>orchestration/roles/docker-gate/files/policy.ts\<close>), function by function: the route table,
  the bind checks, the mount, namespace, capability and field rules of a container create, the
  re-check at start, and \<open>evaluateDetailed\<close>, which collects every finding of a request.

  \<open>resolvePath\<close> is an argument, as in the source; \<open>Inl\<close> is a rejected promise. A host
  configuration is the field list of its object. The only expression of the file that can
  throw on parsed JSON is \<open>String(option[0])\<close> in the check of tmpfs options (an object that
  has a field named \<open>toString\<close> cannot be converted), so the functions from there up return
  results.
\<close>

datatype violation = Violation (rule: string) (detail: "string option")

record policy_config =
  bindRoots :: "string list"
  principalRoots :: "string list"
  denyPrefixes :: "string list"
  dockerSockets :: "string list"
  capAllowlist :: "string list"
  platform :: platform_roots
  ingressSocketDir :: string

definition DEFAULT_POLICY_CONFIG :: policy_config where
  "DEFAULT_POLICY_CONFIG =
     \<lparr>bindRoots = [''/srv/users'', ''/var/lib/turbopanel/storage''],
      principalRoots = [''/srv/users''],
      denyPrefixes = [''/etc'', ''/var/run'', ''/run'', ''/proc'', ''/sys'', ''/dev'', ''/root'',
        ''/boot'', ''/opt/turbopanel'', BACKUP_ROOT],
      dockerSockets = [''/var/run/docker.sock'', ''/run/docker.sock''],
      capAllowlist = [],
      platform = DEFAULT_PLATFORM_ROOTS,
      ingressSocketDir = DEFAULT_INGRESS_SOCKET_DIR\<rparr>"

type_synonym resolve_path = "string \<Rightarrow> (string, string) result"

record request_facts =
  facts_method :: string
  facts_path :: string
  facts_query :: query
  facts_body :: "json option"
  facts_plainBody :: "json option"
  facts_formBody :: bool
  facts_bodyError :: "string option"

record route_info =
  route :: string
  needsBody :: bool

record verdict =
  violations :: "violation list"
  allowances :: "string list"

section \<open>Routes\<close>

text \<open>
  \<open>/^\\/v[0-9.]+(?=\\/)/\<close>: the run of digits and dots after \<open>/v\<close> is followed by a slash, which
  is not in the run, so the match is the whole run. \<open>version_rest\<close> is what follows it.
\<close>

definition version_char :: "char \<Rightarrow> bool" where
  "version_char c \<longleftrightarrow> is_digit c \<or> c = CHR ''.''"

definition version_rest :: "string \<Rightarrow> string option" where
  "version_rest rawPath =
     (if starts_with ''/v'' rawPath \<and> takeWhile version_char (drop 2 rawPath) \<noteq> []
         \<and> starts_with ''/'' (dropWhile version_char (drop 2 rawPath))
      then Some (dropWhile version_char (drop 2 rawPath)) else None)"

definition re_any :: re where
  "re_any = RStar (RCls (\<lambda>_. True))"

definition CANONICAL_VERSION_PREFIX :: re where
  "CANONICAL_VERSION_PREFIX = re_seqs [re_str ''/v'', re_plus (RCls is_digit), re_str ''.'',
     re_plus (RCls is_digit), re_str ''/'', re_any]"

definition routePath :: "string \<Rightarrow> string" where
  "routePath rawPath = (case version_rest rawPath of None \<Rightarrow> rawPath | Some r \<Rightarrow> r)"

definition versionPrefixIsCanonical :: "string \<Rightarrow> bool" where
  "versionPrefixIsCanonical rawPath =
     (if version_rest rawPath = None then True
      else if \<not> re_match CANONICAL_VERSION_PREFIX rawPath then False
      else version_rest (routePath rawPath) = None)"

record route_rule =
  rr_methods :: "string list"
  rr_pattern :: re
  rr_route :: string
  rr_needsBody :: bool

definition re_ID :: re where
  "re_ID = re_plus re_dot"

definition mk_rule :: "string list \<Rightarrow> re list \<Rightarrow> string \<Rightarrow> route_rule" where
  "mk_rule ms ps r = \<lparr>rr_methods = ms, rr_pattern = re_seqs ps, rr_route = r, rr_needsBody = False\<rparr>"

definition ROUTES :: "route_rule list" where
  "ROUTES =
     [mk_rule [''GET'', ''POST'', ''DELETE'']
        [re_str ''/'', re_opt (re_seqs [re_str ''containers/'', re_ID, re_str ''/'']),
         re_str ''checkpoints'', re_opt (RSeq (re_str ''/'') (RStar re_dot))] ''restricted-group'',
      (mk_rule [''POST''] [re_str ''/containers/create''] ''containers.create'')\<lparr>rr_needsBody := True\<rparr>,
      (mk_rule [''POST''] [re_str ''/containers/'', re_ID, re_str ''/exec'']
        ''containers.exec.create'')\<lparr>rr_needsBody := True\<rparr>,
      (mk_rule [''POST''] [re_str ''/networks/create''] ''networks.create'')\<lparr>rr_needsBody := True\<rparr>,
      (mk_rule [''POST''] [re_str ''/volumes/create''] ''volumes.create'')\<lparr>rr_needsBody := True\<rparr>,
      mk_rule [''POST''] [re_str ''/build''] ''build'',
      mk_rule [''POST''] [re_str ''/commit''] ''commit'',
      mk_rule [''POST''] [re_str ''/session''] ''session'',
      mk_rule [''POST''] [re_str ''/grpc''] ''grpc'',
      mk_rule [''PUT''] [re_str ''/containers/'', re_ID, re_str ''/archive''] ''containers.archive.put'',
      mk_rule [''GET'', ''HEAD''] [re_str ''/containers/'', re_ID, re_str ''/archive'']
        ''containers.archive.get'',
      mk_rule [''POST''] [re_str ''/containers/'', re_ID, re_str ''/attach''] ''containers.attach'',
      mk_rule [''POST''] [re_str ''/containers/'', re_ID, re_str ''/'',
         re_words [''start'', ''stop'', ''restart'', ''kill'', ''pause'', ''unpause'', ''wait'',
           ''resize'', ''rename'', ''update'']] ''containers.action'',
      mk_rule [''POST''] [re_str ''/exec/'', re_ID, re_str ''/'', re_words [''start'', ''resize'']]
        ''exec.start'',
      mk_rule [''DELETE''] [re_str ''/containers/'', re_ID] ''containers.remove'',
      mk_rule [''DELETE''] [re_str ''/'', re_words [''networks'', ''volumes''], re_str ''/'', re_ID]
        ''object.remove'',
      mk_rule [''DELETE''] [re_str ''/images/'', re_plus re_dot] ''object.remove'',
      mk_rule [''POST''] [re_str ''/images/create''] ''images.pull'',
      mk_rule [''POST''] [re_str ''/images/load''] ''images.load'',
      mk_rule [''POST''] [re_str ''/images/'', re_plus re_dot, re_str ''/'', re_words [''push'', ''tag'']]
        ''images.write'',
      mk_rule [''POST''] [re_str ''/networks/'', re_ID, re_str ''/'',
         re_words [''connect'', ''disconnect'']] ''networks.attach'',
      mk_rule [''POST''] [re_str ''/'',
         re_words [''containers'', ''images'', ''networks'', ''volumes'', ''build''],
         re_str ''/prune''] ''prune'',
      mk_rule [''POST''] [re_str ''/auth''] ''auth'',
      mk_rule [''PUT''] [re_str ''/volumes/'', re_ID] ''restricted-group'']"

definition MUTATING_GROUPS :: re where
  "MUTATING_GROUPS = re_seqs [re_str ''/'',
     re_words [''plugins'', ''swarm'', ''nodes'', ''services'', ''tasks'', ''secrets'', ''configs'', ''debug''],
     re_opt (RSeq (re_str ''/'') re_any)]"

definition READ_ROUTES :: "re list" where
  "READ_ROUTES =
     [RSeq (re_str ''/'') (re_words [''_ping'', ''version'', ''info'', ''events'', ''networks'',
        ''volumes'', ''plugins'']),
      re_str ''/system/df'',
      RSeq (re_str ''/distribution/'') (re_plus re_dot),
      re_str ''/containers/json'',
      re_seqs [re_str ''/containers/'', re_ID, re_str ''/'', re_words [''json'', ''top'', ''logs'',
        ''changes'', ''export'', ''stats'', ''attach/ws'']],
      re_seqs [re_str ''/exec/'', re_ID, re_str ''/json''],
      RSeq (re_str ''/images/'') (re_words [''json'', ''search'', ''get'']),
      re_seqs [re_str ''/images/'', re_plus re_dot, re_str ''/'', re_words [''json'', ''history'', ''get'']],
      re_seqs [re_str ''/'', re_words [''networks'', ''volumes''], re_str ''/'', re_ID],
      re_seqs [re_str ''/plugins/'', re_ID, re_str ''/json'']]"

definition rule_matches :: "string \<Rightarrow> string \<Rightarrow> route_rule \<Rightarrow> bool" where
  "rule_matches method path r \<longleftrightarrow> method \<in> set (rr_methods r) \<and> re_match (rr_pattern r) path"

definition classifyRoute :: "string \<Rightarrow> string \<Rightarrow> route_info" where
  "classifyRoute method rawPath =
     (let path = routePath rawPath
      in case find (rule_matches method path) ROUTES of
          Some r \<Rightarrow> \<lparr>route = rr_route r, needsBody = rr_needsBody r\<rparr>
        | None \<Rightarrow>
          if method \<in> {''GET'', ''HEAD''} \<and> list_ex (\<lambda>p. re_match p path) READ_ROUTES
          then \<lparr>route = ''read'', needsBody = False\<rparr>
          else if re_match MUTATING_GROUPS path
          then \<lparr>route = ''restricted-group'', needsBody = False\<rparr>
          else \<lparr>route = ''unclassified'', needsBody = False\<rparr>)"

section \<open>Values\<close>

fun isRecord :: "json option \<Rightarrow> bool" where
  "isRecord (Some (JObj _)) = True"
| "isRecord _ = False"

fun record_or_empty :: "json option \<Rightarrow> fields" where
  "record_or_empty (Some (JObj fs)) = fs"
| "record_or_empty _ = []"

fun stringList :: "json option \<Rightarrow> string list" where
  "stringList (Some (JArr xs)) =
     concat (map (\<lambda>x. case x of JStr s \<Rightarrow> [s] | _ \<Rightarrow> []) xs)"
| "stringList _ = []"

fun isPresent :: "json option \<Rightarrow> bool" where
  "isPresent None = False"
| "isPresent (Some JNull) = False"
| "isPresent (Some (JStr s)) = (s \<noteq> [])"
| "isPresent (Some (JArr xs)) = (xs \<noteq> [])"
| "isPresent (Some (JObj fs)) = (fs \<noteq> [])"
| "isPresent (Some _) = True"

text \<open>The records among the elements of an array field (empty when it is no array).\<close>

fun record_items :: "json option \<Rightarrow> fields list" where
  "record_items (Some (JArr xs)) =
     concat (map (\<lambda>x. case x of JObj fs \<Rightarrow> [fs] | _ \<Rightarrow> []) xs)"
| "record_items _ = []"

section \<open>Paths\<close>

definition pathIsCanonical :: "string \<Rightarrow> bool" where
  "pathIsCanonical path =
     (if CHR 0x00 \<in> set path \<or> CHR 0x5C \<in> set path \<or> includes_str ''//'' path then False
      else \<not> list_ex (\<lambda>seg. seg = ''..'' \<or> seg = ''.'') (split_on (CHR ''/'') path))"

definition normalize_parts :: "string list \<Rightarrow> string list \<Rightarrow> string list" where
  "normalize_parts segs out = fold (\<lambda>seg out.
     if seg = [] \<or> seg = ''.'' then out else if seg = ''..'' then butlast out else out @ [seg])
     segs out"

definition normalizeAbsolute :: "string \<Rightarrow> string" where
  "normalizeAbsolute path =
     ''/'' @ join_with ''/'' (normalize_parts (split_on (CHR ''/'') path) [])"

definition within :: "string \<Rightarrow> string \<Rightarrow> bool" where
  "within path root = (if root = ''/'' then True
     else path = root \<or> starts_with (root @ ''/'') path)"

definition PRINCIPAL_DATA_AREAS :: "string list" where
  "PRINCIPAL_DATA_AREAS = [''data'', ''tmp'']"

definition PRINCIPAL_NOT_SCOPES :: "string list" where
  "PRINCIPAL_NOT_SCOPES = [''home'', ''tmp'', ''services'', ''volumes'', ''data'', ''sites'',
     ''backup'', ''backups'', ''logs'', ''cache'', ''run'', ''var'', ''etc'', ''bin'', ''root'',
     ''public'', ''releases'', ''current'', ''shared'', ''lost-found'', ''tmp-staging'', ''base'']"

definition PRINCIPAL_SITE_AREAS :: "string list" where
  "PRINCIPAL_SITE_AREAS = [''shared'', ''webroot'', ''releases'']"

definition lower_or_digit :: "char \<Rightarrow> bool" where
  "lower_or_digit c \<longleftrightarrow> is_lower c \<or> is_digit c"

definition SCOPE_NAME :: re where
  "SCOPE_NAME = RSeq (RCls lower_or_digit)
     (re_rep 0 31 (RCls (\<lambda>c. lower_or_digit c \<or> c = CHR ''_'' \<or> c = CHR ''-'')))"

definition principal_allowed :: "string list \<Rightarrow> bool" where
  "principal_allowed parts = (case parts of
     [] \<Rightarrow> False
   | owner # areas \<Rightarrow>
     \<not> starts_with ''.'' owner \<and> (case areas of
       [] \<Rightarrow> False
     | area # rest \<Rightarrow>
       area \<in> set PRINCIPAL_DATA_AREAS
       \<or> area = ''volumes'' \<and> length rest \<ge> 1
       \<or> length rest \<ge> 2 \<and> rest ! 0 = ''volumes'' \<and> area \<notin> set PRINCIPAL_NOT_SCOPES
         \<and> re_match SCOPE_NAME area
       \<or> area = ''sites'' \<and> length rest \<ge> 2 \<and> rest ! 1 \<in> set PRINCIPAL_SITE_AREAS))"

definition principalViolation :: "string \<Rightarrow> policy_config \<Rightarrow> violation option" where
  "principalViolation resolved config = (case find (within resolved) (principalRoots config) of
     None \<Rightarrow> None
   | Some root \<Rightarrow>
     if principal_allowed (filter (\<lambda>part. part \<noteq> [])
          (split_on (CHR ''/'') (drop (length root) resolved)))
     then None else Some (Violation ''bind-principal-path'' (Some resolved)))"

definition bindViolation :: "string \<Rightarrow> policy_config \<Rightarrow> violation option" where
  "bindViolation resolved config =
     (if resolved = ''/'' then Some (Violation ''bind-host-root'' (Some resolved))
      else if resolved \<in> set (dockerSockets config)
      then Some (Violation ''bind-docker-socket'' (Some resolved))
      else if list_ex (within resolved) (denyPrefixes config)
      then Some (Violation ''bind-forbidden-path'' (Some resolved))
      else if \<not> list_ex (within resolved) (bindRoots config)
      then Some (Violation ''bind-outside-roots'' (Some resolved))
      else principalViolation resolved config)"

section \<open>Bind sources\<close>

record bind_entry =
  bind_source :: string
  bind_readOnly :: bool

record bind_outcome =
  outcome_violation :: "violation option"
  outcome_allowance :: "string option"

record bind_context =
  ctx_config :: policy_config
  ctx_resolvePath :: resolve_path
  ctx_platform :: bool
  ctx_ingress :: bool

definition no_outcome :: bind_outcome where
  "no_outcome = \<lparr>outcome_violation = None, outcome_allowance = None\<rparr>"

definition isIngressSocketBind :: "string \<Rightarrow> bind_entry \<Rightarrow> bind_context \<Rightarrow> bool" where
  "isIngressSocketBind resolved entry ctx \<longleftrightarrow> ctx_ingress ctx \<and> bind_readOnly entry
     \<and> resolved = ingressSocketDir (ctx_config ctx)"

definition platformOutcome :: "string \<Rightarrow> bind_entry \<Rightarrow> bind_context \<Rightarrow> bind_outcome option" where
  "platformOutcome resolved entry ctx =
     (if \<not> ctx_platform ctx then None
      else case platformBindVerdict resolved (bind_readOnly entry) (platform (ctx_config ctx)) of
          Some Allowed \<Rightarrow> Some (no_outcome\<lparr>outcome_allowance := Some ''platform-bind''\<rparr>)
        | Some ConfigWritable \<Rightarrow> Some (no_outcome\<lparr>outcome_violation :=
            Some (Violation ''platform-config-writable'' (Some resolved))\<rparr>)
        | None \<Rightarrow> None)"

definition resolvedSource :: "string \<Rightarrow> resolve_path \<Rightarrow> string" where
  "resolvedSource src resolvePath = (case resolvePath src of
     Inr p \<Rightarrow> normalizeAbsolute p | Inl _ \<Rightarrow> normalizeAbsolute src)"

definition checkBindSource :: "bind_entry \<Rightarrow> bind_context \<Rightarrow> bind_outcome" where
  "checkBindSource entry ctx =
     (let src = bind_source entry
      in if \<not> starts_with ''/'' src then no_outcome
         else if \<not> pathIsCanonical src
         then no_outcome\<lparr>outcome_violation :=
           Some (Violation ''bind-noncanonical-path'' (Some (normalizeAbsolute src)))\<rparr>
         else let resolved = resolvedSource src (ctx_resolvePath ctx)
           in if isIngressSocketBind resolved entry ctx
              then no_outcome\<lparr>outcome_allowance := Some ''ingress-socket''\<rparr>
              else case platformOutcome resolved entry ctx of
                  Some outcome \<Rightarrow> outcome
                | None \<Rightarrow> no_outcome\<lparr>outcome_violation := bindViolation resolved (ctx_config ctx)\<rparr>)"

text \<open>\<open>spec.split(":")[2] ?? ""\<close>, split at commas.\<close>

definition bind_options :: "string \<Rightarrow> string list" where
  "bind_options spec = (let parts = split_on (CHR '':'') spec
     in split_on (CHR '','') (if length parts > 2 then parts ! 2 else []))"

definition bindIsReadOnly :: "string \<Rightarrow> bool" where
  "bindIsReadOnly spec \<longleftrightarrow> ''ro'' \<in> set (bind_options spec)"

definition bindEntries :: "fields \<Rightarrow> bind_entry list" where
  "bindEntries hostConfig =
     map (\<lambda>bind. \<lparr>bind_source = hd (split_on (CHR '':'') bind), bind_readOnly = bindIsReadOnly bind\<rparr>)
       (stringList (obj_get hostConfig ''Binds''))
     @ concat (map (\<lambda>mount. if obj_get mount ''Type'' = Some (JStr ''bind'')
         then [\<lparr>bind_source = (case obj_get mount ''Source'' of Some (JStr s) \<Rightarrow> s | _ \<Rightarrow> []),
                bind_readOnly = (obj_get mount ''ReadOnly'' = Some (JBool True))\<rparr>]
         else []) (record_items (obj_get hostConfig ''Mounts'')))"

section \<open>Volumes\<close>

definition isLocalDriver :: "json option \<Rightarrow> bool" where
  "isLocalDriver name \<longleftrightarrow>
     name \<in> {None, Some JNull, Some (JStr []), Some (JStr ''local'')}"

fun string_or :: "string \<Rightarrow> json option \<Rightarrow> string" where
  "string_or d (Some (JStr s)) = s"
| "string_or d _ = d"

definition driverViolation :: "json option \<Rightarrow> violation option" where
  "driverViolation name = (if isLocalDriver name then None
     else Some (Violation ''volume-driver'' (Some (string_or ''<non-string>'' name))))"

record volume_mount =
  vm_device :: string
  vm_type :: string
  vm_bind :: bool
  vm_present :: bool

definition volumeMountOptions :: "json option \<Rightarrow> volume_mount" where
  "volumeMountOptions opts =
     (if \<not> isRecord opts then \<lparr>vm_device = [], vm_type = [], vm_bind = False, vm_present = False\<rparr>
      else let device = string_or [] (jprop opts ''device''); type = string_or [] (jprop opts ''type'');
               options = map js_trim (split_on (CHR '','') (string_or [] (jprop opts ''o'')))
        in \<lparr>vm_device = device, vm_type = type,
            vm_bind = list_ex (\<lambda>x. x = ''bind'' \<or> x = ''rbind'') options \<or> type = ''none'',
            vm_present = (device \<noteq> [] \<or> type \<noteq> [] \<or> list_ex (\<lambda>x. x \<noteq> []) options)\<rparr>)"

definition checkVolumeDevice :: "json option \<Rightarrow> policy_config \<Rightarrow> resolve_path \<Rightarrow> violation list" where
  "checkVolumeDevice opts config resolvePath =
     (let mount = volumeMountOptions opts
      in if \<not> vm_present mount then []
         else if vm_bind mount \<and> starts_with ''/'' (vm_device mount)
         then (case outcome_violation (checkBindSource
                 \<lparr>bind_source = vm_device mount, bind_readOnly = False\<rparr>
                 \<lparr>ctx_config = config, ctx_resolvePath = resolvePath, ctx_platform = False,
                  ctx_ingress = False\<rparr>) of
             None \<Rightarrow> []
           | Some v \<Rightarrow> [Violation (''volume-'' @ rule v) (detail v)])
         else if starts_with ''/'' (vm_device mount)
         then [Violation ''volume-device'' (Some (vm_device mount))]
         else if vm_bind mount \<or> vm_type mount \<noteq> ''tmpfs''
         then [Violation ''volume-mount-type''
                (Some (if vm_type mount = [] then ''<none>'' else vm_type mount))]
         else [])"

text \<open>Driver name and options of every \<open>Mounts\<close> entry of type volume.\<close>

definition volumeMounts :: "fields \<Rightarrow> (json option \<times> json option) list" where
  "volumeMounts hostConfig =
     map (\<lambda>mount. let config = jprop (obj_get mount ''VolumeOptions'') ''DriverConfig''
            in (jprop config ''Name'', jprop config ''Options''))
       (filter (\<lambda>mount. obj_get mount ''Type'' = Some (JStr ''volume''))
         (record_items (obj_get hostConfig ''Mounts'')))"

section \<open>Mounts\<close>

definition SAFE_MOUNT_TYPES :: "string list" where
  "SAFE_MOUNT_TYPES = [''bind'', ''volume'', ''tmpfs'']"

definition SAFE_PROPAGATION :: "string list" where
  "SAFE_PROPAGATION = [[], ''private'', ''rprivate'']"

definition SHARED_PROPAGATION :: re where
  "SHARED_PROPAGATION = RSeq (re_opt (re_str ''r'')) (re_words [''shared'', ''slave''])"

definition checkBindStrings :: "fields \<Rightarrow> violation list" where
  "checkBindStrings hostConfig =
     map (\<lambda>_. Violation ''bind-propagation'' None)
       (filter (\<lambda>bind. list_ex (re_match SHARED_PROPAGATION) (bind_options bind))
         (stringList (obj_get hostConfig ''Binds'')))"

definition is_letter :: "char \<Rightarrow> bool" where
  "is_letter c \<longleftrightarrow> is_lower c \<or> is_upper c"

definition fieldDetail :: "string \<Rightarrow> string" where
  "fieldDetail key = (if re_match (re_rep 1 40 (RCls is_letter)) key then key else ''<odd>'')"

definition checkMountEntry :: "fields \<Rightarrow> violation list" where
  "checkMountEntry mount =
     (case obj_get mount ''Type'' of
        Some (JStr type) \<Rightarrow> if type \<in> set SAFE_MOUNT_TYPES then []
          else [Violation ''mount-type'' (Some (fieldDetail type))]
      | _ \<Rightarrow> [Violation ''mount-type'' (Some ''<non-string>'')])
     @ (let bindOptions = obj_get mount ''BindOptions'';
            propagation = (if isRecord bindOptions
              then nullish (jprop bindOptions ''Propagation'') (JStr []) else JStr [])
        in case propagation of
            JStr p \<Rightarrow> if p \<in> set SAFE_PROPAGATION then [] else [Violation ''bind-propagation'' None]
          | _ \<Rightarrow> [Violation ''bind-propagation'' None])"

definition checkMountKinds :: "fields \<Rightarrow> violation list" where
  "checkMountKinds hostConfig = checkBindStrings hostConfig
     @ concat (map checkMountEntry (record_items (obj_get hostConfig ''Mounts'')))"

definition subpathViolation :: "fields \<Rightarrow> violation list" where
  "subpathViolation mount =
     (let options = obj_get mount ''VolumeOptions'';
          subpath = (if isRecord options then nullish (jprop options ''Subpath'') (JStr []) else JStr [])
      in case subpath of
          JStr p \<Rightarrow> if p = [] then []
            else if starts_with ''/'' p \<or> ''..'' \<in> set (split_on (CHR ''/'') p)
            then [Violation ''volume-subpath'' None] else []
        | _ \<Rightarrow> [Violation ''volume-subpath'' None])"

definition SAFE_TMPFS_OPTIONS :: "string list" where
  "SAFE_TMPFS_OPTIONS = [''noexec'', ''exec'', ''nosuid'', ''nodev'', ''ro'', ''rw'']"

text \<open>
  Whether \<open>String(v)\<close> is one of these words. An array converts to its elements joined with
  commas, so only an array of one element can; a number, a boolean, \<open>null\<close> and an object do
  not. An object with a field \<open>toString\<close>, which is never callable in parsed JSON, throws.
\<close>

fun is_safe_word :: "json \<Rightarrow> (string, bool) result" where
  "is_safe_word (JStr s) = Inr (s \<in> set SAFE_TMPFS_OPTIONS)"
| "is_safe_word (JArr xs) = rbind (rmap_list is_safe_word xs) (\<lambda>bs.
     Inr (case bs of [b] \<Rightarrow> b | _ \<Rightarrow> False))"
| "is_safe_word (JObj fs) =
     (if obj_get fs ''toString'' \<noteq> None then Inl ''TypeError'' else Inr False)"
| "is_safe_word _ = Inr False"

fun tmpfs_option_unsafe :: "json \<Rightarrow> (string, bool) result" where
  "tmpfs_option_unsafe (JArr (x # _)) = rbind (is_safe_word x) (\<lambda>b. Inr (\<not> b))"
| "tmpfs_option_unsafe _ = Inr True"

definition tmpfsOptionViolations :: "fields \<Rightarrow> (string, violation list) result" where
  "tmpfsOptionViolations mount =
     (let tmpfs = obj_get mount ''TmpfsOptions'';
          options = (if isRecord tmpfs then nullish (jprop tmpfs ''Options'') (JArr []) else JArr [])
      in case options of
          JArr xs \<Rightarrow> rbind (rmap_list tmpfs_option_unsafe xs) (\<lambda>bs.
            Inr (map (\<lambda>_. Violation ''tmpfs-options'' None) (filter (\<lambda>b. b) bs)))
        | _ \<Rightarrow> Inr [Violation ''tmpfs-options'' None])"

definition checkMountOptions :: "fields \<Rightarrow> (string, violation list) result" where
  "checkMountOptions hostConfig =
     rbind (rmap_list (\<lambda>mount. rbind (tmpfsOptionViolations mount) (\<lambda>vs.
         Inr (subpathViolation mount @ vs))) (record_items (obj_get hostConfig ''Mounts'')))
       (\<lambda>vss. Inr (concat vss))"

fun option_list :: "'a option \<Rightarrow> 'a list" where
  "option_list None = []"
| "option_list (Some x) = [x]"

definition checkMounts :: "fields \<Rightarrow> bind_context \<Rightarrow> (string, verdict) result" where
  "checkMounts hostConfig ctx =
     (let outcomes = map (\<lambda>entry. checkBindSource entry ctx) (bindEntries hostConfig);
          mounts = volumeMounts hostConfig
      in rbind (checkMountOptions hostConfig) (\<lambda>options. Inr
        \<lparr>violations = concat (map (\<lambda>oc. option_list (outcome_violation oc)) outcomes)
           @ option_list (driverViolation (obj_get hostConfig ''VolumeDriver''))
           @ concat (map (\<lambda>(driver, _). option_list (driverViolation driver)) mounts)
           @ concat (map (\<lambda>(_, opts). checkVolumeDevice opts (ctx_config ctx) (ctx_resolvePath ctx)) mounts)
           @ options,
         allowances = concat (map (\<lambda>oc. option_list (outcome_allowance oc)) outcomes)\<rparr>))"

section \<open>Security options and namespaces\<close>

definition word_char :: "char \<Rightarrow> bool" where
  "word_char c \<longleftrightarrow> is_alnum c \<or> c = CHR ''_''"

definition WEAKENING_SECURITY_OPTS :: re where
  "WEAKENING_SECURITY_OPTS =
     RSeq (re_words [''seccomp'', ''apparmor'', ''label'', ''systempaths'', ''no-new-privileges''])
       (re_opt (RSeq (RCls (\<lambda>c. \<not> word_char c)) re_any))"

text \<open>\<open>option.split(/[=:]/, 2)\<close>: the text up to the first separator and up to the second.\<close>

definition eq_or_colon :: "char \<Rightarrow> bool" where
  "eq_or_colon c \<longleftrightarrow> c = CHR ''='' \<or> c = CHR '':''"

definition securityOptDetail :: "string \<Rightarrow> string" where
  "securityOptDetail opt =
     (let key = takeWhile (\<lambda>c. \<not> eq_or_colon c) opt;
          value = takeWhile (\<lambda>c. \<not> eq_or_colon c) (drop 1 (dropWhile (\<lambda>c. \<not> eq_or_colon c) opt))
      in if value \<in> set [''unconfined'', ''disable'', ''false'', ''true'', ''default'']
         then key @ ''='' @ value else key @ ''=<value>'')"

definition isSafeSecurityOpt :: "string \<Rightarrow> bool" where
  "isSafeSecurityOpt opt =
     re_match (RSeq (re_str ''no-new-privileges'')
       (re_opt (RSeq (RCls eq_or_colon) (re_str ''true'')))) opt"

definition checkSecurityOpt :: "fields \<Rightarrow> violation list" where
  "checkSecurityOpt hostConfig =
     map (\<lambda>opt. Violation
         (if re_match WEAKENING_SECURITY_OPTS opt then ''security-opt-weakened''
          else ''security-opt-unknown'') (Some (securityOptDetail opt)))
       (filter (\<lambda>opt. \<not> isSafeSecurityOpt opt) (stringList (obj_get hostConfig ''SecurityOpt'')))"

fun namespaceViolation :: "string \<Rightarrow> json option \<Rightarrow> violation option" where
  "namespaceViolation r (Some (JStr mode)) =
     (if mode = ''host'' then Some (Violation (r @ ''-host'') (Some mode))
      else if starts_with ''container:'' mode
      then Some (Violation (r @ ''-container'') (Some ''container:<id>''))
      else None)"
| "namespaceViolation r _ = None"

definition NAMESPACES :: "(string \<times> string) list" where
  "NAMESPACES = [(''network-mode'', ''NetworkMode''), (''pid-mode'', ''PidMode''),
     (''ipc-mode'', ''IpcMode''), (''userns-mode'', ''UsernsMode''), (''uts-mode'', ''UTSMode''),
     (''cgroupns-mode'', ''CgroupnsMode'')]"

definition checkNamespaces :: "fields \<Rightarrow> violation list" where
  "checkNamespaces hostConfig =
     concat (map (\<lambda>(r, field). option_list (namespaceViolation r (obj_get hostConfig field))) NAMESPACES)"

section \<open>Fields\<close>

definition BANNED_HOSTCONFIG_FIELDS :: "(string \<times> string) list" where
  "BANNED_HOSTCONFIG_FIELDS = [(''Devices'', ''devices''), (''DeviceCgroupRules'', ''device-cgroup-rules''),
     (''DeviceRequests'', ''device-requests''), (''CgroupParent'', ''cgroup-parent''),
     (''Sysctls'', ''sysctls''), (''VolumesFrom'', ''volumes-from''), (''Cgroup'', ''cgroup-join''),
     (''Links'', ''links''), (''Annotations'', ''annotations'')]"

definition BANNED_IF_SENT :: "(string \<times> string) list" where
  "BANNED_IF_SENT = [(''MaskedPaths'', ''masked-paths''), (''ReadonlyPaths'', ''readonly-paths'')]"

definition BANNED_IF_POSITIVE :: "(string \<times> string) list" where
  "BANNED_IF_POSITIVE =
     [(''CpuRealtimePeriod'', ''cpu-realtime''), (''CpuRealtimeRuntime'', ''cpu-realtime'')]"

definition BENIGN_HOSTCONFIG_FIELDS :: "string list" where
  "BENIGN_HOSTCONFIG_FIELDS = [''AutoRemove'', ''BlkioDeviceReadBps'', ''BlkioDeviceReadIOps'',
     ''BlkioDeviceWriteBps'', ''BlkioDeviceWriteIOps'', ''BlkioWeight'', ''BlkioWeightDevice'',
     ''CapDrop'', ''ConsoleSize'', ''ContainerIDFile'', ''CpuCount'', ''CpuPercent'', ''CpuPeriod'',
     ''CpuQuota'', ''CpuShares'', ''CpusetCpus'', ''CpusetMems'', ''Dns'', ''DnsOptions'',
     ''DnsSearch'', ''ExtraHosts'', ''IOMaximumBandwidth'', ''IOMaximumIOps'', ''Init'',
     ''Isolation'', ''KernelMemoryTCP'', ''Memory'', ''MemoryReservation'', ''MemorySwap'',
     ''MemorySwappiness'', ''NanoCpus'', ''OomKillDisable'', ''PidsLimit'', ''PortBindings'',
     ''PublishAllPorts'', ''ReadonlyRootfs'', ''RestartPolicy'', ''ShmSize'', ''StorageOpt'',
     ''Tmpfs'', ''Ulimits'']"

definition RULED_HOSTCONFIG_FIELDS :: "string list" where
  "RULED_HOSTCONFIG_FIELDS = map fst BANNED_HOSTCONFIG_FIELDS @ map fst BANNED_IF_SENT
     @ map fst BANNED_IF_POSITIVE
     @ [''Binds'', ''CapAdd'', ''Capabilities'', ''CgroupnsMode'', ''GroupAdd'', ''IpcMode'',
        ''LogConfig'', ''Mounts'', ''NetworkMode'', ''OomScoreAdj'', ''PidMode'', ''Privileged'',
        ''Runtime'', ''SecurityOpt'', ''UTSMode'', ''UsernsMode'', ''VolumeDriver'']"

definition SAFE_LOG_DRIVERS :: "string list" where
  "SAFE_LOG_DRIVERS = [[], ''json-file'', ''local'', ''none'']"

definition checkLogConfig :: "fields \<Rightarrow> violation list" where
  "checkLogConfig hostConfig =
     (let logConfig = obj_get hostConfig ''LogConfig''
      in if \<not> isRecord logConfig then []
         else case nullish (jprop logConfig ''Type'') (JStr []) of
             JStr type \<Rightarrow> if type \<in> set SAFE_LOG_DRIVERS then []
               else [Violation ''log-driver'' (Some type)]
           | _ \<Rightarrow> [Violation ''log-driver'' (Some ''<non-string>'')])"

definition checkUnknownFields :: "fields \<Rightarrow> violation list" where
  "checkUnknownFields hostConfig =
     map (\<lambda>key. Violation ''hostconfig-unknown-field'' (Some (fieldDetail key)))
       (filter (\<lambda>key. key \<notin> set BENIGN_HOSTCONFIG_FIELDS \<and> key \<notin> set RULED_HOSTCONFIG_FIELDS)
         (object_keys hostConfig))"

fun positive_number :: "json option \<Rightarrow> bool" where
  "positive_number (Some (JNum m e)) = num_positive m e"
| "positive_number _ = False"

fun negative_number :: "json option \<Rightarrow> bool" where
  "negative_number (Some (JNum m e)) = num_negative m e"
| "negative_number _ = False"

definition checkPresentFields :: "fields \<Rightarrow> violation list" where
  "checkPresentFields hostConfig =
     concat (map (\<lambda>(field, r). if isPresent (obj_get hostConfig field) then [Violation r None] else [])
       BANNED_HOSTCONFIG_FIELDS)
     @ concat (map (\<lambda>(field, r).
         if obj_get hostConfig field \<noteq> None \<and> obj_get hostConfig field \<noteq> Some JNull
         then [Violation r None] else []) BANNED_IF_SENT)
     @ concat (map (\<lambda>(field, r).
         if positive_number (obj_get hostConfig field) then [Violation r None] else [])
       BANNED_IF_POSITIVE)"

definition GID :: re where
  "GID = RSeq (RCls (\<lambda>c. is_digit c \<and> c \<noteq> CHR ''0'')) (re_rep 0 9 (RCls is_digit))"

definition checkGroupAdd :: "fields \<Rightarrow> bool \<Rightarrow> violation list" where
  "checkGroupAdd hostConfig isPlat =
     (let groups = stringList (obj_get hostConfig ''GroupAdd'')
      in if groups = [] then []
         else if isPlat \<and> list_all (re_match GID) groups then []
         else [Violation ''group-add'' None])"

definition checkScalarFields :: "fields \<Rightarrow> violation list" where
  "checkScalarFields hostConfig =
     (if obj_get hostConfig ''Privileged'' = Some (JBool True) then [Violation ''privileged'' None] else [])
     @ (if negative_number (obj_get hostConfig ''OomScoreAdj'')
        then [Violation ''oom-score-adj'' None] else [])
     @ (case obj_get hostConfig ''Runtime'' of
          Some (JStr runtime) \<Rightarrow> if runtime \<noteq> [] \<and> runtime \<noteq> ''runc''
            then [Violation ''runtime'' (Some runtime)] else []
        | _ \<Rightarrow> [])"

definition cap_name :: "string \<Rightarrow> string" where
  "cap_name cap = (let u = js_upper cap in if starts_with ''CAP_'' u then drop 4 u else u)"

definition checkCapabilities :: "fields \<Rightarrow> policy_config \<Rightarrow> violation list" where
  "checkCapabilities hostConfig config =
     map (\<lambda>name. Violation ''cap-add'' (Some name))
       (filter (\<lambda>name. name \<notin> set (capAllowlist config))
         (map cap_name (stringList (obj_get hostConfig ''CapAdd'')
           @ stringList (obj_get hostConfig ''Capabilities''))))"

definition checkHostConfigFlags :: "fields \<Rightarrow> policy_config \<Rightarrow> bool \<Rightarrow> violation list" where
  "checkHostConfigFlags hostConfig config isPlat =
     checkScalarFields hostConfig @ checkGroupAdd hostConfig isPlat
     @ checkPresentFields hostConfig @ checkCapabilities hostConfig config
     @ checkLogConfig hostConfig @ checkUnknownFields hostConfig"

section \<open>Requests\<close>

definition body_unparseable :: violation where
  "body_unparseable = Violation ''body-unparseable'' None"

definition plain :: "violation list \<Rightarrow> verdict" where
  "plain vs = \<lparr>violations = vs, allowances = []\<rparr>"

definition evaluateContainerCreate :: "json option \<Rightarrow> policy_config \<Rightarrow> resolve_path \<Rightarrow> (string, verdict) result" where
  "evaluateContainerCreate body config resolvePath =
     (if \<not> isRecord body then Inr (plain [body_unparseable])
      else let hostConfig = record_or_empty (jprop body ''HostConfig'');
               ls = labelsOf (jprop body ''Labels'');
               isPlat = isPlatformContainer ls
        in rbind (checkMounts hostConfig
             \<lparr>ctx_config = config, ctx_resolvePath = resolvePath, ctx_platform = isPlat,
              ctx_ingress = isIngressContainer ls\<rparr>) (\<lambda>mounts. Inr
          \<lparr>violations = checkHostConfigFlags hostConfig config isPlat @ checkNamespaces hostConfig
             @ checkSecurityOpt hostConfig @ checkMountKinds hostConfig @ violations mounts,
           allowances = allowances mounts\<rparr>))"

record start_doc =
  doc_labels :: labels
  doc_hostConfig :: fields
  doc_mounts :: "json list"

definition violation_key :: "violation \<Rightarrow> string" where
  "violation_key v = rule v @ CHR 0x00 # (case detail v of None \<Rightarrow> [] | Some d \<Rightarrow> d)"

fun start_rules :: "string list \<Rightarrow> violation list \<Rightarrow> violation list" where
  "start_rules seen [] = []"
| "start_rules seen (v # vs) =
     (if violation_key v \<in> set seen then start_rules seen vs
      else Violation (''start-'' @ rule v) (detail v) # start_rules (violation_key v # seen) vs)"

fun array_or_empty :: "json option \<Rightarrow> json list" where
  "array_or_empty (Some (JArr xs)) = xs"
| "array_or_empty _ = []"

definition evaluateStartBinds :: "start_doc \<Rightarrow> policy_config \<Rightarrow> resolve_path \<Rightarrow> (string, verdict) result" where
  "evaluateStartBinds doc config resolvePath =
     (let specs = array_or_empty (obj_get (doc_hostConfig doc) ''Mounts'');
          hostConfig = AList.update ''Mounts'' (JArr (specs @ doc_mounts doc)) (doc_hostConfig doc)
      in rbind (checkMounts hostConfig
           \<lparr>ctx_config = config, ctx_resolvePath = resolvePath,
            ctx_platform = isPlatformContainer (doc_labels doc),
            ctx_ingress = isIngressContainer (doc_labels doc)\<rparr>) (\<lambda>found.
        Inr \<lparr>violations = start_rules [] (violations found), allowances = allowances found\<rparr>))"

definition evaluateExecCreate :: "json option \<Rightarrow> violation list" where
  "evaluateExecCreate body =
     (if \<not> isRecord body then [body_unparseable]
      else if jprop body ''Privileged'' = Some (JBool True) then [Violation ''exec-privileged'' None]
      else [])"

definition SAFE_NETWORK_DRIVERS :: "string list" where
  "SAFE_NETWORK_DRIVERS = [[], ''bridge'']"

definition evaluateNetworkCreate :: "json option \<Rightarrow> violation list" where
  "evaluateNetworkCreate body =
     (if \<not> isRecord body then [body_unparseable]
      else let driver = string_or [] (jprop body ''Driver'')
        in if driver \<in> set SAFE_NETWORK_DRIVERS then [] else [Violation ''network-driver'' (Some driver)])"

definition evaluateVolumeCreate :: "json option \<Rightarrow> policy_config \<Rightarrow> resolve_path \<Rightarrow> violation list" where
  "evaluateVolumeCreate body config resolvePath =
     (if \<not> isRecord body then [body_unparseable]
      else case driverViolation (jprop body ''Driver'') of
          Some v \<Rightarrow> [v]
        | None \<Rightarrow> checkVolumeDevice (jprop body ''DriverOpts'') config resolvePath)"

definition evaluateBuild :: "query \<Rightarrow> violation list" where
  "evaluateBuild query =
     (if query_get query ''networkmode'' = Some ''host'' then [Violation ''build-host-network'' None] else [])
     @ (case query_get query ''cgroupparent'' of
          None \<Rightarrow> []
        | Some p \<Rightarrow> if p = [] then [] else [Violation ''build-cgroup-parent'' None])"

definition firstSegment :: "string \<Rightarrow> string" where
  "firstSegment path = (let parts = split_on (CHR ''/'') (routePath path)
     in if length parts > 1 then parts ! 1 else [])"

definition evaluateByRoute :: "string \<Rightarrow> request_facts \<Rightarrow> policy_config \<Rightarrow> resolve_path \<Rightarrow> (string, verdict) result" where
  "evaluateByRoute r facts config resolvePath =
     (if r = ''containers.create'' then evaluateContainerCreate (facts_body facts) config resolvePath
      else if r = ''containers.exec.create'' then Inr (plain (evaluateExecCreate (facts_body facts)))
      else if r = ''networks.create'' then Inr (plain (evaluateNetworkCreate (facts_body facts)))
      else if r = ''volumes.create''
      then Inr (plain (evaluateVolumeCreate (facts_body facts) config resolvePath))
      else if r = ''build'' then Inr (plain (evaluateBuild (facts_query facts)))
      else if r = ''containers.archive.put'' then Inr (plain [Violation ''archive-put'' None])
      else if r = ''unclassified'' then Inr (plain [Violation ''unclassified-route'' None])
      else if r = ''restricted-group''
      then Inr (plain [Violation ''restricted-api-group'' (Some (firstSegment (facts_path facts)))])
      else Inr (plain []))"

definition path_findings :: "request_facts \<Rightarrow> violation list" where
  "path_findings facts =
     (if pathIsCanonical (facts_path facts) then [] else [Violation ''path-noncanonical'' None])
     @ (if versionPrefixIsCanonical (facts_path facts) then [] else [Violation ''path-version-prefix'' None])
     @ (if facts_formBody facts then [Violation ''form-encoded-body'' None] else [])"

definition evaluateDetailed :: "request_facts \<Rightarrow> policy_config \<Rightarrow> resolve_path \<Rightarrow> (string, verdict) result" where
  "evaluateDetailed facts config resolvePath =
     (case facts_bodyError facts of
        Some reason \<Rightarrow> Inr \<lparr>violations = path_findings facts
            @ [Violation ''body-unparseable'' (Some reason)], allowances = []\<rparr>
      | None \<Rightarrow> rbind (evaluateByRoute (route (classifyRoute (facts_method facts) (facts_path facts)))
            facts config resolvePath) (\<lambda>found.
          Inr \<lparr>violations = path_findings facts @ violations found, allowances = allowances found\<rparr>))"

definition evaluateRequest :: "request_facts \<Rightarrow> policy_config \<Rightarrow> resolve_path \<Rightarrow> (string, violation list) result" where
  "evaluateRequest facts config resolvePath =
     rbind (evaluateDetailed facts config resolvePath) (\<lambda>v. Inr (violations v))"

end
