(* ===== verification/Gate_Resolve.thy ===== *)
theory Gate_Resolve
  imports Prelude
begin

text \<open>
  Where a host path lands (\<open>orchestration/roles/docker-gate/files/resolve.ts\<close>): the walk
  over the components of a bind source that follows symbolic links and keeps a missing
  component as written. The file system is a parameter, the \<open>PathProbe\<close> of the source: its
  two calls may throw. The walk ends because every link uses one of the forty hops and every
  other step one pending component.

  The laws read the path strings through \<open>path_of\<close>, the string of a list of components.
\<close>

datatype path_kind = Link | Other

record path_probe =
  probe_kind :: "string \<Rightarrow> (string, path_kind option) result"
  probe_readLink :: "string \<Rightarrow> (string, string) result"

definition MAX_SYMLINK_HOPS :: nat where "MAX_SYMLINK_HOPS = 40"

definition parentOf :: "string \<Rightarrow> string" where
  "parentOf path = (case last_index_of (CHR ''/'') path of
     None \<Rightarrow> ''/''
   | Some pos \<Rightarrow> if pos = 0 then ''/'' else take pos path)"

definition childOf :: "string \<Rightarrow> string \<Rightarrow> string" where
  "childOf base name = (if base = ''/'' then ''/'' @ name else base @ ''/'' @ name)"

definition segments :: "string \<Rightarrow> string list" where
  "segments path = filter (\<lambda>part. part \<noteq> [] \<and> part \<noteq> ''.'') (split_on (CHR ''/'') path)"

record walk =
  pending :: "string list"
  resolved :: string
  hops :: nat
  walk_done :: "string option"

definition appendRest :: "string \<Rightarrow> string list \<Rightarrow> string" where
  "appendRest base parts =
     fold (\<lambda>part out. if part = ''..'' then parentOf out else childOf out part) parts base"

definition walkOne :: "path_probe \<Rightarrow> walk \<Rightarrow> (string, walk) result" where
  "walkOne probe w = (case pending w of
     [] \<Rightarrow> Inr w
   | name # later \<Rightarrow>
     if name = ''..'' then Inr (w\<lparr>pending := later, resolved := parentOf (resolved w)\<rparr>)
     else let following = childOf (resolved w) name
       in rbind (probe_kind probe following) (\<lambda>kind.
         (case kind of
            None \<Rightarrow> Inr (w\<lparr>pending := later, walk_done := Some (appendRest following later)\<rparr>)
          | Some Other \<Rightarrow> Inr (w\<lparr>pending := later, resolved := following\<rparr>)
          | Some Link \<Rightarrow>
            if Suc (hops w) > MAX_SYMLINK_HOPS then Inl ''too many symbolic links''
            else rbind (probe_readLink probe following) (\<lambda>target.
              Inr (w\<lparr>pending := segments target @ later, hops := Suc (hops w),
                     resolved := if starts_with ''/'' target then ''/'' else resolved w\<rparr>)))))"

function walkAll :: "path_probe \<Rightarrow> walk \<Rightarrow> (string, walk) result" where
  "walkAll probe w = (if walk_done w \<noteq> None \<or> pending w = [] then Inr w
     else rbind (walkOne probe w) (walkAll probe))"
  by pat_completeness auto

lemma walkOne_cases [consumes 2, case_names up missing other link]:
  assumes "walkOne probe w = Inr w'" "pending w = name # later"
  obtains "name = ''..''" "w' = w\<lparr>pending := later, resolved := parentOf (resolved w)\<rparr>"
  | "name \<noteq> ''..''" "probe_kind probe (childOf (resolved w) name) = Inr None"
    "w' = w\<lparr>pending := later, walk_done := Some (appendRest (childOf (resolved w) name) later)\<rparr>"
  | "name \<noteq> ''..''" "probe_kind probe (childOf (resolved w) name) = Inr (Some Other)"
    "w' = w\<lparr>pending := later, resolved := childOf (resolved w) name\<rparr>"
  | target where "name \<noteq> ''..''" "probe_kind probe (childOf (resolved w) name) = Inr (Some Link)"
    "hops w < MAX_SYMLINK_HOPS" "probe_readLink probe (childOf (resolved w) name) = Inr target"
    "w' = w\<lparr>pending := segments target @ later, hops := Suc (hops w),
         resolved := if starts_with ''/'' target then ''/'' else resolved w\<rparr>"
proof (cases "name = ''..''")
  case True
  then show thesis using assms that(1) by (simp add: walkOne_def)
next
  case False
  then obtain kind where k: "probe_kind probe (childOf (resolved w) name) = Inr kind"
    using assms by (auto simp: walkOne_def rbind_Inr_iff Let_def)
  show thesis
  proof (cases kind)
    case None
    then show thesis using assms k False that(2) by (simp add: walkOne_def)
  next
    case (Some x)
    then show thesis using assms k False that(3,4)
      by (cases x) (auto simp: walkOne_def rbind_Inr_iff not_less less_Suc_eq_le Suc_le_eq split: if_splits)
  qed
qed

lemma walkOne_decreases:
  assumes "walkOne probe w = Inr w'" "pending w = name # later"
  shows "MAX_SYMLINK_HOPS - hops w' < MAX_SYMLINK_HOPS - hops w
    \<or> hops w' = hops w \<and> length (pending w') < length (pending w)"
  using assms by (cases rule: walkOne_cases) (simp_all add: assms(2))

termination walkAll
  by (relation "(\<lambda>(probe, w). MAX_SYMLINK_HOPS - hops w) <*mlex*>
        measure (\<lambda>(probe, w). length (pending w))")
    (auto simp: wf_mlex mlex_prod_def neq_Nil_conv dest: walkOne_decreases)

declare walkAll.simps [simp del]

definition resolveBindPath :: "path_probe \<Rightarrow> string \<Rightarrow> (string, string) result" where
  "resolveBindPath probe path =
     rbind (walkAll probe \<lparr>pending = segments path, resolved = ''/'', hops = 0, walk_done = None\<rparr>)
       (\<lambda>w. Inr (case walk_done w of Some d \<Rightarrow> d | None \<Rightarrow> resolved w))"

section \<open>Paths as component lists\<close>

definition path_of :: "string list \<Rightarrow> string" where
  "path_of cs = (if cs = [] then ''/'' else concat (map ((#) (CHR ''/'')) cs))"

definition plain_part :: "string \<Rightarrow> bool" where
  "plain_part c \<longleftrightarrow> c \<noteq> [] \<and> c \<noteq> ''.'' \<and> c \<noteq> ''..'' \<and> CHR ''/'' \<notin> set c"

lemma path_of_eq_root: "list_all plain_part cs \<Longrightarrow> path_of cs = ''/'' \<longleftrightarrow> cs = []"
  by (cases cs) (auto simp: path_of_def plain_part_def)

lemma childOf_path_of:
  "list_all plain_part cs \<Longrightarrow> childOf (path_of cs) c = path_of (cs @ [c])"
  using path_of_eq_root [of cs] by (auto simp: childOf_def path_of_def)

lemma last_index_of_append:
  "c \<notin> set b \<Longrightarrow> last_index_of c (a @ c # b) = Some (length a)"
proof -
  assume "c \<notin> set b"
  then have "index_of c (rev b @ c # rev a) = Some (length b)"
    by (induction b rule: rev_induct) auto
  then show ?thesis by (simp add: last_index_of_def)
qed

lemma parentOf_path_of:
  "list_all plain_part cs \<Longrightarrow> parentOf (path_of cs) = path_of (butlast cs)"
proof (cases cs rule: rev_cases)
  case (snoc ds c)
  assume "list_all plain_part cs"
  with snoc have "CHR ''/'' \<notin> set c" "list_all plain_part ds" by (auto simp: plain_part_def)
  moreover have p: "path_of cs = concat (map ((#) (CHR ''/'')) ds) @ CHR ''/'' # c"
    by (simp add: path_of_def snoc)
  ultimately have "last_index_of (CHR ''/'') (path_of cs) = Some (length (concat (map ((#) (CHR ''/'')) ds)))"
    by (simp add: last_index_of_append)
  then show ?thesis
    by (cases ds) (auto simp: parentOf_def p snoc, simp_all add: path_of_def)
qed (simp add: parentOf_def path_of_def last_index_of_def)

lemma segments_parts: "p \<in> set (segments path) \<Longrightarrow> p = ''..'' \<or> plain_part p"
  by (auto simp: segments_def plain_part_def dest: split_on_no_sep)

lemma appendRest_path_of:
  assumes "list_all plain_part cs" "\<forall>p \<in> set parts. p = ''..'' \<or> plain_part p"
  shows "\<exists>ds. list_all plain_part ds \<and> appendRest (path_of cs) parts = path_of ds"
  using assms
proof (induction parts arbitrary: cs)
  case (Cons p parts)
  have "list_all plain_part (butlast cs)"
    using Cons.prems(1) by (auto simp: list_all_iff dest: in_set_butlastD)
  then show ?case
    using Cons.IH [of "butlast cs"] Cons.IH [of "cs @ [p]"] Cons.prems
    by (auto simp: appendRest_def parentOf_path_of childOf_path_of)
qed (auto simp: appendRest_def)

lemma appendRest_plain:
  assumes "list_all plain_part cs" "list_all plain_part parts"
  shows "appendRest (path_of cs) parts = path_of (cs @ parts)"
  using assms
proof (induction parts arbitrary: cs)
  case (Cons p parts)
  then have "p \<noteq> ''..''" by (simp add: plain_part_def)
  then show ?case using Cons.IH [of "cs @ [p]"] Cons.prems
    by (simp add: appendRest_def childOf_path_of)
qed (simp add: appendRest_def)

section \<open>The walk\<close>

definition walk_ok :: "walk \<Rightarrow> bool" where
  "walk_ok w \<longleftrightarrow> (\<forall>p \<in> set (pending w). p = ''..'' \<or> plain_part p)
     \<and> (\<exists>cs. list_all plain_part cs \<and> resolved w = path_of cs)
     \<and> (\<forall>d. walk_done w = Some d \<longrightarrow> (\<exists>cs. list_all plain_part cs \<and> d = path_of cs))
     \<and> hops w \<le> MAX_SYMLINK_HOPS"

lemma path_of_Nil: "path_of [] = ''/''"
  by (simp add: path_of_def)

lemma walkOne_ok:
  assumes "walk_ok w" "walkOne probe w = Inr w'"
  shows "walk_ok w'"
proof -
  from assms(1) obtain cs where cs: "list_all plain_part cs" "resolved w = path_of cs"
    by (auto simp: walk_ok_def)
  then have up: "list_all plain_part (butlast cs)" "parentOf (resolved w) = path_of (butlast cs)"
    by (auto simp: list_all_iff parentOf_path_of dest: in_set_butlastD)
  have root: "\<exists>ds. list_all plain_part ds \<and> ''/'' = path_of ds"
    using path_of_Nil by (intro exI [of _ "[]"]) simp
  show ?thesis
  proof (cases "pending w")
    case (Cons name later)
    then have later: "\<forall>p \<in> set later. p = ''..'' \<or> plain_part p" and name: "name = ''..'' \<or> plain_part name"
      using assms(1) by (auto simp: walk_ok_def)
    have down: "list_all plain_part (cs @ [name])" "childOf (resolved w) name = path_of (cs @ [name])"
      if "name \<noteq> ''..''" using that name cs childOf_path_of by auto
    from assms(2) Cons show ?thesis
    proof (cases rule: walkOne_cases)
      case missing
      then show ?thesis using assms(1) later down appendRest_path_of [OF down(1) later]
        by (auto simp: walk_ok_def)
    next
      case (link target)
      then show ?thesis using assms(1) later root by (auto simp: walk_ok_def dest: segments_parts)
    next
      case other
      then have "\<exists>ds. list_all plain_part ds \<and> resolved w' = path_of ds"
        using down by (intro exI [of _ "cs @ [name]"]) simp
      then show ?thesis using assms(1) later other by (simp add: walk_ok_def)
    qed (use assms(1) later up in \<open>auto simp: walk_ok_def\<close>)
  qed (use assms in \<open>simp add: walkOne_def\<close>)
qed

lemma walkAll_ok: "walk_ok w \<Longrightarrow> walkAll probe w = Inr w' \<Longrightarrow> walk_ok w' \<and> (walk_done w' \<noteq> None \<or> pending w' = [])"
proof (induction probe w rule: walkAll.induct)
  case (1 probe w)
  show ?case
  proof (cases "walk_done w \<noteq> None \<or> pending w = []")
    case False
    then obtain w1 where "walkOne probe w = Inr w1" "walkAll probe w1 = Inr w'"
      using 1 by (auto simp: walkAll.simps [of probe w] rbind_Inr_iff)
    then show ?thesis using 1 False walkOne_ok by blast
  qed (use 1 in \<open>auto simp: walkAll.simps [of probe w]\<close>)
qed

definition start_walk :: "string \<Rightarrow> walk" where
  "start_walk path = \<lparr>pending = segments path, resolved = ''/'', hops = 0, walk_done = None\<rparr>"

lemma start_walk_ok: "walk_ok (start_walk path)"
  using segments_parts path_of_Nil
  by (auto simp: walk_ok_def start_walk_def intro!: exI [of _ "[]"])

text \<open>
  A file system: nothing exists below a path that does not exist. \<open>settled\<close> says that no
  leading part of a path is a symbolic link.
\<close>

definition tree_probe :: "path_probe \<Rightarrow> bool" where
  "tree_probe probe \<longleftrightarrow> (\<forall>cs c. probe_kind probe (path_of cs) = Inr None \<longrightarrow>
     probe_kind probe (path_of (cs @ [c])) = Inr None)"

definition direct_links :: "path_probe \<Rightarrow> bool" where
  "direct_links probe \<longleftrightarrow> (\<forall>p t. probe_readLink probe p = Inr t \<longrightarrow> ''..'' \<notin> set (segments t))"

definition settled :: "path_probe \<Rightarrow> string list \<Rightarrow> bool" where
  "settled probe cs \<longleftrightarrow> (\<forall>n. 0 < n \<longrightarrow> n \<le> length cs \<longrightarrow>
     probe_kind probe (path_of (take n cs)) \<noteq> Inr (Some Link))"

lemma settled_snoc:
  "settled probe (cs @ [c]) \<longleftrightarrow> settled probe cs \<and> probe_kind probe (path_of (cs @ [c])) \<noteq> Inr (Some Link)"
  unfolding settled_def by (auto simp: le_Suc_eq)

lemma settled_missing:
  assumes "tree_probe probe" "settled probe cs" "cs \<noteq> []" "probe_kind probe (path_of cs) = Inr None"
  shows "settled probe (cs @ ds)"
  using assms
proof (induction ds arbitrary: cs)
  case (Cons d ds)
  from Cons.prems have "probe_kind probe (path_of (cs @ [d])) = Inr None"
    by (auto simp: tree_probe_def)
  with Cons.IH [of "cs @ [d]"] Cons.prems show ?case by (simp add: settled_snoc)
qed simp

definition walk_settled :: "path_probe \<Rightarrow> walk \<Rightarrow> bool" where
  "walk_settled probe w \<longleftrightarrow> list_all plain_part (pending w)
     \<and> (\<exists>cs. list_all plain_part cs \<and> settled probe cs \<and> resolved w = path_of cs)
     \<and> (\<forall>d. walk_done w = Some d \<longrightarrow>
          (\<exists>cs. list_all plain_part cs \<and> settled probe cs \<and> d = path_of cs))"

lemma segments_plain: "''..'' \<notin> set (segments t) \<Longrightarrow> list_all plain_part (segments t)"
  using segments_parts by (auto simp: list_all_iff)

lemma walkOne_settled:
  assumes "tree_probe probe" "direct_links probe" "walk_settled probe w" "walkOne probe w = Inr w'"
  shows "walk_settled probe w'"
proof -
  from assms(3) obtain cs where cs: "list_all plain_part cs" "settled probe cs" "resolved w = path_of cs"
    by (auto simp: walk_settled_def)
  have root: "\<exists>ds. list_all plain_part ds \<and> settled probe ds \<and> ''/'' = path_of ds"
    using path_of_Nil by (intro exI [of _ "[]"]) (simp add: settled_def)
  show ?thesis
  proof (cases "pending w")
    case (Cons name later)
    then have later: "list_all plain_part later" and name: "plain_part name"
      using assms(3) by (auto simp: walk_settled_def)
    have child: "childOf (resolved w) name = path_of (cs @ [name])"
      using cs childOf_path_of by simp
    have dd: "name \<noteq> ''..''" using name by (simp add: plain_part_def)
    have down: "list_all plain_part (cs @ [name])" using cs name by simp
    from assms(4) Cons show ?thesis
    proof (cases rule: walkOne_cases)
      case missing
      have "appendRest (path_of (cs @ [name])) later = path_of ((cs @ [name]) @ later)"
        using down later by (rule appendRest_plain)
      moreover have "settled probe ((cs @ [name]) @ later)"
        using settled_missing [of probe "cs @ [name]" later] missing child assms(1) cs
        by (simp add: settled_snoc)
      moreover have "list_all plain_part ((cs @ [name]) @ later)" using down later by simp
      ultimately have "\<exists>es. list_all plain_part es \<and> settled probe es \<and> walk_done w' = Some (path_of es)"
        using missing child by (intro exI [of _ "(cs @ [name]) @ later"]) simp
      then show ?thesis
        using assms(3) missing later by (auto simp: walk_settled_def)
    next
      case other
      then have "settled probe (cs @ [name])" using cs child by (simp add: settled_snoc)
      then have "\<exists>es. list_all plain_part es \<and> settled probe es \<and> resolved w' = path_of es"
        using other child down by (intro exI [of _ "cs @ [name]"]) simp
      then show ?thesis using assms(3) other later by (auto simp: walk_settled_def)
    next
      case (link target)
      then have "list_all plain_part (segments target)"
        using assms(2) by (auto simp: direct_links_def intro: segments_plain)
      then show ?thesis using assms(3) link later root by (auto simp: walk_settled_def)
    qed (use dd in simp)
  qed (use assms in \<open>simp add: walkOne_def\<close>)
qed

lemma walkAll_settled:
  "tree_probe probe \<Longrightarrow> direct_links probe \<Longrightarrow> walk_settled probe w \<Longrightarrow> walkAll probe w = Inr w' \<Longrightarrow>
     walk_settled probe w'"
proof (induction probe w rule: walkAll.induct)
  case (1 probe w)
  show ?case
  proof (cases "walk_done w \<noteq> None \<or> pending w = []")
    case False
    then obtain w1 where "walkOne probe w = Inr w1" "walkAll probe w1 = Inr w'"
      using 1 by (auto simp: walkAll.simps [of probe w] rbind_Inr_iff)
    then show ?thesis using 1 False walkOne_settled by blast
  qed (use 1 in \<open>auto simp: walkAll.simps [of probe w]\<close>)
qed

section \<open>Properties\<close>

lemma resolveBindPath_walk:
  "resolveBindPath probe path = rbind (walkAll probe (start_walk path))
     (\<lambda>w. Inr (case walk_done w of Some d \<Rightarrow> d | None \<Rightarrow> resolved w))"
  by (simp add: resolveBindPath_def start_walk_def)

text \<open>Whatever the file system holds, the path the walk returns is absolute and clean: a
  list of components none of which is empty, \<open>.\<close>, \<open>..\<close> or holds a slash.\<close>

lemma resolveBindPath_clean:
  assumes "resolveBindPath probe path = Inr r"
  shows "\<exists>cs. list_all plain_part cs \<and> r = path_of cs"
proof -
  from assms obtain w where w: "walkAll probe (start_walk path) = Inr w"
      "r = (case walk_done w of Some d \<Rightarrow> d | None \<Rightarrow> resolved w)"
    by (auto simp: resolveBindPath_walk rbind_Inr_iff)
  have "walk_ok w" using walkAll_ok [OF start_walk_ok w(1)] by blast
  then show ?thesis using w(2) by (cases "walk_done w") (auto simp: walk_ok_def)
qed

definition demo_probe :: path_probe where
  "demo_probe = \<lparr>probe_kind = (\<lambda>p. Inr (
       if p = ''/'' \<or> p = ''/etc'' then Some Other
       else if p = ''/link'' then Some Link else None)),
     probe_readLink = (\<lambda>p. Inr ''/etc'')\<rparr>"

lemma demo_resolve: "resolveBindPath demo_probe ''/link/x'' = Inr ''/etc/x''"
  by code_simp

lemma resolveBindPath_walk_settled:
  assumes "tree_probe probe" "direct_links probe" "''..'' \<notin> set (segments path)"
    and "resolveBindPath probe path = Inr r"
  shows "\<exists>cs. list_all plain_part cs \<and> r = path_of cs \<and> settled probe cs"
proof -
  from assms(4) obtain w where w: "walkAll probe (start_walk path) = Inr w"
      "r = (case walk_done w of Some d \<Rightarrow> d | None \<Rightarrow> resolved w)"
    by (auto simp: resolveBindPath_walk rbind_Inr_iff)
  have "walk_settled probe (start_walk path)"
    using assms(3) path_of_Nil
    by (auto simp: walk_settled_def start_walk_def segments_plain settled_def intro!: exI [of _ "[]"])
  then have "walk_settled probe w" using walkAll_settled assms(1,2) w(1) by blast
  then show ?thesis using w(2) by (cases "walk_done w") (auto simp: walk_settled_def)
qed

text \<open>Where the requested path and the link targets hold no \<open>..\<close>, no leading part of the
  returned path is a symbolic link: the policy judges the place the mount lands on.\<close>

lemma resolveBindPath_settled:
  assumes "tree_probe probe" "direct_links probe" "''..'' \<notin> set (segments path)"
    and "resolveBindPath probe path = Inr r"
  shows "\<exists>cs. list_all plain_part cs \<and> r = path_of cs \<and> settled probe cs"
  using assms by (rule resolveBindPath_walk_settled)

lemma demo_probe_tree: "tree_probe demo_probe"
proof -
  have "CHR ''/'' \<in> set (tl (path_of (cs @ [c])))" if "cs \<noteq> []" for cs c
    using that by (cases cs) (auto simp: path_of_def)
  moreover have "CHR ''/'' \<notin> set (tl p)" if "p \<in> {''/'', ''/etc'', ''/link''}" for p
    using that by auto
  ultimately have deep: "path_of (cs @ [c]) \<notin> {''/'', ''/etc'', ''/link''}" if "cs \<noteq> []" for cs c
    using that by blast
  show ?thesis
    unfolding tree_probe_def
  proof (intro allI impI)
    fix cs c assume "probe_kind demo_probe (path_of cs) = Inr None"
    then have "cs \<noteq> []" by (auto simp: demo_probe_def path_of_Nil)
    from deep [OF this, of c] show "probe_kind demo_probe (path_of (cs @ [c])) = Inr None"
      by (simp add: demo_probe_def)
  qed
qed

lemma demo_probe_direct: "direct_links demo_probe"
proof -
  have "''..'' \<notin> set (segments ''/etc'')" by code_simp
  then show ?thesis by (auto simp: direct_links_def demo_probe_def)
qed

text \<open>
  The restriction to direct links is needed: after a missing component the rest of the path
  is appended as written, and a \<open>..\<close> in it leaves the missing component again for a sibling
  that is not looked at.
\<close>

definition sibling_probe :: path_probe where
  "sibling_probe = \<lparr>probe_kind = (\<lambda>p. Inr (
       if p = ''/srv'' then Some Other
       else if p = ''/srv/in'' \<or> p = ''/srv/out'' then Some Link else None)),
     probe_readLink = (\<lambda>p. Inr (if p = ''/srv/in'' then ''nope/../out'' else ''/etc''))\<rparr>"

lemma resolveBindPath_skips_sibling_link:
  "resolveBindPath sibling_probe ''/srv/in'' = Inr ''/srv/out''
   \<and> probe_kind sibling_probe ''/srv/out'' = Inr (Some Link)"
  by code_simp

end
