(* ===== verification/Gate_Body.thy ===== *)
theory Gate_Body
  imports Json
begin

text \<open>
  Request bodies read the way the engine reads them
  (\<open>orchestration/roles/docker-gate/files/body.ts\<close>): the strict JSON parser that refuses a
  struct field name which is not printable ASCII or repeats case-insensitively, and rewrites
  every field the policy reads to its canonical spelling. The class \<open>StrictJson\<close> keeps a
  position in its text; here the remaining text is passed along. The recursion carries fuel,
  of which twice the length of the text plus one is enough (\<open>svalue_fuel\<close>), so
  \<open>OutOfFuel\<close> is never the answer of \<open>parseRequestBody\<close>.
\<close>

datatype body_error = BodyError string | OutOfFuel

datatype ctx = Struct | MapCtx

definition MAP_FIELDS :: "string list" where
  "MAP_FIELDS = [''annotations'', ''auxiliaryaddresses'', ''config'', ''driveropts'',
     ''endpointsconfig'', ''exposedports'', ''labels'', ''options'', ''portbindings'',
     ''storageopt'', ''sysctls'', ''tmpfs'', ''volumes'']"

definition CANONICAL_FIELDS :: "string list" where
  "CANONICAL_FIELDS = [''Annotations'', ''BindOptions'', ''Binds'', ''Capabilities'', ''CapAdd'',
     ''Cgroup'', ''CgroupParent'', ''CgroupnsMode'', ''Cmd'', ''CpuRealtimePeriod'',
     ''CpuRealtimeRuntime'', ''DeviceCgroupRules'', ''DeviceRequests'', ''Devices'', ''Driver'',
     ''DriverConfig'', ''DriverOpts'', ''GroupAdd'', ''HostConfig'', ''IpcMode'', ''Labels'',
     ''Links'', ''LogConfig'', ''MaskedPaths'', ''Mounts'', ''Name'', ''NetworkMode'',
     ''OomScoreAdj'', ''Options'', ''PidMode'', ''Privileged'', ''Propagation'', ''ReadOnly'',
     ''ReadonlyPaths'', ''Runtime'', ''SecurityOpt'', ''Source'', ''Subpath'', ''Sysctls'',
     ''TmpfsOptions'', ''Type'', ''UTSMode'', ''UsernsMode'', ''VolumeDriver'', ''VolumeOptions'',
     ''VolumesFrom'']"

definition CANONICAL :: "(string \<times> string) list" where
  "CANONICAL = map (\<lambda>field. (to_lower field, field)) CANONICAL_FIELDS"

definition MAX_DEPTH :: nat where
  "MAX_DEPTH = 64"

definition printable_ascii :: "char \<Rightarrow> bool" where
  "printable_ascii c \<longleftrightarrow> 32 \<le> code c \<and> code c \<le> 126"

definition invalid_json :: body_error where
  "invalid_json = BodyError ''invalid-json''"

definition or_invalid :: "'a option \<Rightarrow> (body_error, 'a) result" where
  "or_invalid x = (case x of None \<Rightarrow> Inl invalid_json | Some v \<Rightarrow> Inr v)"

text \<open>The canonical spelling of a field name, and the name itself for the others.\<close>

definition canon_key :: "string \<Rightarrow> string" where
  "canon_key raw = (case map_of CANONICAL (to_lower raw) of None \<Rightarrow> raw | Some k \<Rightarrow> k)"

definition structKey :: "string \<Rightarrow> string list \<Rightarrow> (body_error, string \<times> string list) result" where
  "structKey raw seen =
     (if \<not> list_all printable_ascii raw then Inl (BodyError ''non-ascii-key'')
      else let folded = to_lower raw
        in if folded \<in> set seen then Inl (BodyError ''duplicate-key'')
           else Inr (canon_key raw, folded # seen))"

definition childContext :: "ctx \<Rightarrow> string \<Rightarrow> ctx" where
  "childContext cx key =
     (if cx = Struct \<and> to_lower key \<in> set MAP_FIELDS then MapCtx else Struct)"

definition expect :: "char \<Rightarrow> string \<Rightarrow> (body_error, string) result" where
  "expect c s = or_invalid (eat c s)"

fun svalue :: "nat \<Rightarrow> ctx \<Rightarrow> nat \<Rightarrow> string \<Rightarrow> (body_error, json \<times> string) result"
  and smembers :: "nat \<Rightarrow> ctx \<Rightarrow> nat \<Rightarrow> string list \<Rightarrow> string
     \<Rightarrow> (body_error, (string \<times> json) list \<times> string) result"
  and sitems :: "nat \<Rightarrow> nat \<Rightarrow> string \<Rightarrow> (body_error, json list \<times> string) result"
where
  "svalue 0 cx depth s = Inl OutOfFuel"
| "svalue (Suc n) cx depth s =
     (if depth > MAX_DEPTH then Inl (BodyError ''too-deep'')
      else case skip_ws s of
        [] \<Rightarrow> Inl invalid_json
      | c # r \<Rightarrow>
        if c = CHR ''{'' then
          (case eat (CHR ''}'') r of
             Some r' \<Rightarrow> Inr (JObj [], r')
           | None \<Rightarrow> rbind (smembers n cx (depth + 1) [] r) (\<lambda>(es, t).
               Inr (JObj (from_entries es), t)))
        else if c = CHR ''['' then
          (case eat (CHR '']'') r of
             Some r' \<Rightarrow> Inr (JArr [], r')
           | None \<Rightarrow> rbind (sitems n (depth + 1) r) (\<lambda>(xs, t). Inr (JArr xs, t)))
        else if c = CHR 0x22 then
          rbind (or_invalid (scan_string (c # r))) (\<lambda>(v, t). Inr (JStr v, t))
        else or_invalid (scan_scalar (c # r)))"
| "smembers 0 cx depth seen s = Inl OutOfFuel"
| "smembers (Suc n) cx depth seen s =
     rbind (or_invalid (scan_string (skip_ws s))) (\<lambda>(raw, s1).
     rbind (if cx = Struct then structKey raw seen else Inr (raw, seen)) (\<lambda>(key, seen').
     rbind (expect (CHR '':'') s1) (\<lambda>s2.
     rbind (svalue n (childContext cx key) depth s2) (\<lambda>(v, s3).
       (case eat (CHR '','') s3 of
          Some s4 \<Rightarrow> rbind (smembers n cx depth seen' s4) (\<lambda>(es, t). Inr ((key, v) # es, t))
        | None \<Rightarrow> rbind (expect (CHR ''}'') s3) (\<lambda>t. Inr ([(key, v)], t)))))))"
| "sitems 0 depth s = Inl OutOfFuel"
| "sitems (Suc n) depth s =
     rbind (svalue n Struct depth s) (\<lambda>(v, s1).
       (case eat (CHR '','') s1 of
          Some s2 \<Rightarrow> rbind (sitems n depth s2) (\<lambda>(vs, t). Inr (v # vs, t))
        | None \<Rightarrow> rbind (expect (CHR '']'') s1) (\<lambda>t. Inr ([v], t))))"

declare svalue.simps [simp del] smembers.simps [simp del] sitems.simps [simp del]

definition strict_parse :: "string \<Rightarrow> (body_error, json) result" where
  "strict_parse text = rbind (svalue (Suc (2 * length text)) Struct 0 text) (\<lambda>(v, r).
     if skip_ws r = [] then Inr v else Inl invalid_json)"

definition error_reason :: "body_error \<Rightarrow> string" where
  "error_reason e = (case e of BodyError reason \<Rightarrow> reason | OutOfFuel \<Rightarrow> ''out-of-fuel'')"

definition parseRequestBody :: "string \<Rightarrow> (string, json) result" where
  "parseRequestBody bytes =
     (if bytes = [] then Inl ''empty''
      else if \<not> utf8_valid bytes then Inl ''invalid-utf8''
      else case strict_parse bytes of Inl e \<Rightarrow> Inl (error_reason e) | Inr v \<Rightarrow> Inr v)"

section \<open>The parser returns\<close>

lemma or_invalid_Inr [simp]: "or_invalid x = Inr v \<longleftrightarrow> x = Some v"
  by (simp add: or_invalid_def split: option.splits)

lemma expect_Inr [simp]: "expect c s = Inr r \<longleftrightarrow> eat c s = Some r"
  by (simp add: expect_def)

lemma or_invalid_fuel [simp]: "or_invalid x \<noteq> Inl OutOfFuel" "Inl OutOfFuel \<noteq> or_invalid x"
  by (simp_all add: or_invalid_def invalid_json_def split: option.splits)

lemma expect_fuel [simp]: "expect c s \<noteq> Inl OutOfFuel"
  by (simp add: expect_def)

lemma structKey_fuel [simp]: "structKey raw seen \<noteq> Inl OutOfFuel"
  by (simp add: structKey_def Let_def)

lemma svalue_shorter_all:
  "(\<forall>cx d s v r. svalue n cx d s = Inr (v, r) \<longrightarrow> length r < length s)
   \<and> (\<forall>cx d seen s es r. smembers n cx d seen s = Inr (es, r) \<longrightarrow> length r < length s)
   \<and> (\<forall>d s vs r. sitems n d s = Inr (vs, r) \<longrightarrow> length r < length s)"
proof (induction n)
  case 0
  then show ?case by (simp add: svalue.simps smembers.simps sitems.simps)
next
  case (Suc n)
  show ?case
  proof (intro conjI allI impI)
    fix cx d s v r assume p: "svalue (Suc n) cx d s = Inr (v, r)"
    show "length r < length s"
    proof (cases "skip_ws s")
      case (Cons c t)
      moreover have "length (c # t) \<le> length s" using Cons length_skip_ws [of s] by simp
      ultimately show ?thesis
        using p Suc.IH
        by (fastforce simp: svalue.simps rbind_Inr_iff dest: scan_lengths split: if_splits option.splits)
    qed (use p in \<open>simp add: svalue.simps split: if_splits\<close>)
  next
    fix cx d seen s es r assume p: "smembers (Suc n) cx d seen s = Inr (es, r)"
    then obtain raw s1 key seen' s2 v s3 where m: "scan_string (skip_ws s) = Some (raw, s1)"
      "eat (CHR '':'') s1 = Some s2" "svalue n (childContext cx key) d s2 = Inr (v, s3)"
      "(case eat (CHR '','') s3 of
          Some s4 \<Rightarrow> rbind (smembers n cx d seen' s4) (\<lambda>(es, t). Inr ((key, v) # es, t))
        | None \<Rightarrow> rbind (expect (CHR ''}'') s3) (\<lambda>t. Inr ([(key, v)], t))) = Inr (es, r)"
      by (auto simp: smembers.simps rbind_Inr_iff)
    moreover have "length r < length s3"
      using m(4) Suc.IH by (auto simp: rbind_Inr_iff split: option.splits dest!: scan_lengths) fastforce
    moreover have "length s3 < length s2" using m(3) Suc.IH by blast
    ultimately show "length r < length s"
      using length_skip_ws [of s] by (auto dest!: scan_lengths)
  next
    fix d s vs r assume p: "sitems (Suc n) d s = Inr (vs, r)"
    then obtain v s1 where m: "svalue n Struct d s = Inr (v, s1)"
      "(case eat (CHR '','') s1 of
          Some s2 \<Rightarrow> rbind (sitems n d s2) (\<lambda>(vs, t). Inr (v # vs, t))
        | None \<Rightarrow> rbind (expect (CHR '']'') s1) (\<lambda>t. Inr ([v], t))) = Inr (vs, r)"
      by (auto simp: sitems.simps rbind_Inr_iff)
    have "length r < length s1"
      using m(2) Suc.IH by (auto simp: rbind_Inr_iff split: option.splits dest!: scan_lengths) fastforce
    moreover have "length s1 < length s" using m(1) Suc.IH by blast
    ultimately show "length r < length s" by simp
  qed
qed

lemma svalue_shorter: "svalue n cx d s = Inr (v, r) \<Longrightarrow> length r < length s"
  using svalue_shorter_all by blast

lemma svalue_fuel_all:
  "(\<forall>cx d s. 2 * length s < n \<longrightarrow> svalue n cx d s \<noteq> Inl OutOfFuel)
   \<and> (\<forall>cx d seen s. 2 * length s < n \<longrightarrow> smembers n cx d seen s \<noteq> Inl OutOfFuel)
   \<and> (\<forall>d s. 2 * length s + 1 < n \<longrightarrow> sitems n d s \<noteq> Inl OutOfFuel)"
proof (induction n)
  case 0
  then show ?case by simp
next
  case (Suc n)
  show ?case
  proof (intro conjI allI impI)
    fix cx d and s :: string assume s: "2 * length s < Suc n"
    show "svalue (Suc n) cx d s \<noteq> Inl OutOfFuel"
    proof (cases "skip_ws s")
      case (Cons c t)
      then have "2 * length t + 1 < n" using s length_skip_ws [of s] by simp
      with Suc.IH Cons show ?thesis
        by (auto simp: svalue.simps rbind_Inl_iff split: option.splits)
    qed (simp add: svalue.simps invalid_json_def)
    fix seen
    have "2 * length s2 < n" if "scan_string (skip_ws s) = Some (raw, s1)" "eat (CHR '':'') s1 = Some s2"
      for raw s1 s2
      using that s length_skip_ws [of s] by (auto dest!: scan_lengths)
    moreover have "2 * length s4 < n"
      if "scan_string (skip_ws s) = Some (raw, s1)" "eat (CHR '':'') s1 = Some s2"
        "svalue n c1 d s2 = Inr (v, s3)" "eat (CHR '','') s3 = Some s4" for raw s1 s2 c1 v s3 s4
      using that s length_skip_ws [of s] by (auto dest!: scan_lengths svalue_shorter)
    ultimately show "smembers (Suc n) cx d seen s \<noteq> Inl OutOfFuel"
      using Suc.IH by (auto simp: smembers.simps rbind_Inl_iff split: option.splits if_splits)
  next
    fix d and s :: string assume s: "2 * length s + 1 < Suc n"
    have "2 * length s2 + 1 < n"
      if "svalue n Struct d s = Inr (v, s1)" "eat (CHR '','') s1 = Some s2" for v s1 s2
      using that s by (auto dest!: scan_lengths svalue_shorter)
    then show "sitems (Suc n) d s \<noteq> Inl OutOfFuel"
      using Suc.IH s by (auto simp: sitems.simps rbind_Inl_iff split: option.splits)
  qed
qed

lemma svalue_fuel: "2 * length s < n \<Longrightarrow> svalue n cx d s \<noteq> Inl OutOfFuel"
  using svalue_fuel_all by blast

end
