(* ===== verification/Gate_Body_Laws.thy ===== *)
theory Gate_Body_Laws
  imports Gate_Body
begin

text \<open>
  What the strict body parser guarantees. The reference is the runtime's own \<open>json_parse\<close>:
  a body the gate accepts is valid JSON, its value is the one \<open>JSON.parse\<close> gives up to the
  canonical spelling of struct field names (\<open>canon\<close>), and no struct object of it has two
  fields that differ only in case (\<open>unambiguous\<close>). From these follows what the policy needs:
  reading a canonical field exactly, as the gate does, finds the one value that a decoder
  matching names case-insensitively, as the engine does, could find.
\<close>

section \<open>The reference\<close>

definition ctx_key :: "ctx \<Rightarrow> string \<Rightarrow> string" where
  "ctx_key cx k = (if cx = Struct then canon_key k else k)"

fun canon :: "ctx \<Rightarrow> json \<Rightarrow> json" where
  "canon cx (JObj fs) = JObj (map (\<lambda>(k, v). (ctx_key cx k, canon (childContext cx k) v)) fs)"
| "canon cx (JArr xs) = JArr (map (canon Struct) xs)"
| "canon cx v = v"

definition clear_keys :: "ctx \<Rightarrow> string list \<Rightarrow> bool" where
  "clear_keys cx ks \<longleftrightarrow> (cx = Struct \<longrightarrow>
     list_all (list_all printable_ascii) ks \<and> distinct (map to_lower ks))"

fun unambiguous :: "ctx \<Rightarrow> json \<Rightarrow> bool" where
  "unambiguous cx (JObj fs) \<longleftrightarrow> clear_keys cx (map fst fs)
     \<and> (\<forall>(k, v) \<in> set fs. unambiguous (childContext cx k) v)"
| "unambiguous cx (JArr xs) \<longleftrightarrow> (\<forall>v \<in> set xs. unambiguous Struct v)"
| "unambiguous cx _ \<longleftrightarrow> True"

fun nesting :: "json \<Rightarrow> nat" where
  "nesting (JObj fs) = Suc (fold max (map (\<lambda>(k, v). nesting v) fs) 0)"
| "nesting (JArr xs) = Suc (fold max (map nesting xs) 0)"
| "nesting _ = 0"

text \<open>Exact reading of a path of fields, and every value a case-insensitive reader could take.\<close>

fun read_path :: "json \<Rightarrow> string list \<Rightarrow> json option" where
  "read_path v [] = Some v"
| "read_path v (f # p) = (case jprop (Some v) f of None \<Rightarrow> None | Some u \<Rightarrow> read_path u p)"

fun folded_path :: "json \<Rightarrow> string list \<Rightarrow> json list" where
  "folded_path v [] = [v]"
| "folded_path v (f # p) = (case v of
     JObj fs \<Rightarrow> concat (map (\<lambda>(k, u). if to_lower k = to_lower f then folded_path u p else []) fs)
   | _ \<Rightarrow> [])"

section \<open>Keys\<close>

lemma CANONICAL_folds: "map_of CANONICAL k = Some f \<Longrightarrow> to_lower f = k"
  by (drule map_of_SomeD) (auto simp: CANONICAL_def)

lemma CANONICAL_distinct: "distinct (map to_lower CANONICAL_FIELDS)"
  by code_simp

lemma CANONICAL_self: "f \<in> set CANONICAL_FIELDS \<Longrightarrow> map_of CANONICAL (to_lower f) = Some f"
  using CANONICAL_distinct by (auto simp: CANONICAL_def comp_def intro: map_of_is_SomeI)

lemma to_lower_canon_key [simp]: "to_lower (canon_key k) = to_lower k"
  by (auto simp: canon_key_def CANONICAL_folds split: option.splits)

lemma to_lower_ctx_key [simp]: "to_lower (ctx_key cx k) = to_lower k"
  by (simp add: ctx_key_def)

lemma childContext_ctx_key [simp]: "childContext cx (ctx_key cx k) = childContext cx k"
  by (simp add: childContext_def)

lemma ctx_key_eq_canonical:
  assumes "f \<in> set CANONICAL_FIELDS"
  shows "ctx_key Struct k = f \<longleftrightarrow> to_lower k = to_lower f"
proof
  show "ctx_key Struct k = f" if "to_lower k = to_lower f"
    using that assms CANONICAL_self by (simp add: ctx_key_def canon_key_def list_all_iff)
qed auto

lemma structKey_Inr:
  "structKey raw seen = Inr (key, seen') \<longleftrightarrow> list_all printable_ascii raw
     \<and> to_lower raw \<notin> set seen \<and> key = canon_key raw \<and> seen' = to_lower raw # seen"
  by (auto simp: structKey_def Let_def)

section \<open>Entries\<close>

lemma update_map_inj:
  assumes "inj_on g (insert k (fst ` set o1))"
  shows "AList.update (g k) (f k v) (map (\<lambda>(k, v). (g k, f k v)) o1)
      = map (\<lambda>(k, v). (g k, f k v)) (AList.update k v o1)"
  using assms by (induction o1) (auto simp: inj_on_def)

lemma from_entries_map_inj:
  assumes "inj_on g (fst ` set es)"
  shows "from_entries (map (\<lambda>(k, v). (g k, f k v)) es)
      = map (\<lambda>(k, v). (g k, f k v)) (from_entries es)"
proof -
  have "fold (\<lambda>(k, v). AList.update k v) (map (\<lambda>(k, v). (g k, f k v)) es)
        (map (\<lambda>(k, v). (g k, f k v)) o1)
      = map (\<lambda>(k, v). (g k, f k v)) (fold (\<lambda>(k, v). AList.update k v) es o1)"
    if "inj_on g (fst ` set es \<union> fst ` set o1)" for o1
    using that
  proof (induction es arbitrary: o1)
    case (Cons e es)
    obtain k v where e: "e = (k, v)" by (cases e)
    have "inj_on g (insert k (fst ` set o1))" "inj_on g (fst ` set es \<union> fst ` set (AList.update k v o1))"
      using Cons.prems by (auto simp: e AList.dom_update intro: inj_on_subset)
    then show ?case using Cons.IH by (simp add: e update_map_inj)
  qed simp
  from this [of "[]"] assms show ?thesis by (simp add: from_entries_def)
qed

lemma clear_keys_inj: "clear_keys cx ks \<Longrightarrow> inj_on (ctx_key cx) (set ks)"
proof (cases cx)
  case Struct
  assume "clear_keys cx ks"
  with Struct have "inj_on to_lower (set ks)" by (simp add: clear_keys_def distinct_map)
  then show ?thesis
    by (metis inj_on_def to_lower_ctx_key)
qed (simp add: ctx_key_def inj_on_def)

section \<open>The strict parser against the runtime's parser\<close>

definition members_agree :: "ctx \<Rightarrow> string list \<Rightarrow> (string \<times> json) list \<Rightarrow> (string \<times> json) list \<Rightarrow> bool" where
  "members_agree cx seen es ws \<longleftrightarrow>
     es = map (\<lambda>(k, w). (ctx_key cx k, canon (childContext cx k) w)) ws
     \<and> (\<forall>(k, w) \<in> set ws. unambiguous (childContext cx k) w)
     \<and> clear_keys cx (map fst ws)
     \<and> (cx = Struct \<longrightarrow> (\<forall>(k, w) \<in> set ws. to_lower k \<notin> set seen))"

lemma members_agree_object:
  assumes "members_agree cx seen es ws"
  shows "JObj (from_entries es) = canon cx (JObj (from_entries ws))"
    and "unambiguous cx (JObj (from_entries ws))"
proof -
  have inj: "inj_on (ctx_key cx) (fst ` set ws)"
    using assms clear_keys_inj [of cx "map fst ws"] by (simp add: members_agree_def)
  then show "JObj (from_entries es) = canon cx (JObj (from_entries ws))"
    using assms from_entries_map_inj [OF inj, of "\<lambda>k. canon (childContext cx k)"]
    by (simp add: members_agree_def)
  have "clear_keys cx (map fst (from_entries ws))"
  proof (cases cx)
    case Struct
    then have "distinct (map to_lower (map fst ws))"
      using assms by (simp add: members_agree_def clear_keys_def)
    then have "distinct (map fst ws)" using distinct_map by blast
    then show ?thesis using assms by (simp add: members_agree_def from_entries_distinct)
  qed (simp add: clear_keys_def)
  then show "unambiguous cx (JObj (from_entries ws))"
    using assms set_from_entries [of ws] by (auto simp: members_agree_def)
qed

lemma members_agree_single:
  assumes "(if cx = Struct then structKey raw seen else Inr (raw, seen)) = Inr (key, seen')"
    and "v = canon (childContext cx key) w" "unambiguous (childContext cx key) w"
  shows "members_agree cx seen [(key, v)] [(raw, w)]" and "key = ctx_key cx raw"
  using assms by (auto simp: members_agree_def ctx_key_def structKey_Inr clear_keys_def
      childContext_def split: if_splits)

lemma members_agree_Cons:
  assumes "members_agree cx seen [(key, v)] [(raw, w)]" "members_agree cx seen' es ws"
    and "(if cx = Struct then structKey raw seen else Inr (raw, seen)) = Inr (key, seen')"
  shows "members_agree cx seen ((key, v) # es) ((raw, w) # ws)"
  using assms by (cases cx) (auto simp: members_agree_def structKey_Inr clear_keys_def)

lemma scan_scalar_flat:
  "scan_scalar s = Some (v, r) \<Longrightarrow> canon cx v = v \<and> unambiguous cx v \<and> nesting v = 0"
  by (auto simp: scan_scalar_def scan_number_def literals_def Let_def
      split: if_splits option.splits prod.splits)

lemma svalue_agrees_all:
  "(\<forall>cx d s v r. svalue n cx d s = Inr (v, r) \<longrightarrow>
      (\<exists>w. pvalue n s = Some (w, r) \<and> v = canon cx w \<and> unambiguous cx w))
   \<and> (\<forall>cx d seen s es r. smembers n cx d seen s = Inr (es, r) \<longrightarrow>
      (\<exists>ws. pmembers n s = Some (ws, r) \<and> members_agree cx seen es ws))
   \<and> (\<forall>d s vs r. sitems n d s = Inr (vs, r) \<longrightarrow>
      (\<exists>ws. pitems n s = Some (ws, r) \<and> vs = map (canon Struct) ws
         \<and> (\<forall>w \<in> set ws. unambiguous Struct w)))"
proof (induction n)
  case 0
  then show ?case by (simp add: svalue.simps smembers.simps sitems.simps)
next
  case (Suc n)
  show ?case
  proof (intro conjI allI impI)
    fix cx d s v r assume p: "svalue (Suc n) cx d s = Inr (v, r)"
    show "\<exists>w. pvalue (Suc n) s = Some (w, r) \<and> v = canon cx w \<and> unambiguous cx w"
    proof (cases "skip_ws s")
      case (Cons c t)
      consider (obj) "c = CHR ''{''" | (arr) "c = CHR ''[''" | (str) "c = CHR 0x22"
        | (scalar) "c \<noteq> CHR ''{''" "c \<noteq> CHR ''[''" "c \<noteq> CHR 0x22" by blast
      then show ?thesis
      proof cases
        case obj
        show ?thesis
        proof (cases "eat (CHR ''}'') t")
          case None
          then obtain es where es: "smembers n cx (d + 1) [] t = Inr (es, r)" "v = JObj (from_entries es)"
            using p Cons obj by (auto simp: svalue.simps rbind_Inr_iff split: if_splits)
          then obtain ws where "pmembers n t = Some (ws, r)" "members_agree cx [] es ws"
            using Suc.IH by blast
          then show ?thesis
            using None Cons obj es members_agree_object by (auto simp: pvalue.simps simp del: canon.simps)
        qed (use p Cons obj in \<open>auto simp: svalue.simps pvalue.simps clear_keys_def split: if_splits\<close>)
      next
        case arr
        show ?thesis
        proof (cases "eat (CHR '']'') t")
          case None
          then obtain vs where vs: "sitems n (d + 1) t = Inr (vs, r)" "v = JArr vs"
            using p Cons arr by (auto simp: svalue.simps rbind_Inr_iff split: if_splits)
          then obtain ws where "pitems n t = Some (ws, r)" "vs = map (canon Struct) ws"
              "\<forall>w \<in> set ws. unambiguous Struct w"
            using Suc.IH by blast
          then show ?thesis using None Cons arr vs by (auto simp: pvalue.simps)
        qed (use p Cons arr in \<open>auto simp: svalue.simps pvalue.simps split: if_splits\<close>)
      next
        case str
        with p Cons show ?thesis
          by (auto simp: svalue.simps pvalue.simps rbind_Inr_iff split: if_splits)
      next
        case scalar
        with p Cons have "scan_scalar (c # t) = Some (v, r)"
          by (auto simp: svalue.simps split: if_splits)
        with scalar Cons show ?thesis
          using scan_scalar_flat [of "c # t" v r cx] by (auto simp: pvalue.simps)
      qed
    qed (use p in \<open>simp add: svalue.simps split: if_splits\<close>)
  next
    fix cx d seen s es r assume p: "smembers (Suc n) cx d seen s = Inr (es, r)"
    show "\<exists>ws. pmembers (Suc n) s = Some (ws, r) \<and> members_agree cx seen es ws"
    proof -
      obtain raw s1 key seen' s2 v s3 where m: "scan_string (skip_ws s) = Some (raw, s1)"
        "(if cx = Struct then structKey raw seen else Inr (raw, seen)) = Inr (key, seen')"
        "eat (CHR '':'') s1 = Some s2" "svalue n (childContext cx key) d s2 = Inr (v, s3)"
        and e: "(case eat (CHR '','') s3 of
            Some s4 \<Rightarrow> rbind (smembers n cx d seen' s4) (\<lambda>(es, t). Inr ((key, v) # es, t))
          | None \<Rightarrow> rbind (expect (CHR ''}'') s3) (\<lambda>t. Inr ([(key, v)], t))) = Inr (es, r)"
        using p by (auto simp: smembers.simps rbind_Inr_iff)
      obtain w where w: "pvalue n s2 = Some (w, s3)" "v = canon (childContext cx key) w"
          "unambiguous (childContext cx key) w"
        using m(4) Suc.IH by blast
      note one = members_agree_single(1) [OF m(2) w(2,3)]
      show ?thesis
      proof (cases "eat (CHR '','') s3")
        case None
        with e m w one show ?thesis by (auto simp: pmembers.simps rbind_Inr_iff)
      next
        case (Some s4)
        with e obtain es' where es': "smembers n cx d seen' s4 = Inr (es', r)" "es = (key, v) # es'"
          by (auto simp: rbind_Inr_iff)
        then obtain ws where ws: "pmembers n s4 = Some (ws, r)" "members_agree cx seen' es' ws"
          using Suc.IH by blast
        have "members_agree cx seen es ((raw, w) # ws)"
          unfolding es' by (rule members_agree_Cons [OF one ws(2) m(2)])
        with Some m w ws show ?thesis by (auto simp: pmembers.simps)
      qed
    qed
  next
    fix d s vs r assume p: "sitems (Suc n) d s = Inr (vs, r)"
    show "\<exists>ws. pitems (Suc n) s = Some (ws, r) \<and> vs = map (canon Struct) ws
         \<and> (\<forall>w \<in> set ws. unambiguous Struct w)"
    proof -
      obtain v s1 where m: "svalue n Struct d s = Inr (v, s1)"
        and e: "(case eat (CHR '','') s1 of
            Some s2 \<Rightarrow> rbind (sitems n d s2) (\<lambda>(vs, t). Inr (v # vs, t))
          | None \<Rightarrow> rbind (expect (CHR '']'') s1) (\<lambda>t. Inr ([v], t))) = Inr (vs, r)"
        using p by (auto simp: sitems.simps rbind_Inr_iff)
      obtain w where w: "pvalue n s = Some (w, s1)" "v = canon Struct w" "unambiguous Struct w"
        using m Suc.IH by blast
      show ?thesis
      proof (cases "eat (CHR '','') s1")
        case None
        with e w show ?thesis by (auto simp: pitems.simps rbind_Inr_iff)
      next
        case (Some s2)
        with e obtain vs' where vs': "sitems n d s2 = Inr (vs', r)" "vs = v # vs'"
          by (auto simp: rbind_Inr_iff)
        then obtain ws where "pitems n s2 = Some (ws, r)" "vs' = map (canon Struct) ws"
            "\<forall>w \<in> set ws. unambiguous Struct w"
          using Suc.IH by blast
        with Some w vs' show ?thesis by (auto simp: pitems.simps)
      qed
    qed
  qed
qed

lemma strict_parse_agrees:
  assumes "strict_parse s = Inr v"
  obtains w where "json_parse s = Some w" "v = canon Struct w" "unambiguous Struct w"
proof -
  from assms obtain r where r: "svalue (Suc (2 * length s)) Struct 0 s = Inr (v, r)" "skip_ws r = []"
    by (auto simp: strict_parse_def rbind_Inr_iff split: if_splits)
  then obtain w where "pvalue (Suc (2 * length s)) s = Some (w, r)" "v = canon Struct w"
      "unambiguous Struct w"
    using svalue_agrees_all [of "Suc (2 * length s)"] by blast
  with r show thesis by (intro that [of w]) (auto simp: json_parse_def)
qed

lemma parseRequestBody_strict: "parseRequestBody s = Inr v \<longleftrightarrow> s \<noteq> [] \<and> utf8_valid s \<and> strict_parse s = Inr v"
  by (auto simp: parseRequestBody_def split: sum.splits)

section \<open>Reading a field\<close>

lemma map_of_canonical:
  assumes "f \<in> set CANONICAL_FIELDS"
  shows "map_of (map (\<lambda>(k, v). (ctx_key Struct k, g k v)) fs) f
      = map_option (\<lambda>(k, v). g k v) (find (\<lambda>(k, v). to_lower k = to_lower f) fs)"
proof (induction fs)
  case (Cons e fs)
  then show ?case using ctx_key_eq_canonical [OF assms, of "fst e"] by (cases e) auto
qed simp

lemma concat_unique:
  assumes "distinct (map (to_lower \<circ> fst) fs)"
  shows "concat (map (\<lambda>(k, u). if to_lower k = q then h u else []) fs)
      = (case find (\<lambda>(k, v). to_lower k = q) fs of None \<Rightarrow> [] | Some (k, u) \<Rightarrow> h u)"
  using assms
proof (induction fs)
  case (Cons e fs)
  have "concat (map (\<lambda>(k, u). if to_lower k = q then h u else []) fs) = []"
    if "q \<notin> (to_lower \<circ> fst) ` set fs" using that by (force simp: concat_eq_Nil_conv)
  with Cons show ?case by (cases e) (auto split: if_splits)
qed simp

lemma folded_path_canon:
  assumes "unambiguous Struct w" "set p \<subseteq> set CANONICAL_FIELDS"
    and "list_all (\<lambda>f. to_lower f \<notin> set MAP_FIELDS) (butlast p)"
  shows "(case read_path (canon Struct w) p of None \<Rightarrow> [] | Some v \<Rightarrow> [v])
     = map (canon (if p = [] then Struct else childContext Struct (last p))) (folded_path w p)"
  using assms
proof (induction p arbitrary: w)
  case (Cons f p)
  show ?case
  proof (cases w)
    case (JObj fs)
    then have d: "distinct (map (to_lower \<circ> fst) fs)"
      using Cons.prems(1) by (simp add: clear_keys_def)
    define hit where "hit = find (\<lambda>(k, v). to_lower k = to_lower f) fs"
    have rd: "read_path (canon Struct w) (f # p) = (case hit of None \<Rightarrow> None
        | Some (k, u) \<Rightarrow> read_path (canon (childContext Struct k) u) p)"
      using map_of_canonical [of f "\<lambda>k. canon (childContext Struct k)"] Cons.prems(2)
      by (auto simp: JObj obj_get_def hit_def split: option.splits)
    have fd: "folded_path w (f # p) = (case hit of None \<Rightarrow> [] | Some (k, u) \<Rightarrow> folded_path u p)"
      using concat_unique [OF d] by (simp add: JObj hit_def)
    show ?thesis
    proof (cases hit)
      case (Some e)
      then obtain k u where e: "e = (k, u)" "(k, u) \<in> set fs" "to_lower k = to_lower f"
        by (cases e) (auto simp: hit_def find_Some_iff, metis nth_mem)
      then have c: "childContext Struct k = childContext Struct f" by (simp add: childContext_def)
      have u: "unambiguous (childContext Struct f) u"
        using Cons.prems(1) e c by (fastforce simp: JObj)
      show ?thesis
      proof (cases p)
        case (Cons g q)
        then have "childContext Struct f = Struct"
          using Cons.prems(3) by (simp add: childContext_def)
        then show ?thesis using Some rd fd e c u Cons Cons.IH [of u] Cons.prems by simp
      qed (use Some rd fd e c in simp)
    qed (use rd fd in simp)
  qed auto
qed simp

section \<open>Nesting\<close>

lemma fold_max_le: "fold max xs (a::nat) \<le> b \<longleftrightarrow> a \<le> b \<and> (\<forall>x \<in> set xs. x \<le> b)"
  by (induction xs arbitrary: a) auto

lemma nesting_JObj_le: "nesting (JObj fs) \<le> Suc b \<longleftrightarrow> (\<forall>(k, v) \<in> set fs. nesting v \<le> b)"
  by (auto simp: fold_max_le)

lemma nesting_JArr_le: "nesting (JArr vs) \<le> Suc b \<longleftrightarrow> (\<forall>v \<in> set vs. nesting v \<le> b)"
  by (auto simp: fold_max_le)

declare nesting.simps(1,2) [simp del]

lemma svalue_nesting_all:
  "(\<forall>cx d s v r. svalue n cx d s = Inr (v, r) \<longrightarrow> d + nesting v \<le> Suc MAX_DEPTH)
   \<and> (\<forall>cx d seen s es r. smembers n cx d seen s = Inr (es, r) \<longrightarrow>
        (\<forall>(k, v) \<in> set es. d + nesting v \<le> Suc MAX_DEPTH))
   \<and> (\<forall>d s vs r. sitems n d s = Inr (vs, r) \<longrightarrow> (\<forall>v \<in> set vs. d + nesting v \<le> Suc MAX_DEPTH))"
proof (induction n)
  case 0
  then show ?case by (simp add: svalue.simps smembers.simps sitems.simps)
next
  case (Suc n)
  show ?case
  proof (intro conjI allI impI)
    fix cx d s v r assume p: "svalue (Suc n) cx d s = Inr (v, r)"
    then have d: "d \<le> MAX_DEPTH" by (auto simp: svalue.simps split: if_splits)
    consider "nesting v = 0" | "v = JObj []" | "v = JArr []"
      | es s' where "smembers n cx (d + 1) [] s' = Inr (es, r)" "v = JObj (from_entries es)"
      | vs s' where "sitems n (d + 1) s' = Inr (vs, r)" "v = JArr vs"
      using p by (auto simp: svalue.simps rbind_Inr_iff split: if_splits list.splits option.splits
          dest: scan_scalar_flat)
    then show "d + nesting v \<le> Suc MAX_DEPTH"
    proof cases
      case 4
      then have "\<forall>(k, u) \<in> set es. d + 1 + nesting u \<le> Suc MAX_DEPTH" using Suc.IH by blast
      then have "nesting v \<le> Suc (MAX_DEPTH - d)"
        unfolding 4 nesting_JObj_le using set_from_entries [of es] by fastforce
      with d show ?thesis by simp
    next
      case 5
      then have "\<forall>u \<in> set vs. d + 1 + nesting u \<le> Suc MAX_DEPTH" using Suc.IH by blast
      then have "nesting v \<le> Suc (MAX_DEPTH - d)"
        unfolding 5 nesting_JArr_le by fastforce
      with d show ?thesis by simp
    qed (use d in \<open>auto simp: nesting.simps\<close>)
  next
    fix cx d seen s es r assume "smembers (Suc n) cx d seen s = Inr (es, r)"
    then show "\<forall>(k, v) \<in> set es. d + nesting v \<le> Suc MAX_DEPTH"
      using Suc.IH by (fastforce simp: smembers.simps rbind_Inr_iff split: option.splits)
  next
    fix d s vs r assume "sitems (Suc n) d s = Inr (vs, r)"
    then show "\<forall>v \<in> set vs. d + nesting v \<le> Suc MAX_DEPTH"
      using Suc.IH by (fastforce simp: sitems.simps rbind_Inr_iff split: option.splits)
  qed
qed

section \<open>Properties\<close>

definition REASONS :: "string list" where
  "REASONS = [''empty'', ''invalid-utf8'', ''invalid-json'', ''too-deep'', ''non-ascii-key'',
     ''duplicate-key'']"

lemma REASONS_mem [simp]:
  "''too-deep'' \<in> set REASONS" "''invalid-json'' \<in> set REASONS" "''non-ascii-key'' \<in> set REASONS"
  "''duplicate-key'' \<in> set REASONS"
  by (simp_all add: REASONS_def)

lemma or_invalid_reason [dest]: "or_invalid x = Inl (BodyError e) \<Longrightarrow> e \<in> set REASONS"
  by (auto simp: or_invalid_def invalid_json_def split: option.splits)

lemma expect_reason [dest]: "expect c s = Inl (BodyError e) \<Longrightarrow> e \<in> set REASONS"
  by (auto simp: expect_def)

lemma structKey_reason [dest]: "structKey raw seen = Inl (BodyError e) \<Longrightarrow> e \<in> set REASONS"
  by (auto simp: structKey_def Let_def split: if_splits)

lemma svalue_reason_all:
  "(\<forall>cx d s e. svalue n cx d s = Inl (BodyError e) \<longrightarrow> e \<in> set REASONS)
   \<and> (\<forall>cx d seen s e. smembers n cx d seen s = Inl (BodyError e) \<longrightarrow> e \<in> set REASONS)
   \<and> (\<forall>d s e. sitems n d s = Inl (BodyError e) \<longrightarrow> e \<in> set REASONS)"
proof (induction n)
  case 0
  then show ?case by (simp add: svalue.simps smembers.simps sitems.simps)
next
  case (Suc n)
  then have v: "svalue n cx d s = Inl (BodyError e) \<Longrightarrow> e \<in> set REASONS"
    and m: "smembers n cx d seen s = Inl (BodyError e) \<Longrightarrow> e \<in> set REASONS"
    and i: "sitems n d s = Inl (BodyError e) \<Longrightarrow> e \<in> set REASONS" for cx d seen s e
    by blast+
  show ?case
  proof (intro conjI allI impI)
    fix cx d s e assume "svalue (Suc n) cx d s = Inl (BodyError e)"
    then show "e \<in> set REASONS"
      by (auto simp: svalue.simps rbind_Inl_iff invalid_json_def dest: m i
          split: if_splits list.splits option.splits)
  next
    fix cx d seen s e assume "smembers (Suc n) cx d seen s = Inl (BodyError e)"
    then show "e \<in> set REASONS"
      by (auto simp: smembers.simps rbind_Inl_iff dest: v m split: if_splits option.splits)
  next
    fix d s e assume "sitems (Suc n) d s = Inl (BodyError e)"
    then show "e \<in> set REASONS"
      by (auto simp: sitems.simps rbind_Inl_iff dest: v i split: option.splits)
  qed
qed

lemma strict_parse_fuel: "strict_parse s \<noteq> Inl OutOfFuel"
  using svalue_fuel [of s "Suc (2 * length s)" Struct 0]
  by (auto simp: strict_parse_def rbind_Inl_iff invalid_json_def split: if_splits)

lemma strict_parse_reason: "strict_parse s = Inl (BodyError e) \<Longrightarrow> e \<in> set REASONS"
  using svalue_reason_all [of "Suc (2 * length s)"]
  by (auto simp: strict_parse_def rbind_Inl_iff invalid_json_def split: if_splits)

text \<open>C38: parsing a request body always ends, in a value or in one of the six fixed reasons
  (the recursion never exhausts its fuel).\<close>

theorem parseRequestBody_total:
  "(\<exists>v. parseRequestBody s = Inr v) \<or> (\<exists>e \<in> set REASONS. parseRequestBody s = Inl e)"
proof (cases "strict_parse s")
  case (Inl e)
  then show ?thesis using strict_parse_fuel [of s] strict_parse_reason [of s]
    by (cases e) (auto simp: parseRequestBody_def error_reason_def REASONS_def)
qed (auto simp: parseRequestBody_def REASONS_def)

text \<open>C37: an accepted body is valid JSON, its value is that of the runtime's parser up to the
  canonical spelling of struct fields, no struct object has two fields that differ only in
  case, and it nests at most 65 containers.\<close>

theorem parseRequestBody_sound:
  assumes "parseRequestBody s = Inr v"
  shows "\<exists>w. json_parse s = Some w \<and> v = canon Struct w \<and> unambiguous Struct w
    \<and> nesting v \<le> 65"
proof -
  from assms have p: "strict_parse s = Inr v" by (simp add: parseRequestBody_strict)
  then obtain r where "svalue (Suc (2 * length s)) Struct 0 s = Inr (v, r)"
    by (auto simp: strict_parse_def rbind_Inr_iff split: if_splits)
  then have "0 + nesting v \<le> Suc MAX_DEPTH" using svalue_nesting_all by blast
  moreover from p obtain w where "json_parse s = Some w" "v = canon Struct w" "unambiguous Struct w"
    by (rule strict_parse_agrees)
  ultimately show ?thesis by (auto simp: MAX_DEPTH_def)
qed

lemma parseRequestBody_example:
  \<open>parseRequestBody ''{"hostconfig":{"BINDS":["/:/h"]}}''
     = Inr (JObj [(''HostConfig'', JObj [(''Binds'', JArr [JStr ''/:/h''])])])\<close>
  by code_simp

theorem parseRequestBody_sound_witness:
  \<open>\<exists>w. json_parse ''{"hostconfig":{"BINDS":["/:/h"]}}'' = Some w
    \<and> JObj [(''HostConfig'', JObj [(''Binds'', JArr [JStr ''/:/h''])])] = canon Struct w
    \<and> unambiguous Struct w
    \<and> nesting (JObj [(''HostConfig'', JObj [(''Binds'', JArr [JStr ''/:/h''])])]) \<le> 65\<close>
  using parseRequestBody_sound [OF parseRequestBody_example] .



end
