(* ===== verification/Gate_Policy_Laws.thy ===== *)
theory Gate_Policy_Laws
  imports Gate_Policy Gate_Resolve Gate_Body_Laws
begin

text \<open>
  What a clean verdict of the policy means. Paths are read through \<open>path_of\<close> (a list of
  components): the string tests of the source are containment of trees there. A container
  create without findings meets \<open>strict_profile\<close>, a specification stated over the fields of
  the request, and the fields are the ones the engine's decoder would find in the bytes that
  were sent. Paths that no route knows are findings.
\<close>

section \<open>Paths\<close>

lemma split_path_of: "list_all plain_part cs \<Longrightarrow> cs \<noteq> [] \<Longrightarrow> split_on (CHR ''/'') (path_of cs) = [] # cs"
proof (induction cs)
  case (Cons c cs)
  then have "split_on (CHR ''/'') (c @ concat (map ((#) (CHR ''/'')) cs)) = c # cs"
  proof (cases cs)
    case (Cons d ds)
    then have "concat (map ((#) (CHR ''/'')) cs) = CHR ''/'' # d @ concat (map ((#) (CHR ''/'')) ds)" by simp
    then show ?thesis
      using Cons.IH Cons.prems Cons split_on_append_sep [of "CHR ''/''" c "d @ concat (map ((#) (CHR ''/'')) ds)"]
      by (simp add: plain_part_def path_of_def)
  qed (use Cons.prems in \<open>simp add: split_on_id plain_part_def\<close>)
  then show ?case by (simp add: path_of_def)
qed simp

lemma path_of_inj:
  "list_all plain_part cs \<Longrightarrow> list_all plain_part ds \<Longrightarrow> path_of cs = path_of ds \<Longrightarrow> cs = ds"
  using split_path_of [of cs] split_path_of [of ds] path_of_eq_root [of cs] path_of_eq_root [of ds]
  by (metis list.inject path_of_def)

lemma within_path_of:
  assumes "list_all plain_part cs" "list_all plain_part ds"
  shows "within (path_of cs) (path_of ds) \<longleftrightarrow> (\<exists>es. cs = ds @ es)"
proof (cases "ds = []")
  case True
  then show ?thesis by (simp add: within_def path_of_def)
next
  case False
  then have root: "path_of ds \<noteq> ''/''" using assms(2) path_of_eq_root by simp
  show ?thesis
  proof
    assume "within (path_of cs) (path_of ds)"
    then consider "path_of cs = path_of ds" | r where "path_of cs = path_of ds @ CHR ''/'' # r"
      using root by (auto simp: within_def starts_with_iff)
    then show "\<exists>es. cs = ds @ es"
    proof cases
      case 1
      then show ?thesis using assms path_of_inj by (metis append_Nil2)
    next
      case 2
      then have "cs \<noteq> []" using False by (cases ds) (auto simp: path_of_def)
      then have "[] # cs = ([] # ds) @ split_on (CHR ''/'') r"
        using 2 False assms split_path_of split_on_append by metis
      then show ?thesis by auto
    qed
  next
    assume "\<exists>es. cs = ds @ es"
    then obtain es where es: "cs = ds @ es" by blast
    show "within (path_of cs) (path_of ds)"
    proof (cases es)
      case (Cons e es')
      then have "path_of cs = (path_of ds @ ''/'') @ e @ concat (map ((#) (CHR ''/'')) es')"
        using False es by (simp add: path_of_def)
      then show ?thesis using root by (metis starts_with_append within_def)
    qed (use es root in \<open>simp add: within_def\<close>)
  qed
qed

lemma normalize_parts_plain:
  "list_all plain_part cs \<Longrightarrow> normalize_parts cs out = out @ cs"
  by (induction cs arbitrary: out) (auto simp: normalize_parts_def plain_part_def)

lemma join_path_of: "cs \<noteq> [] \<Longrightarrow> ''/'' @ join_with ''/'' cs = path_of cs"
proof (induction cs rule: induct_list012)
  case (3 a b cs)
  then show ?case by (simp add: path_of_def)
qed (simp_all add: path_of_def)

lemma normalizeAbsolute_join:
  "normalizeAbsolute p = path_of (normalize_parts (split_on (CHR ''/'') p) [])"
  using join_path_of [of "normalize_parts (split_on (CHR ''/'') p) []"]
  by (cases "normalize_parts (split_on (CHR ''/'') p) [] = []") (auto simp: normalizeAbsolute_def path_of_def)

lemma normalize_parts_clean:
  assumes "list_all plain_part out" "\<forall>seg \<in> set segs. CHR ''/'' \<notin> set seg"
  shows "list_all plain_part (normalize_parts segs out)"
  using assms
proof (induction segs arbitrary: out)
  case (Cons seg segs)
  have "list_all plain_part (butlast out)"
    using Cons.prems(1) by (auto simp: list_all_iff dest: in_set_butlastD)
  moreover have "plain_part seg" if "seg \<noteq> []" "seg \<noteq> ''.''" "seg \<noteq> ''..''"
    using that Cons.prems by (simp add: plain_part_def)
  ultimately show ?case
    using Cons.IH [of "butlast out"] Cons.IH [of out] Cons.IH [of "out @ [seg]"] Cons.prems
    by (auto simp: normalize_parts_def)
qed (simp add: normalize_parts_def)

lemma normalizeAbsolute_clean:
  "\<exists>cs. list_all plain_part cs \<and> normalizeAbsolute p = path_of cs"
  using normalize_parts_clean [of "[]" "split_on (CHR ''/'') p"] split_on_no_sep normalizeAbsolute_join
  by fastforce

lemma normalizeAbsolute_path_of:
  assumes "list_all plain_part cs"
  shows "normalizeAbsolute (path_of cs) = path_of cs"
proof (cases "cs = []")
  case True
  then show ?thesis by (simp add: path_of_def) code_simp
next
  case False
  then show ?thesis
    using assms normalize_parts_plain [OF assms, of "[]"]
    by (simp add: normalizeAbsolute_join split_path_of) (simp add: normalize_parts_def)
qed

section \<open>Bind sources\<close>

definition clean_root :: "string \<Rightarrow> bool" where
  "clean_root r \<longleftrightarrow> r = normalizeAbsolute r"

definition clean_config :: "policy_config \<Rightarrow> bool" where
  "clean_config config \<longleftrightarrow> list_all clean_root (bindRoots config) \<and> list_all clean_root (denyPrefixes config)
     \<and> list_all (\<lambda>r. clean_root r \<and> r \<noteq> ''/'') (principalRoots config)"

text \<open>The tree below one of the directories, by components.\<close>

definition under :: "string list \<Rightarrow> string list \<Rightarrow> string list \<Rightarrow> bool" where
  "under roots cs rest \<longleftrightarrow> (\<exists>ds. path_of ds \<in> set roots \<and> list_all plain_part ds \<and> cs = ds @ rest)"

lemma clean_root_path: "clean_root r \<longleftrightarrow> (\<exists>ds. list_all plain_part ds \<and> r = path_of ds)"
  using normalizeAbsolute_clean [of r] normalizeAbsolute_path_of by (auto simp: clean_root_def)

lemma within_under:
  assumes "list_all clean_root roots" "list_all plain_part cs"
  shows "list_ex (within (path_of cs)) roots \<longleftrightarrow> (\<exists>rest. under roots cs rest)"
proof
  assume "list_ex (within (path_of cs)) roots"
  then obtain r where r: "r \<in> set roots" "within (path_of cs) r" by (auto simp: list_ex_iff)
  then obtain ds where "list_all plain_part ds" "r = path_of ds"
    using assms(1) clean_root_path by (auto simp: list_all_iff)
  then show "\<exists>rest. under roots cs rest"
    using r assms(2) within_path_of by (auto simp: under_def)
next
  assume "\<exists>rest. under roots cs rest"
  then show "list_ex (within (path_of cs)) roots"
    using assms(2) within_path_of by (fastforce simp: under_def list_ex_iff)
qed

lemma path_of_append_drop:
  assumes "list_all plain_part (ds @ es)" "ds \<noteq> []"
  shows "filter (\<lambda>p. p \<noteq> []) (split_on (CHR ''/'') (drop (length (path_of ds)) (path_of (ds @ es)))) = es"
proof (cases "es = []")
  case False
  have "drop (length (path_of ds)) (path_of (ds @ es)) = path_of es"
    using assms(2) False by (simp add: path_of_def)
  moreover have "filter (\<lambda>p. p \<noteq> []) es = es"
    using assms(1) by (induction es) (auto simp: plain_part_def)
  ultimately show ?thesis
    using assms(1) False split_path_of [of es] by simp
qed simp

lemma principalViolation_under:
  assumes "list_all (\<lambda>r. clean_root r \<and> r \<noteq> ''/'') (principalRoots config)" "list_all plain_part cs"
    and "principalViolation (path_of cs) config = None" "under (principalRoots config) cs rest"
  shows "\<exists>rest. under (principalRoots config) cs rest \<and> principal_allowed rest"
proof -
  have ex: "\<exists>r \<in> set (principalRoots config). within (path_of cs) r"
    using assms within_under [of "principalRoots config" cs] by (auto simp: list_all_iff list_ex_iff)
  then obtain r where r: "find (within (path_of cs)) (principalRoots config) = Some r"
    by (metis find_None_iff option.exhaust)
  then have m: "r \<in> set (principalRoots config)" "within (path_of cs) r"
    by (auto simp: find_Some_iff)
  then obtain ds where ds: "list_all plain_part ds" "r = path_of ds" "r \<noteq> ''/''"
    using assms(1) clean_root_path by (auto simp: list_all_iff)
  then obtain es where es: "cs = ds @ es" using m assms(2) within_path_of by blast
  have "ds \<noteq> []" using ds path_of_Nil by auto
  then have "filter (\<lambda>p. p \<noteq> []) (split_on (CHR ''/'') (drop (length r) (path_of cs))) = es"
    using path_of_append_drop [of ds es] assms(2) ds es by simp
  then have "principal_allowed es"
    using assms(3) r by (auto simp: principalViolation_def split: if_splits)
  moreover have "under (principalRoots config) cs es"
    using m ds es by (auto simp: under_def)
  ultimately show ?thesis by blast
qed

text \<open>What the strict profile asks of the place a tenant bind lands on.\<close>

definition confined :: "policy_config \<Rightarrow> string list \<Rightarrow> bool" where
  "confined config cs \<longleftrightarrow> cs \<noteq> [] \<and> path_of cs \<notin> set (dockerSockets config)
     \<and> (\<forall>rest. \<not> under (denyPrefixes config) cs rest)
     \<and> (\<exists>rest. under (bindRoots config) cs rest)
     \<and> ((\<exists>rest. under (principalRoots config) cs rest) \<longrightarrow>
          (\<exists>rest. under (principalRoots config) cs rest \<and> principal_allowed rest))"

lemma bindViolation_confined:
  assumes "clean_config config" "list_all plain_part cs" "bindViolation (path_of cs) config = None"
  shows "confined config cs"
proof -
  have c: "list_all clean_root (bindRoots config)" "list_all clean_root (denyPrefixes config)"
    and p: "list_all (\<lambda>r. clean_root r \<and> r \<noteq> ''/'') (principalRoots config)"
    using assms(1) by (auto simp: clean_config_def)
  have "path_of cs \<noteq> ''/''" "path_of cs \<notin> set (dockerSockets config)"
    "\<not> list_ex (within (path_of cs)) (denyPrefixes config)"
    "list_ex (within (path_of cs)) (bindRoots config)" "principalViolation (path_of cs) config = None"
    using assms(3) by (auto simp: bindViolation_def split: if_splits)
  then show ?thesis
    using within_under [OF c(1) assms(2)] within_under [OF c(2) assms(2)]
      principalViolation_under [OF p assms(2)] path_of_eq_root [OF assms(2)]
    by (auto simp: confined_def)
qed

lemma canonical_no_dotdot: "pathIsCanonical src \<Longrightarrow> ''..'' \<notin> set (segments src)"
  by (auto simp: pathIsCanonical_def segments_def list_ex_iff split: if_splits)

lemma checkBindSource_tenant:
  assumes "starts_with ''/'' (bind_source entry)" "\<not> ctx_platform ctx" "\<not> ctx_ingress ctx"
    and "outcome_violation (checkBindSource entry ctx) = None"
  shows "pathIsCanonical (bind_source entry)"
    and "bindViolation (resolvedSource (bind_source entry) (ctx_resolvePath ctx)) (ctx_config ctx) = None"
  using assms by (auto simp: checkBindSource_def Let_def isIngressSocketBind_def platformOutcome_def
      no_outcome_def split: if_splits)


definition demo_ctx :: bind_context where
  "demo_ctx = \<lparr>ctx_config = DEFAULT_POLICY_CONFIG, ctx_resolvePath = resolveBindPath demo_probe,
     ctx_platform = False, ctx_ingress = False\<rparr>"

definition demo_entry :: bind_entry where
  "demo_entry = \<lparr>bind_source = ''/srv/users/u1/data/www'', bind_readOnly = False\<rparr>"

lemma default_config_clean: "clean_config DEFAULT_POLICY_CONFIG"
  by code_simp


section \<open>The strict profile of a container create\<close>

fun joins_foreign :: "json option \<Rightarrow> bool" where
  "joins_foreign (Some (JStr mode)) \<longleftrightarrow> mode = ''host'' \<or> starts_with ''container:'' mode"
| "joins_foreign _ \<longleftrightarrow> False"

definition safe_flags :: "policy_config \<Rightarrow> bool \<Rightarrow> fields \<Rightarrow> bool" where
  "safe_flags config isPlat hc \<longleftrightarrow>
     (\<forall>k \<in> fst ` set hc. k \<in> set BENIGN_HOSTCONFIG_FIELDS \<union> set RULED_HOSTCONFIG_FIELDS)
     \<and> obj_get hc ''Privileged'' \<noteq> Some (JBool True)
     \<and> \<not> negative_number (obj_get hc ''OomScoreAdj'')
     \<and> (\<forall>r. obj_get hc ''Runtime'' = Some (JStr r) \<longrightarrow> r = [] \<or> r = ''runc'')
     \<and> (stringList (obj_get hc ''GroupAdd'') \<noteq> [] \<longrightarrow>
          isPlat \<and> (\<forall>g \<in> set (stringList (obj_get hc ''GroupAdd'')). re_match GID g))
     \<and> (\<forall>(f, r) \<in> set BANNED_HOSTCONFIG_FIELDS. \<not> isPresent (obj_get hc f))
     \<and> (\<forall>(f, r) \<in> set BANNED_IF_SENT. obj_get hc f \<in> {None, Some JNull})
     \<and> (\<forall>(f, r) \<in> set BANNED_IF_POSITIVE. \<not> positive_number (obj_get hc f))
     \<and> (\<forall>cap \<in> set (stringList (obj_get hc ''CapAdd'')) \<union> set (stringList (obj_get hc ''Capabilities'')).
          cap_name cap \<in> set (capAllowlist config))
     \<and> (\<forall>lc. obj_get hc ''LogConfig'' = Some (JObj lc) \<longrightarrow>
          (\<exists>t \<in> set SAFE_LOG_DRIVERS. nullish (obj_get lc ''Type'') (JStr []) = JStr t))"

definition safe_modes :: "fields \<Rightarrow> bool" where
  "safe_modes hc \<longleftrightarrow> (\<forall>(r, f) \<in> set NAMESPACES. \<not> joins_foreign (obj_get hc f))
     \<and> (\<forall>opt \<in> set (stringList (obj_get hc ''SecurityOpt'')).
          opt \<in> {''no-new-privileges'', ''no-new-privileges=true'', ''no-new-privileges:true''})"

definition safe_mounts :: "bind_context \<Rightarrow> fields \<Rightarrow> bool" where
  "safe_mounts ctx hc \<longleftrightarrow>
     (\<forall>bind \<in> set (stringList (obj_get hc ''Binds'')). \<forall>x \<in> set (bind_options bind).
        x \<notin> {''shared'', ''rshared'', ''slave'', ''rslave''})
     \<and> (\<forall>m \<in> set (record_items (obj_get hc ''Mounts'')).
          (\<exists>t \<in> set SAFE_MOUNT_TYPES. obj_get m ''Type'' = Some (JStr t))
          \<and> (\<forall>bo. obj_get m ''BindOptions'' = Some (JObj bo) \<longrightarrow>
               (\<exists>p \<in> set SAFE_PROPAGATION. nullish (obj_get bo ''Propagation'') (JStr []) = JStr p)))
     \<and> (\<forall>e \<in> set (bindEntries hc). outcome_violation (checkBindSource e ctx) = None)
     \<and> isLocalDriver (obj_get hc ''VolumeDriver'')
     \<and> (\<forall>(driver, opts) \<in> set (volumeMounts hc). isLocalDriver driver
          \<and> checkVolumeDevice opts (ctx_config ctx) (ctx_resolvePath ctx) = [])
     \<and> (\<forall>m \<in> set (record_items (obj_get hc ''Mounts'')).
          subpathViolation m = [] \<and> tmpfsOptionViolations m = Inr [])"

lemma option_list_Nil [simp]: "option_list x = [] \<longleftrightarrow> x = None"
  by (cases x) auto

lemma checkHostConfigFlags_safe:
  "checkHostConfigFlags hc config isPlat = [] \<longleftrightarrow> safe_flags config isPlat hc"
proof -
  have "checkUnknownFields hc = [] \<longleftrightarrow>
      (\<forall>k \<in> fst ` set hc. k \<in> set BENIGN_HOSTCONFIG_FIELDS \<union> set RULED_HOSTCONFIG_FIELDS)"
    by (auto simp: checkUnknownFields_def filter_empty_conv)
  moreover have "checkScalarFields hc = [] \<longleftrightarrow> obj_get hc ''Privileged'' \<noteq> Some (JBool True)
      \<and> \<not> negative_number (obj_get hc ''OomScoreAdj'')
      \<and> (\<forall>r. obj_get hc ''Runtime'' = Some (JStr r) \<longrightarrow> r = [] \<or> r = ''runc'')"
    by (auto simp: checkScalarFields_def split: option.splits json.splits)
  moreover have "checkGroupAdd hc isPlat = [] \<longleftrightarrow> (stringList (obj_get hc ''GroupAdd'') \<noteq> [] \<longrightarrow>
          isPlat \<and> (\<forall>g \<in> set (stringList (obj_get hc ''GroupAdd'')). re_match GID g))"
    by (auto simp: checkGroupAdd_def Let_def list_all_iff)
  moreover have "checkPresentFields hc = [] \<longleftrightarrow>
      (\<forall>(f, r) \<in> set BANNED_HOSTCONFIG_FIELDS. \<not> isPresent (obj_get hc f))
     \<and> (\<forall>(f, r) \<in> set BANNED_IF_SENT. obj_get hc f \<in> {None, Some JNull})
     \<and> (\<forall>(f, r) \<in> set BANNED_IF_POSITIVE. \<not> positive_number (obj_get hc f))"
    unfolding checkPresentFields_def append_is_Nil_conv concat_eq_Nil_conv by (auto split: if_splits)
  moreover have "checkCapabilities hc config = [] \<longleftrightarrow>
      (\<forall>cap \<in> set (stringList (obj_get hc ''CapAdd'')) \<union> set (stringList (obj_get hc ''Capabilities'')).
          cap_name cap \<in> set (capAllowlist config))"
    by (auto simp: checkCapabilities_def filter_empty_conv)
  moreover have "checkLogConfig hc = [] \<longleftrightarrow> (\<forall>lc. obj_get hc ''LogConfig'' = Some (JObj lc) \<longrightarrow>
          (\<exists>t \<in> set SAFE_LOG_DRIVERS. nullish (obj_get lc ''Type'') (JStr []) = JStr t))"
    by (cases "obj_get hc ''LogConfig''" rule: isRecord.cases)
      (auto simp: checkLogConfig_def Let_def split: json.splits if_splits)
  ultimately show ?thesis
    unfolding checkHostConfigFlags_def safe_flags_def append_is_Nil_conv by blast
qed

lemma isSafeSecurityOpt_words: "isSafeSecurityOpt opt \<longleftrightarrow>
    opt \<in> {''no-new-privileges'', ''no-new-privileges=true'', ''no-new-privileges:true''}"
proof -
  have "lang (RSeq (RCls eq_or_colon) (re_str ''true'')) = {''=true'', '':true''}"
    by (auto simp: eq_or_colon_def)
  then show ?thesis unfolding isSafeSecurityOpt_def re_match_iff by auto
qed

lemma joins_foreign_iff: "namespaceViolation r m = None \<longleftrightarrow> \<not> joins_foreign m"
  by (cases "(r, m)" rule: namespaceViolation.cases) auto

lemma check_modes_safe:
  "checkNamespaces hc = [] \<and> checkSecurityOpt hc = [] \<longleftrightarrow> safe_modes hc"
proof -
  have "checkNamespaces hc = [] \<longleftrightarrow> (\<forall>(r, f) \<in> set NAMESPACES. \<not> joins_foreign (obj_get hc f))"
    unfolding checkNamespaces_def concat_eq_Nil_conv by (auto simp: joins_foreign_iff)
  moreover have "checkSecurityOpt hc = [] \<longleftrightarrow> (\<forall>opt \<in> set (stringList (obj_get hc ''SecurityOpt'')).
          opt \<in> {''no-new-privileges'', ''no-new-privileges=true'', ''no-new-privileges:true''})"
    unfolding checkSecurityOpt_def map_is_Nil_conv filter_empty_conv isSafeSecurityOpt_words not_not ..
  ultimately show ?thesis by (simp only: safe_modes_def)
qed

lemma SHARED_words: "re_match SHARED_PROPAGATION x \<longleftrightarrow> x \<in> {''shared'', ''rshared'', ''slave'', ''rslave''}"
proof
  show "re_match SHARED_PROPAGATION x" if "x \<in> {''shared'', ''rshared'', ''slave'', ''rslave''}"
  proof -
    have "list_all (re_match SHARED_PROPAGATION) [''shared'', ''rshared'', ''slave'', ''rslave'']"
      by code_simp
    with that show ?thesis by auto
  qed
qed (auto simp: re_match_iff SHARED_PROPAGATION_def)

lemma checkMountEntry_safe:
  "checkMountEntry m = [] \<longleftrightarrow> (\<exists>t \<in> set SAFE_MOUNT_TYPES. obj_get m ''Type'' = Some (JStr t))
    \<and> (\<forall>bo. obj_get m ''BindOptions'' = Some (JObj bo) \<longrightarrow>
         (\<exists>p \<in> set SAFE_PROPAGATION. nullish (obj_get bo ''Propagation'') (JStr []) = JStr p))"
proof -
  have e: "[] \<in> set SAFE_PROPAGATION" by (simp add: SAFE_PROPAGATION_def)
  have "(case obj_get m ''Type'' of
        Some (JStr type) \<Rightarrow> if type \<in> set SAFE_MOUNT_TYPES then []
          else [Violation ''mount-type'' (Some (fieldDetail type))]
      | _ \<Rightarrow> [Violation ''mount-type'' (Some ''<non-string>'')]) = []
      \<longleftrightarrow> (\<exists>t \<in> set SAFE_MOUNT_TYPES. obj_get m ''Type'' = Some (JStr t))"
    by (auto split: option.splits json.splits)
  then show ?thesis
    unfolding checkMountEntry_def append_is_Nil_conv
    by (cases "obj_get m ''BindOptions''" rule: isRecord.cases)
      (auto simp: Let_def e split: json.splits if_splits)
qed

lemma rmap_list_Inr_all:
  "(\<exists>ys. rmap_list f xs = Inr ys \<and> (\<forall>y \<in> set ys. P y)) \<longleftrightarrow> (\<forall>x \<in> set xs. \<exists>y. f x = Inr y \<and> P y)"
proof (induction xs)
  case (Cons x xs)
  then show ?case by (fastforce simp: rbind_Inr_iff)
qed simp

lemma checkMountOptions_safe:
  "checkMountOptions hc = Inr [] \<longleftrightarrow> (\<forall>m \<in> set (record_items (obj_get hc ''Mounts'')).
     subpathViolation m = [] \<and> tmpfsOptionViolations m = Inr [])"
proof -
  let ?f = "\<lambda>mount. rbind (tmpfsOptionViolations mount) (\<lambda>vs. Inr (subpathViolation mount @ vs))"
  have "checkMountOptions hc = Inr [] \<longleftrightarrow>
      (\<exists>ys. rmap_list ?f (record_items (obj_get hc ''Mounts'')) = Inr ys \<and> (\<forall>y \<in> set ys. y = []))"
    by (auto simp: checkMountOptions_def rbind_Inr_iff concat_eq_Nil_conv)
  also have "\<dots> \<longleftrightarrow> (\<forall>m \<in> set (record_items (obj_get hc ''Mounts'')). \<exists>y. ?f m = Inr y \<and> y = [])"
    by (rule rmap_list_Inr_all)
  also have "\<dots> \<longleftrightarrow> (\<forall>m \<in> set (record_items (obj_get hc ''Mounts'')).
     subpathViolation m = [] \<and> tmpfsOptionViolations m = Inr [])"
    by (auto simp: rbind_Inr_iff)
  finally show ?thesis .
qed

lemma driverViolation_None [simp]: "driverViolation d = None \<longleftrightarrow> isLocalDriver d"
  by (simp add: driverViolation_def)

lemma checkMounts_clean_iff:
  "(\<exists>v. checkMounts hc ctx = Inr v \<and> violations v = []) \<longleftrightarrow>
     (\<forall>e \<in> set (bindEntries hc). outcome_violation (checkBindSource e ctx) = None)
     \<and> isLocalDriver (obj_get hc ''VolumeDriver'')
     \<and> (\<forall>(driver, opts) \<in> set (volumeMounts hc). isLocalDriver driver
          \<and> checkVolumeDevice opts (ctx_config ctx) (ctx_resolvePath ctx) = [])
     \<and> checkMountOptions hc = Inr []"
proof (cases "checkMountOptions hc")
  case (Inr options)
  then show ?thesis
    by (simp add: checkMounts_def Let_def concat_eq_Nil_conv case_prod_beta ball_conj_distrib)
qed (simp add: checkMounts_def)

lemma safe_mounts_iff:
  "checkMountKinds hc = [] \<and> (\<exists>v. checkMounts hc ctx = Inr v \<and> violations v = []) \<longleftrightarrow> safe_mounts ctx hc"
proof -
  have "checkMountKinds hc = [] \<longleftrightarrow>
      (\<forall>bind \<in> set (stringList (obj_get hc ''Binds'')). \<forall>x \<in> set (bind_options bind).
        x \<notin> {''shared'', ''rshared'', ''slave'', ''rslave''})
      \<and> (\<forall>m \<in> set (record_items (obj_get hc ''Mounts'')). checkMountEntry m = [])"
    unfolding checkMountKinds_def checkBindStrings_def append_is_Nil_conv concat_eq_Nil_conv
      map_is_Nil_conv filter_empty_conv list_ex_iff SHARED_words by auto
  then show ?thesis
    unfolding checkMounts_clean_iff checkMountOptions_safe safe_mounts_def checkMountEntry_safe
    by (simp only: conj_assoc)
qed

definition create_ctx :: "policy_config \<Rightarrow> resolve_path \<Rightarrow> labels \<Rightarrow> bind_context" where
  "create_ctx config resolvePath ls =
     \<lparr>ctx_config = config, ctx_resolvePath = resolvePath, ctx_platform = isPlatformContainer ls,
      ctx_ingress = isIngressContainer ls\<rparr>"

definition strict_profile :: "policy_config \<Rightarrow> resolve_path \<Rightarrow> fields \<Rightarrow> bool" where
  "strict_profile config resolvePath body \<longleftrightarrow>
     (let hc = record_or_empty (obj_get body ''HostConfig''); ls = labelsOf (obj_get body ''Labels'')
      in safe_flags config (isPlatformContainer ls) hc \<and> safe_modes hc
         \<and> safe_mounts (create_ctx config resolvePath ls) hc)"

lemma create_clean_profile:
  "(\<exists>v. evaluateContainerCreate (Some (JObj body)) config resolvePath = Inr v \<and> violations v = [])
   \<longleftrightarrow> strict_profile config resolvePath body"
proof -
  let ?hc = "record_or_empty (obj_get body ''HostConfig'')"
  let ?ls = "labelsOf (obj_get body ''Labels'')"
  have "(\<exists>v. evaluateContainerCreate (Some (JObj body)) config resolvePath = Inr v \<and> violations v = [])
    \<longleftrightarrow> checkHostConfigFlags ?hc config (isPlatformContainer ?ls) = []
      \<and> (checkNamespaces ?hc = [] \<and> checkSecurityOpt ?hc = [])
      \<and> (checkMountKinds ?hc = []
         \<and> (\<exists>v. checkMounts ?hc (create_ctx config resolvePath ?ls) = Inr v \<and> violations v = []))"
    by (auto simp: evaluateContainerCreate_def Let_def rbind_Inr_iff create_ctx_def)
  then show ?thesis
    unfolding checkHostConfigFlags_safe check_modes_safe safe_mounts_iff strict_profile_def Let_def .
qed


lemma create_clean_iff_strict_profile_example:
  "strict_profile DEFAULT_POLICY_CONFIG (resolveBindPath demo_probe)
     [(''Image'', JStr ''nginx''), (''HostConfig'', JObj [(''NetworkMode'', JStr ''bridge'')])]
   \<and> \<not> strict_profile DEFAULT_POLICY_CONFIG (resolveBindPath demo_probe)
     [(''HostConfig'', JObj [(''Binds'', JArr [JStr ''/:/host''])])]"
proof -
  have "map_option violations (case evaluateContainerCreate (Some (JObj
      [(''Image'', JStr ''nginx''), (''HostConfig'', JObj [(''NetworkMode'', JStr ''bridge'')])]))
      DEFAULT_POLICY_CONFIG (resolveBindPath demo_probe) of Inr v \<Rightarrow> Some v | Inl _ \<Rightarrow> None) = Some []"
    by code_simp
  moreover have "map_option violations (case evaluateContainerCreate (Some (JObj
      [(''HostConfig'', JObj [(''Binds'', JArr [JStr ''/:/host''])])]))
      DEFAULT_POLICY_CONFIG (resolveBindPath demo_probe) of Inr v \<Rightarrow> Some v | Inl _ \<Rightarrow> None)
      = Some [Violation ''bind-host-root'' (Some ''/'')]"
    by code_simp
  ultimately show ?thesis
    unfolding create_clean_profile [symmetric] by (auto split: sum.splits)
qed

section \<open>The engine's view of a clean create\<close>

lemma ruled_fields_canonical: "list_all (\<lambda>f. f \<in> set CANONICAL_FIELDS) (''HostConfig'' # RULED_HOSTCONFIG_FIELDS)"
  by code_simp

lemma canon_flat [simp]:
  "canon cx u = JBool b \<longleftrightarrow> u = JBool b" "canon cx u = JStr s \<longleftrightarrow> u = JStr s" "canon cx u = JNull \<longleftrightarrow> u = JNull"
  by (cases u; simp)+

lemma isPresent_canon [simp]: "isPresent (Some (canon cx u)) = isPresent (Some u)"
  by (cases u) auto

lemma joins_foreign_canon [simp]: "joins_foreign (Some (canon cx u)) = joins_foreign (Some u)"
  by (cases u) auto

lemma stringList_canon [simp]: "stringList (Some (canon cx u)) = stringList (Some u)"
proof -
  have "(case canon Struct x of JStr s \<Rightarrow> [s] | _ \<Rightarrow> []) = (case x of JStr s \<Rightarrow> [s] | _ \<Rightarrow> [])" for x
    by (cases x) auto
  then show ?thesis by (cases u) (simp_all add: comp_def)
qed

text \<open>What the policy reads for a field of the host configuration is what the engine could find.\<close>

lemma engine_field:
  assumes "parseRequestBody s = Inr v" "json_parse s = Some w" "f \<in> set RULED_HOSTCONFIG_FIELDS"
    and "u \<in> set (folded_path w [''HostConfig'', f])"
  shows "obj_get (record_or_empty (jprop (Some v) ''HostConfig'')) f = Some (canon (childContext Struct f) u)"
proof -
  from assms(1) have "strict_parse s = Inr v" by (simp add: parseRequestBody_strict)
  then have v: "v = canon Struct w" "unambiguous Struct w"
    using assms(2) by (auto elim: strict_parse_agrees)
  have "list_all (\<lambda>f. to_lower f \<notin> set MAP_FIELDS) (butlast [''HostConfig'', f])"
    by (simp add: MAP_FIELDS_def to_lower_def) code_simp
  then have "(case read_path v [''HostConfig'', f] of None \<Rightarrow> [] | Some x \<Rightarrow> [x])
      = map (canon (childContext Struct f)) (folded_path w [''HostConfig'', f])"
    using folded_path_canon [OF v(2), of "[''HostConfig'', f]"] assms(3) ruled_fields_canonical v(1)
    by (auto simp: list_all_iff)
  with assms(4) have "canon (childContext Struct f) u
      \<in> set (case read_path v [''HostConfig'', f] of None \<Rightarrow> [] | Some x \<Rightarrow> [x])" by auto
  then have "read_path v [''HostConfig'', f] = Some (canon (childContext Struct f) u)"
    by (auto split: option.splits)
  then obtain x where "jprop (Some v) ''HostConfig'' = Some x" "jprop (Some x) f = Some (canon (childContext Struct f) u)"
    by (auto split: option.splits)
  then show ?thesis by (cases x) auto
qed

lemma named_fields_ruled:
  "list_all (\<lambda>(r, f). f \<in> set RULED_HOSTCONFIG_FIELDS) NAMESPACES"
  "list_all (\<lambda>(f, r). f \<in> set RULED_HOSTCONFIG_FIELDS) BANNED_HOSTCONFIG_FIELDS"
  "list_all (\<lambda>f. f \<in> set RULED_HOSTCONFIG_FIELDS) [''Privileged'', ''Binds'']"
  by code_simp+

lemma bindEntries_Binds:
  "b \<in> set (stringList (obj_get hc ''Binds'')) \<Longrightarrow>
   \<lparr>bind_source = hd (split_on (CHR '':'') b), bind_readOnly = bindIsReadOnly b\<rparr> \<in> set (bindEntries hc)"
  by (auto simp: bindEntries_def)


lemma demo_create_parse:
  \<open>parseRequestBody ''{"image":"x","hostconfig":{"networkmode":"bridge"}}''
     = Inr (JObj [(''image'', JStr ''x''), (''HostConfig'', JObj [(''NetworkMode'', JStr ''bridge'')])])\<close>
  by code_simp

lemma demo_create_plain:
  \<open>json_parse ''{"image":"x","hostconfig":{"networkmode":"bridge"}}''
     = Some (JObj [(''image'', JStr ''x''), (''hostconfig'', JObj [(''networkmode'', JStr ''bridge'')])])\<close>
  by code_simp

lemma demo_create_clean:
  \<open>evaluateContainerCreate (Some (JObj
      [(''image'', JStr ''x''), (''HostConfig'', JObj [(''NetworkMode'', JStr ''bridge'')])]))
      DEFAULT_POLICY_CONFIG (resolveBindPath demo_probe) = Inr \<lparr>violations = [], allowances = []\<rparr>\<close>
  by code_simp


section \<open>Routes\<close>

text \<open>Deny by default. A request without findings has a plain path with at most one
  version prefix, no form body, a body the strict parser accepted, and is either of a route
  the table lists (none of the restricted ones and not an archive upload) or a listed read.\<close>

lemma clean_request_is_listed:
  assumes "evaluateDetailed facts config resolvePath = Inr v" "violations v = []"
  shows "pathIsCanonical (facts_path facts) \<and> versionPrefixIsCanonical (facts_path facts)
    \<and> routePath (routePath (facts_path facts)) = routePath (facts_path facts)
    \<and> \<not> facts_formBody facts \<and> facts_bodyError facts = None
    \<and> ((\<exists>r \<in> set ROUTES. rule_matches (facts_method facts) (routePath (facts_path facts)) r
           \<and> rr_route r \<notin> {''restricted-group'', ''containers.archive.put''})
       \<or> facts_method facts \<in> {''GET'', ''HEAD''}
         \<and> (\<exists>p \<in> set READ_ROUTES. re_match p (routePath (facts_path facts))))"
proof -
  have e: "facts_bodyError facts = None" using assms by (auto simp: evaluateDetailed_def split: option.splits)
  let ?r = "route (classifyRoute (facts_method facts) (facts_path facts))"
  from e assms obtain f where f: "evaluateByRoute ?r facts config resolvePath = Inr f"
      "path_findings facts = []" "violations f = []"
    by (auto simp: evaluateDetailed_def rbind_Inr_iff)
  have r: "?r \<notin> {''restricted-group'', ''containers.archive.put'', ''unclassified''}"
    using f(1,3) by (auto simp: evaluateByRoute_def plain_def)
  have c: "pathIsCanonical (facts_path facts)" "versionPrefixIsCanonical (facts_path facts)"
      "\<not> facts_formBody facts"
    using f(2) by (auto simp: path_findings_def split: if_splits)
  then have "routePath (routePath (facts_path facts)) = routePath (facts_path facts)"
    by (auto simp: versionPrefixIsCanonical_def routePath_def split: if_splits option.splits)
  moreover have "(\<exists>r \<in> set ROUTES. rule_matches (facts_method facts) (routePath (facts_path facts)) r
           \<and> rr_route r \<notin> {''restricted-group'', ''containers.archive.put''})
       \<or> facts_method facts \<in> {''GET'', ''HEAD''}
         \<and> (\<exists>p \<in> set READ_ROUTES. re_match p (routePath (facts_path facts)))"
  proof (cases "find (rule_matches (facts_method facts) (routePath (facts_path facts))) ROUTES")
    case (Some rl)
    then have "rl \<in> set ROUTES" "rule_matches (facts_method facts) (routePath (facts_path facts)) rl"
      by (auto simp: find_Some_iff)
    moreover have "?r = rr_route rl" using Some by (simp add: classifyRoute_def Let_def)
    ultimately show ?thesis using r by auto
  next
    case None
    then show ?thesis using r by (auto simp: classifyRoute_def Let_def list_ex_iff split: if_splits)
  qed
  ultimately show ?thesis using c e by (intro conjI)
qed

definition ping_facts :: request_facts where
  "ping_facts = \<lparr>facts_method = ''GET'', facts_path = ''/v1.47/_ping'', facts_query = [],
     facts_body = None, facts_plainBody = None, facts_formBody = False, facts_bodyError = None\<rparr>"

lemma ping_clean:
  "evaluateDetailed ping_facts DEFAULT_POLICY_CONFIG Inr = Inr \<lparr>violations = [], allowances = []\<rparr>"
  by code_simp

section \<open>The check at start\<close>

lemma start_rules_Nil: "start_rules seen vs = [] \<longleftrightarrow> (\<forall>v \<in> set vs. violation_key v \<in> set seen)"
proof (induction vs arbitrary: seen)
  case (Cons v vs)
  then show ?case by auto
qed simp

lemma start_rules_clean [simp]: "start_rules [] vs = [] \<longleftrightarrow> vs = []"
  by (cases vs) auto

definition mount_entry :: "fields \<Rightarrow> bind_entry" where
  "mount_entry m = \<lparr>bind_source = (case obj_get m ''Source'' of Some (JStr s) \<Rightarrow> s | _ \<Rightarrow> []),
     bind_readOnly = (obj_get m ''ReadOnly'' = Some (JBool True))\<rparr>"

lemma bindEntries_Mounts:
  assumes "JObj m \<in> set ms" "obj_get hc ''Mounts'' = Some (JArr ms)" "obj_get m ''Type'' = Some (JStr ''bind'')"
  shows "mount_entry m \<in> set (bindEntries hc)"
proof -
  have "m \<in> set (record_items (obj_get hc ''Mounts''))"
    using assms(1,2) by (force simp: image_iff)
  then show ?thesis using assms(3) by (auto simp: bindEntries_def mount_entry_def)
qed

text \<open>The check at start covers what the engine will mount. Without findings, every bind of
  the stored host configuration and every live bind mount the engine lists passes the bind
  policy as it stands at that moment.\<close>

lemma start_clean_binds:
  assumes "evaluateStartBinds doc config resolvePath = Inr v" "violations v = []"
  shows "(\<forall>m. JObj m \<in> set (doc_mounts doc) \<and> obj_get m ''Type'' = Some (JStr ''bind'') \<longrightarrow>
      outcome_violation (checkBindSource (mount_entry m)
        (create_ctx config resolvePath (doc_labels doc))) = None)
    \<and> (\<forall>b \<in> set (stringList (obj_get (doc_hostConfig doc) ''Binds'')). outcome_violation (checkBindSource
        \<lparr>bind_source = hd (split_on (CHR '':'') b), bind_readOnly = bindIsReadOnly b\<rparr>
        (create_ctx config resolvePath (doc_labels doc))) = None)"
proof -
  define hc where "hc = AList.update ''Mounts''
    (JArr (array_or_empty (obj_get (doc_hostConfig doc) ''Mounts'') @ doc_mounts doc)) (doc_hostConfig doc)"
  have get: "obj_get hc ''Mounts'' = Some (JArr (array_or_empty (obj_get (doc_hostConfig doc) ''Mounts'')
        @ doc_mounts doc))" "obj_get hc ''Binds'' = obj_get (doc_hostConfig doc) ''Binds''"
    by (simp_all add: hc_def obj_get_def map_of_update)
  from assms obtain f where "checkMounts hc (create_ctx config resolvePath (doc_labels doc)) = Inr f"
      "violations f = []"
    by (auto simp: evaluateStartBinds_def Let_def rbind_Inr_iff hc_def create_ctx_def)
  then have all: "\<forall>e \<in> set (bindEntries hc).
      outcome_violation (checkBindSource e (create_ctx config resolvePath (doc_labels doc))) = None"
    using checkMounts_clean_iff by blast
  have "outcome_violation (checkBindSource (mount_entry m)
        (create_ctx config resolvePath (doc_labels doc))) = None"
    if "JObj m \<in> set (doc_mounts doc)" "obj_get m ''Type'' = Some (JStr ''bind'')" for m
    using that by (intro bspec [OF all] bindEntries_Mounts [OF _ get(1)]) auto
  moreover have "outcome_violation (checkBindSource
        \<lparr>bind_source = hd (split_on (CHR '':'') b), bind_readOnly = bindIsReadOnly b\<rparr>
        (create_ctx config resolvePath (doc_labels doc))) = None"
    if "b \<in> set (stringList (obj_get (doc_hostConfig doc) ''Binds''))" for b
    using that get(2) by (intro bspec [OF all] bindEntries_Binds) simp
  ultimately show ?thesis by blast
qed

definition demo_doc :: start_doc where
  "demo_doc = \<lparr>doc_labels = [], doc_hostConfig = [(''Binds'', JArr [JStr ''/srv/users/u1/data:/d''])],
     doc_mounts = [JObj [(''Type'', JStr ''bind''), (''Source'', JStr ''/srv/users/u1/tmp''),
       (''ReadOnly'', JBool False)]]\<rparr>"

lemma demo_doc_clean:
  "evaluateStartBinds demo_doc DEFAULT_POLICY_CONFIG Inr = Inr \<lparr>violations = [], allowances = []\<rparr>"
  by code_simp

section \<open>The one expression that throws\<close>

text \<open>A tmpfs option that is an object with a field \<open>toString\<close> has no conversion to a string.\<close>

lemma create_can_throw:
  "evaluateContainerCreate (Some (JObj [(''HostConfig'', JObj [(''Mounts'', JArr [JObj
     [(''Type'', JStr ''tmpfs''), (''TmpfsOptions'', JObj [(''Options'',
       JArr [JArr [JObj [(''toString'', JNull)]]])])]])])])) DEFAULT_POLICY_CONFIG Inr
   = Inl ''TypeError''"
  by code_simp

end
