(* ===== verification/Json_Print.thy ===== *)
theory Json_Print
  imports Gate_Http Json
begin

text \<open>
  \<open>JSON.stringify\<close> of the values the sources print, and its round trips through the
  runtime's parser. The decimal text of a number that is not an integer is the language's
  shortest representation; it stays a parameter (\<open>num_text\<close>) of the functions that print
  arbitrary numbers.
\<close>

section \<open>Printing\<close>

definition escape_unit :: "nat \<Rightarrow> string" where
  "escape_unit u = [CHR 0x5C, CHR ''u'', hex_lower (u div 4096), hex_lower (u div 256 mod 16),
     hex_lower (u div 16 mod 16), hex_lower (u mod 16)]"

text \<open>A lone surrogate (a three-byte sequence from \<open>ED A0\<close>) is printed as its escape.\<close>

fun json_chars :: "string \<Rightarrow> string" where
  "json_chars [] = []"
| "json_chars (a # s) = (case s of
     b # c # r \<Rightarrow>
       if code a = 237 \<and> 160 \<le> code b
       then escape_unit (53248 + (code b - 128) * 64 + (code c - 128)) @ json_chars r
       else quote_char a @ json_chars s
   | _ \<Rightarrow> quote_char a @ json_chars s)"

definition json_string :: "string \<Rightarrow> string" where
  "json_string s = CHR 0x22 # json_chars s @ [CHR 0x22]"

definition int_text :: "int \<Rightarrow> string" where
  "int_text n = (if n < 0 then CHR ''-'' # digits_of_nat (nat (- n)) else digits_of_nat (nat n))"

section \<open>Strings\<close>

lemma json_chars_plain: "code a \<noteq> 237 \<Longrightarrow> json_chars (a # s) = quote_char a @ json_chars s"
  by (auto split: list.splits)

lemma json_chars_low: "code b < 160 \<Longrightarrow> json_chars (a # b # s) = quote_char a @ json_chars (b # s)"
  by (auto split: list.splits)

declare json_chars.simps(2) [simp del]

lemma json_chars_valid: "utf8_valid s \<Longrightarrow> json_chars s = concat (map quote_char s)"
proof (induction s rule: utf8_valid.induct)
  case (2 a s)
  consider (one) "code a < 128" | (two) "\<not> code a < 128" "byte_in 194 223 a"
    | (three) "\<not> code a < 128" "\<not> byte_in 194 223 a" "byte_in 224 239 a"
    | (four) "\<not> code a < 128" "\<not> byte_in 194 223 a" "\<not> byte_in 224 239 a" "byte_in 240 244 a"
    | (bad) "\<not> code a < 128" "\<not> byte_in 194 223 a" "\<not> byte_in 224 239 a" "\<not> byte_in 240 244 a"
    by blast
  then show ?case
  proof cases
    case one
    then show ?thesis using 2 by (simp add: json_chars_plain)
  next
    case two
    then obtain b s' where "s = b # s'" using "2.prems" by (simp split: list.splits)
    then show ?thesis using two 2 by (simp add: json_chars_plain byte_in_code)
  next
    case three
    then obtain b c s' where s: "s = b # c # s'"
      using "2.prems" by (simp split: list.splits)
    have cont: "code b \<le> 191" "code c \<le> 191" "code a = 237 \<Longrightarrow> code b < 160" "utf8_valid s'"
      using three "2.prems" s by (auto simp: byte_in_code split: if_splits)
    have "json_chars (a # b # c # s') = quote_char a @ json_chars (b # c # s')"
      using cont(3) by (cases "code a = 237") (auto simp: json_chars_plain json_chars_low)
    moreover have "json_chars s' = concat (map quote_char s')" using three s "2.IH" "2.prems" by simp
    ultimately show ?thesis using cont s by (simp add: json_chars_plain)
  next
    case four
    then obtain b c d s' where s: "s = b # c # d # s'"
      using "2.prems" by (simp split: list.splits)
    then have "code b \<le> 191" "code c \<le> 191" "code d \<le> 191" "utf8_valid s'"
      using four "2.prems" by (auto simp: byte_in_code split: if_splits)
    moreover have "code a \<noteq> 237" using four by (simp add: byte_in_code)
    moreover have "json_chars s' = concat (map quote_char s')" using four s "2.IH" "2.prems" by simp
    ultimately show ?thesis using s by (simp add: json_chars_plain)
  next
    case bad
    then show ?thesis using "2.prems" by simp
  qed
qed simp

lemma hex_lower_value:
  "n < 16 \<Longrightarrow> is_hex (hex_lower n) \<and> digit_value (hex_lower n) = n \<and> hex_lower n \<noteq> CHR 0x22
     \<and> hex_lower n \<noteq> CHR 0x5C"
proof -
  have "list_all (\<lambda>n. is_hex (hex_lower n) \<and> digit_value (hex_lower n) = n \<and> hex_lower n \<noteq> CHR 0x22
     \<and> hex_lower n \<noteq> CHR 0x5C) [0..<16]"
    by code_simp
  then show "n < 16 \<Longrightarrow> is_hex (hex_lower n) \<and> digit_value (hex_lower n) = n \<and> hex_lower n \<noteq> CHR 0x22
     \<and> hex_lower n \<noteq> CHR 0x5C"
    by (simp add: list_all_iff)
qed

text \<open>One printed character is read back as itself, and the scanner steps over it.\<close>

lemma quote_char_cases:
  obtains (plain) "quote_char c = [c]" "c \<noteq> CHR 0x22" "c \<noteq> CHR 0x5C" "32 \<le> code c"
  | (simple) d where "quote_char c = [CHR 0x5C, d]" "simple_escape d = Some c" "d \<noteq> CHR ''u''"
  | (unit) "quote_char c = [CHR 0x5C, CHR ''u'', CHR ''0'', CHR ''0'', hex_lower (code c div 16),
      hex_lower (code c mod 16)]" "code c < 32"
proof -
  have chs: "char_of (8 :: nat) = CHR 0x08" "char_of (9 :: nat) = CHR 0x09" "char_of (10 :: nat) = CHR 0x0A"
    "char_of (12 :: nat) = CHR 0x0C" "char_of (13 :: nat) = CHR 0x0D"
    by code_simp+
  have eqs: "code c = 8 \<Longrightarrow> c = CHR 0x08" "code c = 9 \<Longrightarrow> c = CHR 0x09" "code c = 10 \<Longrightarrow> c = CHR 0x0A"
    "code c = 12 \<Longrightarrow> c = CHR 0x0C" "code c = 13 \<Longrightarrow> c = CHR 0x0D"
    by (metis char_of_code chs)+
  consider "c = CHR 0x22" | "c = CHR 0x5C" | "code c = 8" | "code c = 9" | "code c = 10" | "code c = 12"
    | "code c = 13" | "code c < 32" "code c \<notin> {8, 9, 10, 12, 13}" "c \<noteq> CHR 0x22" "c \<noteq> CHR 0x5C"
    | "32 \<le> code c" "c \<noteq> CHR 0x22" "c \<noteq> CHR 0x5C"
    by force
  then show thesis
  proof cases
    case 8
    then show ?thesis using unit by (simp add: quote_char_def)
  next
    case 9
    then show ?thesis using plain by (simp add: quote_char_def)
  qed (use simple eqs in \<open>auto simp: quote_char_def simple_escape_def\<close>)
qed

lemma string_token_quote:
  "string_token (quote_char c @ r) = map_option (\<lambda>(b, t). (quote_char c @ b, t)) (string_token r)"
proof (cases c rule: quote_char_cases)
  case unit
  have "code c div 16 < 16" "code c mod 16 < 16" using unit(2) by auto
  then show ?thesis unfolding unit(1)
    using hex_lower_value [of "code c div 16"] hex_lower_value [of "code c mod 16"]
    by (cases "string_token r") auto
next
  case plain
  then show ?thesis by (cases "string_token r") auto
next
  case simple
  then show ?thesis by (cases "string_token r") auto
qed

lemma string_token_quotes:
  "string_token (concat (map quote_char s) @ CHR 0x22 # r) = Some (concat (map quote_char s), r)"
  by (induction s) (simp_all add: string_token_quote)

lemma unescape_quote: "unescape (quote_char c @ r) = map_option ((#) c) (unescape r)"
proof (cases c rule: quote_char_cases)
  case unit
  have d: "code c div 16 < 16" "code c mod 16 < 16" using unit(2) by auto
  have h: "hex4 (CHR ''0'' # CHR ''0'' # hex_lower (code c div 16) # hex_lower (code c mod 16) # r)
      = Some (code c)"
    using hex_lower_value [OF d(1)] hex_lower_value [OF d(2)]
    by (simp add: hex4_def nat_of_digits_def is_hex_def is_digit_def digit_value_def [of "CHR ''0''"])
  show ?thesis unfolding unit(1)
    using unit(2) h by (cases "unescape r") (simp_all add: code_def [of "CHR 0x5C"])
next
  case plain
  then show ?thesis by simp
next
  case (simple d)
  then show ?thesis by (simp add: code_def [of "CHR 0x5C"])
qed

lemma unescape_quotes: "unescape (concat (map quote_char s)) = Some s"
  by (induction s) (simp_all add: unescape_quote)

lemma scan_json_string: "utf8_valid s \<Longrightarrow> scan_string (json_string s @ r) = Some (s, r)"
  by (simp add: scan_string_def json_string_def json_chars_valid string_token_quotes unescape_quotes)

section \<open>Natural numbers\<close>

lemma digit_char: "n < 10 \<Longrightarrow> is_digit (char_of (48 + n)) \<and> digit_value (char_of (48 + n)) = n"
  by (simp add: is_digit_def digit_value_def)

lemma digits_of_nat_digits: "list_all is_digit (digits_of_nat n) \<and> digits_of_nat n \<noteq> []"
proof (induction n rule: digits_of_nat.induct)
  case (1 n)
  then show ?case using digit_char [of n] digit_char [of "n mod 10"]
    by (cases "n < 10") (simp_all add: digits_of_nat.simps [of n])
qed

lemma nat_of_digits_append1:
  "nat_of_digits b (s @ [c]) = nat_of_digits b s * b + digit_value c"
  by (simp add: nat_of_digits_def)

lemma nat_of_digits_of_nat: "nat_of_digits 10 (digits_of_nat n) = n"
proof (induction n rule: digits_of_nat.induct)
  case (1 n)
  show ?case
  proof (cases "n < 10")
    case True
    then show ?thesis using digit_char [of n] by (simp add: digits_of_nat.simps nat_of_digits_def)
  next
    case False
    then show ?thesis using 1 digit_char [of "n mod 10"]
      by (simp add: digits_of_nat.simps [of n] nat_of_digits_append1)
  qed
qed

lemma hd_digits_of_nat: "0 < n \<Longrightarrow> hd (digits_of_nat n) \<noteq> CHR ''0''"
proof (induction n rule: digits_of_nat.induct)
  case (1 n)
  show ?case
  proof (cases "n < 10")
    case True
    then have "digit_value (char_of (48 + n)) \<noteq> digit_value (CHR ''0'')"
      using digit_char [of n] 1 by (simp add: digit_value_def is_digit_def)
    then show ?thesis using True by (auto simp: digits_of_nat.simps)
  next
    case False
    then show ?thesis using 1 digits_of_nat_digits [of "n div 10"]
      by (simp add: digits_of_nat.simps [of n] hd_append)
  qed
qed

definition ends_number :: "string \<Rightarrow> bool" where
  "ends_number r \<longleftrightarrow> (case r of [] \<Rightarrow> True
     | c # _ \<Rightarrow> \<not> is_digit c \<and> c \<noteq> CHR ''.'' \<and> c \<noteq> CHR ''e'' \<and> c \<noteq> CHR ''E'')"

lemma scan_digits_text:
  assumes "ends_number r"
  shows "scan_scalar (digits_of_nat n @ r) = Some (JNum (int n) 0, r)"
proof -
  obtain c s where ds: "digits_of_nat n = c # s" "is_digit c" "list_all is_digit s"
    using digits_of_nat_digits [of n] by (cases "digits_of_nat n") auto
  have r: "takeWhile is_digit r = []" "dropWhile is_digit r = r" "scan_frac r = ([], r)" "scan_exp r = (0, r)"
    using assms by (auto simp: ends_number_def scan_frac_def scan_exp_def split: list.splits)
  have tw: "takeWhile is_digit (digits_of_nat n @ r) = digits_of_nat n"
      "dropWhile is_digit (digits_of_nat n @ r) = r"
    using r digits_of_nat_digits [of n] by (auto simp: takeWhile_append dropWhile_append list_all_iff)
  have ip: "scan_int_part (digits_of_nat n @ r) = Some (digits_of_nat n, r)"
  proof (cases "n = 0")
    case True
    have "char_of (48 :: nat) = CHR ''0''" by code_simp
    then show ?thesis using True by (simp add: scan_int_part_def digits_of_nat.simps)
  next
    case False
    then have "c \<noteq> CHR ''0''" using hd_digits_of_nat [of n] ds by simp
    then show ?thesis using ds tw by (simp add: scan_int_part_def)
  qed
  have neg: "\<not> starts_with ''-'' (digits_of_nat n @ r)" using ds by (auto simp: is_digit_def)
  have "filter (\<lambda>(w, _). starts_with w (digits_of_nat n @ r)) literals = []"
    using ds by (auto simp: literals_def is_digit_def)
  then show ?thesis
    using ip r neg by (simp add: scan_scalar_def scan_number_def nat_of_digits_of_nat)
qed

end
