(* ===== verification/Numbers.thy ===== *)
theory Numbers
  imports Json "HOL-Library.Code_Target_Nat"
begin

text \<open>
  The number conversions of the language that the sources use: which integer a decimal
  literal stands for once it is rounded to a double, and \<open>Number(text)\<close>.
\<close>

section \<open>Integers\<close>

text \<open>
  \<open>Number.isSafeInteger\<close> of the double nearest to \<open>m * 10 ^ e\<close>, and that integer. A fraction
  is rounded to 53 bits, ties to even; below one the nearest double is zero, one, or no
  integer.
\<close>

fun ilog2 :: "nat \<Rightarrow> nat" where
  "ilog2 n = (if n < 2 then 0 else Suc (ilog2 (n div 2)))"

declare ilog2.simps [simp del]

definition MAX_SAFE :: int where "MAX_SAFE = 2 ^ 53 - 1"

definition round_div :: "int \<Rightarrow> int \<Rightarrow> int" where
  "round_div a b = (let q = a div b; r = a mod b
     in if 2 * r < b then q else if 2 * r > b then q + 1 else if even q then q else q + 1)"

definition safe_fraction :: "int \<Rightarrow> int \<Rightarrow> int option" where
  "safe_fraction a b =
     (if a < b then
        (if \<not> a * 2 ^ 1075 > b then Some 0 else if (b - a) * 2 ^ 54 \<le> b then Some 1 else None)
      else let k = ilog2 (nat (a div b))
        in if k > 52 then None
           else let scale = 2 ^ (52 - k); q = round_div (a * scale) b
             in if q mod scale = 0 \<and> q div scale \<le> MAX_SAFE then Some (q div scale) else None)"

fun safe_integer :: "json option \<Rightarrow> int option" where
  "safe_integer (Some (JNum m e)) =
     (if e \<ge> 0 then (if m * 10 ^ nat e \<le> MAX_SAFE \<and> - MAX_SAFE \<le> m * 10 ^ nat e
        then Some (m * 10 ^ nat e) else None)
      else if m \<ge> 0 then safe_fraction m (10 ^ nat (- e))
      else map_option uminus (safe_fraction (- m) (10 ^ nat (- e))))"
| "safe_integer _ = None"

section \<open>Numbers from text\<close>

text \<open>
  \<open>Number(text)\<close>: the decimal \<open>m * 10 ^ e\<close> of a numeric text (surrounding white space is
  dropped and the empty text is zero), \<open>None\<close> when it is no finite number.
\<close>

definition unsigned_decimal :: "string \<Rightarrow> (int \<times> int) option" where
  "unsigned_decimal s =
     (let ip = takeWhile is_digit s; r = dropWhile is_digit s;
          (fp, r2) = (if starts_with ''.'' r then (takeWhile is_digit (tl r), dropWhile is_digit (tl r)) else ([], r));
          (ex, r3) = scan_exp r2
      in if ip @ fp = [] \<or> r3 \<noteq> [] then None
         else Some (int (nat_of_digits 10 (ip @ fp)), ex - int (length fp)))"

definition radix_digits :: "nat \<Rightarrow> string \<Rightarrow> (int \<times> int) option" where
  "radix_digits b s = (if s \<noteq> [] \<and> list_all (\<lambda>c. is_hex c \<and> digit_value c < b) s
     then Some (int (nat_of_digits b s), 0) else None)"

definition number_of_text :: "string \<Rightarrow> (int \<times> int) option" where
  "number_of_text raw =
     (let s = js_trim raw; p = to_lower (take 2 s)
      in if s = [] then Some (0, 0)
         else if p = ''0x'' then radix_digits 16 (drop 2 s)
         else if p = ''0o'' then radix_digits 8 (drop 2 s)
         else if p = ''0b'' then radix_digits 2 (drop 2 s)
         else if starts_with ''-'' s then map_option (\<lambda>(m, e). (- m, e)) (unsigned_decimal (tl s))
         else if starts_with ''+'' s then unsigned_decimal (tl s)
         else unsigned_decimal s)"

text \<open>The double nearest to \<open>a / b\<close> (positive), when it is a finite integer.\<close>

definition round_integer :: "int \<Rightarrow> int \<Rightarrow> int option" where
  "round_integer a b =
     (if a < b then safe_fraction a b
      else let k = ilog2 (nat (a div b))
        in if k \<le> 52 then let scale = 2 ^ (52 - k); q = round_div (a * scale) b
             in if q mod scale = 0 then Some (q div scale) else None
           else let scale = 2 ^ (k - 52); q = round_div a (b * scale)
             in if q * scale < 2 ^ 1024 then Some (q * scale) else None)"

text \<open>\<open>Number.isInteger\<close> of the double nearest to \<open>m * 10 ^ e\<close>, and that integer.\<close>

definition decimal_integer :: "int \<Rightarrow> int \<Rightarrow> int option" where
  "decimal_integer m e =
     (if e \<ge> 0 \<and> \<bar>m * 10 ^ nat e\<bar> \<le> MAX_SAFE then Some (m * 10 ^ nat e)
      else let a = (if e \<ge> 0 then \<bar>m\<bar> * 10 ^ nat e else \<bar>m\<bar>); b = (if e \<ge> 0 then 1 else 10 ^ nat (- e))
        in map_option (\<lambda>n. if m < 0 then - n else n) (round_integer a b))"

lemma decimal_integer_whole: "\<bar>n\<bar> \<le> MAX_SAFE \<Longrightarrow> decimal_integer n 0 = Some n"
  by (simp add: decimal_integer_def)

end
