(* ===== verification/Gate_Approval.thy ===== *)
theory Gate_Approval
  imports Gate_Policy Json_Print Numbers
begin

text \<open>
  Signed approvals (\<open>orchestration/roles/docker-gate/files/approval.ts\<close>): the canonical text
  of a create body and its digest, the token checks, the split of findings into covered and
  remaining ones, and the in-memory cache of used token ids.

  What the file takes from the platform is an argument of record type \<open>approval_env\<close>: the
  SHA-256 digest, the Ed25519 verification under a key (a verification that throws counts as
  failed), the import of a raw key, and the text of a number. Time is in whole seconds.
\<close>

record 'key approval_env =
  sha256 :: "string \<Rightarrow> string"
  ed25519_verify :: "'key \<Rightarrow> string \<Rightarrow> string \<Rightarrow> bool"
  import_key :: "string \<Rightarrow> 'key"
  num_text :: "int \<Rightarrow> int \<Rightarrow> string"

definition APPROVAL_LABEL :: string where "APPROVAL_LABEL = ''com.turbopanel.approval''"
definition APPROVAL_VERSION :: string where "APPROVAL_VERSION = ''v2''"
definition APPROVAL_DOMAIN :: string where
  "APPROVAL_DOMAIN = ''turbopanel-docker-gate-approval-v2'' @ [CHR 0x0A]"
definition MAX_APPROVAL_TTL_SEC :: int where "MAX_APPROVAL_TTL_SEC = 900"
definition APPROVAL_CLOCK_SKEW_SEC :: int where "APPROVAL_CLOCK_SKEW_SEC = 60"
definition MAX_APPROVAL_TOKEN_BYTES :: nat where "MAX_APPROVAL_TOKEN_BYTES = 4096"

definition APPROVABLE_RULES :: "(string \<times> string) list" where
  "APPROVABLE_RULES = [(''privileged'', ''privileged''), (''bind-docker-socket'', ''docker-socket''),
     (''bind-outside-roots'', ''host-paths''), (''network-mode-host'', ''host-network''),
     (''cap-add'', ''cap-add''), (''devices'', ''devices'')]"

record approval_payload =
  pl_deployId :: string
  pl_project :: string
  pl_composeDigest :: string
  pl_bodyDigest :: string
  pl_containerName :: string
  pl_jti :: string
  pl_features :: "string list"
  pl_iat :: int
  pl_exp :: int

datatype approval_result =
    Approved approval_payload
  | Rejected (reason: string) (who: "(string \<times> string) option")

section \<open>The digest of a body\<close>

definition toBase64Url :: "string \<Rightarrow> string" where
  "toBase64Url bytes = b64url_encode (map code bytes)"

text \<open>\<open>Object.keys(value).sort(byCodeUnit)\<close>.\<close>

definition insert_key :: "string \<Rightarrow> string list \<Rightarrow> string list" where
  "insert_key k ks = takeWhile (\<lambda>j. \<not> js_less k j) ks @ k # dropWhile (\<lambda>j. \<not> js_less k j) ks"

definition sorted_keys :: "fields \<Rightarrow> string list" where
  "sorted_keys fs = fold insert_key (object_keys fs) []"

fun canonicalJson :: "'key approval_env \<Rightarrow> json \<Rightarrow> string" where
  "canonicalJson env (JArr xs) = ''['' @ join_with '','' (map (canonicalJson env) xs) @ '']''"
| "canonicalJson env (JObj fs) =
     (let texts = map (\<lambda>(k, v). (k, canonicalJson env v)) fs
      in ''{'' @ join_with '','' (map (\<lambda>k. json_string k @ '':'' @ the (map_of texts k)) (sorted_keys fs)) @ ''}'')"
| "canonicalJson env (JStr s) = json_string s"
| "canonicalJson env (JNum m e) = num_text env m e"
| "canonicalJson env (JBool b) = (if b then ''true'' else ''false'')"
| "canonicalJson env JNull = ''null''"

definition without_label :: "json \<Rightarrow> json" where
  "without_label body = (case body of
     JObj fs \<Rightarrow> JObj (map (\<lambda>(k, v). (k, if k = ''Labels'' then (case v of
         JObj ls \<Rightarrow> JObj (AList.delete APPROVAL_LABEL ls) | _ \<Rightarrow> v) else v)) fs)
   | _ \<Rightarrow> body)"

definition approvalBodyDigest :: "'key approval_env \<Rightarrow> json option \<Rightarrow> string" where
  "approvalBodyDigest env body = toBase64Url (sha256 env (case body of
     None \<Rightarrow> ''null'' | Some b \<Rightarrow> canonicalJson env (without_label b)))"

section \<open>Tokens\<close>

definition b64url_value :: "char \<Rightarrow> int option" where
  "b64url_value c = (if c = CHR ''-'' then Some 62 else if c = CHR ''_'' then Some 63
     else if is_alnum c then b64_value c else None)"

definition fromBase64Url :: "string \<Rightarrow> string option" where
  "fromBase64Url text = (if list_all (\<lambda>c. b64url_value c \<noteq> None) text
     then b64_decode (map (\<lambda>c. the (b64url_value c)) text) else None)"

definition DIGEST :: re where
  "DIGEST = re_times 43 (RCls (\<lambda>c. is_alnum c \<or> c = CHR ''_'' \<or> c = CHR ''-''))"

fun short_string :: "nat \<Rightarrow> json option \<Rightarrow> string option" where
  "short_string limit (Some (JStr s)) = (if js_length s > 0 \<and> js_length s \<le> limit then Some s else None)"
| "short_string limit _ = None"

definition feature_list :: "json option \<Rightarrow> string list option" where
  "feature_list v = (case v of
     Some (JArr xs) \<Rightarrow>
       if length xs \<le> 16 \<and> list_all (\<lambda>x. short_string 32 (Some x) \<noteq> None) xs
       then Some (map (\<lambda>x. the (short_string 32 (Some x))) xs) else None
   | _ \<Rightarrow> None)"

definition parsePayload :: "string \<Rightarrow> approval_payload option" where
  "parsePayload bytes =
     Option.bind (json_parse (text_decode bytes)) (\<lambda>raw.
     Option.bind (feature_list (jprop (Some raw) ''features'')) (\<lambda>features.
     Option.bind (safe_integer (jprop (Some raw) ''iat'')) (\<lambda>iat.
     Option.bind (safe_integer (jprop (Some raw) ''exp'')) (\<lambda>exp.
     Option.bind (short_string 128 (jprop (Some raw) ''deployId'')) (\<lambda>deployId.
     Option.bind (short_string 128 (jprop (Some raw) ''project'')) (\<lambda>project.
     (case jprop (Some raw) ''composeDigest'' of
        Some (JStr composeDigest) \<Rightarrow>
          Option.bind (short_string 255 (jprop (Some raw) ''containerName'')) (\<lambda>containerName.
          (case jprop (Some raw) ''bodyDigest'' of
             Some (JStr bodyDigest) \<Rightarrow>
               if \<not> re_match DIGEST bodyDigest then None
               else Option.bind (short_string 128 (jprop (Some raw) ''jti'')) (\<lambda>jti.
                 Some \<lparr>pl_deployId = deployId, pl_project = project,
                   pl_composeDigest = js_slice0 128 composeDigest, pl_bodyDigest = bodyDigest,
                   pl_containerName = containerName, pl_jti = jti, pl_features = features,
                   pl_iat = iat, pl_exp = exp\<rparr>)
           | _ \<Rightarrow> None))
      | _ \<Rightarrow> None)))))))"

definition importApprovalKeys :: "'key approval_env \<Rightarrow> string \<Rightarrow> (string, 'key list) result" where
  "importApprovalKeys env text =
     rmap_list (\<lambda>line. (case fromBase64Url line of
         Some raw \<Rightarrow> if length raw = 32 then Inr (import_key env raw)
           else Inl ''approval key is not a base64url raw Ed25519 key''
       | None \<Rightarrow> Inl ''approval key is not a base64url raw Ed25519 key''))
       (filter (\<lambda>line. line \<noteq> [] \<and> \<not> starts_with ''#'' line)
         (map js_trim (split_on (CHR 0x0A) text)))"

definition signatureValid :: "'key approval_env \<Rightarrow> 'key list \<Rightarrow> string \<Rightarrow> string \<Rightarrow> bool" where
  "signatureValid env keys signature signed =
     list_ex (\<lambda>key. ed25519_verify env key signature (APPROVAL_DOMAIN @ signed)) keys"

definition claimsFailure :: "approval_payload \<Rightarrow> string \<Rightarrow> string \<Rightarrow> string \<Rightarrow> int \<Rightarrow> string option" where
  "claimsFailure payload project bodyDigest containerName nowSec =
     (if pl_exp payload \<le> nowSec then Some ''expired''
      else if pl_iat payload > nowSec + APPROVAL_CLOCK_SKEW_SEC then Some ''not-yet-valid''
      else if pl_exp payload - pl_iat payload > MAX_APPROVAL_TTL_SEC then Some ''ttl-too-long''
      else if pl_project payload \<noteq> project then Some ''wrong-project''
      else if pl_bodyDigest payload \<noteq> bodyDigest then Some ''wrong-body''
      else if pl_containerName payload \<noteq> containerName then Some ''wrong-name''
      else if pl_features payload = [] then Some ''no-features''
      else None)"

definition token_parts :: "string \<Rightarrow> string list" where
  "token_parts token = (if js_length token \<le> MAX_APPROVAL_TOKEN_BYTES
     then split_on (CHR ''.'') token else [])"

definition startApprovalFeatures :: "'key approval_env \<Rightarrow> string \<Rightarrow> 'key list \<Rightarrow> string \<Rightarrow> string list" where
  "startApprovalFeatures env token keys project =
     (case token_parts token of
        [version, body, sig] \<Rightarrow>
          if keys = [] \<or> version \<noteq> APPROVAL_VERSION then []
          else (case (fromBase64Url body, fromBase64Url sig) of
              (Some payloadBytes, Some signature) \<Rightarrow>
                if \<not> signatureValid env keys signature body then []
                else (case parsePayload payloadBytes of
                    Some payload \<Rightarrow> if pl_project payload = project then pl_features payload else []
                  | None \<Rightarrow> [])
            | _ \<Rightarrow> [])
      | _ \<Rightarrow> [])"

definition verifyApproval :: "'key approval_env \<Rightarrow> string \<Rightarrow> 'key list \<Rightarrow> string \<Rightarrow> string \<Rightarrow> string \<Rightarrow> int \<Rightarrow> approval_result" where
  "verifyApproval env token keys project bodyDigest containerName nowSec =
     (if keys = [] then Rejected ''approvals-off'' None
      else case token_parts token of
          [version, body, sig] \<Rightarrow>
            if version \<noteq> APPROVAL_VERSION then Rejected ''unsupported-version'' None
            else (case (fromBase64Url body, fromBase64Url sig) of
                (Some payloadBytes, Some signature) \<Rightarrow>
                  if \<not> signatureValid env keys signature body then Rejected ''bad-signature'' None
                  else (case parsePayload payloadBytes of
                      None \<Rightarrow> Rejected ''malformed'' None
                    | Some payload \<Rightarrow>
                      (case claimsFailure payload project bodyDigest containerName nowSec of
                         Some failure \<Rightarrow> Rejected failure (Some (pl_deployId payload, pl_project payload))
                       | None \<Rightarrow> Approved payload))
              | _ \<Rightarrow> Rejected ''malformed'' None)
        | _ \<Rightarrow> Rejected ''malformed'' None)"

section \<open>Used tokens\<close>

definition MAX_REMEMBERED_APPROVALS :: nat where "MAX_REMEMBERED_APPROVALS = 10000"

type_synonym used_ids = "(string \<times> int) list"

definition prune :: "int \<Rightarrow> used_ids \<Rightarrow> used_ids" where
  "prune nowSec seen = filter (\<lambda>(ident, until). \<not> until \<le> nowSec) seen"

definition claim :: "used_ids \<Rightarrow> string \<Rightarrow> int \<Rightarrow> int \<Rightarrow> bool \<times> used_ids" where
  "claim seen jti exp nowSec =
     (let live = prune nowSec seen
      in if map_of live jti \<noteq> None then (False, live)
         else if length live \<ge> MAX_REMEMBERED_APPROVALS then (False, live)
         else (True, live @ [(jti, exp)]))"

section \<open>Covered findings\<close>

record approval_split =
  split_remaining :: "violation list"
  split_approved :: "violation list"

definition approves :: "string list \<Rightarrow> violation \<Rightarrow> bool" where
  "approves features v = (case map_of APPROVABLE_RULES (rule v) of
     None \<Rightarrow> False | Some feature \<Rightarrow> feature \<in> set features)"

definition splitApproved :: "violation list \<Rightarrow> approval_payload \<Rightarrow> approval_split" where
  "splitApproved vs payload =
     \<lparr>split_remaining = filter (\<lambda>v. \<not> approves (pl_features payload) v) vs,
      split_approved = filter (approves (pl_features payload)) vs\<rparr>"

end
