(* ===== verification/Json_Text.thy ===== *)
theory Json_Text
  imports Json_Print
begin

text \<open>
  \<open>JSON.stringify\<close> of a whole value, and that \<open>JSON.parse\<close> reads it back. The text of a number
  is the argument \<open>num\<close>; for the round trip the numbers are natural and written in full, and the members are in the
  order in which the language lists them (array-index keys first).
\<close>

fun json_text :: "(int \<Rightarrow> int \<Rightarrow> string) \<Rightarrow> json \<Rightarrow> string" where
  "json_text num JNull = ''null''"
| "json_text num (JBool b) = (if b then ''true'' else ''false'')"
| "json_text num (JNum m e) = num m e"
| "json_text num (JStr s) = json_string s"
| "json_text num (JArr xs) = ''['' @ join_with '','' (map (json_text num) xs) @ '']''"
| "json_text num (JObj fs) =
     (let texts = map (\<lambda>(k, v). (k, json_text num v)) fs
      in ''{'' @ join_with '','' (map (\<lambda>k. json_string k @ '':'' @ the (map_of texts k)) (object_keys fs)) @ ''}'')"

fun plain_json :: "(int \<Rightarrow> int \<Rightarrow> string) \<Rightarrow> json \<Rightarrow> bool" where
  "plain_json num (JNum m e) \<longleftrightarrow> e = 0 \<and> 0 \<le> m \<and> num m e = int_text m"
| "plain_json num (JStr s) \<longleftrightarrow> utf8_valid s"
| "plain_json num (JArr xs) \<longleftrightarrow> (\<forall>x \<in> set xs. plain_json num x)"
| "plain_json num (JObj fs) \<longleftrightarrow> distinct (map fst fs) \<and> object_keys fs = map fst fs
     \<and> (\<forall>(k, v) \<in> set fs. utf8_valid k \<and> plain_json num v)"
| "plain_json num v \<longleftrightarrow> True"

lemma object_keys_named: "\<forall>k \<in> fst ` set fs. \<not> is_array_index k \<Longrightarrow> object_keys fs = map fst fs"
  by (auto simp: object_keys_def filter_empty_conv filter_id_conv)

lemma object_keys_again: "map fst gs = object_keys fs \<Longrightarrow> object_keys gs = map fst gs"
  by (simp add: object_keys_def filter_sort sort_key_id_if_sorted)

section \<open>Tokens\<close>

lemma skip_ws_quote [simp]: "skip_ws (json_string k @ r) = json_string k @ r"
  by (simp add: skip_ws_def json_string_def is_ws_def)

lemma eat_first [simp]: "\<not> is_ws c \<Longrightarrow> eat c (c # r) = Some r"
  by (simp add: eat_def skip_ws_def)

lemma eat_other: "\<not> is_ws d \<Longrightarrow> c \<noteq> d \<Longrightarrow> eat c (d # r) = None"
  by (simp add: eat_def skip_ws_def)

lemma ws_simps [simp]: "\<not> is_ws (CHR '','')" "\<not> is_ws (CHR ''}'')" "\<not> is_ws (CHR '':'')" "\<not> is_ws (CHR ''{'')"
  "\<not> is_ws (CHR 0x22)" "\<not> is_ws (CHR ''['')" "\<not> is_ws (CHR '']'')"
  by (simp_all add: is_ws_def)

lemma ends_number_simps [simp]: "ends_number (CHR '','' # r)" "ends_number (CHR ''}'' # r)" "ends_number (CHR '']'' # r)"
  "ends_number []"
  by (simp_all add: ends_number_def is_digit_def)

lemma pvalue_nat:
  assumes "0 \<le> v" "ends_number r"
  shows "pvalue (Suc n) (int_text v @ r) = Some (JNum v 0, r)"
proof -
  obtain c t where ds: "digits_of_nat (nat v) = c # t" "is_digit c"
    using digits_of_nat_digits [of "nat v"] by (cases "digits_of_nat (nat v)") auto
  then have "c \<noteq> CHR ''{''" "c \<noteq> CHR ''[''" "c \<noteq> CHR 0x22" "\<not> is_ws c"
    by (auto simp: is_digit_def is_ws_def)
  then show ?thesis
    using scan_digits_text [OF assms(2), of "nat v"] assms(1) ds
    by (simp add: int_text_def pvalue.simps skip_ws_def)
qed

lemma pvalue_string: "utf8_valid s \<Longrightarrow> pvalue (Suc n) (json_string s @ r) = Some (JStr s, r)"
  using scan_json_string [of s r] by (simp add: pvalue.simps skip_ws_def json_string_def)

lemma pvalue_literals:
  "pvalue (Suc n) (''null'' @ r) = Some (JNull, r)" "pvalue (Suc n) (''true'' @ r) = Some (JBool True, r)"
  "pvalue (Suc n) (''false'' @ r) = Some (JBool False, r)"
  by (simp_all add: pvalue.simps skip_ws_def is_ws_def scan_scalar_def literals_def)

section \<open>The round trip\<close>

text \<open>What \<open>JSON.parse\<close> has to read back, whatever follows it.\<close>

definition reads_back :: "(int \<Rightarrow> int \<Rightarrow> string) \<Rightarrow> json \<Rightarrow> bool" where
  "reads_back num v \<longleftrightarrow> (\<forall>n r. ends_number r \<longrightarrow> 2 * length (json_text num v @ r) < n
     \<longrightarrow> pvalue n (json_text num v @ r) = Some (v, r))"

lemma reads_backD:
  "reads_back num v \<Longrightarrow> ends_number r \<Longrightarrow> 2 * length (json_text num v @ r) < n \<Longrightarrow>
     pvalue n (json_text num v @ r) = Some (v, r)"
  by (simp add: reads_back_def)

definition member_json :: "(int \<Rightarrow> int \<Rightarrow> string) \<Rightarrow> string \<times> json \<Rightarrow> string" where
  "member_json num kv = json_string (fst kv) @ '':'' @ json_text num (snd kv)"

lemma length_member: "length (json_text num (snd kv)) + 3 \<le> length (member_json num kv)"
  by (simp add: member_json_def json_string_def)

lemma json_text_object:
  assumes "distinct (map fst fs)" "object_keys fs = map fst fs"
  shows "json_text num (JObj fs) = ''{'' @ join_with '','' (map (member_json num) fs) @ ''}''"
proof -
  let ?texts = "map (\<lambda>(k, v). (k, json_text num v)) fs"
  have "the (map_of ?texts k) = json_text num v" if "(k, v) \<in> set fs" for k v
    using that assms(1) by (simp add: map_of_map)
  then have "map (\<lambda>k. json_string k @ '':'' @ the (map_of ?texts k)) (map fst fs) = map (member_json num) fs"
    by (auto simp: member_json_def)
  then show ?thesis by (simp only: json_text.simps Let_def assms(2))
qed

lemma pmembers_member:
  assumes "utf8_valid k" "pvalue m (json_text num v @ CHR '','' # t) = Some (v, CHR '','' # t)"
  shows "pmembers (Suc m) (member_json num (k, v) @ CHR '','' # t) = map_option (\<lambda>(es, u). ((k, v) # es, u)) (pmembers m t)"
  using assms by (simp add: pmembers.simps member_json_def scan_json_string)

lemma pmembers_reads:
  assumes "fs \<noteq> []" "\<forall>(k, v) \<in> set fs. utf8_valid k \<and> reads_back num v"
    and "2 * length (join_with '','' (map (member_json num) fs) @ CHR ''}'' # r) < n"
  shows "pmembers n (join_with '','' (map (member_json num) fs) @ CHR ''}'' # r) = Some (fs, r)"
  using assms
proof (induction fs arbitrary: n rule: induct_list012)
  case (2 x)
  then obtain m k v where m: "n = Suc m" "x = (k, v)" by (cases n; cases x) auto
  with 2 have "pvalue m (json_text num v @ CHR ''}'' # r) = Some (v, CHR ''}'' # r)"
    by (intro reads_backD) (auto simp: member_json_def json_string_def)
  with 2 m show ?case by (simp add: pmembers.simps member_json_def scan_json_string eat_other)
next
  case (3 x y fs)
  let ?rest = "join_with '','' (map (member_json num) (y # fs)) @ CHR ''}'' # r"
  obtain m k v where m: "n = Suc m" "x = (k, v)" using 3 by (cases n; cases x) auto
  have len: "2 * (length (json_text num v) + length ?rest) + 4 < n"
    using "3.prems"(3) length_member [of num x] m by simp
  have "pvalue m (json_text num v @ CHR '','' # ?rest) = Some (v, CHR '','' # ?rest)"
    using "3.prems"(2) m len by (intro reads_backD) simp_all
  moreover have "pmembers m ?rest = Some (y # fs, r)"
    using "3.prems"(2) m len by (intro "3.IH"(2)) simp_all
  ultimately show ?case
    using pmembers_member [of k m num v ?rest] "3.prems"(2) m by simp
qed simp

lemma join_with_first: "xs \<noteq> [] \<Longrightarrow> \<exists>t. join_with sep xs = hd xs @ t"
  by (cases xs; cases "tl xs") auto

text \<open>The first character of a value is no closing bracket.\<close>

lemma json_text_first:
  assumes "plain_json num v"
  shows "\<exists>c t. json_text num v = c # t \<and> \<not> is_ws c \<and> c \<noteq> CHR '']''"
proof (cases v)
  case (JNum m e)
  obtain c t where "digits_of_nat (nat m) = c # t" "is_digit c"
    using digits_of_nat_digits [of "nat m"] by (cases "digits_of_nat (nat m)") auto
  then show ?thesis using assms JNum by (auto simp: int_text_def is_digit_def is_ws_def)
qed (auto simp: json_string_def Let_def is_ws_def)

lemma pitems_reads:
  assumes "xs \<noteq> []" "\<forall>v \<in> set xs. reads_back num v"
    and "2 * length (join_with '','' (map (json_text num) xs) @ CHR '']'' # r) + 1 < n"
  shows "pitems n (join_with '','' (map (json_text num) xs) @ CHR '']'' # r) = Some (xs, r)"
  using assms
proof (induction xs arbitrary: n rule: induct_list012)
  case (2 x)
  then obtain m where m: "n = Suc m" by (cases n) auto
  with 2 have "pvalue m (json_text num x @ CHR '']'' # r) = Some (x, CHR '']'' # r)"
    by (intro reads_backD) auto
  with m show ?case by (simp add: pitems.simps eat_other)
next
  case (3 x y xs)
  let ?rest = "join_with '','' (map (json_text num) (y # xs)) @ CHR '']'' # r"
  obtain m where m: "n = Suc m" using 3 by (cases n) auto
  with 3 have "pvalue m (json_text num x @ CHR '','' # ?rest) = Some (x, CHR '','' # ?rest)"
    by (intro reads_backD) auto
  moreover have "pitems m ?rest = Some (y # xs, r)" using 3 m by auto
  ultimately show ?case using m by (simp add: pitems.simps(2) [of m])
qed simp

lemma reads_back_object:
  assumes "plain_json num (JObj fs)" "\<forall>(k, v) \<in> set fs. reads_back num v"
  shows "reads_back num (JObj fs)"
  unfolding reads_back_def
proof (intro allI impI)
  fix n r assume r: "ends_number r" "2 * length (json_text num (JObj fs) @ r) < n"
  let ?body = "join_with '','' (map (member_json num) fs)"
  have t: "json_text num (JObj fs) = CHR ''{'' # ?body @ ''}''"
    using assms(1) by (subst json_text_object) auto
  then obtain m where m: "n = Suc m" "2 * length (?body @ CHR ''}'' # r) < m" using r by (cases n) auto
  show "pvalue n (json_text num (JObj fs) @ r) = Some (JObj fs, r)"
  proof (cases "fs = []")
    case True
    then show ?thesis using t m by (simp add: pvalue.simps skip_ws_def)
  next
    case False
    then have "pmembers m (?body @ CHR ''}'' # r) = Some (fs, r)"
      using assms m(2) by (intro pmembers_reads) auto
    moreover obtain u where "?body = CHR 0x22 # u"
      using False join_with_first [of "map (member_json num) fs" "'',''"]
      by (cases fs) (auto simp: member_json_def json_string_def)
    moreover have "from_entries fs = fs" using assms(1) by (simp add: from_entries_distinct)
    ultimately show ?thesis unfolding t m(1) by (simp add: pvalue.simps skip_ws_def eat_other)
  qed
qed

lemma reads_back_array:
  assumes "plain_json num (JArr xs)" "\<forall>v \<in> set xs. reads_back num v"
  shows "reads_back num (JArr xs)"
  unfolding reads_back_def
proof (intro allI impI)
  fix n r assume r: "ends_number r" "2 * length (json_text num (JArr xs) @ r) < n"
  let ?body = "join_with '','' (map (json_text num) xs)"
  obtain m where m: "n = Suc m" "2 * length (?body @ CHR '']'' # r) + 1 < m" using r by (cases n) auto
  show "pvalue n (json_text num (JArr xs) @ r) = Some (JArr xs, r)"
  proof (cases "xs = []")
    case True
    then show ?thesis using m by (simp add: pvalue.simps skip_ws_def)
  next
    case False
    then have "pitems m (?body @ CHR '']'' # r) = Some (xs, r)"
      using assms m(2) by (intro pitems_reads) auto
    moreover obtain c u where "?body = c # u" "\<not> is_ws c" "c \<noteq> CHR '']''"
      using False assms(1) join_with_first [of "map (json_text num) xs" "'',''"] json_text_first [of num "hd xs"]
      by (cases xs) auto
    ultimately show ?thesis using m(1) by (simp add: pvalue.simps skip_ws_def eat_other)
  qed
qed

lemma plain_json_reads_back: "plain_json num v \<Longrightarrow> reads_back num v"
proof (induction v)
  case (JObj fs)
  then have "\<forall>(k, v) \<in> set fs. reads_back num v" by (fastforce simp: snds.simps)
  with JObj.prems show ?case by (rule reads_back_object)
next
  case (JArr xs)
  then show ?case by (intro reads_back_array) auto
next
  case (JNum m e)
  show ?case unfolding reads_back_def
  proof (intro allI impI)
    fix n r assume "ends_number r" "2 * length (json_text num (JNum m e) @ r) < n"
    with JNum show "pvalue n (json_text num (JNum m e) @ r) = Some (JNum m e, r)"
      by (cases n) (auto simp: pvalue_nat)
  qed
next
  case (JBool b)
  show ?case unfolding reads_back_def
  proof (intro allI impI)
    fix n r assume "2 * length (json_text num (JBool b) @ r) < n"
    then show "pvalue n (json_text num (JBool b) @ r) = Some (JBool b, r)"
      using pvalue_literals [of "n - 1" r] by (cases n) simp_all
  qed
next
  case (JStr s)
  show ?case unfolding reads_back_def
  proof (intro allI impI)
    fix n r assume "2 * length (json_text num (JStr s) @ r) < n"
    with JStr show "pvalue n (json_text num (JStr s) @ r) = Some (JStr s, r)"
      by (cases n) (auto simp: pvalue_string)
  qed
next
  case JNull
  show ?case unfolding reads_back_def
  proof (intro allI impI)
    fix n r assume "2 * length (json_text num JNull @ r) < n"
    then show "pvalue n (json_text num JNull @ r) = Some (JNull, r)"
      using pvalue_literals [of "n - 1" r] by (cases n) simp_all
  qed
qed

lemma json_parse_text:
  assumes "plain_json num v"
  shows "json_parse (json_text num v) = Some v"
  using reads_backD [OF plain_json_reads_back [OF assms], of "[]" "Suc (2 * length (json_text num v))"]
  by (simp add: json_parse_def skip_ws_def)

end
