(* ===== verification/Gate_Replay.thy ===== *)
theory Gate_Replay
  imports Gate_Approval Json_Text "HOL-Library.Multiset"
begin

text \<open>
  Used approval ids that survive a restart
  (\<open>orchestration/roles/docker-gate/files/replay.ts\<close>): the class \<open>PersistentReplayCache\<close>, the
  file it writes and the parser that loads it.

  The file system appears as the text of the one file (replaced as a whole by a rename) and,
  per call, whether the write succeeds and what the read gives. An expiry is compared with
  whole seconds only, so a fractional one read from a file stands as the next whole second.
  The locales \<open>single_use\<close> and \<open>durable_single_use\<close> state what a cache of used ids promises;
  the in-memory cache interprets the first, the persistent one both.
\<close>

definition FILE_VERSION :: int where "FILE_VERSION = 1"

section \<open>The file\<close>

definition num_finite :: "int \<Rightarrow> int \<Rightarrow> bool" where
  "num_finite m e \<longleftrightarrow> (if e \<ge> 0 then \<bar>m\<bar> * 10 ^ nat e < 2 ^ 1024 - 2 ^ 970
     else \<bar>m\<bar> < (2 ^ 1024 - 2 ^ 970) * 10 ^ nat (- e))"

definition ceil_div :: "int \<Rightarrow> int \<Rightarrow> int" where
  "ceil_div a b = - ((- a) div b)"

definition expiry :: "int \<Rightarrow> int \<Rightarrow> int" where
  "expiry m e = (case safe_integer (Some (JNum m e)) of
     Some n \<Rightarrow> n
   | None \<Rightarrow> if e \<ge> 0 then m * 10 ^ nat e else ceil_div m (10 ^ nat (- e)))"

definition entries_of :: "fields \<Rightarrow> fields" where
  "entries_of fs = map (\<lambda>k. (k, the (obj_get fs k))) (object_keys fs)"

fun live_ids :: "int \<Rightarrow> fields \<Rightarrow> (string, used_ids) result" where
  "live_ids nowSec [] = Inr []"
| "live_ids nowSec ((ident, v) # es) = (case v of
     JNum m e \<Rightarrow>
       if \<not> num_finite m e then Inl ''the used-token file holds a bad expiry''
       else rbind (live_ids nowSec es) (\<lambda>later.
         Inr (if expiry m e > nowSec
              then (ident, min (expiry m e) (nowSec + MAX_APPROVAL_TTL_SEC + APPROVAL_CLOCK_SKEW_SEC)) # later
              else later))
   | _ \<Rightarrow> Inl ''the used-token file holds a bad expiry'')"

definition parseUsedIds :: "string \<Rightarrow> int \<Rightarrow> (string, used_ids) result" where
  "parseUsedIds text nowSec = (case json_parse text of
     None \<Rightarrow> Inl ''SyntaxError''
   | Some parsed \<Rightarrow>
     if \<not> isRecord (Some parsed) \<or> safe_integer (jprop (Some parsed) ''v'') \<noteq> Some FILE_VERSION
     then Inl ''not a version 1 used-token file''
     else (case jprop (Some parsed) ''ids'' of
         Some (JObj ids) \<Rightarrow> rbind (live_ids nowSec (entries_of ids)) (\<lambda>live.
           if length live > MAX_REMEMBERED_APPROVALS then Inl ''the used-token file holds too many ids''
           else Inr live)
       | _ \<Rightarrow> Inl ''the used-token file has no ids object''))"

definition id_fields :: "used_ids \<Rightarrow> fields" where
  "id_fields ids = map (\<lambda>(k, v). (k, JNum v 0)) ids"

definition member_text :: "string \<times> int \<Rightarrow> string" where
  "member_text kv = json_string (fst kv) @ '':'' @ int_text (snd kv)"

definition persist_text :: "used_ids \<Rightarrow> string" where
  "persist_text ids = ''{'' @ json_string ''v'' @ '':'' @ int_text FILE_VERSION @ '','' @ json_string ''ids''
     @ '':{'' @ join_with '','' (map (\<lambda>k. member_text (k, the (map_of ids k))) (object_keys (id_fields ids)))
     @ ''}}''"

section \<open>The cache\<close>

record persistent =
  enforcing :: bool
  ids :: used_ids
  broken :: bool
  disk :: "string option"

datatype disk_read = Unreadable | Readable

definition fault :: "persistent \<Rightarrow> persistent" where
  "fault s = s\<lparr>broken := enforcing s\<rparr>"

definition load :: "disk_read \<Rightarrow> int \<Rightarrow> persistent \<Rightarrow> persistent" where
  "load rd nowSec s = (case rd of
     Unreadable \<Rightarrow> fault s
   | Readable \<Rightarrow> (case disk s of
       None \<Rightarrow> s
     | Some text \<Rightarrow> (case parseUsedIds text nowSec of
         Inr live \<Rightarrow> s\<lparr>ids := live\<rparr>
       | Inl _ \<Rightarrow> fault s)))"

text \<open>The constructor: a new process over the file that is there.\<close>

definition new_cache :: "bool \<Rightarrow> disk_read \<Rightarrow> int \<Rightarrow> string option \<Rightarrow> persistent" where
  "new_cache enforce rd nowSec text =
     load rd nowSec \<lparr>enforcing = enforce, ids = [], broken = False, disk = text\<rparr>"

definition persist :: "bool \<Rightarrow> persistent \<Rightarrow> persistent" where
  "persist write_ok s = (if write_ok then s\<lparr>disk := Some (persist_text (ids s))\<rparr> else s)"

definition persistent_claim :: "persistent \<Rightarrow> bool \<Rightarrow> string \<Rightarrow> int \<Rightarrow> int \<Rightarrow> bool \<times> persistent" where
  "persistent_claim s write_ok jti exp nowSec =
     (if broken s then (False, s)
      else let live = prune nowSec (ids s); s1 = s\<lparr>ids := live\<rparr>
        in if map_of live jti \<noteq> None then (False, s1)
           else if length live \<ge> MAX_REMEMBERED_APPROVALS then (False, s1)
           else let s2 = persist write_ok (s1\<lparr>ids := live @ [(jti, exp)]\<rparr>)
             in if \<not> write_ok \<and> enforcing s then (False, s2) else (True, s2))"

section \<open>The contract\<close>

text \<open>
  A cache of used ids. \<open>holds s jti exp\<close> says that the id is remembered until its expiry;
  \<open>good t\<close> says that the requests of a run are of the shape the gate makes them (see the
  interpretations).
\<close>

locale single_use =
  fixes use :: "'s \<Rightarrow> bool \<Rightarrow> string \<Rightarrow> int \<Rightarrow> int \<Rightarrow> bool \<times> 's"
    and holds :: "'s \<Rightarrow> string \<Rightarrow> int \<Rightarrow> bool"
    and valid :: "'s \<Rightarrow> bool"
    and good :: "string \<Rightarrow> int \<Rightarrow> int \<Rightarrow> bool"
  assumes used_is_held: "valid s \<Longrightarrow> good jti exp now \<Longrightarrow> use s ok jti exp now = (True, s') \<Longrightarrow> holds s' jti exp"
    and use_valid: "valid s \<Longrightarrow> good jti exp now \<Longrightarrow> use s ok jti exp now = (b, s') \<Longrightarrow> valid s'"
    and use_keeps: "valid s \<Longrightarrow> holds s jti exp \<Longrightarrow> good j e now \<Longrightarrow> now < exp
      \<Longrightarrow> use s ok j e now = (b, s') \<Longrightarrow> holds s' jti exp"
    and held_is_refused: "valid s \<Longrightarrow> holds s jti exp \<Longrightarrow> now < exp \<Longrightarrow> fst (use s ok jti e now) = False"
begin

fun run :: "'s \<Rightarrow> (bool \<times> string \<times> int \<times> int) list \<Rightarrow> bool list \<times> 's" where
  "run s [] = ([], s)"
| "run s ((ok, jti, exp, now) # rs) =
     (let (b, s1) = use s ok jti exp now; (bs, s2) = run s1 rs in (b # bs, s2))"

lemma run_refuses:
  assumes "valid s" "holds s jti exp" "\<forall>(ok, j, e, now) \<in> set rs. good j e now \<and> now < exp"
    and "i < length rs" "fst (snd (rs ! i)) = jti"
  shows "\<not> fst (run s rs) ! i"
  using assms
proof (induction rs arbitrary: s i)
  case (Cons r rs)
  obtain ok j e now where r: "r = (ok, j, e, now)" by (cases r)
  obtain b s1 where u: "use s ok j e now = (b, s1)" by fastforce
  have g: "good j e now" "now < exp" using Cons.prems(3) r by auto
  have s1: "valid s1" "holds s1 jti exp"
    using use_valid [OF Cons.prems(1) g(1) u] use_keeps [OF Cons.prems(1,2) g u] by auto
  have "\<not> b" if "j = jti" using held_is_refused [OF Cons.prems(1,2) g(2), of ok e] u that by simp
  moreover have "\<not> fst (run s1 rs) ! k" if "k < length rs" "fst (snd (rs ! k)) = jti" for k
    using Cons.IH [OF s1] Cons.prems(3) that by auto
  ultimately show ?case
    using Cons.prems(4,5) u r by (cases i) (auto simp: case_prod_beta)
qed simp

end

locale durable_single_use = single_use use holds valid good
  for use :: "'s \<Rightarrow> bool \<Rightarrow> string \<Rightarrow> int \<Rightarrow> int \<Rightarrow> bool \<times> 's" and holds valid good +
  fixes restart :: "disk_read \<Rightarrow> int \<Rightarrow> 's \<Rightarrow> 's"
    and window :: int
  assumes restart_valid: "valid s \<Longrightarrow> 0 \<le> now \<Longrightarrow> valid (restart rd now s)"
    and restart_keeps: "valid s \<Longrightarrow> holds s jti exp \<Longrightarrow> 0 \<le> now \<Longrightarrow> now < exp \<Longrightarrow> exp \<le> now + window
      \<Longrightarrow> holds (restart rd now s) jti exp"
begin

text \<open>A life of the gate: uses of ids and restarts, in any order.\<close>

fun life :: "'s \<Rightarrow> ((bool \<times> string \<times> int \<times> int) + (disk_read \<times> int)) list \<Rightarrow> (string \<times> bool) list" where
  "life s [] = []"
| "life s (Inl (ok, jti, exp, now) # es) = (let (b, s1) = use s ok jti exp now in (jti, b) # life s1 es)"
| "life s (Inr (rd, now) # es) = life (restart rd now s) es"

fun event_ok :: "int \<Rightarrow> (bool \<times> string \<times> int \<times> int) + (disk_read \<times> int) \<Rightarrow> bool" where
  "event_ok exp (Inl (ok, j, e, now)) \<longleftrightarrow> good j e now \<and> now < exp"
| "event_ok exp (Inr (rd, now)) \<longleftrightarrow> 0 \<le> now \<and> now < exp \<and> exp \<le> now + window"

lemma life_refuses:
  assumes "valid s" "holds s jti exp" "list_all (event_ok exp) es"
  shows "(jti, True) \<notin> set (life s es)"
  using assms
proof (induction s es rule: life.induct)
  case (2 s ok j e now es)
  obtain b s1 where u: "use s ok j e now = (b, s1)" by fastforce
  have g: "good j e now" "now < exp" using 2 by auto
  have s1: "valid s1" "holds s1 jti exp"
    using use_valid [OF "2.prems"(1) g(1) u] use_keeps [OF "2.prems"(1,2) g u] by auto
  have "\<not> b" if "j = jti" using held_is_refused [OF "2.prems"(1,2) g(2), of ok e] u that by simp
  moreover have "(jti, True) \<notin> set (life s1 es)" using 2 s1 u by auto
  ultimately show ?case using u by auto
next
  case (3 s rd now es)
  then show ?case using restart_valid restart_keeps by simp
qed simp

end

section \<open>The in-memory cache\<close>

definition memory_use :: "used_ids \<Rightarrow> bool \<Rightarrow> string \<Rightarrow> int \<Rightarrow> int \<Rightarrow> bool \<times> used_ids" where
  "memory_use seen ok jti exp now = claim seen jti exp now"

lemma map_of_prune:
  "distinct (map fst seen) \<Longrightarrow> map_of (prune now seen) j
     = (case map_of seen j of Some u \<Rightarrow> if u \<le> now then None else Some u | None \<Rightarrow> None)"
proof (induction seen)
  case (Cons e seen)
  then have "map_of seen (fst e) = None" by (simp add: map_of_eq_None_iff)
  with Cons show ?case by (cases e) (auto simp: prune_def)
qed (simp add: prune_def)

lemma prune_subset: "set (prune now seen) \<subseteq> set seen"
  by (auto simp: prune_def)

lemma distinct_prune: "distinct (map fst seen) \<Longrightarrow> distinct (map fst (prune now seen))"
  by (induction seen) (auto simp: prune_def)

interpretation memory_cache: single_use memory_use "\<lambda>s j e. map_of s j = Some e"
  "\<lambda>s. distinct (map fst s)" "\<lambda>j e now. True"
proof
  fix s :: used_ids and jti exp now ok s'
  assume d: "distinct (map fst s)"
  show "map_of s' jti = Some exp" if "memory_use s ok jti exp now = (True, s')"
    using that by (auto simp: memory_use_def claim_def Let_def map_add_def split: if_splits option.splits)
  show "distinct (map fst s')" if "memory_use s ok jti exp now = (b, s')" for b
    using that distinct_prune [OF d, of now]
    by (auto simp: memory_use_def claim_def Let_def map_of_eq_None_iff split: if_splits)
  show "fst (memory_use s ok jti e now) = False" if "map_of s jti = Some exp" "now < exp" for e
    using that d by (simp add: memory_use_def claim_def Let_def map_of_prune)
  show "map_of s' jti = Some exp"
    if "map_of s jti = Some exp" "now < exp" "memory_use s ok j e now = (b, s')" for j e b
    using that d by (auto simp: memory_use_def claim_def Let_def map_of_prune map_add_def split: if_splits)
qed

section \<open>The file read back\<close>

definition ids_ok :: "used_ids \<Rightarrow> bool" where
  "ids_ok xs \<longleftrightarrow> distinct (map fst xs) \<and> length xs \<le> MAX_REMEMBERED_APPROVALS
     \<and> (\<forall>(k, v) \<in> set xs. utf8_valid k \<and> 0 < v \<and> v \<le> MAX_SAFE)"

definition num_fields :: "used_ids \<Rightarrow> fields" where
  "num_fields xs = map (\<lambda>(k, v). (k, JNum v 0)) xs"

definition file_pairs :: "used_ids \<Rightarrow> used_ids" where
  "file_pairs xs = map (\<lambda>k. (k, the (map_of xs k))) (object_keys (id_fields xs))"

lemma distinct_object_keys: "distinct (map fst fs) \<Longrightarrow> distinct (object_keys fs)"
  by (auto simp: object_keys_def)

lemma keys_id_fields [simp]: "map fst (id_fields xs) = map fst xs"
  by (induction xs) (auto simp: id_fields_def)

lemma file_pairs:
  assumes "distinct (map fst xs)"
  shows "distinct (map fst (file_pairs xs))" "set (file_pairs xs) = set xs" "length (file_pairs xs) = length xs"
    "map_of (file_pairs xs) = map_of xs"
proof -
  have ks: "distinct (object_keys (id_fields xs))" "set (object_keys (id_fields xs)) = fst ` set xs"
    using distinct_object_keys [of "id_fields xs"] assms keys_id_fields [of xs]
    by (simp_all, metis list.set_map)
  have "map fst (file_pairs xs) = object_keys (id_fields xs)" by (simp add: file_pairs_def comp_def)
  with ks show d: "distinct (map fst (file_pairs xs))" by simp
  show set_eq: "set (file_pairs xs) = set xs"
  proof -
    have "(k, the (map_of xs k)) = (k, v)" if "(k, v) \<in> set xs" for k v
      using assms that by simp
    then have "(\<lambda>k. (k, the (map_of xs k))) ` fst ` set xs = set xs" by (force simp: image_iff)
    then show ?thesis using ks by (simp add: file_pairs_def)
  qed
  show "length (file_pairs xs) = length xs"
    using set_eq d assms by (metis distinct_card distinct_map)
  show "map_of (file_pairs xs) = map_of xs"
    using set_eq d assms by (simp add: map_of_inject_set)
qed

lemma keys_num_fields [simp]: "map fst (num_fields xs) = map fst xs"
  by (induction xs) (auto simp: num_fields_def)

definition file_value :: "used_ids \<Rightarrow> json" where
  "file_value xs = JObj [(''v'', JNum 1 0), (''ids'', JObj (num_fields (file_pairs xs)))]"

lemma file_value_plain:
  assumes "ids_ok xs"
  shows "plain_json (\<lambda>m e. int_text m) (file_value xs)"
proof -
  have "\<forall>(k, v) \<in> set (file_pairs xs). utf8_valid k \<and> 0 < v"
    using assms file_pairs(2) [of xs] by (auto simp: ids_ok_def)
  then have "\<forall>(k, v) \<in> set (num_fields (file_pairs xs)). utf8_valid k \<and> plain_json (\<lambda>m e. int_text m) v"
    by (fastforce simp: num_fields_def)
  moreover have "distinct (map fst (num_fields (file_pairs xs)))"
    using assms file_pairs(1) by (simp add: ids_ok_def)
  moreover have "object_keys (num_fields (file_pairs xs)) = map fst (num_fields (file_pairs xs))"
    by (rule object_keys_again [of _ "id_fields xs"]) (simp add: file_pairs_def comp_def)
  moreover have "utf8_valid ''v''" "utf8_valid ''ids''" "\<not> is_array_index ''v''" "\<not> is_array_index ''ids''" by code_simp+
  moreover have "object_keys [(''v'', JNum 1 0), (''ids'', u)] = [''v'', ''ids'']" for u
    by (subst object_keys_named) (simp_all add: calculation)
  ultimately show ?thesis by (simp add: file_value_def del: utf8_valid.simps)
qed

lemma persist_text_value:
  assumes "ids_ok xs"
  shows "persist_text xs = json_text (\<lambda>m e. int_text m) (file_value xs)"
proof -
  have "member_json (\<lambda>m e. int_text m) \<circ> (\<lambda>(k, v). (k, JNum v 0)) = member_text"
    by (auto simp: member_json_def member_text_def)
  then have "json_text (\<lambda>m e. int_text m) (JObj (num_fields (file_pairs xs)))
      = ''{'' @ join_with '','' (map member_text (file_pairs xs)) @ ''}''"
    using file_value_plain [OF assms] by (subst json_text_object) (auto simp: file_value_def num_fields_def)
  moreover have "json_text (\<lambda>m e. int_text m) (file_value xs) = ''{'' @ join_with '',''
      (map (member_json (\<lambda>m e. int_text m)) [(''v'', JNum 1 0), (''ids'', JObj (num_fields (file_pairs xs)))]) @ ''}''"
    using file_value_plain [OF assms] unfolding file_value_def by (subst json_text_object) auto
  ultimately show ?thesis
    by (simp add: persist_text_def file_pairs_def FILE_VERSION_def comp_def member_json_def)
qed

text \<open>The text the gate writes is read by the runtime as the object it was made from.\<close>

lemma json_parse_persist:
  "ids_ok xs \<Longrightarrow> json_parse (persist_text xs) = Some (JObj [(''v'', JNum 1 0), (''ids'', JObj (num_fields (file_pairs xs)))])"
  using json_parse_text [OF file_value_plain] by (simp add: persist_text_value file_value_def)

section \<open>The persistent cache keeps the contract\<close>

definition WINDOW :: int where
  "WINDOW = MAX_APPROVAL_TTL_SEC + APPROVAL_CLOCK_SKEW_SEC"

definition reloaded :: "int \<Rightarrow> used_ids \<Rightarrow> used_ids" where
  "reloaded now xs = map (\<lambda>(k, v). (k, min v (now + WINDOW))) (prune now xs)"

lemma expiry_whole: "v \<le> MAX_SAFE \<Longrightarrow> 0 < v \<Longrightarrow> num_finite v 0 \<and> expiry v 0 = v"
  by (simp add: num_finite_def expiry_def MAX_SAFE_def)

lemma live_ids_num:
  assumes "\<forall>(k, v) \<in> set xs. 0 < v \<and> v \<le> MAX_SAFE"
  shows "live_ids now (num_fields xs) = Inr (reloaded now xs)"
  using assms
proof (induction xs)
  case (Cons x xs)
  then show ?case
    by (cases x) (simp add: num_fields_def reloaded_def prune_def expiry_whole WINDOW_def add.assoc)
qed (simp add: num_fields_def reloaded_def prune_def)

lemma entries_num_fields:
  assumes "distinct (map fst xs)"
  shows "entries_of (num_fields xs) = num_fields (file_pairs xs)"
proof -
  have get: "obj_get (num_fields xs) k = map_option (\<lambda>v. JNum v 0) (map_of xs k)" for k
    by (induction xs) (auto simp: num_fields_def obj_get_def)
  have "the (obj_get (num_fields xs) k) = JNum (the (map_of xs k)) 0"
    if "k \<in> set (object_keys (num_fields xs))" for k
  proof -
    have "k \<in> set (map fst (num_fields xs))" using that by (simp del: keys_num_fields)
    then have "k \<in> set (map fst xs)" by (simp only: keys_num_fields)
    then have "map_of xs k \<noteq> None" by (simp add: map_of_eq_None_iff)
    then show ?thesis by (auto simp: get)
  qed
  moreover have "id_fields xs = num_fields xs" by (simp add: num_fields_def id_fields_def)
  ultimately show ?thesis
    unfolding entries_of_def file_pairs_def num_fields_def [of "map _ _"] by simp
qed

lemma reloaded_ok:
  assumes "ids_ok xs" "0 \<le> now"
  shows "ids_ok (reloaded now xs)"
proof -
  have "map fst (reloaded now xs) = map fst (prune now xs)"
    by (simp add: reloaded_def comp_def case_prod_beta)
  moreover have "length (reloaded now xs) \<le> length xs" by (simp add: reloaded_def prune_def)
  moreover have "0 < now + WINDOW"
    using assms(2) by (simp add: WINDOW_def MAX_APPROVAL_TTL_SEC_def APPROVAL_CLOCK_SKEW_SEC_def)
  moreover have "utf8_valid k \<and> 0 < v \<and> v \<le> MAX_SAFE" if mem: "(k, v) \<in> set (reloaded now xs)" for k v
  proof -
    obtain u where u: "(k, u) \<in> set xs" "v = min u (now + WINDOW)"
      using mem prune_subset [of now xs] by (auto simp: reloaded_def)
    then have "utf8_valid k" "0 < u" "u \<le> MAX_SAFE" using assms(1) by (auto simp: ids_ok_def)
    then show ?thesis using u \<open>0 < now + WINDOW\<close> by auto
  qed
  ultimately show ?thesis
    using assms(1) distinct_prune [of xs now] by (auto simp: ids_ok_def)
qed

lemma parseUsedIds_persist:
  assumes "ids_ok xs" "0 \<le> now"
  obtains ys where "parseUsedIds (persist_text xs) now = Inr (reloaded now ys)" "ids_ok ys" "map_of ys = map_of xs"
proof
  have d: "distinct (map fst xs)" using assms by (simp add: ids_ok_def)
  let ?ys = "file_pairs (file_pairs xs)"
  note one = file_pairs [OF d] and two = file_pairs [OF file_pairs(1) [OF d]]
  show ok: "ids_ok ?ys" "map_of ?ys = map_of xs"
    using assms(1) one two by (auto simp: ids_ok_def)
  have "live_ids now (entries_of (num_fields (file_pairs xs))) = Inr (reloaded now ?ys)"
    using live_ids_num [of ?ys now] ok(1) by (simp add: entries_num_fields one(1)) (auto simp: ids_ok_def)
  moreover have "length (reloaded now ?ys) \<le> MAX_REMEMBERED_APPROVALS"
    using reloaded_ok [OF ok(1) assms(2)] by (simp add: ids_ok_def)
  ultimately show "parseUsedIds (persist_text xs) now = Inr (reloaded now ?ys)"
    by (simp add: parseUsedIds_def json_parse_persist [OF assms(1)] obj_get_def FILE_VERSION_def MAX_SAFE_def)
qed

definition cache_valid :: "persistent \<Rightarrow> bool" where
  "cache_valid s \<longleftrightarrow> enforcing s \<and> ids_ok (ids s)
     \<and> (\<forall>text. disk s = Some text \<longrightarrow> (\<exists>f. ids_ok f \<and> text = persist_text f))"

definition cache_holds :: "persistent \<Rightarrow> string \<Rightarrow> int \<Rightarrow> bool" where
  "cache_holds s jti exp \<longleftrightarrow> (broken s \<or> map_of (ids s) jti = Some exp)
     \<and> (\<exists>f. ids_ok f \<and> disk s = Some (persist_text f) \<and> map_of f jti = Some exp)"

definition good_claim :: "string \<Rightarrow> int \<Rightarrow> int \<Rightarrow> bool" where
  "good_claim jti exp now \<longleftrightarrow> utf8_valid jti \<and> 0 \<le> now \<and> now < exp \<and> exp \<le> MAX_SAFE"

definition cache_restart :: "disk_read \<Rightarrow> int \<Rightarrow> persistent \<Rightarrow> persistent" where
  "cache_restart rd now s = new_cache (enforcing s) rd now (disk s)"

lemma prune_ok: "ids_ok xs \<Longrightarrow> ids_ok (prune now xs)"
  using distinct_prune [of xs now] prune_subset [of now xs]
  by (auto simp: ids_ok_def prune_def intro: order_trans [OF length_filter_le])

lemma claimed_ok:
  assumes "ids_ok xs" "map_of xs jti = None" "length xs < MAX_REMEMBERED_APPROVALS" "good_claim jti exp now"
  shows "ids_ok (xs @ [(jti, exp)])"
  using assms by (auto simp: ids_ok_def good_claim_def map_of_eq_None_iff)

lemma persistent_claim_cases [consumes 1, case_names broken refused failed accepted]:
  assumes "persistent_claim s ok jti exp now = (b, s')"
  obtains "broken s" "b = False" "s' = s"
  | "\<not> broken s" "b = False" "s' = s\<lparr>ids := prune now (ids s)\<rparr>"
  | "\<not> broken s" "map_of (prune now (ids s)) jti = None" "length (prune now (ids s)) < MAX_REMEMBERED_APPROVALS"
    "\<not> ok" "b \<longleftrightarrow> \<not> enforcing s" "s' = s\<lparr>ids := prune now (ids s) @ [(jti, exp)]\<rparr>"
  | "\<not> broken s" "map_of (prune now (ids s)) jti = None" "length (prune now (ids s)) < MAX_REMEMBERED_APPROVALS"
    "ok" "b" "s' = s\<lparr>ids := prune now (ids s) @ [(jti, exp)],
      disk := Some (persist_text (prune now (ids s) @ [(jti, exp)]))\<rparr>"
  using assms by (auto simp: persistent_claim_def Let_def persist_def split: if_splits)

lemma append_found: "map_of xs j = Some e \<Longrightarrow> map_of (xs @ ys) j = Some e"
  by (simp add: map_add_def)

interpretation persistent_cache: durable_single_use persistent_claim cache_holds cache_valid good_claim
  cache_restart WINDOW
proof
  fix s jti exp now ok s'
  assume v: "cache_valid s"
  have live: "ids_ok (prune now (ids s))" using v prune_ok by (simp add: cache_valid_def)
  show "cache_holds s' jti exp" if g: "good_claim jti exp now" and "persistent_claim s ok jti exp now = (True, s')"
    using that(2)
  proof (cases rule: persistent_claim_cases)
    case accepted
    then show ?thesis using claimed_ok [OF live accepted(2,3) g]
      by (auto simp: cache_holds_def map_add_def)
  qed (use v in \<open>auto simp: cache_valid_def\<close>)
  show "cache_valid s'" if g: "good_claim jti exp now" and "persistent_claim s ok jti exp now = (b, s')" for b
    using that(2)
  proof (cases rule: persistent_claim_cases)
    case failed
    then show ?thesis using claimed_ok [OF live failed(2,3) g] v by (auto simp: cache_valid_def)
  next
    case accepted
    then show ?thesis using claimed_ok [OF live accepted(2,3) g] v by (auto simp: cache_valid_def)
  qed (use v live in \<open>auto simp: cache_valid_def\<close>)
  assume h: "cache_holds s jti exp" and t: "now < exp"
  have kept: "\<not> broken s \<Longrightarrow> map_of (prune now (ids s)) jti = Some exp"
    using v h t by (auto simp: cache_holds_def cache_valid_def ids_ok_def map_of_prune)
  show "fst (persistent_claim s ok jti e now) = False" for e
    using kept by (auto simp: persistent_claim_def Let_def)
  show "cache_holds s' jti exp" if g: "good_claim j e now" and "persistent_claim s ok j e now = (b, s')" for j e b
    using that(2)
  proof (cases rule: persistent_claim_cases)
    case accepted
    then show ?thesis using claimed_ok [OF live accepted(2,3) g] kept
      by (auto simp: cache_holds_def append_found)
  qed (use h kept in \<open>auto simp: cache_holds_def append_found\<close>)
next
  fix s rd and now :: int assume v: "cache_valid s" "0 \<le> now"
  show "cache_valid (cache_restart rd now s)"
  proof (cases "disk s")
    case (Some content)
    then obtain f where f: "ids_ok f" "content = persist_text f" using v by (auto simp: cache_valid_def)
    obtain ys where "parseUsedIds content now = Inr (reloaded now ys)" "ids_ok ys"
      using parseUsedIds_persist [OF f(1) v(2)] f(2) by metis
    then show ?thesis using v Some f reloaded_ok [of ys now]
      by (cases rd) (auto simp: cache_restart_def new_cache_def load_def fault_def cache_valid_def ids_ok_def)
  next
    case None
    then show ?thesis using v
      by (cases rd) (auto simp: cache_restart_def new_cache_def load_def fault_def cache_valid_def ids_ok_def)
  qed
  fix jti exp assume h: "cache_holds s jti exp" and t: "now < exp" "exp \<le> now + WINDOW"
  then obtain f where f: "ids_ok f" "disk s = Some (persist_text f)" "map_of f jti = Some exp"
    by (auto simp: cache_holds_def)
  obtain ys where ys: "parseUsedIds (persist_text f) now = Inr (reloaded now ys)" "ids_ok ys" "map_of ys = map_of f"
    using parseUsedIds_persist [OF f(1) v(2)] by metis
  have "map_of (reloaded now ys) jti = Some exp"
  proof -
    have "map_of (prune now ys) jti = Some exp"
      using ys f(3) t map_of_prune [of ys now jti] by (simp add: ids_ok_def)
    then show ?thesis using t by (simp add: reloaded_def map_of_map case_prod_beta min_def)
  qed
  then show "cache_holds (cache_restart rd now s) jti exp"
    using v f ys by (cases rd) (auto simp: cache_restart_def new_cache_def load_def fault_def cache_holds_def cache_valid_def)
qed

section \<open>Properties\<close>



text \<open>The state file round trip. What the gate writes for a set of used ids is read back by
  the next start as the same ids, less the ones that have expired, each until the same second.\<close>

lemma used_ids_round_trip:
  assumes "ids_ok xs" "0 \<le> now" "\<forall>(k, v) \<in> set xs. v \<le> now + WINDOW"
  shows "\<exists>ys. parseUsedIds (persist_text xs) now = Inr ys \<and> map_of ys = map_of (prune now xs)"
proof -
  obtain ys where ys: "parseUsedIds (persist_text xs) now = Inr (reloaded now ys)" "ids_ok ys"
      "map_of ys = map_of xs"
    using assms(1,2) by (rule parseUsedIds_persist)
  have d: "distinct (map fst xs)" "distinct (map fst ys)" using assms(1) ys(2) by (simp_all add: ids_ok_def)
  have "map_of (reloaded now ys) k = map_of (prune now xs) k" for k
  proof -
    have "map_of (reloaded now ys) k = map_option (\<lambda>v. min v (now + WINDOW)) (map_of (prune now ys) k)"
      by (simp add: reloaded_def map_of_map)
    moreover have "map_of (prune now ys) k = map_of (prune now xs) k"
      using d ys(3) by (simp add: map_of_prune)
    moreover have "v \<le> now + WINDOW" if "map_of (prune now xs) k = Some v" for v
      using map_of_SomeD [OF that] prune_subset [of now xs] assms(3) by auto
    ultimately show ?thesis by (cases "map_of (prune now xs) k") auto
  qed
  then show ?thesis using ys(1) by auto
qed

text \<open>C35: what an accepted approval binds. A token is approved only when one of the trusted keys
  signed its payload text under the gate's domain, the payload is for this project, this body
  digest and this container name, names a feature, has not expired and expires within the
  lifetime bound plus the clock skew.\<close>

theorem verifyApproval_binds:
  assumes "verifyApproval env token keys project bodyDigest containerName nowSec = Approved p"
  shows "\<exists>body signature bytes. split_on (CHR ''.'') token = [APPROVAL_VERSION, body, signature]
    \<and> fromBase64Url body = Some bytes \<and> parsePayload bytes = Some p
    \<and> (\<exists>key \<in> set keys. \<exists>raw. fromBase64Url signature = Some raw
         \<and> ed25519_verify env key raw (APPROVAL_DOMAIN @ body))
    \<and> pl_project p = project \<and> pl_bodyDigest p = bodyDigest \<and> pl_containerName p = containerName
    \<and> pl_features p \<noteq> [] \<and> nowSec < pl_exp p \<and> pl_exp p \<le> nowSec + WINDOW"
proof -
  obtain version body sg where parts: "token_parts token = [version, body, sg]"
    using assms by (auto simp: verifyApproval_def split: if_splits list.splits)
  then obtain bytes raw where d: "version = APPROVAL_VERSION" "fromBase64Url body = Some bytes"
      "fromBase64Url sg = Some raw" "signatureValid env keys raw body" "parsePayload bytes = Some p"
      "claimsFailure p project bodyDigest containerName nowSec = None"
    using assms by (auto simp: verifyApproval_def split: if_splits option.splits)
  have "split_on (CHR ''.'') token = [APPROVAL_VERSION, body, sg]"
    using parts d(1) by (auto simp: token_parts_def split: if_splits)
  moreover have "\<exists>key \<in> set keys. \<exists>raw. fromBase64Url sg = Some raw
         \<and> ed25519_verify env key raw (APPROVAL_DOMAIN @ body)"
    using d(3,4) by (auto simp: signatureValid_def list_ex_iff)
  moreover have "pl_project p = project \<and> pl_bodyDigest p = bodyDigest \<and> pl_containerName p = containerName
    \<and> pl_features p \<noteq> [] \<and> nowSec < pl_exp p \<and> pl_exp p \<le> nowSec + WINDOW"
    using d(6) by (auto simp: claimsFailure_def WINDOW_def split: if_splits)
  ultimately show ?thesis using d(2,5) by blast
qed

definition demo_env :: "unit approval_env" where
  "demo_env = \<lparr>sha256 = (\<lambda>_. []), ed25519_verify = (\<lambda>_ _ _. True), import_key = (\<lambda>_. ()),
     num_text = (\<lambda>_ _. [])\<rparr>"

definition demo_token :: string where
  "demo_token = ''v2.eyJkZXBsb3lJZCI6ImQiLCJwcm9qZWN0IjoicCIsImNvbXBvc2VEaWdlc3QiOiIiLCJib2R5RGlnZXN0IjoiQUFBQUFBQUFBQUFBQUFBQUFBQUFBQUFBQUFBQUFBQUFBQUFBQUFBQUFBQSIsImNvbnRhaW5lck5hbWUiOiJjIiwianRpIjoiaiIsImZlYXR1cmVzIjpbImNhcC1hZGQiXSwiaWF0IjoxMCwiZXhwIjo2MH0.AA''"

definition demo_payload :: approval_payload where
  "demo_payload = \<lparr>pl_deployId = ''d'', pl_project = ''p'', pl_composeDigest = [],
     pl_bodyDigest = ''AAAAAAAAAAAAAAAAAAAAAAAAAAAAAAAAAAAAAAAAAAA'', pl_containerName = ''c'',
     pl_jti = ''j'', pl_features = [''cap-add''], pl_iat = 10, pl_exp = 60\<rparr>"

lemma demo_approved:
  "verifyApproval demo_env demo_token [()] ''p'' ''AAAAAAAAAAAAAAAAAAAAAAAAAAAAAAAAAAAAAAAAAAA'' ''c'' 30
    = Approved demo_payload"
  by code_simp

theorem verifyApproval_binds_witness:
  "30 < pl_exp demo_payload \<and> pl_exp demo_payload \<le> 30 + WINDOW \<and> pl_project demo_payload = ''p''"
  using verifyApproval_binds [OF demo_approved] by blast

text \<open>An approval lifts only what it names. The remaining findings are the original ones
  without those covered; a covered finding is of one of the six approvable rules and its
  feature is in the payload, so a host-root bind, a denied tree or any other rule always
  remains.\<close>

lemma splitApproved_partition:
  "mset (split_remaining (splitApproved vs p)) + mset (split_approved (splitApproved vs p)) = mset vs
   \<and> list_all (\<lambda>v. rule v \<in> {''privileged'', ''bind-docker-socket'', ''bind-outside-roots'',
        ''network-mode-host'', ''cap-add'', ''devices''}
        \<and> (\<exists>f \<in> set (pl_features p). map_of APPROVABLE_RULES (rule v) = Some f))
      (split_approved (splitApproved vs p))"
proof -
  have "rule v \<in> {''privileged'', ''bind-docker-socket'', ''bind-outside-roots'',
        ''network-mode-host'', ''cap-add'', ''devices''}
        \<and> (\<exists>f \<in> set (pl_features p). map_of APPROVABLE_RULES (rule v) = Some f)"
    if "approves (pl_features p) v" for v
    using that by (auto simp: approves_def APPROVABLE_RULES_def split: option.splits if_splits)
  moreover have "mset (filter (\<lambda>v. \<not> P v) vs) + mset (filter P vs) = mset vs" for P :: "violation \<Rightarrow> bool"
    by (induction vs) auto
  ultimately show ?thesis by (auto simp: splitApproved_def list_all_iff)
qed

end
