(* ===== verification/Gate_Stats.thy ===== *)
theory Gate_Stats
  imports Json_Print "HOL-Library.Multiset"
begin

text \<open>
  The gate's counters (\<open>orchestration/roles/docker-gate/files/stats.ts\<close>): eight maps from a
  key to a count, each in insertion order, and the snapshot the summary line prints. The
  locale's collation (\<open>localeCompare\<close>) is the argument \<open>collate\<close>: negative, zero or positive.
\<close>

type_synonym counters = "(string \<times> nat) list"

record gate_stats =
  st_requests :: counters
  st_upgrades :: counters
  st_wouldDeny :: counters
  st_refusals :: counters
  st_allowances :: counters
  st_approvals :: counters
  st_approvedRules :: counters
  st_owners :: counters

record request_count =
  rc_route :: string
  rc_method :: string
  rc_status :: nat
  rc_count :: nat

record stats_snapshot =
  sn_requests :: "request_count list"
  sn_upgrades :: counters
  sn_wouldDeny :: counters
  sn_refusals :: counters
  sn_allowances :: counters
  sn_approvals :: counters
  sn_approvedRules :: counters
  sn_owners :: counters

definition new_stats :: gate_stats where
  "new_stats = \<lparr>st_requests = [], st_upgrades = [], st_wouldDeny = [], st_refusals = [],
     st_allowances = [], st_approvals = [], st_approvedRules = [], st_owners = []\<rparr>"

definition count_of :: "counters \<Rightarrow> string \<Rightarrow> nat" where
  "count_of m key = (case map_of m key of None \<Rightarrow> 0 | Some n \<Rightarrow> n)"

definition bump :: "counters \<Rightarrow> string \<Rightarrow> counters" where
  "bump m key = AList.update key (count_of m key + 1) m"

text \<open>\<open>toSorted(byKey)\<close>, a stable sort.\<close>

definition insert_by_key :: "(string \<Rightarrow> string \<Rightarrow> int) \<Rightarrow> string \<times> nat \<Rightarrow> counters \<Rightarrow> counters" where
  "insert_by_key collate x ys =
     takeWhile (\<lambda>y. collate (fst y) (fst x) \<le> 0) ys @ x # dropWhile (\<lambda>y. collate (fst y) (fst x) \<le> 0) ys"

definition byKey_sorted :: "(string \<Rightarrow> string \<Rightarrow> int) \<Rightarrow> counters \<Rightarrow> counters" where
  "byKey_sorted collate m = fold (insert_by_key collate) m []"

text \<open>The entries of the record in the order its keys are listed.\<close>

definition toRecord :: "(string \<Rightarrow> string \<Rightarrow> int) \<Rightarrow> counters \<Rightarrow> counters" where
  "toRecord collate m = (let sorted = byKey_sorted collate m
     in map (\<lambda>k. (k, count_of sorted k)) (object_keys (map (\<lambda>(k, n). (k, JNum (int n) 0)) sorted)))"

definition TAB :: char where "TAB = CHR 0x09"

definition request_key :: "string \<Rightarrow> string \<Rightarrow> nat \<Rightarrow> string" where
  "request_key r method status = r @ TAB # method @ TAB # digits_of_nat status"

definition stats_request :: "string \<Rightarrow> string \<Rightarrow> nat \<Rightarrow> gate_stats \<Rightarrow> gate_stats" where
  "stats_request r method status st =
     st\<lparr>st_requests := bump (st_requests st) (request_key r method status)\<rparr>"

definition stats_upgrade :: "string \<Rightarrow> gate_stats \<Rightarrow> gate_stats" where
  "stats_upgrade r st = st\<lparr>st_upgrades := bump (st_upgrades st) r\<rparr>"

definition stats_violation :: "string \<Rightarrow> gate_stats \<Rightarrow> gate_stats" where
  "stats_violation r st = st\<lparr>st_wouldDeny := bump (st_wouldDeny st) r\<rparr>"

definition stats_refusal :: "nat \<Rightarrow> gate_stats \<Rightarrow> gate_stats" where
  "stats_refusal status st = st\<lparr>st_refusals := bump (st_refusals st) (digits_of_nat status)\<rparr>"

definition stats_allowance :: "string \<Rightarrow> gate_stats \<Rightarrow> gate_stats" where
  "stats_allowance name st = st\<lparr>st_allowances := bump (st_allowances st) name\<rparr>"

definition stats_approval :: "string \<Rightarrow> gate_stats \<Rightarrow> gate_stats" where
  "stats_approval outcome st = st\<lparr>st_approvals := bump (st_approvals st) outcome\<rparr>"

definition stats_approvedRule :: "string \<Rightarrow> gate_stats \<Rightarrow> gate_stats" where
  "stats_approvedRule r st = st\<lparr>st_approvedRules := bump (st_approvedRules st) r\<rparr>"

definition stats_owner :: "string \<Rightarrow> gate_stats \<Rightarrow> gate_stats" where
  "stats_owner who st = st\<lparr>st_owners := bump (st_owners st) who\<rparr>"

fun request_row :: "string \<times> nat \<Rightarrow> request_count" where
  "request_row (key, n) = (let parts = split_on TAB key
     in \<lparr>rc_route = parts ! 0, rc_method = parts ! 1, rc_status = nat_of_digits 10 (parts ! 2),
         rc_count = n\<rparr>)"

definition snapshot :: "(string \<Rightarrow> string \<Rightarrow> int) \<Rightarrow> gate_stats \<Rightarrow> stats_snapshot" where
  "snapshot collate st =
     \<lparr>sn_requests = map request_row (byKey_sorted collate (st_requests st)),
      sn_upgrades = toRecord collate (st_upgrades st),
      sn_wouldDeny = toRecord collate (st_wouldDeny st),
      sn_refusals = toRecord collate (st_refusals st),
      sn_allowances = toRecord collate (st_allowances st),
      sn_approvals = toRecord collate (st_approvals st),
      sn_approvedRules = toRecord collate (st_approvedRules st),
      sn_owners = toRecord collate (st_owners st)\<rparr>"

section \<open>Laws\<close>

lemma count_of_bump: "count_of (bump m k) j = count_of m j + (if j = k then 1 else 0)"
  by (simp add: count_of_def bump_def update_conv')

lemma mset_byKey_sorted: "mset (byKey_sorted collate m) = mset m"
proof -
  have one: "mset (insert_by_key collate x ys) = add_mset x (mset ys)" for x ys
    by (simp add: insert_by_key_def) (metis mset_append takeWhile_dropWhile_id)
  have "mset (fold (insert_by_key collate) m ys) = mset m + mset ys" for ys
    by (induction m arbitrary: ys) (simp_all add: one)
  then show ?thesis by (simp add: byKey_sorted_def)
qed

lemma set_byKey_sorted [simp]: "set (byKey_sorted collate m) = set m"
  using mset_byKey_sorted by (metis set_mset_mset)

text \<open>The counters after a run of \<open>request\<close> calls hold one positive entry per key.\<close>

definition counted :: "string list \<Rightarrow> counters" where
  "counted ks = fold (\<lambda>k m. bump m k) ks []"

lemma counted_invariant:
  assumes "distinct (map fst m)" "\<forall>(k, n) \<in> set m. n > 0"
  shows "distinct (map fst (fold (\<lambda>k m. bump m k) ks m))
    \<and> (\<forall>(k, n) \<in> set (fold (\<lambda>k m. bump m k) ks m). n > 0)
    \<and> count_of (fold (\<lambda>k m. bump m k) ks m) j = count_of m j + count_list ks j"
  using assms
proof (induction ks arbitrary: m)
  case (Cons k ks)
  have "distinct (map fst (bump m k))" using Cons.prems by (simp add: bump_def distinct_update)
  moreover have "\<forall>(k, n) \<in> set (bump m k). n > 0"
  proof clarify
    fix a n assume "(a, n) \<in> set (bump m k)"
    then have "map_of (bump m k) a = Some n"
      using \<open>distinct (map fst (bump m k))\<close> by simp
    with Cons.prems show "0 < n" by (auto simp: bump_def update_conv' split: if_splits dest: map_of_SomeD)
  qed
  ultimately show ?case using Cons.IH [of "bump m k"] by (auto simp: count_of_bump)
qed simp

lemma in_counted: "(k, n) \<in> set (counted ks) \<longleftrightarrow> n = count_list ks k \<and> n > 0"
proof -
  have inv: "distinct (map fst (counted ks))" "\<forall>(k, n) \<in> set (counted ks). n > 0"
      "count_of (counted ks) k = count_list ks k"
    using counted_invariant [of "[]" ks k] by (simp_all add: counted_def count_of_def)
  have "(k, n) \<in> set (counted ks) \<longleftrightarrow> map_of (counted ks) k = Some n"
    using inv(1) by simp
  also have "\<dots> \<longleftrightarrow> n = count_list ks k \<and> n > 0"
  proof (cases "map_of (counted ks) k")
    case None
    then show ?thesis using inv(3) by (auto simp: count_of_def)
  next
    case (Some c)
    then have "c > 0" using inv(2) map_of_SomeD by fastforce
    then show ?thesis using Some inv(3) by (auto simp: count_of_def)
  qed
  finally show ?thesis .
qed

definition untabbed :: "string \<Rightarrow> bool" where
  "untabbed s \<longleftrightarrow> TAB \<notin> set s"

fun plain_call :: "string \<times> string \<times> nat \<Rightarrow> bool" where
  "plain_call (r, m, _) \<longleftrightarrow> untabbed r \<and> untabbed m"

fun call_key :: "string \<times> string \<times> nat \<Rightarrow> string" where
  "call_key (r, m, s) = request_key r m s"

fun count_call :: "string \<times> string \<times> nat \<Rightarrow> gate_stats \<Rightarrow> gate_stats" where
  "count_call (r, m, s) = stats_request r m s"

lemma untabbed_digits: "untabbed (digits_of_nat n)"
  using digits_of_nat_digits [of n]
  by (auto simp: untabbed_def TAB_def list_all_iff is_digit_def)

lemma split_request_key:
  assumes "untabbed r" "untabbed m"
  shows "split_on TAB (request_key r m s) = [r, m, digits_of_nat s]"
  using assms untabbed_digits [of s]
  by (simp add: untabbed_def request_key_def split_on_append_sep split_on_id)

lemma call_key_inj:
  assumes "plain_call a" "plain_call b" "call_key a = call_key b"
  shows "a = b"
proof -
  obtain r m s where a: "a = (r, m, s)" by (cases a)
  obtain r' m' s' where b: "b = (r', m', s')" by (cases b)
  have "[r, m, digits_of_nat s] = [r', m', digits_of_nat s']"
    using assms split_request_key [of r m s] split_request_key [of r' m' s'] by (simp add: a b)
  then show ?thesis using nat_of_digits_of_nat by (metis a b list.inject)
qed

lemma count_list_call_key:
  "list_all plain_call cs \<Longrightarrow> plain_call c \<Longrightarrow> count_list (map call_key cs) (call_key c) = count_list cs c"
  by (induction cs) (auto dest: call_key_inj)

lemma request_row_call:
  "plain_call (r, m, s) \<Longrightarrow> request_row (call_key (r, m, s), n)
     = \<lparr>rc_route = r, rc_method = m, rc_status = s, rc_count = n\<rparr>"
  by (simp add: split_request_key nat_of_digits_of_nat)

lemma st_requests_fold:
  "st_requests (fold count_call cs st) = fold (\<lambda>k m. bump m k) (map call_key cs) (st_requests st)"
  by (induction cs arbitrary: st) (auto simp: stats_request_def)

text \<open>The request rows of a snapshot are exact: after any sequence of \<open>request\<close> calls whose
  route and method hold no tab, a row for a route, method and status is in the snapshot with
  the count \<open>n\<close> if and only if exactly \<open>n\<close> of the calls (at least one) had that route, method
  and status, whatever the collation of the locale does to their order.
\<close>

lemma snapshot_counts_requests:
  assumes "list_all plain_call calls"
  shows "\<lparr>rc_route = r, rc_method = m, rc_status = s, rc_count = n\<rparr>
      \<in> set (sn_requests (snapshot collate (fold count_call calls new_stats)))
    \<longleftrightarrow> n = count_list calls (r, m, s) \<and> n > 0"
    (is "?row \<in> ?rows \<longleftrightarrow> _")
proof -
  have rows: "?rows = request_row ` set (counted (map call_key calls))"
    by (simp add: snapshot_def st_requests_fold new_stats_def counted_def)
  show ?thesis
  proof
    assume "?row \<in> ?rows"
    then obtain k c where kc: "(k, c) \<in> set (counted (map call_key calls))" "?row = request_row (k, c)"
      by (auto simp: rows)
    then have c: "c = count_list (map call_key calls) k" "c > 0" by (auto simp: in_counted)
    then obtain call where call: "call \<in> set calls" "k = call_key call"
      by (metis count_notin imageE less_numeral_extra(3) list.set_map)
    then have "plain_call call" using assms by (simp add: list_all_iff)
    moreover obtain r' m' s' where "call = (r', m', s')" by (cases call)
    ultimately show "n = count_list calls (r, m, s) \<and> n > 0"
      using kc(2) call c count_list_call_key [OF assms, of call] request_row_call [of r' m' s' c]
      by simp
  next
    assume n: "n = count_list calls (r, m, s) \<and> n > 0"
    then have "(r, m, s) \<in> set calls" by (metis count_notin less_numeral_extra(3))
    then have p: "plain_call (r, m, s)" using assms unfolding list_all_iff by blast
    then have "(call_key (r, m, s), n) \<in> set (counted (map call_key calls))"
      using n count_list_call_key [OF assms p] by (simp add: in_counted)
    then show "?row \<in> ?rows" using request_row_call [OF p, of n] by (force simp: rows)
  qed
qed

end
