(* ===== verification/Gate_State.thy ===== *)
theory Gate_State
  imports Gate_Reader Gate_Approval Gate_Stats "HOL-Library.Code_Target_Nat"
begin

text \<open>
  What one connection through the gate works on (the \<open>ProxyDeps\<close> and \<open>ReviewDeps\<close> of
  \<open>proxy.ts\<close> and \<open>review.ts\<close>, and the sockets behind them).

  The parts that stay the same are the record \<open>gate_deps\<close>. The parts that change are the
  record \<open>gate_state\<close>: the counters, the log lines, the memory of used approval ids (of any
  type: \<open>deps_claim\<close> is its operation), how often the clock was read, the connection being
  served (its reader and what was written to it), what the engine will do with each
  connection still to be opened, and the bytes written to each connection opened so far.

  An operation that may throw is a function from a state to a result and a state: what it
  logged, counted or sent before the throw stays. Asynchronous steps are taken in the order
  in which the source awaits them.
\<close>

type_synonym log_record = "(string \<times> json) list"

datatype gate_error = Http http_error | Thrown (thrown_name: string) (thrown_message: string)

text \<open>An engine connection: what its reads return, and whether an inspect is answered in time.\<close>

record engine_conn =
  answers :: "string list"
  in_time :: bool

datatype gate_mode = Observe | Enforce

record ('key, 'r) gate_deps =
  deps_policy :: policy_config
  deps_resolvePath :: resolve_path
  deps_env :: "'key approval_env"
  deps_approvalKeys :: "'key list"
  deps_claim :: "'r \<Rightarrow> string \<Rightarrow> int \<Rightarrow> int \<Rightarrow> bool \<times> 'r"
  deps_nowSec :: "nat \<Rightarrow> int"
  deps_maxBodyBytes :: nat
  deps_readOnly :: bool
  deps_mode :: gate_mode
  deps_buildSocket :: bool

record 'r gate_state =
  g_stats :: gate_stats
  g_log :: "log_record list"
  g_replay :: 'r
  g_ticks :: nat
  g_reader :: reader
  g_client :: sink
  g_conns :: "(string, engine_conn) result list"
  g_sent :: "string list"

type_synonym ('r, 'a) gate = "'r gate_state \<Rightarrow> (gate_error, 'a) result \<times> 'r gate_state"

definition gbind :: "('r, 'a) gate \<Rightarrow> ('a \<Rightarrow> ('r, 'b) gate) \<Rightarrow> ('r, 'b) gate" where
  "gbind m f s = (case m s of (Inl e, s') \<Rightarrow> (Inl e, s') | (Inr x, s') \<Rightarrow> f x s')"

definition ok :: "'a \<Rightarrow> ('r, 'a) gate" where
  "ok x s = (Inr x, s)"

definition throw :: "gate_error \<Rightarrow> ('r, 'a) gate" where
  "throw e s = (Inl e, s)"

definition http :: "(http_error, 'a) result \<Rightarrow> ('r, 'a) gate" where
  "http r s = (case r of Inl e \<Rightarrow> (Inl (Http e), s) | Inr x \<Rightarrow> (Inr x, s))"

text \<open>A TypeError of the policy code.\<close>

definition type_error :: "(string, 'a) result \<Rightarrow> ('r, 'a) gate" where
  "type_error r s = (case r of Inl e \<Rightarrow> (Inl (Thrown ''TypeError'' e), s) | Inr x \<Rightarrow> (Inr x, s))"

definition act :: "('r gate_state \<Rightarrow> 'r gate_state) \<Rightarrow> ('r, unit) gate" where
  "act f s = (Inr (), f s)"

definition pass :: "('r gate_state \<Rightarrow> 'a \<times> 'r gate_state) \<Rightarrow> ('r, 'a) gate" where
  "pass f s = (case f s of (x, s') \<Rightarrow> (Inr x, s'))"

definition emit :: "log_record \<Rightarrow> 'r gate_state \<Rightarrow> 'r gate_state" where
  "emit l s = s\<lparr>g_log := g_log s @ [l]\<rparr>"

definition tally :: "(gate_stats \<Rightarrow> gate_stats) \<Rightarrow> 'r gate_state \<Rightarrow> 'r gate_state" where
  "tally f s = s\<lparr>g_stats := f (g_stats s)\<rparr>"

definition nowSec :: "('key, 'r) gate_deps \<Rightarrow> 'r gate_state \<Rightarrow> int \<times> 'r gate_state" where
  "nowSec deps s = (deps_nowSec deps (g_ticks s), s\<lparr>g_ticks := Suc (g_ticks s)\<rparr>)"

text \<open>\<open>deps.connectUpstream()\<close>: the next connection, or why there is none.\<close>

definition connectUpstream :: "'r gate_state \<Rightarrow> (string, engine_conn) result \<times> 'r gate_state" where
  "connectUpstream s = (case g_conns s of
     [] \<Rightarrow> (Inl ''connection refused'', s)
   | c # cs \<Rightarrow> (c, s\<lparr>g_conns := cs\<rparr>))"

definition record_sent :: "string \<Rightarrow> 'r gate_state \<Rightarrow> 'r gate_state" where
  "record_sent bytes s = s\<lparr>g_sent := g_sent s @ [bytes]\<rparr>"

lemma gbind_Inr:
  "gbind m f s = (Inr y, s') \<longleftrightarrow> (\<exists>x s1. m s = (Inr x, s1) \<and> f x s1 = (Inr y, s'))"
  by (auto simp: gbind_def split: prod.splits sum.splits)

lemma gate_Inr:
  "ok x s = (Inr y, s') \<longleftrightarrow> y = x \<and> s' = s"
  "throw e s = (Inr y, s') \<longleftrightarrow> False"
  "http h s = (Inr y, s') \<longleftrightarrow> h = Inr y \<and> s' = s"
  "type_error t s = (Inr z, s') \<longleftrightarrow> t = Inr z \<and> s' = s"
  "act f s = (Inr u, s') \<longleftrightarrow> s' = f s"
  "pass g s = (Inr w, s') \<longleftrightarrow> g s = (w, s')"
  by (auto simp: ok_def throw_def http_def type_error_def act_def pass_def split: sum.splits prod.splits)

lemma gbind_cases:
  assumes "gbind m f s = (r, s')"
  obtains (thrown) e where "m s = (Inl e, s')" "r = Inl e"
    | (next_step) x s1 where "m s = (Inr x, s1)" "f x s1 = (r, s')"
  using assms by (auto simp: gbind_def split: prod.splits sum.splits)

section \<open>Frame rules\<close>

text \<open>
  \<open>keeps R m\<close>: whatever \<open>m\<close> returns or throws, the states before and after are related by
  \<open>R\<close>. The collection \<open>frame\<close> has one rule per combinator.
\<close>

named_theorems frame \<open>rules for \<open>keeps\<close>\<close>

definition keeps :: "('r gate_state \<Rightarrow> 'r gate_state \<Rightarrow> bool) \<Rightarrow> ('r, 'a) gate \<Rightarrow> bool" where
  "keeps R m \<longleftrightarrow> (\<forall>s r s'. m s = (r, s') \<longrightarrow> R s s')"

lemma keepsD: "keeps R m \<Longrightarrow> m s = (r, s') \<Longrightarrow> R s s'"
  by (simp add: keeps_def)

lemma keeps_gbind [frame]:
  assumes "transp R" "keeps R m" "\<And>x. keeps R (f x)"
  shows "keeps R (gbind m f)"
  unfolding keeps_def
proof (intro allI impI)
  fix s r s' assume "gbind m f s = (r, s')"
  then show "R s s'"
  proof (cases rule: gbind_cases)
    case (thrown e)
    then show ?thesis using assms(2) by (simp add: keeps_def)
  next
    case (next_step x s1)
    then have "R s s1" "R s1 s'" using assms(2,3) by (auto simp: keeps_def)
    then show ?thesis using assms(1) by (rule transpD [rotated])
  qed
qed

lemma keeps_pure [frame]:
  assumes "reflp R"
  shows "keeps R (ok x)" "keeps R (throw e)" "keeps R (http h)" "keeps R (type_error t)"
  using assms
  by (auto simp: keeps_def ok_def throw_def http_def type_error_def reflpD split: sum.splits)

lemma keeps_act [frame]: "(\<And>s. R s (f s)) \<Longrightarrow> keeps R (act f)"
  by (auto simp: keeps_def act_def)

lemma keeps_pass [frame]: "(\<And>s x s'. f s = (x, s') \<Longrightarrow> R s s') \<Longrightarrow> keeps R (pass f)"
  by (auto simp: keeps_def pass_def split: prod.splits)

lemmas gate_steps = ok_def throw_def http_def type_error_def act_def pass_def

end
