(* ===== verification/Gate_Inspect.thy ===== *)
theory Gate_Inspect
  imports Gate_State
begin

text \<open>
  The gate's own lookup of an object's labels on a fresh engine connection
  (\<open>orchestration/roles/docker-gate/files/inspect.ts\<close>). Whatever goes wrong (no engine, a
  head that does not parse, a status other than 200, an answer over the cap, no answer in
  time) the lookup is \<open>None\<close>.
\<close>

definition MAX_INSPECT_BYTES :: nat where "MAX_INSPECT_BYTES = 1024 * 1024"

datatype inspect_kind = InspectContainer | InspectVolume | InspectNetwork

definition inspectPath :: "inspect_kind \<Rightarrow> string \<Rightarrow> string" where
  "inspectPath kind target = (let name = encode_uri_component target in case kind of
     InspectContainer \<Rightarrow> ''/containers/'' @ name @ ''/json''
   | InspectVolume \<Rightarrow> ''/volumes/'' @ name
   | InspectNetwork \<Rightarrow> ''/networks/'' @ name)"

definition parseInspect :: "string \<Rightarrow> json option" where
  "parseInspect bytes = (case json_parse (text_decode bytes) of
     Some (JObj fs) \<Rightarrow> Some (JObj fs)
   | Some (JArr xs) \<Rightarrow> Some (JArr xs)
   | _ \<Rightarrow> None)"

definition labelsFromDoc :: "json option \<Rightarrow> inspect_kind \<Rightarrow> labels option" where
  "labelsFromDoc doc kind = (case doc of
     None \<Rightarrow> None
   | Some _ \<Rightarrow> Some (labelsOf (if kind = InspectContainer
       then jprop (jprop doc ''Config'') ''Labels'' else jprop doc ''Labels'')))"

definition inspect_request :: "inspect_kind \<Rightarrow> string \<Rightarrow> string" where
  "inspect_request kind target = ''GET '' @ inspectPath kind target @ '' HTTP/1.1'' @ crlf
     @ ''Host: docker'' @ crlf @ ''Connection: close'' @ crlf @ crlf"

text \<open>The writes of \<open>LimitedSink\<close>: the first that passes the cap throws.\<close>

definition limited :: "sink \<Rightarrow> (http_error, string) result" where
  "limited s = (if length (written s) > MAX_INSPECT_BYTES
     then Inl (HttpError 502 ''inspect answer too large'') else Inr (written s))"

text \<open>Every error of \<open>readInspect\<close> is caught by its caller, so only the fact of it counts.\<close>

definition readInspect :: "engine_conn \<Rightarrow> (http_error, json option) result" where
  "readInspect conn = rbind (readHead (new_reader (answers conn))) (\<lambda>(raw, r).
     (case raw of
        None \<Rightarrow> Inr None
      | Some bytes \<Rightarrow> rbind (parseResponseHead bytes) (\<lambda>head.
          if resp_status head \<noteq> 200 then Inr None
          else rbind (responseFraming ''GET'' head) (\<lambda>framing.
            if framing = FChunked
            then rbind (relayChunked r None (Some (new_capture MAX_INSPECT_BYTES))) (\<lambda>(r', _, capture).
              Inr (parseInspect (concat (chunks (the capture)))))
            else rbind (relayBody r framing new_sink) (\<lambda>(r', s).
              rbind (limited s) (\<lambda>bytes. Inr (parseInspect bytes)))))))"

definition fetchInspect :: "inspect_kind \<Rightarrow> string \<Rightarrow> 'r gate_state \<Rightarrow> json option \<times> 'r gate_state" where
  "fetchInspect kind target s = (case connectUpstream s of
     (Inl _, s1) \<Rightarrow> (None, s1)
   | (Inr conn, s1) \<Rightarrow>
     ((if in_time conn then (case readInspect conn of Inl _ \<Rightarrow> None | Inr doc \<Rightarrow> doc) else None),
      record_sent (inspect_request kind target) s1))"

definition fetchLabels :: "inspect_kind \<Rightarrow> string \<Rightarrow> 'r gate_state \<Rightarrow> labels option \<times> 'r gate_state" where
  "fetchLabels kind target s = (case fetchInspect kind target s of
     (doc, s1) \<Rightarrow> (labelsFromDoc doc kind, s1))"

definition fetchContainerLabels :: "string \<Rightarrow> 'r gate_state \<Rightarrow> labels option \<times> 'r gate_state" where
  "fetchContainerLabels = fetchLabels InspectContainer"

definition isBindMount :: "json \<Rightarrow> bool" where
  "isBindMount mount \<longleftrightarrow> jprop (Some mount) ''Type'' = Some (JStr ''bind'')"

definition bind_spec :: "json \<Rightarrow> json" where
  "bind_spec mount = JObj ((''Type'', JStr ''bind'')
     # (case jprop (Some mount) ''Source'' of None \<Rightarrow> [] | Some src \<Rightarrow> [(''Source'', src)])
     @ [(''ReadOnly'', JBool (jprop (Some mount) ''RW'' = Some (JBool False)))])"

definition fetchContainerDoc :: "string \<Rightarrow> 'r gate_state \<Rightarrow> start_doc option \<times> 'r gate_state" where
  "fetchContainerDoc target s = (case fetchInspect InspectContainer target s of
     (doc, s1) \<Rightarrow>
       (map_option (\<lambda>ls.
          \<lparr>doc_labels = ls,
           doc_hostConfig = record_or_empty (jprop doc ''HostConfig''),
           doc_mounts = map bind_spec (filter isBindMount (array_or_empty (jprop doc ''Mounts'')))\<rparr>)
        (labelsFromDoc doc InspectContainer), s1))"

section \<open>Laws\<close>

text \<open>A lookup changes nothing but the engine connections, and writes only its own request.\<close>

definition only_engine :: "'r gate_state \<Rightarrow> 'r gate_state \<Rightarrow> bool" where
  "only_engine s s' \<longleftrightarrow> g_reader s' = g_reader s \<and> g_client s' = g_client s
     \<and> g_replay s' = g_replay s \<and> g_ticks s' = g_ticks s \<and> g_log s' = g_log s \<and> g_stats s' = g_stats s"

lemma fetchInspect_effect:
  assumes "fetchInspect kind target s = (doc, s')"
  shows "only_engine s s' \<and> (g_sent s' = g_sent s \<and> doc = None
    \<or> g_sent s' = g_sent s @ [inspect_request kind target])"
  using assms
  by (auto simp: fetchInspect_def connectUpstream_def record_sent_def only_engine_def
      split: list.splits sum.splits if_splits)

lemma fetchInspect_None:
  assumes "g_conns s = []"
  shows "fst (fetchInspect kind target s) = None"
  using assms by (simp add: fetchInspect_def connectUpstream_def)

end
