(* ===== verification/Gate_Review.thy ===== *)
theory Gate_Review
  imports Gate_Inspect
begin

text \<open>
  What the gate concludes about one request
  (\<open>orchestration/roles/docker-gate/files/review.ts\<close>): the findings of the policy, less those
  a signed approval covers, with those of the ownership lookups. Every outcome is a log line
  and a counter.
\<close>

definition owner_text :: "owner \<Rightarrow> string" where
  "owner_text cls = (case cls of Platform \<Rightarrow> ''platform'' | Tenant \<Rightarrow> ''tenant'' | Unlabeled \<Rightarrow> ''unlabeled'')"

definition would_deny_line :: "request_facts \<Rightarrow> string \<Rightarrow> violation \<Rightarrow> log_record" where
  "would_deny_line facts r v = [(''level'', JStr ''warn''), (''event'', JStr ''docker-gate.would-deny''),
     (''rule'', JStr (rule v))]
     @ (case detail v of None \<Rightarrow> [] | Some d \<Rightarrow> [(''detail'', JStr d)])
     @ [(''method'', JStr (facts_method facts)), (''route'', JStr r),
        (''path'', JStr (routePath (facts_path facts)))]"

definition logViolations :: "request_facts \<Rightarrow> string \<Rightarrow> violation list \<Rightarrow> 'r gate_state \<Rightarrow> 'r gate_state" where
  "logViolations facts r vs =
     fold (\<lambda>v s. emit (would_deny_line facts r v) (tally (stats_violation (rule v)) s)) vs"

definition logApproval :: "approval_result \<Rightarrow> violation list \<Rightarrow> 'r gate_state \<Rightarrow> 'r gate_state" where
  "logApproval res covered s = (case res of
     Approved p \<Rightarrow> emit [(''level'', JStr ''info''), (''event'', JStr ''docker-gate.approval''),
         (''result'', JStr ''accepted''), (''deployId'', JStr (pl_deployId p)),
         (''project'', JStr (pl_project p)), (''composeDigest'', JStr (pl_composeDigest p)),
         (''features'', JArr (map JStr (pl_features p))),
         (''covered'', JArr (map (\<lambda>v. JStr (rule v)) covered))]
       (tally (stats_approval ''accepted'') s)
   | Rejected why who1 \<Rightarrow> emit ([(''level'', JStr ''warn''), (''event'', JStr ''docker-gate.approval''),
         (''result'', JStr ''rejected''), (''reason'', JStr why)]
         @ (case who1 of None \<Rightarrow> []
            | Some (deployId, project) \<Rightarrow> [(''deployId'', JStr deployId), (''project'', JStr project)]))
       (tally (stats_approval (''rejected:'' @ why)) s))"

definition applyApproval ::
  "('key, 'r) gate_deps \<Rightarrow> request_facts \<Rightarrow> labels \<Rightarrow> violation list \<Rightarrow> 'r gate_state
   \<Rightarrow> violation list \<times> 'r gate_state" where
  "applyApproval deps facts ls vs s = (case map_of ls APPROVAL_LABEL of
     None \<Rightarrow> (vs, s)
   | Some token \<Rightarrow> (case nowSec deps s of (now, s1) \<Rightarrow>
       (case verifyApproval (deps_env deps) token (deps_approvalKeys deps)
               (label_or ls LABEL_COMPOSE_PROJECT)
               (approvalBodyDigest (deps_env deps) (facts_plainBody facts))
               (case query_get (facts_query facts) ''name'' of None \<Rightarrow> [] | Some n \<Rightarrow> n) now of
          Rejected why who1 \<Rightarrow> (vs, logApproval (Rejected why who1) [] s1)
        | Approved p \<Rightarrow> (case deps_claim deps (g_replay s1) (pl_jti p) (pl_exp p) now of (fresh, memory) \<Rightarrow>
            let s2 = s1\<lparr>g_replay := memory\<rparr>
            in if \<not> fresh
               then (vs, logApproval (Rejected ''replayed'' (Some (pl_deployId p, pl_project p))) [] s2)
               else let parts = splitApproved vs p; s3 = logApproval (Approved p) (split_approved parts) s2
                 in (split_remaining parts,
                     fold (\<lambda>v. tally (stats_approvedRule (rule v))) (split_approved parts) s3)))))"

definition createFindings ::
  "('key, 'r) gate_deps \<Rightarrow> request_facts \<Rightarrow> violation list \<Rightarrow> 'r gate_state
   \<Rightarrow> violation list \<times> 'r gate_state" where
  "createFindings deps facts found s =
     (let ls = labelsOf (jprop (facts_body facts) ''Labels''); owner = ownerOf ls
      in applyApproval deps facts ls
           (if owner = Unlabeled then found @ [Violation ''unlabeled-create'' None] else found)
           (tally (stats_owner (owner_text owner)) s))"

definition ownedSubject :: "request_facts \<Rightarrow> (inspect_kind \<times> string) option" where
  "ownedSubject facts =
     (let path = routePath (facts_path facts)
      in case ownedTarget (facts_method facts) path of
           Some name \<Rightarrow> Some (InspectContainer, name)
         | None \<Rightarrow> map_option (\<lambda>obj. case obj of
             OwnedVolume name \<Rightarrow> (InspectVolume, name)
           | OwnedNetwork name \<Rightarrow> (InspectNetwork, name)) (ownedObject (facts_method facts) path))"

definition START_PATH :: re where
  "START_PATH = re_seqs [re_str ''/containers/'', re_segment, re_str ''/'', re_words [''start'', ''restart'']]"

definition startTarget :: "request_facts \<Rightarrow> string option" where
  "startTarget facts = (if facts_method facts \<noteq> ''POST'' then None
     else captured START_PATH 2 (routePath (facts_path facts)))"

definition strip_start :: "string \<Rightarrow> string" where
  "strip_start r = (if starts_with ''start-'' r then drop 6 r else r)"

definition applyStartApproval :: "('key, 'r) gate_deps \<Rightarrow> start_doc \<Rightarrow> violation list \<Rightarrow> violation list" where
  "applyStartApproval deps doc found = (case map_of (doc_labels doc) APPROVAL_LABEL of
     None \<Rightarrow> found
   | Some token \<Rightarrow> if found = [] then []
     else let features = startApprovalFeatures (deps_env deps) token (deps_approvalKeys deps)
              (label_or (doc_labels doc) LABEL_COMPOSE_PROJECT)
       in filter (\<lambda>v. (case map_of APPROVABLE_RULES (strip_start (rule v)) of
            None \<Rightarrow> True | Some feature \<Rightarrow> feature \<notin> set features)) found)"

definition startFindings :: "('key, 'r) gate_deps \<Rightarrow> string \<Rightarrow> ('r, violation list) gate" where
  "startFindings deps name = gbind (pass (fetchContainerDoc name)) (\<lambda>doc. (case doc of
     None \<Rightarrow> ok [Violation ''owner-unknown'' (Some (js_slice0 64 name))]
   | Some d \<Rightarrow>
     let owned = (if ownerOf (doc_labels d) = Unlabeled
           then [Violation ''unowned-container'' (Some (js_slice0 64 name))] else [])
     in gbind (type_error (evaluateStartBinds d (deps_policy deps) (deps_resolvePath deps))) (\<lambda>binds.
          gbind (act (fold (\<lambda>a. tally (stats_allowance a)) (allowances binds))) (\<lambda>_.
            ok (owned @ applyStartApproval deps d (violations binds))))))"

definition kind_text :: "inspect_kind \<Rightarrow> string" where
  "kind_text kind = (case kind of InspectContainer \<Rightarrow> ''container'' | InspectVolume \<Rightarrow> ''volume''
     | InspectNetwork \<Rightarrow> ''network'')"

definition unownedFinding :: "('key, 'r) gate_deps \<Rightarrow> request_facts \<Rightarrow> ('r, violation list) gate" where
  "unownedFinding deps facts = (case startTarget facts of
     Some starting \<Rightarrow> startFindings deps starting
   | None \<Rightarrow> (case ownedSubject facts of
       None \<Rightarrow> ok []
     | Some (kind, name) \<Rightarrow> gbind (pass (fetchLabels kind name)) (\<lambda>found. ok (case found of
         None \<Rightarrow> [Violation ''owner-unknown'' (Some (js_slice0 64 name))]
       | Some ls \<Rightarrow>
         (case (if kind = InspectContainer
                then platformAccessRule (routePath (facts_path facts)) ls (facts_body facts) else None) of
            Some r \<Rightarrow> [Violation r (Some (js_slice0 64 name))]
          | None \<Rightarrow> if ownerOf ls \<noteq> Unlabeled then []
              else [Violation (''unowned-'' @ kind_text kind) (Some (js_slice0 64 name))])))))"

definition allowed_line :: "string \<Rightarrow> string \<Rightarrow> log_record" where
  "allowed_line r allowance = [(''level'', JStr ''info''), (''event'', JStr ''docker-gate.allowed''),
     (''allowance'', JStr allowance), (''route'', JStr r)]"

definition review ::
  "('key, 'r) gate_deps \<Rightarrow> request_facts \<Rightarrow> string \<Rightarrow> violation list \<Rightarrow> ('r, violation list) gate" where
  "review deps facts r extra =
     gbind (type_error (evaluateDetailed facts (deps_policy deps) (deps_resolvePath deps))) (\<lambda>det.
     gbind (act (fold (\<lambda>a s. emit (allowed_line r a) (tally (stats_allowance a) s)) (allowances det))) (\<lambda>_.
     gbind (if r = ''containers.create'' then pass (createFindings deps facts (violations det))
            else ok (violations det)) (\<lambda>findings.
     gbind (unownedFinding deps facts) (\<lambda>unowned.
       let found = findings @ unowned @ extra
       in gbind (act (logViolations facts r found)) (\<lambda>_. ok found)))))"

section \<open>What a review does to the state\<close>

definition is_inspect :: "string \<Rightarrow> bool" where
  "is_inspect m \<longleftrightarrow> (\<exists>kind target. m = inspect_request kind target)"

text \<open>The connection being served is untouched, and only lookups reach the engine.\<close>

definition looks :: "'r gate_state \<Rightarrow> 'r gate_state \<Rightarrow> bool" where
  "looks s s' \<longleftrightarrow> g_reader s' = g_reader s \<and> g_client s' = g_client s
     \<and> (\<exists>ms. g_sent s' = g_sent s @ ms \<and> list_all is_inspect ms)"

lemma looks_refl [simp]: "looks s s"
  by (simp add: looks_def)

lemma looks_trans: "looks s s1 \<Longrightarrow> looks s1 s2 \<Longrightarrow> looks s s2"
  by (auto simp: looks_def)

lemma looks_rules [frame]: "reflp looks" "transp looks"
  by (auto intro: reflpI transpI looks_trans)

lemma looks_quiet [simp]:
  "looks s (emit l s1) \<longleftrightarrow> looks s s1" "looks s (tally f s1) \<longleftrightarrow> looks s s1"
  "looks s (s1\<lparr>g_replay := m\<rparr>) \<longleftrightarrow> looks s s1" "looks s (s1\<lparr>g_ticks := t\<rparr>) \<longleftrightarrow> looks s s1"
  by (simp_all add: looks_def emit_def tally_def)

lemma looks_fold: "(\<And>x s. looks s (f x s)) \<Longrightarrow> looks s (fold f xs s)"
  by (induction xs arbitrary: s) (auto intro: looks_trans)

lemma looks_fetchInspect: "fetchInspect kind target s = (d, s') \<Longrightarrow> looks s s'"
  using fetchInspect_effect [of kind target s d s'] is_inspect_def
  by (fastforce simp: looks_def only_engine_def)

lemma looks_fetchLabels: "fetchLabels kind target s = (d, s') \<Longrightarrow> looks s s'"
  by (auto simp: fetchLabels_def looks_fetchInspect split: prod.splits)

lemma looks_fetchContainerDoc: "fetchContainerDoc target s = (d, s') \<Longrightarrow> looks s s'"
  by (auto simp: fetchContainerDoc_def looks_fetchInspect split: prod.splits)

lemma looks_logViolations: "looks s (logViolations facts r vs s)"
  by (simp add: logViolations_def looks_fold)

lemma looks_logApproval: "looks s (logApproval res vs s1) \<longleftrightarrow> looks s s1"
  by (cases res) (simp_all add: logApproval_def)

lemma looks_applyApproval: "applyApproval deps facts ls vs s = (out, s') \<Longrightarrow> looks s s'"
  by (auto simp: applyApproval_def nowSec_def Let_def looks_logApproval
      intro!: looks_trans [OF _ looks_fold]
      split: option.splits approval_result.splits prod.splits if_splits)

lemma looks_createFindings: "createFindings deps facts vs s = (out, s') \<Longrightarrow> looks s s'"
  by (auto simp: createFindings_def Let_def dest!: looks_applyApproval intro: looks_trans [rotated])

lemma keeps_lookups [frame]:
  "keeps looks (pass (fetchContainerDoc name))" "keeps looks (pass (fetchLabels kind name))"
  "keeps looks (pass (createFindings deps facts vs))" "keeps looks (act (logViolations facts r vs))"
  by (auto simp: looks_logViolations intro!: keeps_pass keeps_act
      dest: looks_fetchContainerDoc looks_fetchLabels looks_createFindings)

lemma keeps_startFindings [frame]: "keeps looks (startFindings deps name)"
  unfolding startFindings_def Let_def
  by (auto intro!: frame looks_fold split: option.splits)

lemma keeps_unownedFinding [frame]: "keeps looks (unownedFinding deps facts)"
  unfolding unownedFinding_def Let_def
  by (auto intro!: frame split: option.splits prod.splits)

lemma keeps_review [frame]: "keeps looks (review deps facts r extra)"
  unfolding review_def Let_def
  by (auto intro!: frame looks_fold)

section \<open>What a clean review means\<close>

text \<open>The object whose labels decide about a request.\<close>

definition subject :: "request_facts \<Rightarrow> (inspect_kind \<times> string) option" where
  "subject facts = (case startTarget facts of
     Some name \<Rightarrow> Some (InspectContainer, name) | None \<Rightarrow> ownedSubject facts)"

definition create_labels :: "request_facts \<Rightarrow> labels" where
  "create_labels facts = labelsOf (jprop (facts_body facts) ''Labels'')"

text \<open>A valid token of the body's own label, claimed for this request, lists a feature per finding.\<close>

definition approved_by ::
  "('key, 'r) gate_deps \<Rightarrow> request_facts \<Rightarrow> approval_payload \<Rightarrow> violation list \<Rightarrow> bool" where
  "approved_by deps facts p vs \<longleftrightarrow> (\<exists>token now memory.
     map_of (create_labels facts) APPROVAL_LABEL = Some token
     \<and> verifyApproval (deps_env deps) token (deps_approvalKeys deps)
         (label_or (create_labels facts) LABEL_COMPOSE_PROJECT)
         (approvalBodyDigest (deps_env deps) (facts_plainBody facts))
         (case query_get (facts_query facts) ''name'' of None \<Rightarrow> [] | Some n \<Rightarrow> n) now = Approved p
     \<and> fst (deps_claim deps memory (pl_jti p) (pl_exp p) now)
     \<and> list_all (approves (pl_features p)) vs)"

lemma fetchContainerDoc_labels:
  "fetchContainerDoc name s = (Some d, s1) \<Longrightarrow> fetchLabels InspectContainer name s = (Some (doc_labels d), s1)"
  by (auto simp: fetchContainerDoc_def fetchLabels_def split: prod.splits)

lemma fetchLabels_Some:
  assumes "fetchLabels kind name s = (Some ls, s1)"
  obtains conn later doc where "g_conns s = Inr conn # later" "in_time conn"
    "readInspect conn = Inr (Some doc)" "labelsFromDoc (Some doc) kind = Some ls"
proof -
  obtain doc where doc: "fetchInspect kind name s = (Some doc, s1)" "labelsFromDoc (Some doc) kind = Some ls"
    using assms by (auto simp: fetchLabels_def labelsFromDoc_def split: prod.splits option.splits)
  from doc(1) obtain conn later where "g_conns s = Inr conn # later" "in_time conn"
      "readInspect conn = Inr (Some doc)"
    by (auto simp: fetchInspect_def connectUpstream_def split: list.splits sum.splits if_splits)
  with doc(2) show ?thesis by (intro that)
qed

lemma unownedFinding_clean:
  assumes "subject facts = Some (kind, name)" "unownedFinding deps facts s = (Inr [], s')"
  obtains ls s1 where "fetchLabels kind name s = (Some ls, s1)" "ownerOf ls \<noteq> Unlabeled"
    "startTarget facts = None \<Longrightarrow> kind = InspectContainer
       \<Longrightarrow> platformAccessRule (routePath (facts_path facts)) ls (facts_body facts) = None"
proof (cases "startTarget facts")
  case None
  then have "ownedSubject facts = Some (kind, name)" using assms(1) by (simp add: subject_def)
  then show ?thesis using assms(2) None that
    by (auto simp: unownedFinding_def gbind_def gate_steps split: prod.splits option.splits if_splits)
next
  case (Some starting)
  then have n: "kind = InspectContainer" "starting = name" using assms(1) by (auto simp: subject_def)
  obtain d s1 where d: "fetchContainerDoc name s = (d, s1)" by fastforce
  then obtain doc where doc: "d = Some doc" "ownerOf (doc_labels doc) \<noteq> Unlabeled"
    using assms(2) Some n
    by (cases d) (auto simp: unownedFinding_def startFindings_def gbind_def gate_steps Let_def
        split: prod.splits sum.splits if_splits)
  then show ?thesis using that fetchContainerDoc_labels d n Some by (metis option.distinct(1))
qed

lemma applyApproval_clean:
  assumes "applyApproval deps facts (create_labels facts) vs s = ([], s')"
  obtains "vs = []" | p where "approved_by deps facts p vs"
proof (cases "vs = []")
  case False
  then obtain token where t: "map_of (create_labels facts) APPROVAL_LABEL = Some token"
    using assms by (auto simp: applyApproval_def split: option.splits)
  obtain now s1 where now: "nowSec deps s = (now, s1)" by fastforce
  let ?v = "verifyApproval (deps_env deps) token (deps_approvalKeys deps)
    (label_or (create_labels facts) LABEL_COMPOSE_PROJECT)
    (approvalBodyDigest (deps_env deps) (facts_plainBody facts))
    (case query_get (facts_query facts) ''name'' of None \<Rightarrow> [] | Some n \<Rightarrow> n) now"
  obtain p where p: "?v = Approved p"
    using assms False t now by (cases ?v) (auto simp: applyApproval_def)
  obtain fresh m where c: "deps_claim deps (g_replay s1) (pl_jti p) (pl_exp p) now = (fresh, m)" by fastforce
  have "fresh" "filter (\<lambda>v. \<not> approves (pl_features p) v) vs = []"
    using assms False t now p c
    by (auto simp: applyApproval_def Let_def splitApproved_def split: if_splits)
  then have "approved_by deps facts p vs"
    using t p c unfolding approved_by_def
    by (intro exI [of _ token] exI [of _ now] exI [of _ "g_replay s1"])
      (simp add: list_all_iff filter_empty_conv)
  then show ?thesis using that by blast
qed

lemma unlabeled_not_approved: "\<not> approves features (Violation ''unlabeled-create'' d)"
  by (simp add: approves_def APPROVABLE_RULES_def)

lemma createFindings_clean:
  assumes "createFindings deps facts vs s = ([], s')"
  shows "ownerOf (create_labels facts) \<noteq> Unlabeled \<and> (vs = [] \<or> (\<exists>p. approved_by deps facts p vs))"
  using assms unfolding createFindings_def Let_def create_labels_def [symmetric]
  by (elim applyApproval_clean)
    (auto simp: approved_by_def unlabeled_not_approved split: if_splits)

text \<open>What is left out of a review that finds nothing, in terms of the policy alone.\<close>

lemma review_clean:
  assumes "review deps facts r extra s = (Inr [], s')"
  obtains det s1 s2 where "extra = []"
    "evaluateDetailed facts (deps_policy deps) (deps_resolvePath deps) = Inr det"
    "r \<noteq> ''containers.create'' \<Longrightarrow> violations det = []"
    "r = ''containers.create'' \<Longrightarrow> ownerOf (create_labels facts) \<noteq> Unlabeled"
    "violations det = [] \<or> (\<exists>p. approved_by deps facts p (violations det))"
    "looks s s1" "unownedFinding deps facts s1 = (Inr [], s2)"
proof -
  obtain det where det: "evaluateDetailed facts (deps_policy deps) (deps_resolvePath deps) = Inr det"
    using assms by (auto simp: review_def gbind_def type_error_def split: sum.splits)
  define s0 where "s0 = fold (\<lambda>a s. emit (allowed_line r a) (tally (stats_allowance a) s)) (allowances det) s"
  obtain s1 s2 where f: "(if r = ''containers.create'' then pass (createFindings deps facts (violations det))
        else ok (violations det)) s0 = (Inr [], s1)"
      and u: "unownedFinding deps facts s1 = (Inr [], s2)" and "extra = []"
    using assms det by (auto simp: review_def gbind_Inr gate_steps Let_def s0_def)
  have "looks s s0" by (simp add: s0_def looks_fold)
  moreover have "looks s0 s1"
    using f by (auto simp: gate_steps dest!: looks_createFindings split: if_splits prod.splits)
  ultimately have "looks s s1" by (rule looks_trans)
  moreover have "r = ''containers.create'' \<Longrightarrow> createFindings deps facts (violations det) s0 = ([], s1)"
      and "r \<noteq> ''containers.create'' \<Longrightarrow> violations det = []"
    using f by (auto simp: gate_steps split: prod.splits)
  ultimately show ?thesis
    using that det u \<open>extra = []\<close> createFindings_clean [of deps facts "violations det" s0 s1] by metis
qed

section \<open>Ownership\<close>

text \<open>A gate with no approval keys over the default policy, for the examples.\<close>

definition plain_env :: "unit approval_env" where
  "plain_env = \<lparr>sha256 = (\<lambda>_. []), ed25519_verify = (\<lambda>_ _ _. False), import_key = (\<lambda>_. ()),
     num_text = (\<lambda>m e. int_text m)\<rparr>"

definition plain_deps :: "gate_mode \<Rightarrow> (unit, used_ids) gate_deps" where
  "plain_deps mode = \<lparr>deps_policy = DEFAULT_POLICY_CONFIG, deps_resolvePath = Inr, deps_env = plain_env,
     deps_approvalKeys = [], deps_claim = claim, deps_nowSec = (\<lambda>_. 0), deps_maxBodyBytes = 4096,
     deps_readOnly = False, deps_mode = mode, deps_buildSocket = False\<rparr>"

definition fresh_state :: "string list \<Rightarrow> string list list \<Rightarrow> used_ids gate_state" where
  "fresh_state reads conns = \<lparr>g_stats = new_stats, g_log = [], g_replay = [], g_ticks = 0,
     g_reader = new_reader reads, g_client = new_sink,
     g_conns = map (\<lambda>a. Inr \<lparr>answers = a, in_time = True\<rparr>) conns, g_sent = []\<rparr>"

definition ok_answer :: "string \<Rightarrow> string" where
  "ok_answer body = ''HTTP/1.1 200 OK'' @ crlf @ ''Content-Length: '' @ digits_of_nat (length body)
     @ crlf @ crlf @ body"

definition shop_container :: string where
  \<open>shop_container = ''{"Config":{"Labels":{"com.docker.compose.project":"shop"}}}''\<close>

definition stop_facts :: request_facts where
  "stop_facts = \<lparr>facts_method = ''POST'', facts_path = ''/v1.44/containers/web/stop'', facts_query = [],
     facts_body = None, facts_plainBody = None, facts_formBody = False, facts_bodyError = None\<rparr>"

text \<open>C31: The ownership check fails closed. When a request acts on a container, volume or network
  (a start or restart included) and the check raises no finding, the engine accepted the
  lookup's connection, answered it in time with a well-formed document, the labels of that
  document name a platform or tenant owner, and, for a container that is not being started,
  they permit the exec, attach, archive or export the path asks for.
\<close>

theorem ownership_fails_closed:
  assumes "subject facts = Some (kind, name)" "unownedFinding deps facts s = (Inr [], s')"
  shows "\<exists>conn later doc ls. g_conns s = Inr conn # later \<and> in_time conn
    \<and> readInspect conn = Inr (Some doc) \<and> labelsFromDoc (Some doc) kind = Some ls
    \<and> ownerOf ls \<noteq> Unlabeled
    \<and> (startTarget facts = None \<and> kind = InspectContainer
        \<longrightarrow> platformAccessRule (routePath (facts_path facts)) ls (facts_body facts) = None)"
proof -
  obtain ls s1 where ls: "fetchLabels kind name s = (Some ls, s1)" "ownerOf ls \<noteq> Unlabeled"
    "startTarget facts = None \<Longrightarrow> kind = InspectContainer
       \<Longrightarrow> platformAccessRule (routePath (facts_path facts)) ls (facts_body facts) = None"
    using unownedFinding_clean [OF assms] by metis
  from fetchLabels_Some [OF ls(1)] show ?thesis using ls(2,3) by metis
qed

theorem ownership_fails_closed_witness:
  "\<exists>conn later doc ls. g_conns (fresh_state [] [[ok_answer shop_container]]) = Inr conn # later
     \<and> in_time conn \<and> readInspect conn = Inr (Some doc)
     \<and> labelsFromDoc (Some doc) InspectContainer = Some ls \<and> ownerOf ls \<noteq> Unlabeled"
proof -
  have e: "subject stop_facts = Some (InspectContainer, ''web'')"
    "fst (unownedFinding (plain_deps Observe) stop_facts (fresh_state [] [[ok_answer shop_container]])) = Inr []"
    by code_simp+
  then show ?thesis
    using ownership_fails_closed [OF e(1), of "plain_deps Observe" "fresh_state [] [[ok_answer shop_container]]"]
    by (metis prod.collapse)
qed

end
