(* ===== verification/Gate_Listeners.thy ===== *)
theory Gate_Listeners
  imports Gate_Policy Gate_Http
begin

text \<open>
  The two special listeners of the gate: what the read-only socket answers
  (\<open>orchestration/roles/docker-gate/files/readonly.ts\<close>) and how the build socket is opened and
  what only it may carry (\<open>build.ts\<close>).
\<close>

section \<open>The read-only socket\<close>

definition ref_char :: "char \<Rightarrow> bool" where
  "ref_char c \<longleftrightarrow> is_alnum c \<or> c = CHR ''_'' \<or> c = CHR ''.'' \<or> c = CHR ''-''"

definition CONTAINER_REF :: re where
  "CONTAINER_REF = RSeq (RCls is_alnum) (RStar (RCls ref_char))"

definition READ_ONLY_ROUTES :: "re list" where
  "READ_ONLY_ROUTES =
     [RSeq (re_str ''/'') (re_words [''_ping'', ''version'', ''events'']),
      re_str ''/containers/json'',
      re_seqs [re_str ''/containers/'', CONTAINER_REF, re_str ''/json'']]"

definition READ_METHODS :: "string list" where
  "READ_METHODS = [''GET'', ''HEAD'']"

definition rawPathOf :: "string \<Rightarrow> string" where
  "rawPathOf target = (case index_of (CHR ''?'') target of None \<Rightarrow> target | Some q \<Rightarrow> take q target)"

definition pathIsPlain :: "string \<Rightarrow> bool" where
  "pathIsPlain rawPath \<longleftrightarrow> starts_with ''/'' rawPath \<and> CHR ''%'' \<notin> set rawPath
     \<and> \<not> includes_str ''..'' rawPath \<and> \<not> includes_str ''//'' rawPath
     \<and> CHR 0x5C \<notin> set rawPath \<and> CHR ''#'' \<notin> set rawPath"

definition asksUpgrade :: "request_head \<Rightarrow> bool" where
  "asksUpgrade head \<longleftrightarrow> headerTokens (req_headers head) ''upgrade'' \<noteq> []
     \<or> ''upgrade'' \<in> set (headerTokens (req_headers head) ''connection'')"

fun hasBody :: "framing \<Rightarrow> bool" where
  "hasBody FNone = False"
| "hasBody (FLength n) = (n > 0)"
| "hasBody _ = True"

definition readOnlyRefusal :: "request_head \<Rightarrow> (http_error, string option) result" where
  "readOnlyRefusal head =
     (if req_method head \<notin> set READ_METHODS then Inr (Some ''read-only socket: method not allowed'')
      else if asksUpgrade head then Inr (Some ''read-only socket: no upgrade'')
      else rbind (requestFraming head) (\<lambda>framing. Inr (
        if hasBody framing then Some ''read-only socket: no request body''
        else let rawPath = rawPathOf (req_target head)
          in if \<not> pathIsPlain rawPath \<or> \<not> versionPrefixIsCanonical rawPath
             then Some ''read-only socket: path not allowed''
             else if \<not> list_ex (\<lambda>pattern. re_match pattern (routePath rawPath)) READ_ONLY_ROUTES
             then Some ''read-only socket: route not allowed''
             else None)))"

text \<open>What the socket lets through, as a predicate.\<close>

definition readable :: "request_head \<Rightarrow> bool" where
  "readable head \<longleftrightarrow> (req_method head = ''GET'' \<or> req_method head = ''HEAD'') \<and> \<not> asksUpgrade head
     \<and> (requestFraming head = Inr FNone \<or> requestFraming head = Inr (FLength 0))
     \<and> pathIsPlain (rawPathOf (req_target head)) \<and> versionPrefixIsCanonical (rawPathOf (req_target head))
     \<and> list_ex (\<lambda>pattern. re_match pattern (routePath (rawPathOf (req_target head)))) READ_ONLY_ROUTES"

lemma hasBody_False: "\<not> hasBody f \<longleftrightarrow> f = FNone \<or> f = FLength 0"
  by (cases f) auto

lemma readOnlyRefusal_None: "readOnlyRefusal head = Inr None \<longleftrightarrow> readable head"
  by (cases "requestFraming head")
    (auto simp: readOnlyRefusal_def readable_def READ_METHODS_def Let_def hasBody_False split: if_splits)

section \<open>Build sessions\<close>

definition BUILD_SESSION_ROUTES :: "string list" where
  "BUILD_SESSION_ROUTES = [''session'', ''grpc'']"

definition buildSessionFindings :: "string \<Rightarrow> bool \<Rightarrow> violation list" where
  "buildSessionFindings r onBuildSocket =
     (if r \<notin> set BUILD_SESSION_ROUTES \<or> onBuildSocket then []
      else [Violation ''build-session'' (Some ''not-build-socket'')])"

section \<open>Opening the build socket\<close>

text \<open>
  The steps are the calls on the file system, each of which may fail (\<open>fails\<close>, by step): a
  failed step has no effect and throws. The failure of the clean-up's removal is ignored.
\<close>

datatype fs_call = Chmod string nat | Listen string | Chown string nat | CloseListener string | Remove string

text \<open>The modes \<open>0o700\<close>, \<open>0o750\<close> and \<open>0o660\<close>.\<close>

definition DIR_CLOSED :: nat where "DIR_CLOSED = 7 * 64"
definition DIR_OPEN :: nat where "DIR_OPEN = 7 * 64 + 5 * 8"
definition SOCKET_MODE :: nat where "SOCKET_MODE = 6 * 64 + 6 * 8"

definition build_parentOf :: "string \<Rightarrow> string" where
  "build_parentOf path = (case last_index_of (CHR ''/'') path of
     Some slash \<Rightarrow> if slash > 0 then take slash path else ''/'' | None \<Rightarrow> ''/'')"

text \<open>The calls that took effect, and whether the listener was returned.\<close>

definition listenBuildSocket :: "(fs_call \<Rightarrow> bool) \<Rightarrow> string \<Rightarrow> nat \<Rightarrow> fs_call list \<times> bool" where
  "listenBuildSocket fails path gid =
     (let dir = build_parentOf path;
          clean = [CloseListener path] @ (if fails (Remove path) then [] else [Remove path])
      in if fails (Chmod dir DIR_CLOSED) then ([], False)
         else if fails (Listen path) then ([Chmod dir DIR_CLOSED], False)
         else if fails (Chown path gid) then ([Chmod dir DIR_CLOSED, Listen path] @ clean, False)
         else if fails (Chmod path SOCKET_MODE)
         then ([Chmod dir DIR_CLOSED, Listen path, Chown path gid] @ clean, False)
         else if fails (Chmod dir DIR_OPEN)
         then ([Chmod dir DIR_CLOSED, Listen path, Chown path gid, Chmod path SOCKET_MODE], False)
         else ([Chmod dir DIR_CLOSED, Listen path, Chown path gid, Chmod path SOCKET_MODE, Chmod dir DIR_OPEN], True))"

text \<open>
  The permissions the calls leave: the mode of the directory, and of the socket, once it
  exists, whether its group and its mode are set.
\<close>

record socket_access =
  dir_mode :: nat
  listening :: bool
  grouped :: bool
  restricted :: bool

definition apply_call :: "string \<Rightarrow> nat \<Rightarrow> fs_call \<Rightarrow> socket_access \<Rightarrow> socket_access" where
  "apply_call path gid call st = (case call of
     Chmod p mode \<Rightarrow> if p = path then st\<lparr>restricted := mode = SOCKET_MODE\<rparr>
       else if p = build_parentOf path then st\<lparr>dir_mode := mode\<rparr> else st
   | Listen p \<Rightarrow> if p = path then st\<lparr>listening := True, grouped := False, restricted := False\<rparr> else st
   | Chown p g \<Rightarrow> if p = path then st\<lparr>grouped := g = gid\<rparr> else st
   | CloseListener p \<Rightarrow> if p = path then st\<lparr>listening := False\<rparr> else st
   | Remove p \<Rightarrow> st)"

text \<open>Another account can reach a socket that is not yet restricted to the build group.\<close>

definition exposed :: "socket_access \<Rightarrow> bool" where
  "exposed st \<longleftrightarrow> listening st \<and> \<not> (grouped st \<and> restricted st) \<and> dir_mode st \<noteq> DIR_CLOSED"

text \<open>C40: While the build socket is being opened, no other account can reach it unrestricted: at
  every moment, whichever calls on the file system fail, the socket is not listening, or
  already has its group and mode, or its directory is closed. When the listener is returned,
  the socket is restricted to the build group and its directory is open to that group.
\<close>

theorem listenBuildSocket_never_exposed:
  assumes "build_parentOf path \<noteq> path" "\<not> listening st"
  shows "\<not> exposed (fold (apply_call path gid) (take n (fst (listenBuildSocket fails path gid))) st)
    \<and> (snd (listenBuildSocket fails path gid) \<longrightarrow>
        fold (apply_call path gid) (fst (listenBuildSocket fails path gid)) st
          = st\<lparr>dir_mode := DIR_OPEN, listening := True, grouped := True, restricted := True\<rparr>)"
proof -
  have p: "path \<noteq> build_parentOf path" using assms(1) by metis
  have "\<not> exposed (fold (apply_call path gid) (take n (fst (listenBuildSocket fails path gid))) st)"
    using assms p
    by (auto simp: listenBuildSocket_def Let_def apply_call_def exposed_def take_Cons' split: nat.splits)
  then show ?thesis
    using assms p by (auto simp: listenBuildSocket_def Let_def apply_call_def DIR_OPEN_def)
qed

theorem listenBuildSocket_never_exposed_witness:
  "\<not> exposed (fold (apply_call ''/run/gate/build/docker.sock'' 990)
       (take 2 (fst (listenBuildSocket (\<lambda>c. c = Chmod ''/run/gate/build/docker.sock'' SOCKET_MODE)
          ''/run/gate/build/docker.sock'' 990)))
       \<lparr>dir_mode = DIR_OPEN, listening = False, grouped = False, restricted = False\<rparr>)"
proof -
  have p: "build_parentOf ''/run/gate/build/docker.sock'' \<noteq> ''/run/gate/build/docker.sock''" by code_simp
  show ?thesis
    by (rule conjunct1 [OF listenBuildSocket_never_exposed [OF p]]) simp
qed

end
