(* ===== verification/Gate_Proxy.thy ===== *)
theory Gate_Proxy
  imports Gate_Review Gate_Listeners Gate_Body Gate_Reader_Laws
begin

text \<open>
  One client connection through the gate
  (\<open>orchestration/roles/docker-gate/files/proxy.ts\<close>): each request is read, judged, sent to a
  fresh engine connection and its response relayed back, until one of the two sides ends the
  connection.

  The upload of a request and its response overlap in the source; here the upload comes
  first. What a relay had written before it failed is not kept. The sockets take every byte
  written to them.
\<close>

section \<open>Targets and bodies\<close>

definition parseTarget :: "string \<Rightarrow> (http_error, string \<times> query) result" where
  "parseTarget target =
     (if CHR ''#'' \<in> set target then Inl (HttpError 400 ''invalid request target'')
      else let question = index_of (CHR ''?'') target;
               rawPath = (case question of None \<Rightarrow> target | Some q \<Rightarrow> take q target);
               rawQuery = (case question of None \<Rightarrow> [] | Some q \<Rightarrow> drop (Suc q) target)
        in case decode_uri_component rawPath of
             None \<Rightarrow> Inl (HttpError 400 ''invalid percent-encoding in the request path'')
           | Some path \<Rightarrow> Inr (path, search_params rawQuery))"

record buffered_body =
  bb_raw :: string
  bb_payload :: string
  bb_parsed :: "(string, json) result"

definition bufferBody :: "reader \<Rightarrow> framing \<Rightarrow> nat \<Rightarrow> (http_error, buffered_body \<times> reader) result" where
  "bufferBody r framing limit = (case framing of
     FNone \<Rightarrow> Inr (\<lparr>bb_raw = [], bb_payload = [], bb_parsed = parseRequestBody []\<rparr>, r)
   | FLength n \<Rightarrow>
     if n > limit then Inl (HttpError 413 ''request body too large'')
     else rbind (readExact n r) (\<lambda>(raw, r').
       Inr (\<lparr>bb_raw = raw, bb_payload = raw, bb_parsed = parseRequestBody raw\<rparr>, r'))
   | FChunked \<Rightarrow> rbind (relayChunked r (Some new_sink) (Some (new_capture limit))) (\<lambda>(r', out, capture).
       let payload = concat (chunks (the capture))
       in Inr (\<lparr>bb_raw = written out, bb_payload = payload, bb_parsed = parseRequestBody payload\<rparr>, r'))
   | FEof \<Rightarrow> Inl (HttpError 400 ''request body without framing''))"

definition plainJson :: "buffered_body \<Rightarrow> (gate_error, json option) result" where
  "plainJson b = (case bb_parsed b of
     Inl _ \<Rightarrow> Inr None
   | Inr _ \<Rightarrow> (case json_parse (text_decode (bb_payload b)) of
       None \<Rightarrow> Inl (Thrown ''SyntaxError'' ''Unexpected token'')
     | Some v \<Rightarrow> Inr (Some v)))"

section \<open>Responses\<close>

record response_outcome =
  ro_upgraded :: bool
  ro_keepAlive :: bool
  ro_status :: nat

lemma readHead_shrinks:
  assumes "readHead r = Inr (Some raw, r')"
  shows "held r' < held r"
proof -
  have e: "readThrough_from CRLF_CRLF MAX_HEAD_BYTES ''message head too large'' 0 r = Inr (Some raw, r')"
    using assms by (simp add: readHead_def readThrough_def)
  have "length CRLF_CRLF = 4" by (simp add: CRLF_CRLF_def crlf_def)
  then show ?thesis using held_readThrough_from [OF e] readThrough_from_length [OF e] by simp
qed

text \<open>The result comes with the client's sink: what was written before an error stays written.\<close>

function relayResponse :: "string \<Rightarrow> reader \<Rightarrow> sink \<Rightarrow> (http_error, response_outcome \<times> reader) result \<times> sink" where
  "relayResponse method r client = (case readHead r of
     Inl e \<Rightarrow> (Inl e, client)
   | Inr (None, r1) \<Rightarrow> (Inl (HttpError 502 ''the engine closed the connection''), client)
   | Inr (Some raw, r1) \<Rightarrow> (case parseResponseHead raw of
       Inl e \<Rightarrow> (Inl e, client)
     | Inr head \<Rightarrow>
       if resp_status head = 101
       then (Inr (\<lparr>ro_upgraded = True, ro_keepAlive = False, ro_status = 101\<rparr>, r1), writeAll client raw)
       else if resp_status head < 200 then relayResponse method r1 (writeAll client raw)
       else (case responseFraming method head of
           Inl e \<Rightarrow> (Inl e, writeAll client raw)
         | Inr framing \<Rightarrow> (case relayBody r1 framing (writeAll client raw) of
             Inl e \<Rightarrow> (Inl e, writeAll client raw)
           | Inr (r2, client2) \<Rightarrow>
             (Inr (\<lparr>ro_upgraded = False,
                    ro_keepAlive = framing \<noteq> FEof \<and> \<not> wantsClose (resp_headers head) (resp_version head),
                    ro_status = resp_status head\<rparr>, r2), client2)))))"
  by pat_completeness auto
termination
  by (relation "measure (\<lambda>(_, r, _). held r)") (auto dest: readHead_shrinks)

declare relayResponse.simps [simp del]

section \<open>Requests\<close>

text \<open>The bytes of the body the engine gets, whether it was complete, and the reader after it.\<close>

definition relayRequestBody :: "reader \<Rightarrow> framing \<Rightarrow> string \<times> bool \<times> reader" where
  "relayRequestBody r framing = (case relayBody r framing new_sink of
     Inl e \<Rightarrow> ([], False, r)
   | Inr (r', out) \<Rightarrow> (written out, True, r'))"

definition hasExpect :: "header list \<Rightarrow> bool" where
  "hasExpect headers \<longleftrightarrow> headerTokens headers ''expect'' \<noteq> []"

record judged =
  jd_route :: string
  jd_buffered :: "buffered_body option"

definition denied_line :: "string \<Rightarrow> string \<Rightarrow> string list \<Rightarrow> log_record" where
  "denied_line method r rules = [(''level'', JStr ''warn''), (''event'', JStr ''docker-gate.denied''),
     (''method'', JStr method), (''route'', JStr r), (''rules'', JArr (map JStr rules))]"

text \<open>\<open>[...new Set(rules)]\<close> keeps the first of equal entries.\<close>

definition unique :: "string list \<Rightarrow> string list" where
  "unique xs = rev (remdups (rev xs))"

definition refuse :: "violation list \<Rightarrow> string \<Rightarrow> string \<Rightarrow> ('r, 'a) gate" where
  "refuse findings method r =
     (let rules = unique (map rule findings)
      in gbind (act (emit (denied_line method r rules))) (\<lambda>_.
           throw (Http (HttpError 403 (''refused by the Docker gate: '' @ join_with '', '' rules)))))"

definition raise :: "(gate_error, 'a) result \<Rightarrow> ('r, 'a) gate" where
  "raise r s = (r, s)"

definition buffer_step :: "framing \<Rightarrow> nat \<Rightarrow> ('r, buffered_body) gate" where
  "buffer_step framing limit s = (case bufferBody (g_reader s) framing limit of
     Inl e \<Rightarrow> (Inl (Http e), s)
   | Inr (b, r') \<Rightarrow> (Inr b, s\<lparr>g_reader := r'\<rparr>))"

definition facts_of ::
  "request_head \<Rightarrow> string \<times> query \<Rightarrow> framing \<Rightarrow> (buffered_body \<times> json option) option \<Rightarrow> request_facts" where
  "facts_of head target framing kept =
     \<lparr>facts_method = req_method head, facts_path = fst target, facts_query = snd target,
      facts_body = (case kept of Some (b, _) \<Rightarrow> (case bb_parsed b of Inr v \<Rightarrow> Some v | Inl _ \<Rightarrow> None) | None \<Rightarrow> None),
      facts_plainBody = (case kept of Some (_, v) \<Rightarrow> v | None \<Rightarrow> None),
      facts_formBody = carriesFormBody head framing,
      facts_bodyError = (case kept of Some (b, _) \<Rightarrow> (case bb_parsed b of Inl e \<Rightarrow> Some e | Inr _ \<Rightarrow> None) | None \<Rightarrow> None)\<rparr>"

definition hold_body :: "('key, 'r) gate_deps \<Rightarrow> framing \<Rightarrow> bool \<Rightarrow> ('r, (buffered_body \<times> json option) option) gate" where
  "hold_body deps framing needed =
     (if needed then gbind (buffer_step framing (deps_maxBodyBytes deps)) (\<lambda>b.
        gbind (raise (plainJson b)) (\<lambda>v. ok (Some (b, v))))
      else ok None)"

definition judge :: "('key, 'r) gate_deps \<Rightarrow> request_head \<Rightarrow> framing \<Rightarrow> ('r, judged) gate" where
  "judge deps head framing =
     gbind (http (parseTarget (req_target head))) (\<lambda>target.
     let info = classifyRoute (req_method head) (fst target)
     in gbind (hold_body deps framing (needsBody info)) (\<lambda>kept.
        gbind (review deps (facts_of head target framing kept) (route info)
            (buildSessionFindings (route info) (deps_buildSocket deps))) (\<lambda>findings.
        gbind (if deps_mode deps = Enforce \<and> findings \<noteq> []
               then refuse findings (req_method head) (route info) else ok ()) (\<lambda>_.
          ok \<lparr>jd_route = route info, jd_buffered = map_option fst kept\<rparr>))))"

definition refuseOutsideReadOnly :: "request_head \<Rightarrow> ('r, unit) gate" where
  "refuseOutsideReadOnly head = gbind (http (readOnlyRefusal head)) (\<lambda>why. (case why of
     None \<Rightarrow> ok ()
   | Some message \<Rightarrow> gbind (http (parseTarget (req_target head))) (\<lambda>target.
       gbind (act (emit [(''level'', JStr ''warn''), (''event'', JStr ''docker-gate.ro-refused''),
           (''method'', JStr (req_method head)), (''path'', JStr (fst target)), (''reason'', JStr message)]))
         (\<lambda>_. throw (Http (HttpError 403 message))))))"

text \<open>The connection opened is the last entry of \<open>g_sent\<close>.\<close>

definition openUpstream :: "('r, engine_conn) gate" where
  "openUpstream s = (case connectUpstream s of
     (Inl err, s1) \<Rightarrow> (Inl (Http (HttpError 502 ''the Docker engine socket is unreachable'')),
       emit [(''level'', JStr ''error''), (''event'', JStr ''docker-gate.upstream-unreachable''),
         (''error'', JStr err)] s1)
   | (Inr conn, s1) \<Rightarrow> (Inr conn, record_sent [] s1))"

definition send :: "string \<Rightarrow> 'r gate_state \<Rightarrow> 'r gate_state" where
  "send bytes s = s\<lparr>g_sent := butlast (g_sent s) @ [last (g_sent s) @ bytes]\<rparr>"

text \<open>Both directions of an upgraded connection, to their ends.\<close>

definition splice :: "reader \<Rightarrow> 'r gate_state \<Rightarrow> 'r gate_state" where
  "splice upstream s =
     (let (r', up) = copyToEnd (g_reader s) new_sink; (_, client) = copyToEnd upstream (g_client s)
      in send (written up) s\<lparr>g_reader := r', g_client := client\<rparr>)"

record exchanged =
  ex_keepAlive :: bool
  ex_upgraded :: bool

text \<open>The request as it goes to the engine: the body kept for the policy, or the rest of the stream.\<close>

definition send_request :: "request_head \<Rightarrow> framing \<Rightarrow> buffered_body option \<Rightarrow> 'r gate_state \<Rightarrow> bool \<times> 'r gate_state" where
  "send_request head framing kept s = (case kept of
     Some b \<Rightarrow> (True, send (bb_raw b) (send (req_raw head) s))
   | None \<Rightarrow> (case relayRequestBody (g_reader s) framing of (bytes, complete, r') \<Rightarrow>
       (complete, send bytes (send (req_raw head) s)\<lparr>g_reader := r'\<rparr>)))"

text \<open>Once part of a response is written, an error page would corrupt it.\<close>

definition response_step :: "string \<Rightarrow> reader \<Rightarrow> ('r, response_outcome \<times> reader) gate" where
  "response_step method upstream s = (case relayResponse method upstream (g_client s) of
     (Inl e, client) \<Rightarrow>
       ((if written client \<noteq> written (g_client s)
         then Inl (Thrown ''Error'' (''response abandoned: '' @ err_message e)) else Inl (Http e)),
        s\<lparr>g_client := client\<rparr>)
   | (Inr x, client) \<Rightarrow> (Inr x, s\<lparr>g_client := client\<rparr>))"

text \<open>What follows the engine's answer.\<close>

definition settle ::
  "('key, 'r) gate_deps \<Rightarrow> request_head \<Rightarrow> judged \<Rightarrow> bool \<Rightarrow> response_outcome \<times> reader \<Rightarrow> ('r, exchanged) gate" where
  "settle deps head j sent answer = (case answer of (response, upstream) \<Rightarrow>
     gbind (act (tally (stats_request (jd_route j) (req_method head) (ro_status response)))) (\<lambda>_.
     let complete = (if ro_keepAlive response \<or> ro_upgraded response then sent else False)
     in gbind (if ro_upgraded response \<and> complete \<and> \<not> deps_readOnly deps
          then act (\<lambda>s. splice upstream (tally (stats_upgrade (jd_route j)) s)) else ok ()) (\<lambda>_.
        ok \<lparr>ex_keepAlive = complete \<and> ro_keepAlive response
              \<and> \<not> wantsClose (req_headers head) (req_version head),
            ex_upgraded = ro_upgraded response\<rparr>)))"

definition exchange :: "('key, 'r) gate_deps \<Rightarrow> request_head \<Rightarrow> ('r, exchanged) gate" where
  "exchange deps head =
     gbind (if hasExpect (req_headers head)
       then throw (Http (HttpError 417 ''Expect is not supported by the gate'')) else ok ()) (\<lambda>_.
     gbind (if deps_readOnly deps then refuseOutsideReadOnly head else ok ()) (\<lambda>_.
     gbind (http (requestFraming head)) (\<lambda>framing.
     gbind (judge deps head framing) (\<lambda>j.
     gbind openUpstream (\<lambda>conn.
     gbind (pass (send_request head framing (jd_buffered j))) (\<lambda>sent.
     gbind (response_step (req_method head) (new_reader (answers conn))) (\<lambda>answer.
       settle deps head j sent answer)))))))"

section \<open>Connections\<close>

definition read_head_step :: "('r, string option) gate" where
  "read_head_step s = (case readHead (g_reader s) of
     Inl e \<Rightarrow> (Inl (Http e), s)
   | Inr (raw, r') \<Rightarrow> (Inr raw, s\<lparr>g_reader := r'\<rparr>))"

text \<open>One turn of the loop: whether another request may follow.\<close>

definition serve_one :: "('key, 'r) gate_deps \<Rightarrow> ('r, bool) gate" where
  "serve_one deps = gbind read_head_step (\<lambda>raw. (case raw of
     None \<Rightarrow> ok False
   | Some bytes \<Rightarrow> gbind (http (parseRequestHead bytes)) (\<lambda>head.
       gbind (exchange deps head) (\<lambda>outcome. ok (ex_keepAlive outcome)))))"

definition isPeerGone :: "string \<Rightarrow> bool" where
  "isPeerGone name \<longleftrightarrow> name \<in> {''BrokenPipe'', ''ConnectionReset'', ''ConnectionAborted''}"

definition answerFailure :: "gate_error \<Rightarrow> 'r gate_state \<Rightarrow> 'r gate_state" where
  "answerFailure err s = (case err of
     Http e \<Rightarrow>
       let s1 = emit [(''level'', JStr ''warn''), (''event'', JStr ''docker-gate.bad-request''),
             (''status'', JNum (int (err_status e)) 0), (''reason'', JStr (err_message e))]
           (tally (stats_refusal (err_status e)) s)
       in s1\<lparr>g_client := writeAll (g_client s1) (errorResponse (err_status e) (err_message e))\<rparr>
   | Thrown name message \<Rightarrow>
       emit [(''level'', JStr (if isPeerGone name then ''info'' else ''error'')),
         (''event'', JStr (if isPeerGone name then ''docker-gate.peer-closed'' else ''docker-gate.connection-error'')),
         (''error'', JStr (name @ '': '' @ message))] s)"

text \<open>
  The connection's reader only moves forward, whatever happens; a turn that asks for another
  has read a head, which is what ends the loop.
\<close>

definition advances :: "'r gate_state \<Rightarrow> 'r gate_state \<Rightarrow> bool" where
  "advances s s' \<longleftrightarrow> (\<exists>out. rest (g_reader s) = out @ rest (g_reader s'))"

lemma advances_rules [frame]: "reflp advances" "transp advances"
  by (auto simp: advances_def intro!: reflpI transpI)

lemma advances_same: "g_reader s' = g_reader s \<Longrightarrow> advances s s'"
  by (simp add: advances_def)

lemma keeps_weaken: "keeps R m \<Longrightarrow> (\<And>s s'. R s s' \<Longrightarrow> Q s s') \<Longrightarrow> keeps Q m"
  by (auto simp: keeps_def)

lemma reader_quiet [simp]:
  "g_reader (emit l s) = g_reader s" "g_reader (tally f s) = g_reader s"
  "g_reader (record_sent m s) = g_reader s" "g_reader (send m s) = g_reader s"
  by (simp_all add: emit_def tally_def record_sent_def send_def)

lemma bufferBody_rest:
  assumes "bufferBody r f n = Inr (b, r')"
  shows "rest r = bb_raw b @ rest r'"
proof (cases f)
  case FChunked
  then obtain out c where "relayChunked r (Some new_sink) (Some (new_capture n)) = Inr (r', out, c)"
      and b: "bb_raw b = written out"
    using assms by (auto simp: bufferBody_def rbind_Inr_iff Let_def)
  then have "rbind (rbind (relayChunks r new_sink (Some (new_capture n))) (\<lambda>(r', s', _). Inr (r', s')))
      (\<lambda>(r1, s1). relayTrailers r1 s1) = Inr (r', out)"
    using relayChunked_as_pair [of r new_sink "Some (new_capture n)"] by (simp add: rbind_Inr_iff)
  then obtain xs where "rest r = xs @ rest r'" "written out = written new_sink @ xs"
    using chunked.in_sequence [of r new_sink "Some (new_capture n)" r' out] by auto
  then show ?thesis by (simp add: b new_sink_def)
qed (use assms readExact_spec in \<open>auto simp: bufferBody_def rbind_Inr_iff split: if_splits\<close>)

lemma relayRequestBody_rest:
  assumes "relayRequestBody r f = (bytes, complete, r')"
  shows "rest r = bytes @ rest r'"
  using assms body.relays [of r f new_sink]
  by (auto simp: relayRequestBody_def new_sink_def split: sum.splits)

lemma keeps_advances [frame]:
  "keeps advances (review deps facts r extra)"
  "keeps advances (raise x)"
  "keeps advances (refuse fs method r)"
  "keeps advances (refuseOutsideReadOnly head)"
  "keeps advances openUpstream"
  "keeps advances (response_step method upstream)"
  "keeps advances (buffer_step f n)"
  "keeps advances (pass (send_request head f kept))"
  "keeps advances (act (\<lambda>s. splice upstream (tally g s)))"
  "keeps advances (act (emit l))"
  "keeps advances (act (tally g))"
proof -
  show "keeps advances (review deps facts r extra)"
    by (rule keeps_weaken [OF keeps_review]) (simp add: looks_def advances_same)
  show "keeps advances (raise x)" by (auto simp: keeps_def raise_def advances_def)
  show "keeps advances (act (emit l))" "keeps advances (act (tally g))"
    by (auto intro!: keeps_act advances_same)
  then show "keeps advances (refuse fs method r)"
    by (auto simp: refuse_def Let_def intro!: frame advances_same)
  show "keeps advances (refuseOutsideReadOnly head)"
    unfolding refuseOutsideReadOnly_def
    by (auto intro!: frame advances_same split: option.splits)
  show "keeps advances openUpstream"
    by (auto simp: keeps_def openUpstream_def connectUpstream_def intro!: advances_same
        split: list.splits sum.splits prod.splits)
  show "keeps advances (response_step method upstream)"
    by (auto simp: keeps_def response_step_def intro!: advances_same split: prod.splits sum.splits)
  show "keeps advances (buffer_step f n)"
    by (auto simp: keeps_def buffer_step_def advances_def dest!: bufferBody_rest split: sum.splits)
  show "keeps advances (pass (send_request head f kept))"
    by (auto simp: keeps_def pass_def send_request_def advances_def dest!: relayRequestBody_rest
        split: option.splits prod.splits)
  show "keeps advances (act (\<lambda>s. splice upstream (tally g s)))"
    by (auto simp: keeps_def act_def splice_def advances_def Let_def dest!: copyToEnd_spec split: prod.splits)
qed

lemma keeps_judge [frame]: "keeps advances (judge deps head framing)"
  unfolding judge_def hold_body_def Let_def by (auto intro!: frame)

lemma keeps_settle [frame]: "keeps advances (settle deps head j sent answer)"
  unfolding settle_def Let_def by (auto intro!: frame split: prod.splits)

lemma keeps_exchange [frame]: "keeps advances (exchange deps head)"
  unfolding exchange_def by (auto intro!: frame)

lemma readHead_rest:
  assumes "readHead r = Inr (Some raw, r')"
  shows "rest r = raw @ rest r' \<and> raw \<noteq> []"
proof -
  have e: "readThrough_from CRLF_CRLF MAX_HEAD_BYTES ''message head too large'' 0 r = Inr (Some raw, r')"
    using assms by (simp add: readHead_def readThrough_def)
  have "CRLF_CRLF \<noteq> []" by (simp add: CRLF_CRLF_def crlf_def)
  then show ?thesis using readThrough_from_sound [OF e] by auto
qed

lemma serve_one_True:
  assumes "serve_one deps s = (Inr True, s')"
  shows "length (rest (g_reader s')) < length (rest (g_reader s))"
proof -
  obtain bytes r1 head outcome where h: "readHead (g_reader s) = Inr (Some bytes, r1)"
      and x: "exchange deps head (s\<lparr>g_reader := r1\<rparr>) = (Inr outcome, s')"
    using assms
    by (auto simp: serve_one_def gbind_Inr read_head_step_def gate_Inr split: sum.splits option.splits)
  have "rest (g_reader s) = bytes @ rest r1" "bytes \<noteq> []" using readHead_rest [OF h] by auto
  moreover have "advances (s\<lparr>g_reader := r1\<rparr>) s'" using keepsD [OF keeps_exchange x] .
  ultimately show ?thesis by (auto simp: advances_def)
qed

function connection_loop :: "('key, 'r) gate_deps \<Rightarrow> ('r, unit) gate" where
  "connection_loop deps s = (case serve_one deps s of
     (Inl e, s') \<Rightarrow> (Inl e, s')
   | (Inr again, s') \<Rightarrow> if again then connection_loop deps s' else (Inr (), s'))"
  by pat_completeness auto
termination
  by (relation "measure (\<lambda>(_, s). length (rest (g_reader s)))") (auto dest!: serve_one_True [OF sym])

declare connection_loop.simps [simp del]

definition handleConnection :: "('key, 'r) gate_deps \<Rightarrow> 'r gate_state \<Rightarrow> 'r gate_state" where
  "handleConnection deps s = (case connection_loop deps s of
     (Inl e, s') \<Rightarrow> answerFailure e s'
   | (Inr _, s') \<Rightarrow> s')"

end
