(* ===== verification/Gate_Proxy_Laws.thy ===== *)
theory Gate_Proxy_Laws
  imports Gate_Proxy Gate_Body_Laws Gate_Policy_Laws Gate_Http_Laws
begin

text \<open>
  What reaches the engine through the gate. The laws follow a connection from its first byte:
  everything written to the engine is either one of the gate's own lookups or a request that
  was parsed, framed, judged and, in enforce mode, found clean.
\<close>

section \<open>A request that passes\<close>

text \<open>The body held for the policy, for the routes that need one.\<close>

definition body_held ::
  "('key, 'r) gate_deps \<Rightarrow> request_head \<Rightarrow> string \<times> query \<Rightarrow> framing \<Rightarrow> (buffered_body \<times> json option) option \<Rightarrow> bool" where
  "body_held deps head target framing kept \<longleftrightarrow>
     (needsBody (classifyRoute (req_method head) (fst target)) \<longleftrightarrow> kept \<noteq> None)
     \<and> (case kept of None \<Rightarrow> True | Some (b, v) \<Rightarrow> plainJson b = Inr v
          \<and> (\<exists>r r'. bufferBody r framing (deps_maxBodyBytes deps) = Inr (b, r')))"

text \<open>What the gate's rules leave nothing to say about.\<close>

definition permitted :: "('key, 'r) gate_deps \<Rightarrow> request_facts \<Rightarrow> bool" where
  "permitted deps facts \<longleftrightarrow>
     (let r = route (classifyRoute (facts_method facts) (facts_path facts)) in
     (\<exists>det. evaluateDetailed facts (deps_policy deps) (deps_resolvePath deps) = Inr det
        \<and> (violations det = [] \<or> r = ''containers.create'' \<and> (\<exists>p. approved_by deps facts p (violations det))))
     \<and> (r = ''containers.create'' \<longrightarrow> ownerOf (create_labels facts) \<noteq> Unlabeled)
     \<and> (r \<in> set BUILD_SESSION_ROUTES \<longrightarrow> deps_buildSocket deps)
     \<and> (\<exists>s s'. unownedFinding deps facts (s :: 'r gate_state) = (Inr [], s')))"

lemma facts_of_simps [simp]:
  "facts_method (facts_of head target framing kept) = req_method head"
  "facts_path (facts_of head target framing kept) = fst target"
  "facts_query (facts_of head target framing kept) = snd target"
  by (simp_all add: facts_of_def)

lemma review_permits:
  assumes "review deps facts (route (classifyRoute (facts_method facts) (facts_path facts)))
      (buildSessionFindings (route (classifyRoute (facts_method facts) (facts_path facts))) (deps_buildSocket deps))
      s = (Inr [], s')"
  shows "permitted deps facts"
  using review_clean [OF assms]
  unfolding permitted_def Let_def buildSessionFindings_def by (metis list.discI)

lemma judge_Inr:
  assumes "judge deps head framing s = (Inr j, s')"
  obtains target kept where "parseTarget (req_target head) = Inr target"
    "body_held deps head target framing kept" "jd_buffered j = map_option fst kept"
    "jd_route j = route (classifyRoute (req_method head) (fst target))"
    "deps_mode deps = Enforce \<Longrightarrow> permitted deps (facts_of head target framing kept)"
proof -
  obtain target where t: "parseTarget (req_target head) = Inr target"
    using assms by (auto simp: judge_def gbind_Inr gate_Inr)
  let ?info = "classifyRoute (req_method head) (fst target)"
  obtain kept s1 fs s2 where k: "hold_body deps framing (needsBody ?info) s = (Inr kept, s1)"
      and r: "review deps (facts_of head target framing kept) (route ?info)
            (buildSessionFindings (route ?info) (deps_buildSocket deps)) s1 = (Inr fs, s2)"
      and f: "\<not> (deps_mode deps = Enforce \<and> fs \<noteq> [])"
      and j: "j = \<lparr>jd_route = route ?info, jd_buffered = map_option fst kept\<rparr>"
    using assms t
    by (auto simp: judge_def gbind_Inr gate_Inr Let_def refuse_def split: if_splits)
  have "body_held deps head target framing kept"
    using k unfolding body_held_def
    by (fastforce simp: hold_body_def gbind_Inr gate_Inr raise_def buffer_step_def split: if_splits sum.splits)
  moreover have "permitted deps (facts_of head target framing kept)" if "deps_mode deps = Enforce"
    using r f that review_permits [of deps "facts_of head target framing kept" s1 s2] by simp
  ultimately show ?thesis using that t j by simp
qed

section \<open>What an exchange sends\<close>

definition raw_of :: "buffered_body option \<Rightarrow> string" where
  "raw_of kept = (case kept of None \<Rightarrow> [] | Some b \<Rightarrow> bb_raw b)"

text \<open>A head ends at its first blank line, so it is the same for whoever reads it from a stream.\<close>

definition whole_head :: "string \<Rightarrow> bool" where
  "whole_head raw \<longleftrightarrow> indexOfSequence raw CRLF_CRLF 0 = Some (length raw - 4) \<and> 4 \<le> length raw"

lemma readHead_whole:
  assumes "readHead r = Inr (Some raw, r')"
  shows "whole_head raw"
proof -
  have e: "readThrough_from CRLF_CRLF MAX_HEAD_BYTES ''message head too large'' 0 r = Inr (Some raw, r')"
    using assms by (simp add: readHead_def readThrough_def)
  have four: "length CRLF_CRLF = 4" by (simp add: CRLF_CRLF_def crlf_def)
  have s: "rest r = raw @ rest r'" "4 \<le> length raw" "indexOfSequence (rest r) CRLF_CRLF 0 = Some (length raw - 4)"
    using readThrough_from_sound [OF e] four by auto
  then show ?thesis
    using occurs_at_appendD [of raw "rest r'" CRLF_CRLF] occurs_at_append [of raw CRLF_CRLF _ "rest r'"] four
    by (auto simp: whole_head_def indexOfSequence_Some)
qed

text \<open>The request at the head of what one engine connection received.\<close>

definition forwarded :: "('key, 'r) gate_deps \<Rightarrow> string \<Rightarrow> bool" where
  "forwarded deps m \<longleftrightarrow> (\<exists>head target framing kept tail.
     m = req_raw head @ raw_of (map_option fst kept) @ tail
     \<and> whole_head (req_raw head) \<and> parseRequestHead (req_raw head) = Inr head
     \<and> requestFraming head = Inr framing \<and> parseTarget (req_target head) = Inr target
     \<and> body_held deps head target framing kept
     \<and> (deps_mode deps = Enforce \<longrightarrow> permitted deps (facts_of head target framing kept))
     \<and> (deps_readOnly deps \<longrightarrow> readable head \<and> m = req_raw head))"

definition sends :: "('key, 'r) gate_deps \<Rightarrow> 'r gate_state \<Rightarrow> 'r gate_state \<Rightarrow> bool" where
  "sends deps s s' \<longleftrightarrow> (\<exists>ms. g_sent s' = g_sent s @ ms \<and> list_all (\<lambda>m. is_inspect m \<or> forwarded deps m) ms)"

lemma sends_rules [frame]: "reflp (sends deps)" "transp (sends deps)"
  by (fastforce simp: sends_def intro!: reflpI transpI)+

lemma sends_same: "g_sent s' = g_sent s \<Longrightarrow> sends deps s s'"
  by (simp add: sends_def)

text \<open>Only the last connection grows, and on the read-only listener not even that.\<close>

definition grows :: "bool \<Rightarrow> 'r gate_state \<Rightarrow> 'r gate_state \<Rightarrow> bool" where
  "grows ro s s' \<longleftrightarrow> (g_sent s \<noteq> [] \<longrightarrow> (\<exists>x. g_sent s' = butlast (g_sent s) @ [last (g_sent s) @ x] \<and> (ro \<longrightarrow> x = [])))"

lemma grows_same: "g_sent s' = g_sent s \<Longrightarrow> grows ro s s'"
  unfolding grows_def by (intro impI exI [of _ "[]"]) simp

lemma reflp_grows [frame]: "reflp (grows ro)"
  by (auto intro!: reflpI grows_same)

lemma transp_grows [frame]: "transp (grows ro)"
proof (rule transpI)
  fix s s1 s2 assume a: "grows ro s s1" "grows ro s1 s2"
  show "grows ro s s2"
    unfolding grows_def
  proof
    assume "g_sent s \<noteq> []"
    then obtain x where x: "g_sent s1 = butlast (g_sent s) @ [last (g_sent s) @ x]" "ro \<longrightarrow> x = []"
      using a(1) by (auto simp: grows_def)
    then obtain y where y: "g_sent s2 = butlast (g_sent s1) @ [last (g_sent s1) @ y]" "ro \<longrightarrow> y = []"
      using a(2) by (auto simp: grows_def)
    show "\<exists>x. g_sent s2 = butlast (g_sent s) @ [last (g_sent s) @ x] \<and> (ro \<longrightarrow> x = [])"
      using x y by (intro exI [of _ "x @ y"]) simp
  qed
qed

lemma sent_quiet [simp]:
  "g_sent (emit l s) = g_sent s" "g_sent (tally f s) = g_sent s"
  by (simp_all add: emit_def tally_def)

lemma keeps_response_grows [frame]: "keeps (grows ro) (response_step method upstream)"
  by (auto simp: keeps_def response_step_def intro!: grows_same split: prod.splits sum.splits)

lemma grows_splice: "\<not> ro \<Longrightarrow> grows ro s (splice upstream (tally f s))"
  by (auto simp: splice_def send_def grows_def Let_def split: prod.splits)

lemma keeps_settle_grows [frame]: "keeps (grows (deps_readOnly deps)) (settle deps head j sent answer)"
  unfolding settle_def Let_def
  by (auto intro!: frame grows_same [OF sent_quiet(2)] grows_splice split: prod.splits)

lemma openUpstream_Inr:
  "openUpstream s = (Inr conn, s') \<Longrightarrow> g_sent s' = g_sent s @ [[]] \<and> g_reader s' = g_reader s"
  by (auto simp: openUpstream_def connectUpstream_def record_sent_def split: list.splits sum.splits prod.splits)

lemma openUpstream_Inl: "openUpstream s = (Inl e, s') \<Longrightarrow> g_sent s' = g_sent s"
  by (auto simp: openUpstream_def connectUpstream_def emit_def split: list.splits sum.splits prod.splits)

lemma readable_no_body:
  assumes "readable head" "requestFraming head = Inr framing"
  shows "fst (relayRequestBody r framing) = []"
    and "bufferBody r1 framing n = Inr (b, r') \<Longrightarrow> bb_raw b = []"
proof -
  have f: "framing = FNone \<or> framing = FLength 0" using assms by (auto simp: readable_def)
  then show "fst (relayRequestBody r framing) = []"
    by (auto simp: relayRequestBody_def relayBody_def new_sink_def copyExact.simps [of 0])
  show "bb_raw b = []" if "bufferBody r1 framing n = Inr (b, r')"
    using that f by (auto simp: bufferBody_def rbind_Inr_iff dest!: readExact_spec)
qed

text \<open>The request goes out whole: its head, then the body held or the rest of the upload.\<close>

lemma send_request_sent:
  assumes "send_request head framing kept s = (complete, s')" "g_sent s = ms @ [[]]"
  obtains body where "g_sent s' = ms @ [req_raw head @ raw_of kept @ body]"
    "readable head \<Longrightarrow> requestFraming head = Inr framing \<Longrightarrow> body = []"
proof (cases kept)
  case None
  obtain bytes c r' where b: "relayRequestBody (g_reader s) framing = (bytes, c, r')" by (metis prod_cases3)
  then have "g_sent s' = ms @ [req_raw head @ raw_of kept @ bytes]"
    using assms None by (auto simp: send_request_def send_def raw_of_def)
  then show ?thesis using that readable_no_body(1) b by (metis fst_conv)
next
  case (Some b)
  then have "g_sent s' = ms @ [req_raw head @ raw_of kept @ []]"
    using assms by (auto simp: send_request_def send_def raw_of_def)
  then show ?thesis using that by blast
qed

lemma gbind_gate_Inl:
  "gbind m f s = (Inl e, s') \<longleftrightarrow> m s = (Inl e, s') \<or> (\<exists>x s1. m s = (Inr x, s1) \<and> f x s1 = (Inl e, s'))"
  by (auto simp: gbind_def split: prod.splits sum.splits)

definition guards :: "('key, 'r) gate_deps \<Rightarrow> request_head \<Rightarrow> ('r, framing \<times> judged) gate" where
  "guards deps head =
     gbind (if hasExpect (req_headers head)
       then throw (Http (HttpError 417 ''Expect is not supported by the gate'')) else ok ()) (\<lambda>_.
     gbind (if deps_readOnly deps then refuseOutsideReadOnly head else ok ()) (\<lambda>_.
     gbind (http (requestFraming head)) (\<lambda>framing.
     gbind (judge deps head framing) (\<lambda>j. ok (framing, j)))))"

definition dispatch :: "('key, 'r) gate_deps \<Rightarrow> request_head \<Rightarrow> framing \<times> judged \<Rightarrow> ('r, exchanged) gate" where
  "dispatch deps head fj =
     gbind openUpstream (\<lambda>conn.
     gbind (pass (send_request head (fst fj) (jd_buffered (snd fj)))) (\<lambda>sent.
     gbind (response_step (req_method head) (new_reader (answers conn))) (\<lambda>answer.
       settle deps head (snd fj) sent answer)))"

lemma gbind_assoc: "gbind (gbind m f) g = gbind m (\<lambda>x. gbind (f x) g)"
  by (auto simp: gbind_def split: prod.splits sum.splits)

lemma gbind_ok: "gbind (ok x) f = f x"
  by (auto simp: gbind_def ok_def)

lemma exchange_phases: "exchange deps head = gbind (guards deps head) (dispatch deps head)"
  by (simp add: exchange_def guards_def dispatch_def gbind_assoc gbind_ok)

text \<open>Before the verdict nothing reaches the engine but lookups.\<close>

lemma looks_same: "g_reader s' = g_reader s \<Longrightarrow> g_client s' = g_client s \<Longrightarrow> g_sent s' = g_sent s \<Longrightarrow> looks s s'"
  by (simp add: looks_def)

definition probes :: "'r gate_state \<Rightarrow> 'r gate_state \<Rightarrow> bool" where
  "probes s s' \<longleftrightarrow> g_client s' = g_client s \<and> (\<exists>ms. g_sent s' = g_sent s @ ms \<and> list_all is_inspect ms)"

lemma reflp_probes [frame]: "reflp probes"
  by (auto simp: probes_def intro!: reflpI)

lemma transp_probes [frame]: "transp probes"
  by (auto simp: probes_def intro!: transpI)

lemma probes_quiet [simp]: "probes s (emit l s)" "probes s (s\<lparr>g_reader := r\<rparr>)"
  by (simp_all add: probes_def emit_def)

lemma keeps_probes_steps [frame]:
  "keeps probes (review deps facts r extra)" "keeps probes (raise x)" "keeps probes (buffer_step f n)"
  by (rule keeps_weaken [OF keeps_review]) (auto simp: looks_def probes_def keeps_def raise_def buffer_step_def
      split: sum.splits)

lemma keeps_probes_guards: "keeps probes (guards deps head)"
  unfolding guards_def judge_def hold_body_def refuse_def refuseOutsideReadOnly_def Let_def
  by (auto intro!: frame split: option.splits)

lemma guards_Inr:
  assumes "guards deps head s = (Inr (framing, j), s')"
  obtains target kept where "requestFraming head = Inr framing" "parseTarget (req_target head) = Inr target"
    "body_held deps head target framing kept" "jd_buffered j = map_option fst kept"
    "deps_mode deps = Enforce \<Longrightarrow> permitted deps (facts_of head target framing kept)"
    "deps_readOnly deps \<Longrightarrow> readable head"
proof -
  obtain s1 where f: "requestFraming head = Inr framing" and j: "judge deps head framing s1 = (Inr j, s')"
      and ro: "deps_readOnly deps \<Longrightarrow> readOnlyRefusal head = Inr None"
    using assms
    by (auto simp: guards_def gbind_Inr gate_Inr refuseOutsideReadOnly_def split: if_splits option.splits)
  from j show ?thesis
    by (rule judge_Inr) (use that f ro readOnlyRefusal_None in blast)
qed

lemma dispatch_sends:
  assumes "dispatch deps head (framing, j) s = (res, s')"
  shows "g_sent s' = g_sent s \<or> (\<exists>tail. g_sent s' = g_sent s @ [req_raw head @ raw_of (jd_buffered j) @ tail]
    \<and> (deps_readOnly deps \<and> readable head \<and> requestFraming head = Inr framing \<longrightarrow> tail = []))"
  using assms unfolding dispatch_def
proof (cases rule: gbind_cases)
  case (thrown e)
  then show ?thesis using openUpstream_Inl by blast
next
  case (next_step conn s1)
  obtain sent s2 where sr: "send_request head framing (jd_buffered j) s1 = (sent, s2)" by fastforce
  have tail: "gbind (response_step (req_method head) (new_reader (answers conn)))
      (settle deps head j sent) s2 = (res, s')"
    using next_step(2) sr by (simp add: gbind_def pass_def)
  obtain body where b: "g_sent s2 = g_sent s @ [req_raw head @ raw_of (jd_buffered j) @ body]"
      "readable head \<Longrightarrow> requestFraming head = Inr framing \<Longrightarrow> body = []"
    using send_request_sent [OF sr] openUpstream_Inr [OF next_step(1)] by metis
  have k: "keeps (grows (deps_readOnly deps)) (gbind (response_step (req_method head) (new_reader (answers conn)))
      (settle deps head j sent))"
    by (auto intro!: frame)
  from keepsD [OF k tail] obtain x where "g_sent s' = g_sent s @ [req_raw head @ raw_of (jd_buffered j) @ body @ x]"
      "deps_readOnly deps \<longrightarrow> x = []"
    using b(1) by (auto simp: grows_def)
  then show ?thesis using b(2) by blast
qed

lemma forwardedI:
  assumes "guards deps head s = (Inr (framing, j), s1)"
      "whole_head (req_raw head) \<and> parseRequestHead (req_raw head) = Inr head"
    and "m = req_raw head @ raw_of (jd_buffered j) @ tail"
    and "deps_readOnly deps \<and> readable head \<and> requestFraming head = Inr framing \<longrightarrow> tail = []"
  shows "forwarded deps m"
  using assms(1)
proof (rule guards_Inr)
  fix target kept
  assume g: "requestFraming head = Inr framing" "parseTarget (req_target head) = Inr target"
    "body_held deps head target framing kept" "jd_buffered j = map_option fst kept"
    "deps_mode deps = Enforce \<Longrightarrow> permitted deps (facts_of head target framing kept)"
    "deps_readOnly deps \<Longrightarrow> readable head"
  have "raw_of (map_option fst kept) = []" if "readable head"
    using g(3) readable_no_body(2) [OF that g(1)]
    by (cases kept) (auto simp: raw_of_def body_held_def)
  then show "forwarded deps m"
    unfolding forwarded_def using assms(2-4) g
    by (intro exI [of _ head] exI [of _ target] exI [of _ framing] exI [of _ kept] exI [of _ tail]) auto
qed

lemma exchange_sends:
  assumes "exchange deps head s = (res, s')"
    "whole_head (req_raw head) \<and> parseRequestHead (req_raw head) = Inr head"
  shows "sends deps s s'"
  using assms(1) unfolding exchange_phases
proof (cases rule: gbind_cases)
  case (thrown e)
  from keepsD [OF keeps_probes_guards thrown(1)] show ?thesis
    by (auto simp: probes_def sends_def elim: list.pred_mono_strong)
next
  case (next_step fj s1)
  obtain framing j where fj: "fj = (framing, j)" by fastforce
  have "sends deps s s1"
    using keepsD [OF keeps_probes_guards next_step(1)]
    by (auto simp: probes_def sends_def elim: list.pred_mono_strong)
  moreover have "sends deps s1 s'"
    using dispatch_sends [OF next_step(2) [unfolded fj]]
  proof
    assume "\<exists>tail. g_sent s' = g_sent s1 @ [req_raw head @ raw_of (jd_buffered j) @ tail]
      \<and> (deps_readOnly deps \<and> readable head \<and> requestFraming head = Inr framing \<longrightarrow> tail = [])"
    then obtain tail where t: "g_sent s' = g_sent s1 @ [req_raw head @ raw_of (jd_buffered j) @ tail]"
      "deps_readOnly deps \<and> readable head \<and> requestFraming head = Inr framing \<longrightarrow> tail = []"
      by blast
    from forwardedI [OF next_step(1) [unfolded fj] assms(2) refl t(2)] t(1) show ?thesis
      by (simp add: sends_def)
  qed (rule sends_same)
  ultimately show ?thesis by (rule transpD [OF sends_rules(2)])
qed

lemma keeps_serve_one: "keeps (sends deps) (serve_one deps)"
  unfolding keeps_def
proof (intro allI impI)
  fix s r s' assume "serve_one deps s = (r, s')"
  then show "sends deps s s'"
    unfolding serve_one_def
  proof (cases rule: gbind_cases)
    case (thrown e)
    then show ?thesis by (auto simp: read_head_step_def sends_same split: sum.splits)
  next
    case (next_step raw s1)
    then have s1: "sends deps s s1" by (auto simp: read_head_step_def sends_same split: sum.splits)
    show ?thesis
    proof (cases "\<exists>bytes head. raw = Some bytes \<and> parseRequestHead bytes = Inr head")
      case True
      then obtain bytes head where h: "raw = Some bytes" "parseRequestHead bytes = Inr head" by auto
      then obtain res where "exchange deps head s1 = (res, s')"
        using next_step(2) by (auto simp: gbind_def gate_steps split: prod.splits sum.splits)
      moreover have "whole_head bytes"
        using next_step(1) h(1) readHead_whole by (auto simp: read_head_step_def split: sum.splits)
      ultimately have "sends deps s1 s'" using h(2) parseRequestHead_raw by (intro exchange_sends) auto
      with s1 show ?thesis by (rule transpD [OF sends_rules(2)])
    next
      case False
      then show ?thesis using s1 next_step(2)
        by (cases raw) (auto simp: gbind_def gate_steps split: sum.splits)
    qed
  qed
qed

lemma connection_loop_sends: "connection_loop deps s = (r, s') \<Longrightarrow> sends deps s s'"
proof (induction deps s arbitrary: r s' rule: connection_loop.induct)
  case (1 deps s)
  obtain res s1 where o: "serve_one deps s = (res, s1)" by fastforce
  then have s1: "sends deps s s1" by (rule keepsD [OF keeps_serve_one])
  show ?case
  proof (cases res)
    case (Inr again)
    with "1.prems" o have "again \<Longrightarrow> connection_loop deps s1 = (r, s')" "\<not> again \<Longrightarrow> s' = s1"
      by (auto simp: connection_loop.simps [of deps s])
    then show ?thesis using "1.IH" [OF o [symmetric] Inr] s1 transpD [OF sends_rules(2)]
      by (cases again) blast+
  qed (use "1.prems" o s1 in \<open>simp add: connection_loop.simps [of deps s]\<close>)
qed

lemma handleConnection_sends: "sends deps s (handleConnection deps s)"
proof -
  obtain r s' where c: "connection_loop deps s = (r, s')" by fastforce
  have "g_sent (answerFailure e s') = g_sent s'" for e
    by (auto simp: answerFailure_def Let_def split: gate_error.splits)
  then show ?thesis
    using connection_loop_sends [OF c] c by (auto simp: handleConnection_def sends_def split: sum.splits)
qed

lemma handleConnection_message:
  assumes "g_sent s = []" "m \<in> set (g_sent (handleConnection deps s))"
  shows "is_inspect m \<or> forwarded deps m"
  using handleConnection_sends [of deps s] assms by (auto simp: sends_def list_all_iff)

section \<open>The gate's promise\<close>

definition ping_request :: string where
  "ping_request = ''GET /_ping HTTP/1.1'' @ crlf @ ''Host: docker'' @ crlf @ crlf"

definition create_request :: string where
  \<open>create_request = ''POST /v1.44/containers/create?name=web HTTP/1.1'' @ crlf @ ''Content-Length: 64'' @ crlf @ crlf
     @ ''{"Image":"nginx","labels":{"com.docker.compose.project":"shop"}}''\<close>


lemma ping_served:
  "g_sent (handleConnection (plain_deps Enforce) (fresh_state [ping_request] [[ok_answer ''OK'']])) = [ping_request]
   \<and> written (g_client (handleConnection (plain_deps Enforce) (fresh_state [ping_request] [[ok_answer ''OK'']])))
     = ok_answer ''OK''"
  by code_simp


lemma bufferBody_parsed: "bufferBody r f n = Inr (b, r') \<Longrightarrow> bb_parsed b = parseRequestBody (bb_payload b)"
  by (cases f) (auto simp: bufferBody_def rbind_Inr_iff Let_def split: if_splits)

lemma facts_body_held:
  assumes "body_held deps head target framing kept"
    and "facts_body (facts_of head target framing kept) = Some v"
  obtains b w where "kept = Some (b, w)" "parseRequestBody (bb_payload b) = Inr v"
  using assms
  by (auto simp: body_held_def facts_of_def dest!: bufferBody_parsed split: option.splits prod.splits sum.splits)

lemma not_approved_without_keys: "deps_approvalKeys deps = [] \<Longrightarrow> \<not> approved_by deps facts p vs"
  by (auto simp: approved_by_def verifyApproval_def)

lemma permitted_create_profile:
  assumes "permitted deps (facts_of head target framing kept)" "deps_approvalKeys deps = []"
    and "body_held deps head target framing kept"
    and r: "route (classifyRoute (req_method head) (fst target)) = ''containers.create''"
  obtains b w body where "kept = Some (b, w)" "parseRequestBody (bb_payload b) = Inr (JObj body)"
    "strict_profile (deps_policy deps) (deps_resolvePath deps) body"
    "ownerOf (labelsOf (obj_get body ''Labels'')) \<noteq> Unlabeled"
proof -
  let ?f = "facts_of head target framing kept"
  obtain det where d: "evaluateDetailed ?f (deps_policy deps) (deps_resolvePath deps) = Inr det" "violations det = []"
      and o: "ownerOf (create_labels ?f) \<noteq> Unlabeled"
    using assms(1) r not_approved_without_keys [OF assms(2)] by (auto simp: permitted_def Let_def)
  then obtain v where v: "evaluateContainerCreate (facts_body ?f) (deps_policy deps) (deps_resolvePath deps) = Inr v"
      "violations v = []"
    using r by (auto simp: evaluateDetailed_def evaluateByRoute_def rbind_Inr_iff split: option.splits)
  then have "isRecord (facts_body ?f)"
    by (auto simp: evaluateContainerCreate_def plain_def split: if_splits)
  then obtain body where body: "facts_body ?f = Some (JObj body)"
    by (cases "facts_body ?f" rule: isRecord.cases) auto
  obtain b w where b: "kept = Some (b, w)" "parseRequestBody (bb_payload b) = Inr (JObj body)"
    using facts_body_held [OF assms(3) body] by blast
  have "strict_profile (deps_policy deps) (deps_resolvePath deps) body"
    using v create_clean_profile unfolding body by blast
  with b o body show ?thesis using that by (simp add: create_labels_def)
qed


lemma create_served:
  "g_sent (handleConnection (plain_deps Enforce) (fresh_state [create_request] [[ok_answer ''{}'']])) = [create_request]"
  by code_simp

lemma create_is_no_inspect: "\<not> is_inspect create_request"
proof
  assume "is_inspect create_request"
  then obtain kind target where "create_request = inspect_request kind target" by (auto simp: is_inspect_def)
  then have "hd create_request = hd (inspect_request kind target)" by simp
  then show False by (simp add: create_request_def inspect_request_def)
qed


text \<open>C13: The read-only socket forwards nothing but its list: whatever a client sends on it, in
  either mode, the engine receives only the gate's own lookups and bare request heads, with
  no byte after them, each a GET or HEAD of a listed path that asks for no upgrade and
  carries no body.
\<close>

theorem read_only_forwards_only_its_list:
  assumes "deps_readOnly deps" "g_sent s = []" "m \<in> set (g_sent (handleConnection deps s))"
  shows "is_inspect m \<or> (\<exists>head. parseRequestHead m = Inr head \<and> readable head)"
  using handleConnection_message [OF assms(2,3)] assms(1) unfolding forwarded_def by metis

lemma ping_served_read_only:
  "g_sent (handleConnection ((plain_deps Observe)\<lparr>deps_readOnly := True\<rparr>)
     (fresh_state [ping_request] [[ok_answer ''OK'']])) = [ping_request]"
  by code_simp

theorem read_only_forwards_only_its_list_witness:
  "is_inspect ping_request \<or> (\<exists>head. parseRequestHead ping_request = Inr head \<and> readable head)"
proof (rule read_only_forwards_only_its_list)
  show "deps_readOnly ((plain_deps Observe)\<lparr>deps_readOnly := True\<rparr>)" by simp
  show "g_sent (fresh_state [ping_request] [[ok_answer ''OK'']]) = []" by (simp add: fresh_state_def)
  show "ping_request \<in> set (g_sent (handleConnection ((plain_deps Observe)\<lparr>deps_readOnly := True\<rparr>)
      (fresh_state [ping_request] [[ok_answer ''OK'']])))"
    using ping_served_read_only by simp
qed

end
