(* ===== verification/Gate_Relay_Laws.thy ===== *)
theory Gate_Relay_Laws
  imports Gate_Proxy_Laws
begin

text \<open>
  What a client sees of the gate: its requests and the engine's responses pass byte for byte,
  a refused request is answered once and never reaches the engine, and in observe mode
  findings hold nothing back.
\<close>

section \<open>Bytes pass unchanged\<close>

lemma relayResponse_relays:
  "relayResponse mth r c = (Inr (out, r'), c') \<Longrightarrow>
     \<exists>bytes. rest r = bytes @ rest r' \<and> written c' = written c @ bytes"
proof (induction mth r c rule: relayResponse.induct)
  case (1 mth r c)
  obtain raw r1 head where h: "readHead r = Inr (Some raw, r1)" "parseResponseHead raw = Inr head"
    using "1.prems"
    by (auto simp: relayResponse.simps [of mth r c] split: sum.splits option.splits)
  have r1: "rest r = raw @ rest r1" using readHead_rest [OF h(1)] by simp
  consider "resp_status head = 101" | "resp_status head \<noteq> 101" "resp_status head < 200"
    | "\<not> resp_status head < 200" by fastforce
  then show ?case
  proof cases
    case 2
    with "1.prems" h have "relayResponse mth r1 (writeAll c raw) = (Inr (out, r'), c')"
      by (simp add: relayResponse.simps [of mth r c])
    from "1.IH" [OF h(1) refl refl h(2) 2(1) 2(2) this] r1 show ?thesis by auto
  next
    case 3
    then obtain f where "relayBody r1 f (writeAll c raw) = Inr (r', c')"
      using "1.prems" h
      by (auto simp: relayResponse.simps [of mth r c] split: sum.splits prod.splits)
    from body.relays [OF this] r1 show ?thesis by auto
  qed (use "1.prems" h r1 in \<open>auto simp: relayResponse.simps [of mth r c]\<close>)
qed

text \<open>A response is relayed unchanged: when the relay of a response (with any interim
  responses before it) ends normally, the bytes written to the client are exactly the bytes
  taken from the engine, in order.
\<close>

lemma relayResponse_transparent:
  assumes "relayResponse method r c = (Inr (out, r'), c')"
  shows "\<exists>bytes. rest r = bytes @ rest r' \<and> written c' = written c @ bytes"
  using assms by (rule relayResponse_relays)

definition interim_answer :: string where
  "interim_answer = ''HTTP/1.1 102 Processing'' @ crlf @ crlf @ ok_answer ''OK''"

lemma hold_body_rest:
  assumes "hold_body deps framing needed s = (Inr kept, s')"
  shows "rest (g_reader s) = raw_of (map_option fst kept) @ rest (g_reader s')"
  using assms
  by (auto simp: hold_body_def gbind_Inr gate_Inr raise_def buffer_step_def raw_of_def
      dest!: bufferBody_rest split: if_splits sum.splits)

lemma guards_steps:
  assumes "guards deps head s = (Inr (framing, j), s')"
  obtains target kept s1 fs where "requestFraming head = Inr framing"
    "parseTarget (req_target head) = Inr target"
    "hold_body deps framing (needsBody (classifyRoute (req_method head) (fst target))) s = (Inr kept, s1)"
    "review deps (facts_of head target framing kept) (route (classifyRoute (req_method head) (fst target)))
      (buildSessionFindings (route (classifyRoute (req_method head) (fst target))) (deps_buildSocket deps)) s1
      = (Inr fs, s')"
    "jd_buffered j = map_option fst kept"
proof -
  obtain f: "requestFraming head = Inr framing" and j: "judge deps head framing s = (Inr j, s')"
    using assms
    by (auto simp: guards_def gbind_Inr gate_Inr refuseOutsideReadOnly_def split: if_splits option.splits)
  then show ?thesis
    using that [OF f] by (auto simp: judge_def gbind_Inr gate_Inr Let_def refuse_def split: if_splits)
qed

lemma guards_rest:
  assumes "guards deps head s = (Inr (framing, j), s')"
  shows "rest (g_reader s) = raw_of (jd_buffered j) @ rest (g_reader s')"
  using assms
proof (rule guards_steps)
  fix target kept s1 fs
  assume h: "hold_body deps framing (needsBody (classifyRoute (req_method head) (fst target))) s = (Inr kept, s1)"
    and r: "review deps (facts_of head target framing kept) (route (classifyRoute (req_method head) (fst target)))
      (buildSessionFindings (route (classifyRoute (req_method head) (fst target))) (deps_buildSocket deps)) s1
      = (Inr fs, s')"
    and j: "jd_buffered j = map_option fst kept"
  have "g_reader s' = g_reader s1" using keepsD [OF keeps_review r] by (simp add: looks_def)
  with hold_body_rest [OF h] j show ?thesis by simp
qed

lemma relayResponse_keepAlive:
  "relayResponse mth r c = (Inr (out, r'), c') \<Longrightarrow> ro_keepAlive out \<Longrightarrow> \<not> ro_upgraded out"
proof (induction mth r c rule: relayResponse.induct)
  case (1 mth r c)
  then show ?case
    by (auto simp: relayResponse.simps [of mth r c]
        split: sum.splits option.splits if_splits prod.splits)
qed

text \<open>A turn after which the connection is kept sent one request, whole.\<close>

lemma dispatch_keepAlive:
  assumes "dispatch deps head (framing, j) s = (Inr out, s')" "ex_keepAlive out"
  shows "\<exists>body. g_sent s' = g_sent s @ [req_raw head @ raw_of (jd_buffered j) @ body]
    \<and> rest (g_reader s) = body @ rest (g_reader s')"
proof -
  obtain conn s1 sent s2 response upstream s3 where o: "openUpstream s = (Inr conn, s1)"
      and sr: "send_request head framing (jd_buffered j) s1 = (sent, s2)"
      and rs: "response_step (req_method head) (new_reader (answers conn)) s2 = (Inr (response, upstream), s3)"
      and st: "settle deps head j sent (response, upstream) s3 = (Inr out, s')"
    using assms(1) by (auto simp: dispatch_def gbind_Inr gate_Inr)
  have s3: "g_sent s3 = g_sent s2" "g_reader s3 = g_reader s2"
    using rs by (auto simp: response_step_def split: prod.splits sum.splits if_splits)
  have alive: "sent" "ro_keepAlive response"
    using st assms(2) by (auto simp: settle_def gbind_Inr gate_Inr Let_def split: if_splits)
  then have "\<not> ro_upgraded response"
    using rs relayResponse_keepAlive by (auto simp: response_step_def split: prod.splits sum.splits if_splits)
  then have s': "g_sent s' = g_sent s3" "g_reader s' = g_reader s3"
    using st by (auto simp: settle_def gbind_Inr gate_Inr Let_def tally_def split: if_splits)
  have s1: "g_sent s1 = g_sent s @ [[]]" "g_reader s1 = g_reader s" using openUpstream_Inr [OF o] by auto
  show ?thesis
  proof (cases "jd_buffered j")
    case None
    obtain bytes c r' where b: "relayRequestBody (g_reader s1) framing = (bytes, c, r')" by (metis prod_cases3)
    then show ?thesis
      using sr None s1 s3 s' relayRequestBody_rest [OF b]
      by (auto simp: send_request_def send_def raw_of_def)
  next
    case (Some b)
    then show ?thesis using sr s1 s3 s' by (auto simp: send_request_def send_def raw_of_def)
  qed
qed


lemma two_pings_served:
  "fst (serve_one (plain_deps Enforce) (fresh_state [ping_request @ ping_request] [[ok_answer ''OK'']])) = Inr True
   \<and> g_sent (snd (serve_one (plain_deps Enforce) (fresh_state [ping_request @ ping_request] [[ok_answer ''OK'']])))
     = [ping_request]"
  by code_simp


section \<open>Refusals\<close>

definition refusal_text :: "violation list \<Rightarrow> string" where
  "refusal_text fs = ''refused by the Docker gate: '' @ join_with '', '' (unique (map rule fs))"

lemma guards_refuse:
  assumes "deps_mode deps = Enforce" "\<not> deps_readOnly deps" "\<not> hasExpect (req_headers head)"
    and "requestFraming head = Inr framing" "parseTarget (req_target head) = Inr target"
    and "hold_body deps framing (needsBody (classifyRoute (req_method head) (fst target))) s = (Inr kept, s1)"
    and "review deps (facts_of head target framing kept) (route (classifyRoute (req_method head) (fst target)))
      (buildSessionFindings (route (classifyRoute (req_method head) (fst target))) (deps_buildSocket deps)) s1
      = (Inr fs, s2)" "fs \<noteq> []"
  shows "fst (guards deps head s) = Inl (Http (HttpError 403 (refusal_text fs)))"
  using assms
  by (auto simp: guards_def judge_def gbind_def gate_steps Let_def refuse_def refusal_text_def)

text \<open>C22: A refused request is answered once and stops there: in enforce mode, when the review of
  the next request on a connection leaves a finding, the client receives exactly one 403
  response that names each rule once, the connection ends, and nothing but lookups reaches
  the engine.
\<close>

theorem refused_request_is_answered_once:
  assumes "deps_mode deps = Enforce" "\<not> deps_readOnly deps"
    and "readHead (g_reader s) = Inr (Some raw, r1)" "parseRequestHead raw = Inr head"
    and "\<not> hasExpect (req_headers head)" "requestFraming head = Inr framing"
    and "parseTarget (req_target head) = Inr target"
    and "hold_body deps framing (needsBody (classifyRoute (req_method head) (fst target)))
      (s\<lparr>g_reader := r1\<rparr>) = (Inr kept, s1)"
    and "review deps (facts_of head target framing kept) (route (classifyRoute (req_method head) (fst target)))
      (buildSessionFindings (route (classifyRoute (req_method head) (fst target))) (deps_buildSocket deps)) s1
      = (Inr fs, s2)" "fs \<noteq> []"
  shows "written (g_client (handleConnection deps s)) = written (g_client s) @ errorResponse 403 (refusal_text fs)
    \<and> (\<exists>ms. g_sent (handleConnection deps s) = g_sent s @ ms \<and> list_all is_inspect ms)"
proof -
  obtain s3 where g: "guards deps head (s\<lparr>g_reader := r1\<rparr>) = (Inl (Http (HttpError 403 (refusal_text fs))), s3)"
    using guards_refuse [OF assms(1,2,5-10)] by (metis prod.collapse)
  have "probes (s\<lparr>g_reader := r1\<rparr>) s3" by (rule keepsD [OF keeps_probes_guards g])
  moreover have "connection_loop deps s = (Inl (Http (HttpError 403 (refusal_text fs))), s3)"
    using g assms(3,4)
    by (simp add: connection_loop.simps [of deps s] serve_one_def gbind_def read_head_step_def gate_steps
        exchange_phases)
  ultimately show ?thesis
    by (auto simp: handleConnection_def answerFailure_def probes_def Let_def emit_def tally_def)
qed

definition session_head :: request_head where
  "session_head = \<lparr>req_method = ''POST'', req_target = ''/session'', req_version = ''HTTP/1.1'', req_headers = [],
     req_raw = ''POST /session HTTP/1.1'' @ crlf @ crlf\<rparr>"

definition session_state :: "used_ids gate_state" where
  "session_state = fresh_state [req_raw session_head] []"

definition session_reader :: reader where
  "session_reader = \<lparr>buffer = [], source = [], eof = False\<rparr>"

lemma session_facts:
  "readHead (g_reader session_state) = Inr (Some (req_raw session_head), session_reader)"
  "parseRequestHead (req_raw session_head) = Inr session_head"
  "requestFraming session_head = Inr FNone"
  "parseTarget (req_target session_head) = Inr (''/session'', [])"
  "\<not> needsBody (classifyRoute (req_method session_head) ''/session'')"
  by code_simp+

lemma session_review:
  "fst (review (plain_deps mode) (facts_of session_head (''/session'', []) FNone None)
     (route (classifyRoute (req_method session_head) ''/session''))
     (buildSessionFindings (route (classifyRoute (req_method session_head) ''/session'')) False)
     (session_state\<lparr>g_reader := session_reader\<rparr>)) = Inr [Violation ''build-session'' (Some ''not-build-socket'')]"
  by (cases mode; hypsubst) code_simp+

theorem refused_request_is_answered_once_witness:
  "written (g_client (handleConnection (plain_deps Enforce) session_state))
     = written (g_client session_state)
       @ errorResponse 403 (refusal_text [Violation ''build-session'' (Some ''not-build-socket'')])"
proof (rule conjunct1 [OF refused_request_is_answered_once])
  show "readHead (g_reader session_state) = Inr (Some (req_raw session_head), session_reader)"
    "parseRequestHead (req_raw session_head) = Inr session_head"
    "requestFraming session_head = Inr FNone"
    "parseTarget (req_target session_head) = Inr (''/session'', [])"
    by (fact session_facts)+
  show "hold_body (plain_deps Enforce) FNone (needsBody (classifyRoute (req_method session_head)
      (fst (''/session'', []))))
      (session_state\<lparr>g_reader := session_reader\<rparr>) = (Inr None, session_state\<lparr>g_reader := session_reader\<rparr>)"
    using session_facts(5) by (simp add: hold_body_def ok_def)
  show "review (plain_deps Enforce) (facts_of session_head (''/session'', []) FNone None)
     (route (classifyRoute (req_method session_head) (fst (''/session'', []))))
     (buildSessionFindings (route (classifyRoute (req_method session_head) (fst (''/session'', []))))
       (deps_buildSocket (plain_deps Enforce)))
     (session_state\<lparr>g_reader := session_reader\<rparr>)
     = (Inr [Violation ''build-session'' (Some ''not-build-socket'')], snd (review (plain_deps Enforce)
         (facts_of session_head (''/session'', []) FNone None)
         (route (classifyRoute (req_method session_head) ''/session''))
         (buildSessionFindings (route (classifyRoute (req_method session_head) ''/session'')) False)
         (session_state\<lparr>g_reader := session_reader\<rparr>)))"
    using session_review [of Enforce] by (simp add: plain_deps_def prod_eq_iff)
qed (simp_all add: plain_deps_def session_head_def hasExpect_def headerTokens_def)

section \<open>Observe mode\<close>

lemma guards_observe:
  assumes "deps_mode deps = Observe" "\<not> deps_readOnly deps" "\<not> hasExpect (req_headers head)"
    and "requestFraming head = Inr framing" "parseTarget (req_target head) = Inr target"
    and "hold_body deps framing (needsBody (classifyRoute (req_method head) (fst target))) s = (Inr kept, s1)"
    and "review deps (facts_of head target framing kept) (route (classifyRoute (req_method head) (fst target)))
      (buildSessionFindings (route (classifyRoute (req_method head) (fst target))) (deps_buildSocket deps)) s1
      = (Inr fs, s2)"
  shows "guards deps head s = (Inr (framing, \<lparr>jd_route = route (classifyRoute (req_method head) (fst target)),
    jd_buffered = map_option fst kept\<rparr>), s2)"
  using assms by (simp add: guards_def judge_def gbind_def gate_steps Let_def)

lemma dispatch_opens:
  assumes "g_conns s = Inr conn # later"
  shows "g_sent (snd (dispatch deps head fj s)) \<noteq> g_sent s"
proof
  obtain res s' where d: "dispatch deps head fj s = (res, s')" by fastforce
  assume "g_sent (snd (dispatch deps head fj s)) = g_sent s"
  moreover have "length (g_sent s') = Suc (length (g_sent s))"
    using d unfolding dispatch_def
  proof (cases rule: gbind_cases)
    case (next_step c s1)
    obtain sent s2 where sr: "send_request head (fst fj) (jd_buffered (snd fj)) s1 = (sent, s2)" by fastforce
    have s1: "g_sent s1 = g_sent s @ [[]]" using openUpstream_Inr [OF next_step(1)] by simp
    then have s2: "length (g_sent s2) = Suc (length (g_sent s))"
      using send_request_sent [OF sr s1] by (metis length_append_singleton)
    have k: "keeps (grows (deps_readOnly deps)) (gbind (response_step (req_method head) (new_reader (answers c)))
        (settle deps head (snd fj) sent))"
      by (auto intro!: frame)
    have t: "gbind (response_step (req_method head) (new_reader (answers c))) (settle deps head (snd fj) sent) s2
        = (res, s')"
      using next_step(2) sr by (simp add: gbind_def pass_def)
    from keepsD [OF k t] s2 show ?thesis by (auto simp: grows_def)
  qed (use assms in \<open>simp add: openUpstream_def connectUpstream_def\<close>)
  ultimately show False using d by simp
qed

text \<open>C27: Observe mode holds nothing back: a request whose head, framing, target and (where one is
  needed) body can be read, and whose review returns whatever findings, is forwarded to the
  engine, head and body first, as soon as the engine accepts the connection.
\<close>

theorem observe_mode_forwards_despite_findings:
  assumes "deps_mode deps = Observe" "\<not> deps_readOnly deps" "\<not> hasExpect (req_headers head)"
    and "requestFraming head = Inr framing" "parseTarget (req_target head) = Inr target"
    and "hold_body deps framing (needsBody (classifyRoute (req_method head) (fst target))) s = (Inr kept, s1)"
    and "review deps (facts_of head target framing kept) (route (classifyRoute (req_method head) (fst target)))
      (buildSessionFindings (route (classifyRoute (req_method head) (fst target))) (deps_buildSocket deps)) s1
      = (Inr fs, s2)"
    and "g_conns s2 = Inr conn # later"
  shows "\<exists>tail. g_sent (snd (exchange deps head s))
    = g_sent s2 @ [req_raw head @ raw_of (map_option fst kept) @ tail]"
proof -
  let ?j = "\<lparr>jd_route = route (classifyRoute (req_method head) (fst target)), jd_buffered = map_option fst kept\<rparr>"
  have "snd (exchange deps head s) = snd (dispatch deps head (framing, ?j) s2)"
    using guards_observe [OF assms(1-7)] by (simp add: exchange_phases gbind_def)
  moreover have "\<exists>tail. g_sent (snd (dispatch deps head (framing, ?j) s2))
      = g_sent s2 @ [req_raw head @ raw_of (map_option fst kept) @ tail]"
    using dispatch_sends [of deps head framing ?j s2] dispatch_opens [OF assms(8), of deps head "(framing, ?j)"]
    by (metis prod.collapse judged.select_convs(2))
  ultimately show ?thesis by simp
qed

theorem observe_mode_forwards_despite_findings_witness:
  "\<exists>s2 tail. g_sent (snd (exchange (plain_deps Observe) session_head
       (session_state\<lparr>g_reader := session_reader, g_conns := [Inr \<lparr>answers = [], in_time = True\<rparr>]\<rparr>)))
     = s2 @ [req_raw session_head @ tail]"
proof -
  let ?s = "session_state\<lparr>g_reader := session_reader, g_conns := [Inr \<lparr>answers = [], in_time = True\<rparr>]\<rparr>"
  let ?r = "review (plain_deps Observe) (facts_of session_head (''/session'', []) FNone None)
     (route (classifyRoute (req_method session_head) (fst (''/session'', [] :: query))))
     (buildSessionFindings (route (classifyRoute (req_method session_head) (fst (''/session'', [] :: query))))
       (deps_buildSocket (plain_deps Observe))) ?s"
  have r: "fst ?r = Inr [Violation ''build-session'' (Some ''not-build-socket'')]"
    "g_conns (snd ?r) = [Inr \<lparr>answers = [], in_time = True\<rparr>]"
    by code_simp+
  have h: "hold_body (plain_deps Observe) FNone (needsBody (classifyRoute (req_method session_head)
      (fst (''/session'', [] :: query)))) ?s = (Inr None, ?s)"
    using session_facts(5) by (simp add: hold_body_def ok_def)
  have e: "deps_mode (plain_deps Observe) = Observe" "\<not> deps_readOnly (plain_deps Observe)"
    "\<not> hasExpect (req_headers session_head)"
    by (simp_all add: plain_deps_def session_head_def hasExpect_def headerTokens_def)
  have rv: "?r = (Inr [Violation ''build-session'' (Some ''not-build-socket'')], snd ?r)"
    using r(1) by (metis prod.collapse)
  from observe_mode_forwards_despite_findings [OF e session_facts(3,4) h rv r(2)]
  show ?thesis unfolding raw_of_def option.map option.case append.simps by blast
qed

end
