(* ===== verification/Gate_Config.thy ===== *)
theory Gate_Config
  imports Gate_State Gate_Replay Gate_Resolve Gate_Listeners
begin

text \<open>
  The gate's settings and its start (\<open>orchestration/roles/docker-gate/files/main.ts\<close>): the
  environment read into a configuration, the three listeners, what each connection on them
  is served with, and the cap on concurrent connections.

  The environment is a function from names to values. What the calls of the start return is
  the record \<open>gate_io\<close>; an error is its description.
\<close>

definition DEFAULT_GATE_SOCKET :: string where "DEFAULT_GATE_SOCKET = ''/run/turbopanel-gate/docker.sock''"
definition DEFAULT_UPSTREAM_SOCKET :: string where "DEFAULT_UPSTREAM_SOCKET = ''/var/run/docker.sock''"
definition DEFAULT_SUMMARY_SECONDS :: int where "DEFAULT_SUMMARY_SECONDS = 300"
definition MAX_CONNECTIONS :: nat where "MAX_CONNECTIONS = 512"
definition DEFAULT_MAX_BODY_BYTES :: nat where "DEFAULT_MAX_BODY_BYTES = 4 * 1024 * 1024"

record gate_config =
  cfg_mode :: gate_mode
  cfg_socket :: string
  cfg_roSocket :: "string option"
  cfg_ingressSwitchFile :: "string option"
  cfg_upstream :: string
  cfg_socketGid :: "int option"
  cfg_policy :: policy_config
  cfg_summarySeconds :: int
  cfg_approvalKeyFile :: "string option"
  cfg_approvalStateFile :: "string option"
  cfg_buildSocket :: "string option"
  cfg_buildGid :: "int option"

type_synonym env = "string \<Rightarrow> string option"

section \<open>Values\<close>

definition modeOf :: "string option \<Rightarrow> (string, gate_mode) result" where
  "modeOf v = (let mode = (case v of None \<Rightarrow> ''observe'' | Some m \<Rightarrow> m)
     in if mode = ''observe'' then Inr Observe
        else if mode = ''enforce'' then Inr Enforce
        else Inl (''TP_DOCKER_GATE_MODE='' @ mode @ '' is not supported: use observe or enforce''))"

definition positive_integer :: "string option \<Rightarrow> int option" where
  "positive_integer v = (case v of None \<Rightarrow> None | Some s \<Rightarrow> (case number_of_text s of
     None \<Rightarrow> None
   | Some (m, e) \<Rightarrow> if m \<le> 0 then None
     else (case (if e \<ge> 0 then round_integer (m * 10 ^ nat e) 1 else round_integer m (10 ^ nat (- e))) of
         Some n \<Rightarrow> if n > 0 then Some n else None
       | None \<Rightarrow> None)))"

definition positiveIdOrUndefined :: "string option \<Rightarrow> int option" where
  "positiveIdOrUndefined v = positive_integer v"

definition positiveInt :: "string option \<Rightarrow> int \<Rightarrow> int" where
  "positiveInt v fallback = (case positive_integer v of Some n \<Rightarrow> n | None \<Rightarrow> fallback)"

definition trimTrailingSlashes :: "string \<Rightarrow> string" where
  "trimTrailingSlashes path = take 1 path @ rev (dropWhile (\<lambda>c. c = CHR ''/'') (rev (drop 1 path)))"

definition pathList :: "string option \<Rightarrow> string list" where
  "pathList v = map trimTrailingSlashes (filter (starts_with ''/'')
     (map js_trim (split_on (CHR '':'') (case v of None \<Rightarrow> [] | Some s \<Rightarrow> s))))"

definition first :: "'a list \<Rightarrow> 'a option" where
  "first xs = (case xs of [] \<Rightarrow> None | x # _ \<Rightarrow> Some x)"

definition ingressSocketDirOf :: "string option \<Rightarrow> string" where
  "ingressSocketDirOf roSocket = (case first (pathList roSocket) of
     None \<Rightarrow> ingressSocketDir DEFAULT_POLICY_CONFIG
   | Some path \<Rightarrow> (case last_index_of (CHR ''/'') path of
       Some slash \<Rightarrow> if slash > 0 then take slash path else ingressSocketDir DEFAULT_POLICY_CONFIG
     | None \<Rightarrow> ingressSocketDir DEFAULT_POLICY_CONFIG))"

text \<open>\<open>a || b\<close> on texts, and a list or its default.\<close>

definition text_or :: "string option \<Rightarrow> string \<Rightarrow> string" where
  "text_or v d = (case v of None \<Rightarrow> d | Some s \<Rightarrow> if s = [] then d else s)"

definition list_or :: "'a list \<Rightarrow> 'a list \<Rightarrow> 'a list" where
  "list_or xs d = (if xs \<noteq> [] then xs else d)"

definition loadConfig :: "env \<Rightarrow> (string, gate_config) result" where
  "loadConfig env = rbind (modeOf (env ''TP_DOCKER_GATE_MODE'')) (\<lambda>mode.
     let caps = filter (\<lambda>cap. cap \<noteq> []) (map (\<lambda>cap. cap_name (js_trim cap))
           (split_on (CHR '','') (case env ''TP_DOCKER_GATE_CAP_ALLOW'' of None \<Rightarrow> [] | Some s \<Rightarrow> s)))
     in Inr \<lparr>cfg_mode = mode,
        cfg_socket = text_or (env ''TP_DOCKER_GATE_SOCKET'') DEFAULT_GATE_SOCKET,
        cfg_roSocket = first (pathList (env ''TP_DOCKER_GATE_RO_SOCKET'')),
        cfg_ingressSwitchFile = first (pathList (env ''TP_DOCKER_GATE_INGRESS_SWITCH'')),
        cfg_upstream = text_or (env ''TP_DOCKER_GATE_UPSTREAM'') DEFAULT_UPSTREAM_SOCKET,
        cfg_socketGid = positive_integer (env ''TP_DOCKER_GATE_SOCKET_GID''),
        cfg_policy = \<lparr>bindRoots = list_or (pathList (env ''TP_DOCKER_GATE_BIND_ROOTS'')) (bindRoots DEFAULT_POLICY_CONFIG),
          principalRoots = principalRoots DEFAULT_POLICY_CONFIG,
          denyPrefixes = denyPrefixes DEFAULT_POLICY_CONFIG @ pathList (env ''TP_DOCKER_GATE_DENY_PREFIXES''),
          dockerSockets = dockerSockets DEFAULT_POLICY_CONFIG,
          capAllowlist = caps,
          platform = \<lparr>ro_roots = list_or (pathList (env ''TP_DOCKER_GATE_PLATFORM_RO_ROOTS'')) (ro_roots DEFAULT_PLATFORM_ROOTS),
            rw_roots = list_or (pathList (env ''TP_DOCKER_GATE_PLATFORM_RW_ROOTS'')) (rw_roots DEFAULT_PLATFORM_ROOTS)\<rparr>,
          ingressSocketDir = ingressSocketDirOf (env ''TP_DOCKER_GATE_RO_SOCKET'')\<rparr>,
        cfg_summarySeconds = positiveInt (env ''TP_DOCKER_GATE_SUMMARY_SEC'') DEFAULT_SUMMARY_SECONDS,
        cfg_approvalKeyFile = first (pathList (env ''TP_DOCKER_GATE_APPROVAL_PUBKEY'')),
        cfg_approvalStateFile = first (pathList (env ''TP_DOCKER_GATE_APPROVAL_STATE'')),
        cfg_buildSocket = first (pathList (env ''TP_DOCKER_GATE_BUILD_SOCKET'')),
        cfg_buildGid = positiveIdOrUndefined (env ''TP_DOCKER_GATE_BUILD_GID'')\<rparr>)"

definition loadCheckPassed :: "env \<Rightarrow> log_record list \<Rightarrow> (string, bool) result \<times> log_record list" where
  "loadCheckPassed env log =
     (if env ''TP_DOCKER_GATE_LOAD_CHECK'' \<noteq> Some ''1'' then (Inr False, log)
      else case loadConfig env of
          Inl e \<Rightarrow> (Inl e, log)
        | Inr _ \<Rightarrow> (Inr True, log @ [[(''level'', JStr ''info''), (''event'', JStr ''docker-gate.load-check-ok'')]]))"

section \<open>Sockets\<close>

text \<open>
  The calls that took effect, and whether the operation returned. \<open>fails\<close> says which calls on
  the file system fail; what \<open>lstat\<close> finds is an argument.
\<close>

datatype lstat = NotFound | Unreachable | Directory | Existing

definition removeStaleSocket :: "(fs_call \<Rightarrow> bool) \<Rightarrow> lstat \<Rightarrow> string \<Rightarrow> fs_call list \<times> bool" where
  "removeStaleSocket fails found path = (case found of
     NotFound \<Rightarrow> ([], True)
   | Unreachable \<Rightarrow> ([], False)
   | Directory \<Rightarrow> ([], False)
   | Existing \<Rightarrow> if fails (Remove path) then ([], False) else ([Remove path], True))"

definition openListener :: "(fs_call \<Rightarrow> bool) \<Rightarrow> lstat \<Rightarrow> string \<Rightarrow> nat option \<Rightarrow> fs_call list \<times> bool" where
  "openListener fails found path gid = (case removeStaleSocket fails found path of
     (calls, removed) \<Rightarrow>
       if \<not> removed then (calls, False)
       else if fails (Listen path) then (calls, False)
       else if fails (Chmod path SOCKET_MODE) then (calls @ [Listen path], False)
       else (case gid of
           None \<Rightarrow> (calls @ [Listen path, Chmod path SOCKET_MODE], True)
         | Some g \<Rightarrow> if fails (Chown path g) then (calls @ [Listen path, Chmod path SOCKET_MODE], False)
             else (calls @ [Listen path, Chmod path SOCKET_MODE, Chown path g], True)))"

lemma openListener_opens:
  assumes "openListener fails found path gid = (calls, True)"
  shows "found \<noteq> Directory \<and> Listen path \<in> set calls \<and> Chmod path SOCKET_MODE \<in> set calls
    \<and> (\<forall>g. gid = Some g \<longrightarrow> last calls = Chown path g)"
  using assms
  by (auto simp: openListener_def removeStaleSocket_def split: lstat.splits if_splits option.splits)

section \<open>Starting\<close>

text \<open>
  The memory of used approval ids: in the process, or in the process and a file. With a file,
  each write may fail (the list says which do; the writes after it succeed).
\<close>

datatype replay_memory = InMemory used_ids | OnDisk persistent "bool list"

fun replay_claim :: "replay_memory \<Rightarrow> string \<Rightarrow> int \<Rightarrow> int \<Rightarrow> bool \<times> replay_memory" where
  "replay_claim (InMemory seen) jti exp now = (case claim seen jti exp now of (fresh, seen') \<Rightarrow> (fresh, InMemory seen'))"
| "replay_claim (OnDisk cache writes) jti exp now =
     (case persistent_claim cache (case writes of [] \<Rightarrow> True | w # _ \<Rightarrow> w) jti exp now of
        (fresh, cache') \<Rightarrow> (fresh, OnDisk cache' (tl writes)))"

text \<open>What the calls of the start give: an error's description, or what they read.\<close>

record gate_io =
  io_keyFile :: "(string, string) result"
  io_openMain :: "(string, unit) result"
  io_switchIsFile :: bool
  io_openRo :: "(string, unit) result"
  io_openBuild :: "(string, unit) result"
  io_stateRead :: disk_read
  io_stateFile :: "string option"
  io_writes :: "bool list"

definition loadApprovalKeys ::
  "'key approval_env \<Rightarrow> string option \<Rightarrow> (string, string) result \<Rightarrow> log_record list \<Rightarrow> 'key list \<times> log_record list" where
  "loadApprovalKeys env file contents log = (case file of
     None \<Rightarrow> ([], log)
   | Some f \<Rightarrow>
     (case rbind contents (\<lambda>text. rbind (importApprovalKeys env text) (\<lambda>keys.
          if keys = [] then Inl ''Error: the key file holds no keys'' else Inr keys)) of
        Inr keys \<Rightarrow> (keys, log)
      | Inl e \<Rightarrow> ([], log @ [[(''level'', JStr ''error''), (''event'', JStr ''docker-gate.approval-keys-unusable''),
          (''file'', JStr f), (''error'', JStr e)]])))"

definition ingressSwitchOn :: "string option \<Rightarrow> bool \<Rightarrow> bool" where
  "ingressSwitchOn file isFile = (case file of None \<Rightarrow> False | Some _ \<Rightarrow> isFile)"

definition openReadOnlyListener ::
  "string option \<Rightarrow> bool \<Rightarrow> (string, unit) result \<Rightarrow> log_record list \<Rightarrow> (string, string option) result \<times> log_record list" where
  "openReadOnlyListener path required opened log = (case path of
     None \<Rightarrow> (Inr None, log)
   | Some p \<Rightarrow> (case opened of
       Inr _ \<Rightarrow> (Inr (Some p), log)
     | Inl e \<Rightarrow>
       ((if required then Inl (''the read-only socket '' @ p @ '' could not open while Traefik's switch is on: '' @ e)
         else Inr None),
        log @ [[(''level'', JStr ''error''), (''event'', JStr ''docker-gate.ro-socket-unavailable''),
          (''socket'', JStr p), (''fatal'', JBool required), (''error'', JStr e)]])))"

definition openBuildListener ::
  "gate_config \<Rightarrow> (string, unit) result \<Rightarrow> log_record list \<Rightarrow> string option \<times> log_record list" where
  "openBuildListener config opened log = (case cfg_buildSocket config of
     None \<Rightarrow> (None, log)
   | Some p \<Rightarrow>
     (case (case cfg_buildGid config of
              None \<Rightarrow> Inl ''Error: TP_DOCKER_GATE_BUILD_GID is not set: no group may open the build socket''
            | Some _ \<Rightarrow> opened) of
        Inr _ \<Rightarrow> (Some p, log)
      | Inl e \<Rightarrow> (None, log @ [[(''level'', JStr ''error''), (''event'', JStr ''docker-gate.build-socket-unavailable''),
          (''socket'', JStr p), (''error'', JStr e)]])))"

text \<open>
  A running gate: the listeners that are open, each with what its connections are served
  with, and the memory they share. A start that fails after the main socket was opened closes
  it again (\<open>MainClosed\<close>).
\<close>

record 'key running_gate =
  run_listeners :: "(string \<times> ('key, replay_memory) gate_deps) list"
  run_memory :: replay_memory

datatype start_failure = NotOpened string | MainClosed string

definition gate_base_deps ::
  "'key approval_env \<Rightarrow> path_probe \<Rightarrow> (nat \<Rightarrow> int) \<Rightarrow> gate_config \<Rightarrow> 'key list \<Rightarrow> ('key, replay_memory) gate_deps" where
  "gate_base_deps env probe clock config keys =
     \<lparr>deps_policy = cfg_policy config, deps_resolvePath = resolveBindPath probe, deps_env = env,
      deps_approvalKeys = keys, deps_claim = replay_claim, deps_nowSec = clock,
      deps_maxBodyBytes = DEFAULT_MAX_BODY_BYTES, deps_readOnly = False, deps_mode = cfg_mode config,
      deps_buildSocket = False\<rparr>"

definition startGate ::
  "'key approval_env \<Rightarrow> path_probe \<Rightarrow> (nat \<Rightarrow> int) \<Rightarrow> gate_config \<Rightarrow> gate_io \<Rightarrow> log_record list
   \<Rightarrow> (start_failure, 'key running_gate) result \<times> log_record list" where
  "startGate env probe clock config io log =
     (case loadApprovalKeys env (cfg_approvalKeyFile config) (io_keyFile io) log of (keys, log1) \<Rightarrow>
      let deps = gate_base_deps env probe clock config keys;
          memory = (case cfg_approvalStateFile config of
            None \<Rightarrow> InMemory []
          | Some _ \<Rightarrow> OnDisk (new_cache (cfg_mode config = Enforce) (io_stateRead io) (clock 0) (io_stateFile io)) (io_writes io))
      in case io_openMain io of
           Inl e \<Rightarrow> (Inl (NotOpened e), log1)
         | Inr _ \<Rightarrow>
           (case openReadOnlyListener (cfg_roSocket config)
                   (ingressSwitchOn (cfg_ingressSwitchFile config) (io_switchIsFile io)) (io_openRo io) log1 of
              (Inl e, log2) \<Rightarrow> (Inl (MainClosed e), log2)
            | (Inr ro, log2) \<Rightarrow>
              (case openBuildListener config (io_openBuild io) log2 of (build, log3) \<Rightarrow>
                 (Inr \<lparr>run_listeners = (cfg_socket config, deps)
                        # (case build of None \<Rightarrow> [] | Some p \<Rightarrow> [(p, deps\<lparr>deps_buildSocket := True\<rparr>)])
                        @ (case ro of None \<Rightarrow> [] | Some p \<Rightarrow> [(p, deps\<lparr>deps_readOnly := True\<rparr>)]),
                       run_memory = memory\<rparr>,
                  log3 @ [[(''level'', JStr ''info''), (''event'', JStr ''docker-gate.started''),
                    (''mode'', JStr (if cfg_mode config = Enforce then ''enforce'' else ''observe'')),
                    (''socket'', JStr (cfg_socket config)),
                    (''buildSocket'', (case build of None \<Rightarrow> JNull | Some p \<Rightarrow> JStr p)),
                    (''roSocket'', (case ro of None \<Rightarrow> JNull | Some p \<Rightarrow> JStr p)),
                    (''upstream'', JStr (cfg_upstream config)),
                    (''bindRoots'', JArr (map JStr (bindRoots (cfg_policy config)))),
                    (''platformRoots'', JObj [(''readOnly'', JArr (map JStr (ro_roots (platform (cfg_policy config))))),
                      (''writable'', JArr (map JStr (rw_roots (platform (cfg_policy config)))))]),
                    (''approvals'', JStr (if keys \<noteq> [] then ''on'' else ''off'')),
                    (''approvalKeys'', JNum (int (length keys)) 0)]]))))"

section \<open>Serving\<close>

text \<open>
  The accept loop: a connection over the cap is closed at once, any other is handled and
  counted until it ends. Connections are numbered; they end in any order.
\<close>

record serve_state =
  sv_active :: nat
  sv_running :: "nat list"
  sv_closed :: "nat list"

inductive serve :: "serve_state \<Rightarrow> serve_state \<Rightarrow> bool" where
  full: "sv_active s \<ge> MAX_CONNECTIONS \<Longrightarrow> serve s (s\<lparr>sv_closed := c # sv_closed s\<rparr>)"
| accept: "sv_active s < MAX_CONNECTIONS \<Longrightarrow>
    serve s (s\<lparr>sv_active := sv_active s + 1, sv_running := c # sv_running s\<rparr>)"
| finished: "c \<in> set (sv_running s) \<Longrightarrow>
    serve s (s\<lparr>sv_active := sv_active s - 1, sv_running := remove1 c (sv_running s)\<rparr>)"

definition serve_start :: serve_state where
  "serve_start = \<lparr>sv_active = 0, sv_running = [], sv_closed = []\<rparr>"

section \<open>Laws\<close>

definition clean_root :: "string \<Rightarrow> bool" where
  "clean_root p \<longleftrightarrow> starts_with ''/'' p \<and> (p = ''/'' \<or> last p \<noteq> CHR ''/'')"

lemma trimTrailingSlashes_clean:
  assumes "starts_with ''/'' p"
  shows "clean_root (trimTrailingSlashes p)"
proof -
  obtain q where p: "p = CHR ''/'' # q" using assms by (cases p) (auto simp: starts_with_def)
  let ?d = "dropWhile (\<lambda>c. c = CHR ''/'') (rev q)"
  have t: "trimTrailingSlashes p = CHR ''/'' # rev ?d" by (simp add: trimTrailingSlashes_def p)
  show ?thesis
  proof (cases ?d)
    case (Cons c r)
    then have "c \<noteq> CHR ''/''" using hd_dropWhile [of "\<lambda>c. c = CHR ''/''" "rev q"] by auto
    then show ?thesis unfolding t Cons by (simp add: clean_root_def starts_with_def)
  qed (unfold t, simp add: clean_root_def starts_with_def)
qed

lemma pathList_clean: "list_all clean_root (pathList v)"
  by (auto simp: pathList_def list_all_iff intro: trimTrailingSlashes_clean)

lemma default_roots_clean:
  "list_all clean_root (bindRoots DEFAULT_POLICY_CONFIG @ denyPrefixes DEFAULT_POLICY_CONFIG
     @ ro_roots DEFAULT_PLATFORM_ROOTS @ rw_roots DEFAULT_PLATFORM_ROOTS)"
  by code_simp

lemma list_or_clean: "list_all P xs \<Longrightarrow> list_all P d \<Longrightarrow> list_all P (list_or xs d)"
  by (simp add: list_or_def)

lemma positive_integer_pos: "positive_integer v = Some n \<Longrightarrow> n > 0"
  by (auto simp: positive_integer_def split: option.splits if_splits)

text \<open>The environment cannot weaken the fixed part of the policy: whatever it holds, a
  configuration that loads keeps every built-in denied prefix, the engine's socket paths and
  the principals' roots; every bind root, denied prefix and platform root is an absolute path
  without a trailing slash; and the summary interval is positive.
\<close>

lemma loadConfig_keeps_the_denials:
  assumes "loadConfig env = Inr c"
  shows "set (denyPrefixes DEFAULT_POLICY_CONFIG) \<subseteq> set (denyPrefixes (cfg_policy c))
    \<and> dockerSockets (cfg_policy c) = dockerSockets DEFAULT_POLICY_CONFIG
    \<and> principalRoots (cfg_policy c) = principalRoots DEFAULT_POLICY_CONFIG
    \<and> list_all clean_root (bindRoots (cfg_policy c) @ denyPrefixes (cfg_policy c)
        @ ro_roots (platform (cfg_policy c)) @ rw_roots (platform (cfg_policy c)))
    \<and> cfg_summarySeconds c > 0"
proof -
  have "positiveInt v DEFAULT_SUMMARY_SECONDS > 0" for v
    by (auto simp: positiveInt_def DEFAULT_SUMMARY_SECONDS_def dest: positive_integer_pos split: option.splits)
  then show ?thesis
    using assms pathList_clean default_roots_clean
    by (auto simp: loadConfig_def rbind_Inr_iff Let_def intro!: list_or_clean)
qed

definition demo_env :: env where
  "demo_env = map_of [(''TP_DOCKER_GATE_MODE'', ''enforce''), (''TP_DOCKER_GATE_BIND_ROOTS'', ''/data/:relative: /srv//''),
     (''TP_DOCKER_GATE_SUMMARY_SEC'', '' 6e1 ''), (''TP_DOCKER_GATE_BUILD_SOCKET'', ''/run/gate/build/docker.sock''),
     (''TP_DOCKER_GATE_BUILD_GID'', ''990'')]"

lemma demo_env_loads:
  "map_option (\<lambda>c. (bindRoots (cfg_policy c), cfg_summarySeconds c, cfg_buildGid c))
     (case loadConfig demo_env of Inr c \<Rightarrow> Some c | Inl _ \<Rightarrow> None) = Some ([''/data'', ''/srv''], 60, Some 990)"
  by code_simp

inductive_cases serveE: "serve s s'"

lemma serve_invariant:
  assumes "serve s s'" "sv_active s = length (sv_running s)" "sv_active s \<le> MAX_CONNECTIONS"
  shows "sv_active s' = length (sv_running s') \<and> sv_active s' \<le> MAX_CONNECTIONS"
  using assms by (elim serveE) (auto simp: length_remove1)

lemma serve_reachable:
  "serve\<^sup>*\<^sup>* serve_start s \<Longrightarrow> sv_active s = length (sv_running s) \<and> sv_active s \<le> MAX_CONNECTIONS"
  by (induction rule: rtranclp_induct) (auto simp: serve_start_def dest: serve_invariant)

text \<open>A listener never handles more than 512 connections at a time, its count of active
  connections is exact however connections begin and end, and it turns a new connection away
  only when 512 are being handled.
\<close>

lemma serve_is_capped:
  assumes "serve\<^sup>*\<^sup>* serve_start s"
  shows "length (sv_running s) \<le> 512 \<and> sv_active s = length (sv_running s)
    \<and> (\<forall>s'. serve s s' \<longrightarrow> sv_closed s' \<noteq> sv_closed s \<longrightarrow> length (sv_running s) = 512)"
  using serve_reachable [OF assms] by (auto simp: MAX_CONNECTIONS_def elim!: serveE)

text \<open>What each listener of a running gate serves with.\<close>

lemma openBuildListener_Some:
  "fst (openBuildListener config opened log) = Some p \<Longrightarrow> cfg_buildSocket config = Some p \<and> cfg_buildGid config \<noteq> None"
  unfolding openBuildListener_def by (auto split: option.splits sum.splits)

lemma openReadOnlyListener_Some:
  "fst (openReadOnlyListener path required opened log) = Inr (Some p) \<Longrightarrow> path = Some p"
  unfolding openReadOnlyListener_def by (auto split: option.splits sum.splits if_splits)

lemma startGate_Inr:
  assumes "fst (startGate env probe clock config io log) = Inr g"
  obtains keys log1 ro log2 where
    "fst (openReadOnlyListener (cfg_roSocket config)
       (ingressSwitchOn (cfg_ingressSwitchFile config) (io_switchIsFile io)) (io_openRo io) log1) = Inr ro"
    "run_listeners g = (cfg_socket config, gate_base_deps env probe clock config keys)
       # (case fst (openBuildListener config (io_openBuild io) log2) of None \<Rightarrow> []
          | Some p \<Rightarrow> [(p, (gate_base_deps env probe clock config keys)\<lparr>deps_buildSocket := True\<rparr>)])
       @ (case ro of None \<Rightarrow> [] | Some p \<Rightarrow> [(p, (gate_base_deps env probe clock config keys)\<lparr>deps_readOnly := True\<rparr>)])"
proof -
  obtain keys log1 where k: "loadApprovalKeys env (cfg_approvalKeyFile config) (io_keyFile io) log = (keys, log1)"
    by fastforce
  obtain ro log2 where r: "openReadOnlyListener (cfg_roSocket config)
      (ingressSwitchOn (cfg_ingressSwitchFile config) (io_switchIsFile io)) (io_openRo io) log1 = (ro, log2)"
    by fastforce
  obtain build log3 where b: "openBuildListener config (io_openBuild io) log2 = (build, log3)" by fastforce
  have m: "io_openMain io = Inr ()"
    using assms unfolding startGate_def k Let_def prod.case by (cases "io_openMain io") simp_all
  obtain p where p: "ro = Inr p"
    using assms unfolding startGate_def k m r Let_def prod.case sum.case by (cases ro) simp_all
  have "run_listeners g = (cfg_socket config, gate_base_deps env probe clock config keys)
       # (case build of None \<Rightarrow> []
          | Some p \<Rightarrow> [(p, (gate_base_deps env probe clock config keys)\<lparr>deps_buildSocket := True\<rparr>)])
       @ (case p of None \<Rightarrow> [] | Some p \<Rightarrow> [(p, (gate_base_deps env probe clock config keys)\<lparr>deps_readOnly := True\<rparr>)])"
    using assms unfolding startGate_def k m r b p Let_def prod.case sum.case fst_conv sum.inject
    by (metis running_gate.select_convs(1))
  then show ?thesis using that [of log1 p keys log2] r b p by simp
qed

lemma startGate_listener:
  assumes "fst (startGate env probe clock config io log) = Inr g" "(path, deps) \<in> set (run_listeners g)"
  shows "deps_mode deps = cfg_mode config \<and> deps_policy deps = cfg_policy config
    \<and> deps_resolvePath deps = resolveBindPath probe
    \<and> (deps_buildSocket deps \<longrightarrow> cfg_buildSocket config = Some path \<and> cfg_buildGid config \<noteq> None)
    \<and> (deps_readOnly deps \<longrightarrow> cfg_roSocket config = Some path)"
  using assms(1)
proof (rule startGate_Inr)
  fix keys log1 ro log2
  assume r: "fst (openReadOnlyListener (cfg_roSocket config)
       (ingressSwitchOn (cfg_ingressSwitchFile config) (io_switchIsFile io)) (io_openRo io) log1) = Inr ro"
    and l: "run_listeners g = (cfg_socket config, gate_base_deps env probe clock config keys)
       # (case fst (openBuildListener config (io_openBuild io) log2) of None \<Rightarrow> []
          | Some p \<Rightarrow> [(p, (gate_base_deps env probe clock config keys)\<lparr>deps_buildSocket := True\<rparr>)])
       @ (case ro of None \<Rightarrow> [] | Some p \<Rightarrow> [(p, (gate_base_deps env probe clock config keys)\<lparr>deps_readOnly := True\<rparr>)])"
  obtain build where b: "fst (openBuildListener config (io_openBuild io) log2) = build" by simp
  have "cfg_buildSocket config = Some p \<and> cfg_buildGid config \<noteq> None" if "build = Some p" for p
    using openBuildListener_Some b that by blast
  moreover have "cfg_roSocket config = Some p" if "ro = Some p" for p
    using openReadOnlyListener_Some r that by blast
  ultimately show ?thesis
    using assms(2) unfolding l b by (auto simp: gate_base_deps_def split: option.splits)
qed

end
