(* ===== verification/Firewall_Contracts.thy ===== *)
theory Firewall_Contracts
  imports Numbers
begin

text \<open>
  The commands \<open>server.firewall.reconcile\<close> and \<open>server.firewall.confirm\<close> as the daemon
  reads them (\<open>src/contracts/commands-contracts.ts\<close>): address and port literals, the rules and
  the whole payload. A thrown \<open>Error\<close> or \<open>TypeError\<close> is its message.
\<close>

section \<open>Addresses\<close>

definition re_digit :: re where
  "re_digit = RCls is_digit"

definition IPV4_SHAPE_RE :: re where
  "IPV4_SHAPE_RE = RSeq (re_times 3 (RSeq (re_rep 1 3 re_digit) (re_str ''.''))) (re_rep 1 3 re_digit)"

definition re_octet :: re where
  "re_octet = RAlt (re_str ''0'') (RSeq (RCls (\<lambda>c. is_digit c \<and> c \<noteq> CHR ''0'')) (re_upto 2 re_digit))"

definition isValidIpv4Literal :: "string \<Rightarrow> bool" where
  "isValidIpv4Literal v \<longleftrightarrow> re_match IPV4_SHAPE_RE v
     \<and> list_all (\<lambda>octet. re_match re_octet octet \<and> nat_of_digits 10 octet \<le> 255) (split_on (CHR ''.'') v)"

text \<open>\<open>split\<close> at a doubled separator.\<close>

fun split_double :: "char \<Rightarrow> string \<Rightarrow> string list" where
  "split_double c (a # b # s) =
     (if a = c \<and> b = c then [] # split_double c s
      else (case split_double c (b # s) of [] \<Rightarrow> [[a]] | y # ys \<Rightarrow> (a # y) # ys))"
| "split_double c s = [s]"

definition re_hextet :: re where
  "re_hextet = re_rep 1 4 (RCls is_hex)"

fun parse_side_parts :: "string list \<Rightarrow> nat option" where
  "parse_side_parts [] = Some 0"
| "parse_side_parts (part # later) =
     (if CHR ''.'' \<in> set part
      then if later \<noteq> [] \<or> \<not> isValidIpv4Literal part then None
        else map_option (\<lambda>n. n + 2) (parse_side_parts later)
      else if \<not> re_match re_hextet part then None
        else map_option Suc (parse_side_parts later))"

definition parseSide :: "string \<Rightarrow> nat option" where
  "parseSide side = (if side = [] then Some 0 else parse_side_parts (split_on (CHR '':'') side))"

definition isValidIpv6Literal :: "string \<Rightarrow> bool" where
  "isValidIpv6Literal v =
     (if CHR '':'' \<notin> set v \<or> CHR ''%'' \<in> set v \<or> includes_str '':::'' v then False
      else (case split_double (CHR '':'') v of
          [side] \<Rightarrow> parseSide side = Some 8
        | [left, right] \<Rightarrow> (case (parseSide left, parseSide right) of
              (Some l, Some r) \<Rightarrow> l + r < 8
            | _ \<Rightarrow> False)
        | _ \<Rightarrow> False))"

definition isValidWireguardAllowedIp :: "string \<Rightarrow> bool" where
  "isValidWireguardAllowedIp v =
     (let trimmed = js_trim v
      in case last_index_of (CHR ''/'') trimmed of
           None \<Rightarrow> False
         | Some slash \<Rightarrow>
             let addressPart = take slash trimmed; prefixPart = drop (slash + 1) trimmed
             in if slash = 0 \<or> slash = length trimmed - 1 then False
                else if \<not> re_match (re_plus re_digit) prefixPart then False
                else let prefix = nat_of_digits 10 prefixPart
                  in if isValidIpv4Literal addressPart then prefix \<le> 32
                     else if isValidIpv6Literal addressPart then prefix \<le> 128
                     else False)"

subsection \<open>Their values\<close>

definition ipv4ToBigInt :: "string \<Rightarrow> int option" where
  "ipv4ToBigInt v = (if \<not> isValidIpv4Literal v then None
     else Some (fold (\<lambda>octet out. out * 256 + int (nat_of_digits 10 octet)) (split_on (CHR ''.'') v) 0))"

fun expand_parts :: "string list \<Rightarrow> int list option" where
  "expand_parts [] = Some []"
| "expand_parts (part # later) =
     (if CHR ''.'' \<in> set part
      then (case ipv4ToBigInt part of
          None \<Rightarrow> None
        | Some v4 \<Rightarrow> map_option (\<lambda>out. [v4 div 65536, v4 mod 65536] @ out) (expand_parts later))
      else map_option (\<lambda>out. int (nat_of_digits 16 part) # out) (expand_parts later))"

definition expandSide :: "string \<Rightarrow> int list option" where
  "expandSide side = (if side = [] then Some [] else expand_parts (split_on (CHR '':'') side))"

definition ipv6Hextets :: "string \<Rightarrow> int list option" where
  "ipv6Hextets v =
     (let sides = split_double (CHR '':'') v
      in case (expandSide (hd sides), if length sides = 2 then expandSide (sides ! 1) else Some []) of
           (Some left, Some right) \<Rightarrow>
             if length sides = 1 then (if length left = 8 then Some left else None)
             else if length left + length right < 8
             then Some (left @ replicate (8 - length left - length right) 0 @ right) else None
         | _ \<Rightarrow> None)"

definition ipLiteralToBigInt :: "string \<Rightarrow> int option" where
  "ipLiteralToBigInt v =
     (if isValidIpv4Literal v then ipv4ToBigInt v
      else if \<not> isValidIpv6Literal v then None
      else map_option (\<lambda>hextets. fold (\<lambda>hextet out. out * 65536 + hextet) hextets 0) (ipv6Hextets v))"

record parsed_cidr =
  cidr_version :: nat
  cidr_prefix :: nat
  cidr_base :: int
  cidr_last :: int

definition parseCidrLiteral :: "string \<Rightarrow> parsed_cidr option" where
  "parseCidrLiteral v =
     (let trimmed = js_trim v
      in if \<not> isValidWireguardAllowedIp trimmed then None
         else let slash = the (last_index_of (CHR ''/'') trimmed); address = take slash trimmed;
                  prefix = nat_of_digits 10 (drop (slash + 1) trimmed);
                  version = (if isValidIpv4Literal address then 4 else 6)
           in case ipLiteralToBigInt address of
                None \<Rightarrow> None
              | Some raw \<Rightarrow>
                  let hostBits = (if version = 4 then 32 else 128) - prefix;
                      base = raw div 2 ^ hostBits * 2 ^ hostBits
                  in Some \<lparr>cidr_version = version, cidr_prefix = prefix, cidr_base = base,
                       cidr_last = base + 2 ^ hostBits - 1\<rparr>)"

section \<open>Rules\<close>

datatype contract_error = Error string | TypeError string

datatype rule_scope = HostScope | Published
datatype rule_action = Accept | Drop | Reject
datatype rule_proto = Tcp | Udp | AnyProto
datatype rule_origin = SystemRow | DerivedRow | UserRow
datatype firewall_mode = Managed | ObserveOnly | Off

record firewall_rule =
  fr_id :: string
  fr_scope :: rule_scope
  fr_action :: rule_action
  fr_proto :: rule_proto
  fr_origin :: rule_origin
  fr_sources :: "string list"
  fr_ports :: "string option"
  fr_destinations :: "string list option"
  fr_comment :: "string option"

datatype input_default = DefaultAccept | DefaultDrop
datatype ipv6_policy = Mirror | Skip

record firewall_policy =
  pol_inputDefault :: input_default
  pol_ipv6 :: ipv6_policy

record reconcile_payload =
  fp_generation :: int
  fp_mode :: firewall_mode
  fp_policy :: firewall_policy
  fp_rules :: "firewall_rule list"
  fp_controlPlane :: "nat list option"
  fp_sshPorts :: "nat list option"

definition id_char :: "char \<Rightarrow> bool" where
  "id_char c \<longleftrightarrow> is_alnum c \<or> c \<in> set ''_.:-''"

definition comment_char :: "char \<Rightarrow> bool" where
  "comment_char c \<longleftrightarrow> is_alnum c \<or> c \<in> set '' ._:/-''"

definition FIREWALL_RULE_ID_RE :: re where "FIREWALL_RULE_ID_RE = re_rep 1 64 (RCls id_char)"
definition FIREWALL_COMMENT_RE :: re where "FIREWALL_COMMENT_RE = re_rep 1 48 (RCls comment_char)"
definition FIREWALL_MAX_RULES :: nat where "FIREWALL_MAX_RULES = 1024"
definition FIREWALL_MAX_SOURCES :: nat where "FIREWALL_MAX_SOURCES = 256"

definition isValidFirewallPort :: "json option \<Rightarrow> nat option" where
  "isValidFirewallPort v = (case v of
     Some (JNum m e) \<Rightarrow> (case decimal_integer m e of
         Some n \<Rightarrow> if n \<ge> 1 \<and> n \<le> 65535 then Some (nat n) else None
       | None \<Rightarrow> None)
   | _ \<Rightarrow> None)"

text \<open>The pattern is one to five digits, then optionally a dash and one to five digits.\<close>

definition parseFirewallPortRange :: "string \<Rightarrow> (nat \<times> nat) option" where
  "parseFirewallPortRange v =
     (let port = (\<lambda>s. if re_match (re_rep 1 5 re_digit) s then Some (nat_of_digits 10 s) else None);
          range = (\<lambda>f t. if 1 \<le> f \<and> f \<le> 65535 \<and> 1 \<le> t \<and> t \<le> 65535 \<and> f \<le> t then Some (f, t) else None)
      in case split_on (CHR ''-'') (js_trim v) of
           [f] \<Rightarrow> Option.bind (port f) (\<lambda>lo. range lo lo)
         | [f, t] \<Rightarrow> Option.bind (port f) (\<lambda>lo. Option.bind (port t) (range lo))
         | _ \<Rightarrow> None)"

definition parseFirewallAddress :: "json option \<Rightarrow> string option" where
  "parseFirewallAddress v = (case v of
     Some (JStr s) \<Rightarrow>
       let trimmed = js_trim s
       in if trimmed = ''any'' then Some ''any''
          else if isValidIpv4Literal trimmed then Some (trimmed @ ''/32'')
          else if isValidIpv6Literal trimmed then Some (trimmed @ ''/128'')
          else if parseCidrLiteral trimmed \<noteq> None then Some trimmed else None
   | _ \<Rightarrow> None)"

fun js_typeof :: "json option \<Rightarrow> string" where
  "js_typeof None = ''undefined''"
| "js_typeof (Some (JBool _)) = ''boolean''"
| "js_typeof (Some (JNum _ _)) = ''number''"
| "js_typeof (Some (JStr _)) = ''string''"
| "js_typeof (Some _) = ''object''"

fun address_entries :: "string \<Rightarrow> json list \<Rightarrow> string list \<Rightarrow> (contract_error, string list) result" where
  "address_entries name [] out = Inr out"
| "address_entries name (entry # later) out = (case parseFirewallAddress (Some entry) of
     None \<Rightarrow> Inl (Error (name @ '' entry must be \"any\", an IP literal or a CIDR: ''
       @ (case entry of JStr s \<Rightarrow> s | _ \<Rightarrow> js_typeof (Some entry))))
   | Some parsed \<Rightarrow> address_entries name later (if parsed \<in> set out then out else out @ [parsed]))"

definition parseFirewallAddressList :: "json option \<Rightarrow> string \<Rightarrow> bool \<Rightarrow> (contract_error, string list) result" where
  "parseFirewallAddressList v name allowEmpty = (case v of
     Some (JArr entries) \<Rightarrow>
       if \<not> allowEmpty \<and> entries = [] then Inl (Error (name @ '' must name at least one address or \"any\"''))
       else if length entries > FIREWALL_MAX_SOURCES
       then Inl (Error (name @ '' exceeds '' @ digits_of_nat FIREWALL_MAX_SOURCES @ '' entries''))
       else address_entries name entries []
   | _ \<Rightarrow> Inl (TypeError (name @ '' must be an array'')))"

definition rule_field :: "nat \<Rightarrow> string \<Rightarrow> string" where
  "rule_field i name = ''rules['' @ digits_of_nat i @ '']'' @ name"

definition pick :: "(string \<times> 'a) list \<Rightarrow> json option \<Rightarrow> 'a option" where
  "pick table v = (case v of Some (JStr s) \<Rightarrow> map_of table s | _ \<Rightarrow> None)"

definition FIREWALL_SCOPES :: "(string \<times> rule_scope) list" where
  "FIREWALL_SCOPES = [(''host'', HostScope), (''published'', Published)]"
definition FIREWALL_ACTIONS :: "(string \<times> rule_action) list" where
  "FIREWALL_ACTIONS = [(''accept'', Accept), (''drop'', Drop), (''reject'', Reject)]"
definition FIREWALL_PROTOS :: "(string \<times> rule_proto) list" where
  "FIREWALL_PROTOS = [(''tcp'', Tcp), (''udp'', Udp), (''any'', AnyProto)]"
definition FIREWALL_ORIGINS :: "(string \<times> rule_origin) list" where
  "FIREWALL_ORIGINS = [(''system'', SystemRow), (''derived'', DerivedRow), (''user'', UserRow)]"
definition FIREWALL_MODES :: "(string \<times> firewall_mode) list" where
  "FIREWALL_MODES = [(''managed'', Managed), (''observe'', ObserveOnly), (''off'', Off)]"

definition or_error :: "contract_error \<Rightarrow> 'a option \<Rightarrow> (contract_error, 'a) result" where
  "or_error e v = (case v of None \<Rightarrow> Inl e | Some x \<Rightarrow> Inr x)"

definition pattern_string :: "re \<Rightarrow> json option \<Rightarrow> string option" where
  "pattern_string pattern v = (case v of Some (JStr s) \<Rightarrow> if re_match pattern s then Some s else None | _ \<Rightarrow> None)"

definition parseFirewallRuleHead ::
  "fields \<Rightarrow> nat \<Rightarrow> (contract_error, string \<times> rule_scope \<times> rule_action \<times> rule_proto \<times> rule_origin) result" where
  "parseFirewallRuleHead v i =
     rbind (or_error (Error (rule_field i ''.id must match /^[A-Za-z0-9_.:-]{1,64}$/''))
       (pattern_string FIREWALL_RULE_ID_RE (obj_get v ''id''))) (\<lambda>ident.
     rbind (or_error (Error (rule_field i ''.scope must be host or published''))
       (pick FIREWALL_SCOPES (obj_get v ''scope''))) (\<lambda>scope.
     rbind (or_error (Error (rule_field i ''.action must be accept, drop or reject''))
       (pick FIREWALL_ACTIONS (obj_get v ''action''))) (\<lambda>action.
     rbind (or_error (Error (rule_field i ''.proto must be tcp, udp or any''))
       (pick FIREWALL_PROTOS (obj_get v ''proto''))) (\<lambda>proto.
     rbind (or_error (Error (rule_field i ''.origin must be system, derived or user''))
       (pick FIREWALL_ORIGINS (obj_get v ''origin''))) (\<lambda>origin.
       Inr (ident, scope, action, proto, origin))))))"

definition range_text :: "string \<Rightarrow> nat \<times> nat \<Rightarrow> string" where
  "range_text sep r = (if fst r = snd r then digits_of_nat (fst r)
     else digits_of_nat (fst r) @ sep @ digits_of_nat (snd r))"

definition parseFirewallRulePorts ::
  "json option \<Rightarrow> rule_action \<Rightarrow> rule_proto \<Rightarrow> nat \<Rightarrow> (contract_error, string option) result" where
  "parseFirewallRulePorts v action proto i = (case v of
     None \<Rightarrow> if action = Accept then Inl (Error (rule_field i ''.ports is required on an accept rule'')) else Inr None
   | Some (JStr s) \<Rightarrow> (case parseFirewallPortRange s of
         None \<Rightarrow> Inl (Error (rule_field i ''.ports must be a port or an ascending range 1-65535''))
       | Some bounds \<Rightarrow> if proto = AnyProto then Inl (Error (rule_field i ''.ports requires proto tcp or udp''))
           else Inr (Some (range_text ''-'' bounds)))
   | Some _ \<Rightarrow> Inl (TypeError (rule_field i ''.ports must be a string'')))"

definition parseFirewallRuleDestinations ::
  "json option \<Rightarrow> nat \<Rightarrow> (contract_error, string list option) result" where
  "parseFirewallRuleDestinations v i = (if v = None then Inr None
     else rbind (parseFirewallAddressList v (rule_field i ''.destinations'') True) (\<lambda>destinations.
       if ''any'' \<in> set destinations
       then Inl (Error (rule_field i ''.destinations lists addresses, not \"any\" (omit it instead)''))
       else Inr (if destinations \<noteq> [] then Some destinations else None)))"

definition parseFirewallRuleComment :: "json option \<Rightarrow> nat \<Rightarrow> (contract_error, string option) result" where
  "parseFirewallRuleComment v i = (if v = None then Inr None
     else rbind (or_error (Error (rule_field i ''.comment must be 1-48 chars of letters, digits, space . _ : / -''))
       (pattern_string FIREWALL_COMMENT_RE v)) (\<lambda>s. Inr (Some s)))"

definition parseFirewallRule :: "json \<Rightarrow> nat \<Rightarrow> (contract_error, firewall_rule) result" where
  "parseFirewallRule v i = (case v of
     JObj fs \<Rightarrow>
       rbind (parseFirewallRuleHead fs i) (\<lambda>(ident, scope, action, proto, origin).
       rbind (parseFirewallAddressList (obj_get fs ''sources'') (rule_field i ''.sources'') False) (\<lambda>sources.
       rbind (parseFirewallRulePorts (obj_get fs ''ports'') action proto i) (\<lambda>ports.
       rbind (parseFirewallRuleDestinations (obj_get fs ''destinations'') i) (\<lambda>destinations.
       rbind (parseFirewallRuleComment (obj_get fs ''comment'') i) (\<lambda>comment.
         Inr \<lparr>fr_id = ident, fr_scope = scope, fr_action = action, fr_proto = proto, fr_origin = origin,
           fr_sources = sources, fr_ports = ports, fr_destinations = destinations, fr_comment = comment\<rparr>)))))
   | _ \<Rightarrow> Inl (Error (rule_field i '' must be an object'')))"

section \<open>The payloads\<close>

fun port_entries :: "string \<Rightarrow> json list \<Rightarrow> nat list \<Rightarrow> (contract_error, nat list) result" where
  "port_entries name [] out = Inr out"
| "port_entries name (entry # later) out = (case isValidFirewallPort (Some entry) of
     None \<Rightarrow> Inl (Error (name @ '' entries must be integers 1-65535''))
   | Some port \<Rightarrow> port_entries name later (if port \<in> set out then out else out @ [port]))"

definition parseFirewallPortList :: "json option \<Rightarrow> string \<Rightarrow> (contract_error, nat list) result" where
  "parseFirewallPortList v name = (case v of
     Some (JArr entries) \<Rightarrow> rbind (port_entries name entries []) (\<lambda>out. Inr (sort out))
   | _ \<Rightarrow> Inl (TypeError (name @ '' must be an array of ports'')))"

definition parseFirewallPolicy :: "json option \<Rightarrow> (contract_error, firewall_policy) result" where
  "parseFirewallPolicy v = (case v of
     Some (JObj fs) \<Rightarrow>
       rbind (or_error (Error ''policy.inputDefault must be accept or drop'')
         (pick [(''accept'', DefaultAccept), (''drop'', DefaultDrop)] (obj_get fs ''inputDefault''))) (\<lambda>inputDefault.
       rbind (or_error (Error ''policy.ipv6 must be mirror or skip'')
         (pick [(''mirror'', Mirror), (''skip'', Skip)] (obj_get fs ''ipv6''))) (\<lambda>ipv6.
         Inr \<lparr>pol_inputDefault = inputDefault, pol_ipv6 = ipv6\<rparr>))
   | _ \<Rightarrow> Inl (Error ''policy must be an object''))"

fun parse_rules_from :: "nat \<Rightarrow> json list \<Rightarrow> (contract_error, firewall_rule list) result" where
  "parse_rules_from i [] = Inr []"
| "parse_rules_from i (v # vs) = rbind (parseFirewallRule v i) (\<lambda>r.
     rbind (parse_rules_from (Suc i) vs) (\<lambda>rs. Inr (r # rs)))"

fun first_repeated :: "string set \<Rightarrow> string list \<Rightarrow> string option" where
  "first_repeated seen [] = None"
| "first_repeated seen (x # xs) = (if x \<in> seen then Some x else first_repeated (insert x seen) xs)"

definition parseFirewallRules :: "json option \<Rightarrow> (contract_error, firewall_rule list) result" where
  "parseFirewallRules v = (case v of
     Some (JArr entries) \<Rightarrow>
       if length entries > FIREWALL_MAX_RULES
       then Inl (Error (''rules exceeds '' @ digits_of_nat FIREWALL_MAX_RULES @ '' entries''))
       else rbind (parse_rules_from 0 entries) (\<lambda>rules.
         (case first_repeated {} (map fr_id rules) of
            Some ident \<Rightarrow> Inl (Error (''rules contains id '' @ ident @ '' more than once''))
          | None \<Rightarrow> Inr rules))
   | _ \<Rightarrow> Inl (TypeError ''rules must be an array''))"

definition natural_number :: "json option \<Rightarrow> int option" where
  "natural_number v = (case v of
     Some (JNum m e) \<Rightarrow> (case decimal_integer m e of Some n \<Rightarrow> if n \<ge> 0 then Some n else None | None \<Rightarrow> None)
   | _ \<Rightarrow> None)"

definition parseFirewallReconcilePayload :: "json option \<Rightarrow> (contract_error, reconcile_payload) result" where
  "parseFirewallReconcilePayload v = (case v of
     Some (JObj fs) \<Rightarrow>
       rbind (or_error (Error ''generation must be a non-negative integer'')
         (natural_number (obj_get fs ''generation''))) (\<lambda>generation.
       rbind (or_error (Error ''mode must be managed, observe or off'') (pick FIREWALL_MODES (obj_get fs ''mode''))) (\<lambda>mode.
       rbind (parseFirewallPolicy (obj_get fs ''policy'')) (\<lambda>policy.
       rbind (parseFirewallRules (obj_get fs ''rules'')) (\<lambda>rules.
       rbind (case obj_get fs ''controlPlane'' of
           None \<Rightarrow> Inr None
         | Some (JObj cp) \<Rightarrow> rbind (parseFirewallPortList (obj_get cp ''tcpPorts'') ''controlPlane.tcpPorts'')
             (\<lambda>ports. Inr (Some ports))
         | Some _ \<Rightarrow> Inl (Error ''controlPlane must be an object'')) (\<lambda>controlPlane.
       rbind (case obj_get fs ''sshPorts'' of
           None \<Rightarrow> Inr None
         | ports \<Rightarrow> rbind (parseFirewallPortList ports ''sshPorts'') (\<lambda>ports. Inr (Some ports))) (\<lambda>sshPorts.
         Inr \<lparr>fp_generation = generation, fp_mode = mode, fp_policy = policy, fp_rules = rules,
           fp_controlPlane = controlPlane, fp_sshPorts = sshPorts\<rparr>))))))
   | _ \<Rightarrow> Inl (Error ''Invalid firewall reconcile payload''))"

definition FIREWALL_DIGEST_RE :: re where
  "FIREWALL_DIGEST_RE = re_times 64 (RCls (\<lambda>c. is_digit c \<or> c \<in> set ''abcdef''))"

definition parseFirewallConfirmPayload :: "json option \<Rightarrow> (contract_error, string) result" where
  "parseFirewallConfirmPayload v = (case v of
     Some (JObj fs) \<Rightarrow> or_error (Error ''digest must be a lower-case sha256 hex string'')
       (pattern_string FIREWALL_DIGEST_RE (obj_get fs ''digest''))
   | _ \<Rightarrow> Inl (Error ''Invalid firewall confirm payload''))"

end
