(* ===== verification/Firewall_Render.thy ===== *)
theory Firewall_Render
  imports Firewall_Contracts
begin

text \<open>
  The renderer of the host firewall (\<open>src/firewall/render.ts\<close>): a reconcile payload becomes the
  documents \<open>iptables-restore\<close> and \<open>ip6tables-restore\<close> load. SHA-256 (as lower-case hex) is the
  argument \<open>sha256hex\<close>. A port range that does not parse makes the source throw; the rules
  that the contract parser returns have none (\<open>parsed_ports_range\<close>).
\<close>

datatype family = V4 | V6

definition FIREWALL_INPUT_CHAIN :: string where "FIREWALL_INPUT_CHAIN = ''TP-INPUT''"
definition FIREWALL_FORWARD_CHAIN :: string where "FIREWALL_FORWARD_CHAIN = ''TP-FWD''"
definition CONTAINER_INGRESS_INTERFACES :: "string list" where
  "CONTAINER_INGRESS_INTERFACES = [''docker0'', ''br-+'', ''tp0'']"

record render_input =
  ri_payload :: reconcile_payload
  ri_sshPorts :: "nat list"
  ri_includeForward :: "family \<Rightarrow> bool"

record rendered_firewall =
  rf_v4 :: string
  rf_v6 :: "string option"
  rf_digest :: string
  rf_ruleCount :: nat
  rf_guaranteedTcpPorts :: "nat list"
  rf_sshPorts :: "nat list"
  rf_warnings :: "string list"

section \<open>Parts of a line\<close>

definition origin_text :: "rule_origin \<Rightarrow> string" where
  "origin_text origin = (case origin of SystemRow \<Rightarrow> ''system'' | DerivedRow \<Rightarrow> ''derived'' | UserRow \<Rightarrow> ''user'')"

definition commentFor :: "firewall_rule \<Rightarrow> string" where
  "commentFor r =
     (let label = (case fr_comment r of None \<Rightarrow> [] | Some c \<Rightarrow> if c = [] then [] else '' '' @ c)
      in ''-m comment --comment \"tp:'' @ origin_text (fr_origin r) @ '':'' @ fr_id r @ label @ ''\"'')"

definition systemComment :: "string \<Rightarrow> string" where
  "systemComment label = ''-m comment --comment \"tp:system:'' @ label @ ''\"''"

definition familyOf :: "string \<Rightarrow> family" where
  "familyOf literal =
     (let address = (case last_index_of (CHR ''/'') literal of None \<Rightarrow> literal | Some slash \<Rightarrow> take slash literal)
      in if isValidIpv4Literal address then V4 else V6)"

definition sourcesFor :: "firewall_rule \<Rightarrow> family \<Rightarrow> string option list" where
  "sourcesFor r family = (if ''any'' \<in> set (fr_sources r) then [None]
     else map Some (filter (\<lambda>src. familyOf src = family) (fr_sources r)))"

definition destinationsFor :: "firewall_rule \<Rightarrow> family \<Rightarrow> string option list" where
  "destinationsFor r family = (case fr_destinations r of
     None \<Rightarrow> [None]
   | Some ds \<Rightarrow> if ds = [] then [None] else map Some (filter (\<lambda>d. familyOf d = family) ds))"

definition protoArgs :: "firewall_rule \<Rightarrow> string" where
  "protoArgs r = (case fr_proto r of AnyProto \<Rightarrow> [] | Tcp \<Rightarrow> ''-p tcp'' | Udp \<Rightarrow> ''-p udp'')"

definition named_ports :: "firewall_rule \<Rightarrow> string option" where
  "named_ports r = (case fr_ports r of None \<Rightarrow> None
     | Some s \<Rightarrow> if s = [] then None else Some (range_text '':'' (the (parseFirewallPortRange s))))"

definition hostPortArgs :: "firewall_rule \<Rightarrow> string" where
  "hostPortArgs r = (case named_ports r of None \<Rightarrow> [] | Some t \<Rightarrow> ''--dport '' @ t)"

definition publishedMatchArgs :: "firewall_rule \<Rightarrow> string option \<Rightarrow> string" where
  "publishedMatchArgs r dest =
     (let parts = (case named_ports r of None \<Rightarrow> [] | Some t \<Rightarrow> [''--ctorigdstport '' @ t])
        @ (case dest of None \<Rightarrow> [] | Some d \<Rightarrow> [''--ctorigdst '' @ d])
      in if parts = [] then [] else ''-m conntrack '' @ join_with '' '' parts)"

definition targetFor :: "firewall_rule \<Rightarrow> family \<Rightarrow> string" where
  "targetFor r family = (case fr_action r of
     Accept \<Rightarrow> ''ACCEPT''
   | Drop \<Rightarrow> ''DROP''
   | Reject \<Rightarrow> if fr_proto r = Tcp then ''REJECT --reject-with tcp-reset''
       else if family = V4 then ''REJECT --reject-with icmp-port-unreachable''
       else ''REJECT --reject-with icmp6-port-unreachable'')"

definition joinArgs :: "string list \<Rightarrow> string" where
  "joinArgs parts = join_with '' '' (filter (\<lambda>part. part \<noteq> []) parts)"

definition opt_arg :: "string \<Rightarrow> string option \<Rightarrow> string" where
  "opt_arg flag v = (case v of None \<Rightarrow> [] | Some s \<Rightarrow> flag @ s)"

section \<open>Rules\<close>

definition host_line :: "firewall_rule \<Rightarrow> string option \<Rightarrow> string option \<Rightarrow> string \<Rightarrow> string" where
  "host_line r src dest target =
     joinArgs [''-A '' @ FIREWALL_INPUT_CHAIN, opt_arg ''-s '' src, opt_arg ''-d '' dest, protoArgs r,
       hostPortArgs r, commentFor r, ''-j '' @ target]"

definition renderHostRule :: "firewall_rule \<Rightarrow> family \<Rightarrow> string list" where
  "renderHostRule r family =
     concat (map (\<lambda>dest. map (\<lambda>src. host_line r src dest (targetFor r family)) (sourcesFor r family))
       (destinationsFor r family))"

definition published_line :: "firewall_rule \<Rightarrow> string option \<Rightarrow> string option \<Rightarrow> string \<Rightarrow> string" where
  "published_line r src dest target =
     joinArgs [''-A '' @ FIREWALL_FORWARD_CHAIN, opt_arg ''-s '' src, protoArgs r, publishedMatchArgs r dest,
       commentFor r, ''-j '' @ target]"

definition renderPublishedRule :: "firewall_rule \<Rightarrow> family \<Rightarrow> string list" where
  "renderPublishedRule r family =
     (let destinations = destinationsFor r family
      in if destinations = [] then []
         else if fr_action r = Accept then
           (if ''any'' \<in> set (fr_sources r) then []
            else concat (map (\<lambda>dest.
              map (\<lambda>src. published_line r src dest ''RETURN'') (sourcesFor r family)
              @ [published_line r None dest ''DROP'']) destinations))
         else concat (map (\<lambda>dest.
           map (\<lambda>src. published_line r src dest (targetFor r family)) (sourcesFor r family)) destinations))"

definition port_line :: "nat \<Rightarrow> string" where
  "port_line port = ''-A '' @ FIREWALL_INPUT_CHAIN @ '' -p tcp --dport '' @ digits_of_nat port @ '' ''
     @ systemComment (''tcp-'' @ digits_of_nat port) @ '' -j ACCEPT''"

definition inputInvariants :: "family \<Rightarrow> nat list \<Rightarrow> string list" where
  "inputInvariants family guaranteedTcpPorts =
     (let c = FIREWALL_INPUT_CHAIN
      in [''-A '' @ c @ '' -i lo '' @ systemComment ''loopback'' @ '' -j ACCEPT'',
          ''-A '' @ c @ '' -m conntrack --ctstate ESTABLISHED,RELATED '' @ systemComment ''established'' @ '' -j ACCEPT'']
         @ (case family of
              V4 \<Rightarrow> [''-A '' @ c @ '' -p icmp '' @ systemComment ''icmp'' @ '' -j ACCEPT'',
                ''-A '' @ c @ '' -p udp --sport 67 --dport 68 '' @ systemComment ''dhcp'' @ '' -j ACCEPT'']
            | V6 \<Rightarrow> [''-A '' @ c @ '' -p ipv6-icmp '' @ systemComment ''icmpv6'' @ '' -j ACCEPT'',
                ''-A '' @ c @ '' -p udp --sport 547 --dport 546 '' @ systemComment ''dhcpv6'' @ '' -j ACCEPT''])
         @ map port_line guaranteedTcpPorts)"

definition forwardPrefix :: "string list" where
  "forwardPrefix =
     (let c = FIREWALL_FORWARD_CHAIN
      in (''-A '' @ c @ '' -m conntrack --ctstate ESTABLISHED,RELATED '' @ systemComment ''established'' @ '' -j RETURN'')
         # map (\<lambda>iface. ''-A '' @ c @ '' -i '' @ iface @ '' '' @ systemComment ''container-egress'' @ '' -j RETURN'')
             CONTAINER_INGRESS_INTERFACES)"

definition orderedRules :: "firewall_rule list \<Rightarrow> firewall_rule list" where
  "orderedRules rules = filter (\<lambda>r. fr_action r \<noteq> Accept) rules @ filter (\<lambda>r. fr_action r = Accept) rules"

section \<open>Documents\<close>

definition scoped :: "render_input \<Rightarrow> rule_scope \<Rightarrow> firewall_rule list" where
  "scoped input scope = orderedRules (filter (\<lambda>r. fr_scope r = scope) (fp_rules (ri_payload input)))"

text \<open>The lines of one family's document, between \<open>*filter\<close> and \<open>COMMIT\<close>.\<close>

definition default_lines :: "render_input \<Rightarrow> string list" where
  "default_lines input = (if pol_inputDefault (fp_policy (ri_payload input)) = DefaultDrop
     then [''-A '' @ FIREWALL_INPUT_CHAIN @ '' '' @ systemComment ''default'' @ '' -j DROP''] else [])"

definition family_lines :: "render_input \<Rightarrow> family \<Rightarrow> nat list \<Rightarrow> string list" where
  "family_lines input family guaranteedTcpPorts =
     [''*filter'', '':'' @ FIREWALL_INPUT_CHAIN @ '' - [0:0]'']
     @ (if ri_includeForward input family then ['':'' @ FIREWALL_FORWARD_CHAIN @ '' - [0:0]''] else [])
     @ inputInvariants family guaranteedTcpPorts
     @ concat (map (\<lambda>r. renderHostRule r family) (scoped input HostScope))
     @ default_lines input
     @ (if ri_includeForward input family
        then forwardPrefix @ concat (map (\<lambda>r. renderPublishedRule r family) (scoped input Published)) else [])
     @ [''COMMIT'']"

definition add_rendered :: "(firewall_rule \<Rightarrow> string list) \<Rightarrow> firewall_rule list \<Rightarrow> string list \<Rightarrow> string list" where
  "add_rendered render rules seen =
     fold (\<lambda>r seen. if render r \<noteq> [] \<and> fr_id r \<notin> set seen then seen @ [fr_id r] else seen) rules seen"

definition renderFamily :: "render_input \<Rightarrow> family \<Rightarrow> nat list \<Rightarrow> string list \<Rightarrow> string \<times> string list" where
  "renderFamily input family guaranteedTcpPorts seen =
     (join_with [CHR 0x0A] (family_lines input family guaranteedTcpPorts) @ [CHR 0x0A],
      let seen1 = add_rendered (\<lambda>r. renderHostRule r family) (scoped input HostScope) seen
      in if ri_includeForward input family
         then add_rendered (\<lambda>r. renderPublishedRule r family) (scoped input Published) seen1 else seen1)"

definition unrendered_warnings :: "render_input \<Rightarrow> string list \<Rightarrow> string list" where
  "unrendered_warnings input seen = concat (map (\<lambda>r.
     if fr_id r \<in> set seen then []
     else if fr_scope r = Published \<and> \<not> ri_includeForward input V4
     then [''rule '' @ fr_id r @ '' targets a published port but DOCKER-USER is absent; deferred until dockerd creates it'']
     else if fr_scope r = Published \<and> fr_action r = Accept \<and> ''any'' \<in> set (fr_sources r) then []
     else [''rule '' @ fr_id r
       @ '' rendered no line (every source or destination is of a family this ruleset does not cover)''])
     (fp_rules (ri_payload input)))"

definition effective_ssh :: "nat list \<Rightarrow> nat list" where
  "effective_ssh ports = (if ports = [] then [22] else sort (remdups ports))"

definition guaranteed_ports :: "render_input \<Rightarrow> nat list" where
  "guaranteed_ports input = sort (remdups (effective_ssh (ri_sshPorts input)
     @ (case fp_controlPlane (ri_payload input) of None \<Rightarrow> [] | Some ports \<Rightarrow> ports)))"

definition renderFirewall :: "(string \<Rightarrow> string) \<Rightarrow> render_input \<Rightarrow> rendered_firewall" where
  "renderFirewall sha256hex input =
     (let guaranteedTcpPorts = guaranteed_ports input;
          (v4, seen4) = renderFamily input V4 guaranteedTcpPorts [];
          (v6, seen) = (if pol_ipv6 (fp_policy (ri_payload input)) = Mirror
             then (case renderFamily input V6 guaranteedTcpPorts seen4 of (d, s) \<Rightarrow> (Some d, s)) else (None, seen4))
      in \<lparr>rf_v4 = v4, rf_v6 = v6,
          rf_digest = sha256hex (v4 @ [CHR 0x0A] @ (case v6 of None \<Rightarrow> [] | Some d \<Rightarrow> d)),
          rf_ruleCount = length seen, rf_guaranteedTcpPorts = guaranteedTcpPorts,
          rf_sshPorts = effective_ssh (ri_sshPorts input),
          rf_warnings = (if ri_sshPorts input = []
             then [''no sshd port was detected or supplied; port 22 is kept open as the invariant''] else [])
            @ unrendered_warnings input seen\<rparr>)"

end
