(* ===== verification/Text_Laws.thy ===== *)
theory Text_Laws
  imports Text_Encoding
begin

text \<open>
  Laws of the text functions that several components use: trimmed text is stable, and what is cut out
  of valid UTF-8 at an ASCII character or a space is valid again.
\<close>

section \<open>Trimming\<close>

definition visible :: "char \<Rightarrow> bool" where
  "visible c \<longleftrightarrow> 33 \<le> code c \<and> code c < 128"

lemma js_spaces_invisible: "list_all (\<lambda>w. w \<noteq> [] \<and> \<not> visible (hd w) \<and> \<not> visible (last w)) js_spaces"
  by (simp add: js_spaces_def upt_rec visible_def)

lemma strip_one_Some: "strip_one ws s = Some t \<Longrightarrow> \<exists>w \<in> set ws. s = w @ t"
proof -
  assume "strip_one ws s = Some t"
  then obtain w where "w \<in> set (filter (\<lambda>w. starts_with w s) ws)" "t = drop (length w) s"
    unfolding strip_one_def by (metis (no_types, lifting) list.case_eq_if list.set_sel(1) option.distinct(1) option.inject)
  then show ?thesis by (auto simp: starts_with_def) (metis append_take_drop_id)
qed

lemma strip_one_None: "strip_one ws s = None \<longleftrightarrow> (\<forall>w \<in> set ws. \<not> starts_with w s)"
  by (cases "filter (\<lambda>w. starts_with w s) ws") (auto simp: strip_one_def filter_empty_conv dest: filter_eq_ConsD)

lemma strip_fuel_parts:
  assumes "[] \<notin> set ws"
  shows "length s \<le> n \<Longrightarrow> strip_one ws (strip_fuel n ws s) = None \<and> (\<exists>qs. set qs \<subseteq> set ws \<and> s = concat qs @ strip_fuel n ws s)"
proof (induction n arbitrary: s)
  case 0
  then show ?case using assms by (auto simp: strip_one_None starts_with_def intro: exI [of _ "[]"])
next
  case (Suc n)
  show ?case
  proof (cases "strip_one ws s")
    case None
    then show ?thesis by (auto intro: exI [of _ "[]"])
  next
    case (Some t)
    then obtain w where w: "w \<in> set ws" "s = w @ t" using strip_one_Some by blast
    then have "w \<noteq> []" using assms by metis
    then have "length t \<le> n" using Suc.prems w(2) by (cases w) auto
    from Suc.IH [OF this] obtain qs where qs: "set qs \<subseteq> set ws" "t = concat qs @ strip_fuel n ws t"
        "strip_one ws (strip_fuel n ws t) = None" by blast
    then have "s = concat (w # qs) @ strip_fuel n ws t" "set (w # qs) \<subseteq> set ws" using w by simp_all
    then show ?thesis using Some qs(3) by (auto intro!: exI [of _ "w # qs"])
  qed
qed

lemma strip_left_parts:
  assumes "[] \<notin> set ws"
  obtains qs where "set qs \<subseteq> set ws" "s = concat qs @ strip_left ws s" "strip_one ws (strip_left ws s) = None"
  using strip_fuel_parts [OF assms, of s "length s"] unfolding strip_left_def by blast

lemma strip_left_none: "strip_one ws s = None \<Longrightarrow> strip_left ws s = s"
  by (cases "length s") (simp_all add: strip_left_def)

lemma js_spaces_ne: "[] \<notin> set js_spaces" "[] \<notin> set (map rev js_spaces)"
  by (auto simp: js_spaces_def)

lemma js_trim_parts:
  obtains as bs where "set as \<subseteq> set js_spaces" "set bs \<subseteq> set js_spaces" "s = concat as @ js_trim s @ concat bs"
    "strip_one js_spaces (js_trim s) = None" "strip_one (map rev js_spaces) (rev (js_trim s)) = None"
proof -
  let ?l = "strip_left js_spaces s"
  obtain as where as: "set as \<subseteq> set js_spaces" "s = concat as @ ?l" "strip_one js_spaces ?l = None"
    using strip_left_parts [OF js_spaces_ne(1)] .
  obtain qs where qs: "set qs \<subseteq> set (map rev js_spaces)" "rev ?l = concat qs @ strip_left (map rev js_spaces) (rev ?l)"
      "strip_one (map rev js_spaces) (strip_left (map rev js_spaces) (rev ?l)) = None"
    using strip_left_parts [OF js_spaces_ne(2)] .
  let ?bs = "rev (map rev qs)"
  have l: "?l = js_trim s @ concat ?bs"
    using qs(2) by (metis js_trim_def rev_append rev_concat rev_rev_ident rev_map)
  moreover have "set ?bs \<subseteq> set js_spaces" using qs(1) by auto
  moreover have "strip_one js_spaces (js_trim s) = None"
    using as(3) unfolding l by (auto simp: strip_one_None starts_with_iff)
  moreover have "strip_one (map rev js_spaces) (rev (js_trim s)) = None" using qs(3) by (simp add: js_trim_def)
  ultimately show ?thesis using that as(1,2) by metis
qed

lemma js_trim_idem [simp]: "js_trim (js_trim s) = js_trim s"
proof -
  obtain as bs where "strip_one js_spaces (js_trim s) = None" "strip_one (map rev js_spaces) (rev (js_trim s)) = None"
    using js_trim_parts [of s] by metis
  then have "strip_left js_spaces (js_trim s) = js_trim s"
      "strip_left (map rev js_spaces) (rev (js_trim s)) = rev (js_trim s)"
    by (simp_all only: strip_left_none)
  then show ?thesis by (simp add: js_trim_def [of "js_trim s"])
qed

lemma js_trim_visible:
  assumes "s \<noteq> []" "visible (hd s)" "visible (last s)"
  shows "js_trim s = s"
proof -
  have sp: "w \<noteq> []" "\<not> visible (hd w)" "\<not> visible (last w)" if "w \<in> set js_spaces" for w
    using js_spaces_invisible that by (auto simp: list_all_iff)
  have "\<not> starts_with w s" if "w \<in> set js_spaces" for w
    using sp [OF that] assms by (auto simp: starts_with_iff)
  moreover have "\<not> starts_with (rev w) (rev s)" if "w \<in> set js_spaces" for w
  proof
    assume "starts_with (rev w) (rev s)"
    then obtain r where "rev s = rev w @ r" by (auto simp: starts_with_iff)
    then have "s = rev r @ w" by (metis rev_append rev_rev_ident)
    then show False using sp [OF that] assms by simp
  qed
  ultimately show ?thesis by (simp add: js_trim_def strip_left_none strip_one_None)
qed

section \<open>Validity\<close>

lemma utf8_first:
  assumes "utf8_valid s" "s \<noteq> []"
  obtains w t where "s = w @ t" "w \<noteq> []" "\<forall>c \<in> set (tl w). 128 \<le> code c \<and> code c \<le> 191" "\<And>r. utf8_valid (w @ r) = utf8_valid r"
proof -
  obtain a s1 where s: "s = a # s1" using assms(2) by (cases s) auto
  consider (one) "code a < 128" | (two) "\<not> code a < 128" "byte_in 194 223 a"
    | (three) "\<not> code a < 128" "\<not> byte_in 194 223 a" "byte_in 224 239 a"
    | (four) "\<not> code a < 128" "\<not> byte_in 194 223 a" "\<not> byte_in 224 239 a" "byte_in 240 244 a"
    | (bad) "\<not> code a < 128" "\<not> byte_in 194 223 a" "\<not> byte_in 224 239 a" "\<not> byte_in 240 244 a"
    by blast
  then show ?thesis
  proof cases
    case one
    then show ?thesis using that [of "[a]" s1] s by simp
  next
    case two
    then obtain b t where "s1 = b # t" "byte_in 128 191 b" using assms(1) s by (auto split: list.splits)
    then show ?thesis using that [of "[a, b]" t] two s by (simp add: byte_in_code)
  next
    case three
    then obtain b c t where b: "s1 = b # c # t" "byte_in 128 191 c"
        "byte_in (if code a = 224 then 160 else 128) (if code a = 237 then 159 else 191) b"
      using assms(1) s by (auto split: list.splits)
    then have "128 \<le> code b \<and> code b \<le> 191" by (auto simp: byte_in_code split: if_splits)
    then show ?thesis using that [of "[a, b, c]" t] three s b by (simp add: byte_in_code)
  next
    case four
    then obtain b c d t where b: "s1 = b # c # d # t" "byte_in 128 191 c" "byte_in 128 191 d"
        "byte_in (if code a = 240 then 144 else 128) (if code a = 244 then 143 else 191) b"
      using assms(1) s by (auto split: list.splits)
    then have "128 \<le> code b \<and> code b \<le> 191" by (auto simp: byte_in_code split: if_splits)
    then show ?thesis using that [of "[a, b, c, d]" t] four s b by (simp add: byte_in_code)
  next
    case bad
    then show ?thesis using assms(1) s by simp
  qed
qed

lemma utf8_valid_append: "utf8_valid a \<Longrightarrow> utf8_valid (a @ b) = utf8_valid b"
proof (induction "length a" arbitrary: a rule: less_induct)
  case less
  show ?case
  proof (cases "a = []")
    case False
    from utf8_first [OF less.prems this] obtain w t where
      w: "a = w @ t" "w \<noteq> []" "\<And>r. utf8_valid (w @ r) = utf8_valid r" by metis
    then show ?thesis using less.hyps [of t] less.prems by simp
  qed simp
qed

lemma utf8_valid_before:
  assumes "b = [] \<or> code (hd b) < 128 \<or> 192 \<le> code (hd b)"
  shows "utf8_valid (a @ b) \<Longrightarrow> utf8_valid a"
proof (induction "length a" arbitrary: a rule: less_induct)
  case less
  show ?case
  proof (cases "a = []")
    case False
    then have "a @ b \<noteq> []" by simp
    from utf8_first [OF less.prems this] obtain w t where
      w: "a @ b = w @ t" "w \<noteq> []" "\<forall>c \<in> set (tl w). 128 \<le> code c \<and> code c \<le> 191" "\<And>r. utf8_valid (w @ r) = utf8_valid r" by metis
    from w(1) consider (in_a) us where "a = w @ us" "us @ b = t" | (over) us where "a @ us = w" "b = us @ t" "us \<noteq> []"
      unfolding append_eq_append_conv2 by force
    then show ?thesis
    proof cases
      case in_a
      then show ?thesis using w(2,4) less by simp
    next
      case over
      then have "hd b \<in> set (tl w)" using False by (cases a) auto
      then have "128 \<le> code (hd b) \<and> code (hd b) \<le> 191" using w(3) by blast
      moreover have "b \<noteq> []" using over by simp
      ultimately show ?thesis using assms by linarith
    qed
  qed simp
qed

lemma js_space_valid: "w \<in> set js_spaces \<Longrightarrow> utf8_valid w \<and> w \<noteq> [] \<and> (code (hd w) < 128 \<or> 192 \<le> code (hd w))"
proof -
  have "list_all (\<lambda>w. utf8_valid w \<and> w \<noteq> [] \<and> (code (hd w) < 128 \<or> 192 \<le> code (hd w))) js_spaces"
    by (simp add: js_spaces_def upt_rec byte_in_code)
  then show "w \<in> set js_spaces \<Longrightarrow> ?thesis" by (auto simp: list_all_iff)
qed

lemma js_spaces_valid:
  assumes "set ws \<subseteq> set js_spaces"
  shows "utf8_valid (concat ws)" "concat ws = [] \<or> code (hd (concat ws)) < 128 \<or> 192 \<le> code (hd (concat ws))"
  using assms js_space_valid by (induction ws) (auto simp: utf8_valid_append)

lemma utf8_valid_trim: "utf8_valid s \<Longrightarrow> utf8_valid (js_trim s)"
proof -
  assume v: "utf8_valid s"
  obtain as bs where "set as \<subseteq> set js_spaces" "set bs \<subseteq> set js_spaces" "s = concat as @ js_trim s @ concat bs"
    using js_trim_parts [of s] by metis
  with v show ?thesis
    using utf8_valid_append [OF js_spaces_valid(1)] utf8_valid_before [OF js_spaces_valid(2)] by metis
qed

lemma utf8_valid_cut: "utf8_valid (a @ c # b) \<Longrightarrow> code c < 128 \<Longrightarrow> utf8_valid a \<and> utf8_valid b"
proof -
  assume v: "utf8_valid (a @ c # b)" and c: "code c < 128"
  then have "utf8_valid a" using utf8_valid_before [of "c # b" a] by simp
  then show ?thesis using utf8_valid_append [of a "c # b"] v c by simp
qed

lemma utf8_valid_split:
  assumes "code c < 128"
  shows "utf8_valid s \<Longrightarrow> p \<in> set (split_on c s) \<Longrightarrow> utf8_valid p"
proof (induction "length s" arbitrary: s rule: less_induct)
  case less
  show ?case
  proof (cases "c \<in> set s")
    case True
    then obtain a b where s: "s = a @ c # b" "c \<notin> set a" by (meson split_list_first)
    then have "utf8_valid a \<and> utf8_valid b" using less.prems(1) utf8_valid_cut [OF _ assms] by blast
    moreover have "p = a \<or> p \<in> set (split_on c b)" using less.prems(2) s by (simp add: split_on_append_sep)
    ultimately show ?thesis using less.hyps [of b] s(1) by auto
  next
    case False
    then show ?thesis using less.prems by (simp add: split_on_id)
  qed
qed

end
