(* ===== verification/Firewall_Contracts_Laws.thy ===== *)
theory Firewall_Contracts_Laws
  imports Firewall_Contracts Json_Print Text_Laws
begin

text \<open>
  What a parsed firewall payload guarantees: every identifier, comment, address and port has
  the shape the contract names, so a rendered rule can neither leave its line nor name an
  address the daemon would read differently.
\<close>

section \<open>Address text\<close>

definition address_char :: "char \<Rightarrow> bool" where
  "address_char c \<longleftrightarrow> is_hex c \<or> c \<in> set ''.:/''"

lemma is_digit_hex: "is_digit c \<Longrightarrow> is_hex c"
  by (simp add: is_hex_def)

lemma address_char_visible: "address_char c \<Longrightarrow> visible c"
  by (auto simp: address_char_def visible_def is_hex_def is_digit_def code_def)

lemma js_trim_address: "s \<noteq> [] \<Longrightarrow> list_all address_char s \<Longrightarrow> js_trim s = s"
  by (rule js_trim_visible) (auto simp: list_all_iff intro: address_char_visible)

lemma octet_digits: "re_match re_octet s \<Longrightarrow> s \<noteq> [] \<and> list_all is_digit s"
  by (cases s) (auto simp: re_match_iff re_octet_def re_digit_def list_all_iff lang_upto_Cls is_digit_def
      simp del: lang.simps(4) re_upto.simps)

lemma ipv4_text:
  assumes "isValidIpv4Literal v"
  shows "v \<noteq> []" "\<forall>c \<in> set v. is_digit c \<or> c = CHR ''.''"
proof -
  have parts: "p \<noteq> [] \<and> list_all is_digit p" if "p \<in> set (split_on (CHR ''.'') v)" for p
    using assms that octet_digits by (auto simp: isValidIpv4Literal_def list_all_iff)
  then show "v \<noteq> []" by (cases v) auto
  show "\<forall>c \<in> set v. is_digit c \<or> c = CHR ''.''"
    using parts split_on_set [of "CHR ''.''" _ v] by (metis list_all_iff)
qed

lemma split_double_set: "d \<noteq> c \<Longrightarrow> d \<in> set s \<Longrightarrow> \<exists>p \<in> set (split_double c s). d \<in> set p"
proof (induction c s rule: split_double.induct)
  case (1 c a b s)
  then show ?case by (auto split: list.splits)
qed auto

lemma parse_side_text: "parse_side_parts ps = Some n \<Longrightarrow> p \<in> set ps \<Longrightarrow> c \<in> set p \<Longrightarrow> is_hex c \<or> c = CHR ''.''"
proof (induction ps arbitrary: n)
  case (Cons q qs)
  then show ?case
    using ipv4_text(2) [of q]
    by (auto simp: re_match_iff re_hextet_def lang_rep_Cls intro: is_digit_hex split: if_splits)
qed simp

lemma parseSide_text:
  assumes "parseSide side = Some n" "c \<in> set side"
  shows "is_hex c \<or> c = CHR ''.'' \<or> c = CHR '':''"
proof (cases "c = CHR '':''")
  case False
  then obtain p where "p \<in> set (split_on (CHR '':'') side)" "c \<in> set p"
    using assms(2) split_on_set [of "CHR '':''" c side] by auto
  moreover have "parse_side_parts (split_on (CHR '':'') side) = Some n"
    using assms by (cases "side = []") (auto simp: parseSide_def)
  ultimately show ?thesis using parse_side_text by blast
qed simp

lemma ipv6_text:
  assumes "isValidIpv6Literal v"
  shows "v \<noteq> []" "\<forall>c \<in> set v. is_hex c \<or> c = CHR ''.'' \<or> c = CHR '':''"
proof -
  show "v \<noteq> []" using assms by (auto simp: isValidIpv6Literal_def split: if_splits)
  have "\<exists>n. parseSide p = Some n" if "p \<in> set (split_double (CHR '':'') v)" for p
    using assms that by (auto simp: isValidIpv6Literal_def split: if_splits list.splits option.splits)
  then show "\<forall>c \<in> set v. is_hex c \<or> c = CHR ''.'' \<or> c = CHR '':''"
    using split_double_set [of _ "CHR '':''" v] parseSide_text by metis
qed

lemma literal_text:
  assumes "isValidIpv4Literal v \<or> isValidIpv6Literal v"
  shows "v \<noteq> []" "list_all address_char v" "CHR ''/'' \<notin> set v"
proof -
  have chars: "\<forall>c \<in> set v. is_hex c \<or> c = CHR ''.'' \<or> c = CHR '':''"
    using assms ipv4_text(2) [of v] ipv6_text(2) [of v] is_digit_hex by blast
  then show "list_all address_char v" by (auto simp: list_all_iff address_char_def)
  have "\<not> is_hex (CHR ''/'')" by code_simp
  then show "CHR ''/'' \<notin> set v" using chars by auto
  show "v \<noteq> []" using assms ipv4_text(1) ipv6_text(1) by blast
qed

lemma last_index_append: "c \<notin> set p \<Longrightarrow> last_index_of c (v @ c # p) = Some (length v)"
proof -
  assume "c \<notin> set p"
  then have "index_of c (rev p @ c # rev v) = Some (length p)"
    by (induction p rule: rev_induct) auto
  then show ?thesis by (simp add: last_index_of_def)
qed

lemma last_index_Some: "last_index_of c s = Some i \<Longrightarrow> s = take i s @ c # drop (Suc i) s \<and> c \<notin> set (drop (Suc i) s)"
proof -
  assume a: "last_index_of c s = Some i"
  then have "c \<in> set s" by (auto simp: last_index_of_def split: option.splits) (metis index_of_None option.distinct(1) set_rev)
  then obtain v p where "s = v @ c # p" "c \<notin> set p" using split_list_last by metis
  with a show ?thesis using last_index_append [of c p v] by simp
qed

lemma allowedIp_text:
  assumes "isValidWireguardAllowedIp v" "js_trim v = v"
  obtains address prefix where "v = address @ CHR ''/'' # prefix"
    "isValidIpv4Literal address \<or> isValidIpv6Literal address" "prefix \<noteq> []" "list_all is_digit prefix"
proof -
  obtain slash where slash: "last_index_of (CHR ''/'') v = Some slash"
      "isValidIpv4Literal (take slash v) \<or> isValidIpv6Literal (take slash v)"
      "drop (Suc slash) v \<noteq> [] \<and> list_all is_digit (drop (Suc slash) v)"
    using assms
    by (auto simp: isValidWireguardAllowedIp_def Let_def re_match_plus_Cls re_digit_def split: option.splits if_splits)
  then show ?thesis using that last_index_Some [OF slash(1)] by metis
qed

text \<open>A parsed address is the word \<open>any\<close> or the literal of an aligned range.\<close>

definition wf_address :: "string \<Rightarrow> bool" where
  "wf_address s \<longleftrightarrow> (\<exists>address prefix. s = address @ CHR ''/'' # prefix \<and> prefix \<noteq> [] \<and> list_all is_digit prefix
     \<and> (isValidIpv4Literal address \<and> nat_of_digits 10 prefix \<le> 32
        \<or> isValidIpv6Literal address \<and> nat_of_digits 10 prefix \<le> 128))"

lemma wf_address_chars:
  assumes "wf_address s"
  shows "list_all address_char s"
proof -
  obtain address prefix where s: "s = address @ CHR ''/'' # prefix" "list_all is_digit prefix"
      "isValidIpv4Literal address \<or> isValidIpv6Literal address"
    using assms by (auto simp: wf_address_def)
  have "list_all address_char prefix" using s(2) by (auto simp: list_all_iff address_char_def is_digit_hex)
  then show ?thesis using s literal_text(2) [OF s(3)] by (simp add: address_char_def)
qed

lemma wf_address_prefix:
  assumes "list_all is_digit prefix" "prefix \<noteq> []"
    "isValidIpv4Literal v \<and> nat_of_digits 10 prefix \<le> 32 \<or> isValidIpv6Literal v \<and> nat_of_digits 10 prefix \<le> 128"
  shows "wf_address (v @ CHR ''/'' # prefix)"
  using assms by (auto simp: wf_address_def)

lemma allowedIp_wf:
  assumes "isValidWireguardAllowedIp v" "js_trim v = v"
  shows "wf_address v"
proof -
  obtain address prefix where v: "v = address @ CHR ''/'' # prefix"
      "isValidIpv4Literal address \<or> isValidIpv6Literal address" "prefix \<noteq> []" "list_all is_digit prefix"
    using allowedIp_text [OF assms] .
  moreover have "CHR ''/'' \<notin> set prefix" using v(4) by (auto simp: list_all_iff is_digit_def)
  ultimately have "isValidIpv4Literal address \<and> nat_of_digits 10 prefix \<le> 32
      \<or> isValidIpv6Literal address \<and> nat_of_digits 10 prefix \<le> 128"
    using assms by (auto simp: isValidWireguardAllowedIp_def last_index_append Let_def split: if_splits)
  then show ?thesis using v by (auto intro: wf_address_prefix)
qed

lemma parseFirewallAddress_wf:
  assumes "parseFirewallAddress v = Some s"
  shows "s = ''any'' \<or> wf_address s"
proof -
  obtain raw where raw: "v = Some (JStr raw)"
    using assms by (auto simp: parseFirewallAddress_def split: option.splits json.splits)
  have digits: "list_all is_digit ''32''" "list_all is_digit ''128''" "nat_of_digits 10 ''32'' \<le> 32"
      "nat_of_digits 10 ''128'' \<le> 128"
    by code_simp+
  have "wf_address (js_trim raw)" if "parseCidrLiteral (js_trim raw) \<noteq> None"
    using that by (intro allowedIp_wf) (auto simp: parseCidrLiteral_def Let_def split: if_splits)
  then show ?thesis
    using assms raw digits wf_address_prefix [of "''32''" "js_trim raw"] wf_address_prefix [of "''128''" "js_trim raw"]
    by (auto simp: parseFirewallAddress_def Let_def split: if_splits)
qed

section \<open>Ports\<close>

definition wf_range :: "nat \<times> nat \<Rightarrow> bool" where
  "wf_range r \<longleftrightarrow> 1 \<le> fst r \<and> fst r \<le> snd r \<and> snd r \<le> 65535"

lemma parseFirewallPortRange_wf: "parseFirewallPortRange s = Some r \<Longrightarrow> wf_range r"
  by (auto simp: parseFirewallPortRange_def wf_range_def Let_def bind_eq_Some_conv split: list.splits if_splits)

lemma length_digits_of_nat: "n < 10 ^ Suc k \<Longrightarrow> length (digits_of_nat n) \<le> Suc k"
proof (induction k arbitrary: n)
  case 0
  then show ?case by (simp add: digits_of_nat.simps)
next
  case (Suc k)
  then have "n div 10 < 10 ^ Suc k" by (simp add: less_mult_imp_div_less)
  with Suc.IH [of "n div 10"] show ?case by (subst digits_of_nat.simps) simp
qed

lemma port_digits:
  assumes "n \<le> 65535"
  shows "re_match (re_rep 1 5 re_digit) (digits_of_nat n)"
proof -
  have "length (digits_of_nat n) \<le> 5" using length_digits_of_nat [of n 4] assms by simp
  moreover have "1 \<le> length (digits_of_nat n)" "list_all is_digit (digits_of_nat n)"
    using digits_of_nat_digits [of n] by (auto simp: Suc_le_eq)
  ultimately show ?thesis by (simp add: re_match_iff re_digit_def lang_rep_Cls list_all_iff)
qed

lemma digits_no_dash: "CHR ''-'' \<notin> set (digits_of_nat n)"
  using digits_of_nat_digits [of n] by (auto simp: list_all_iff is_digit_def)

lemma js_trim_range: "js_trim (range_text ''-'' r) = range_text ''-'' r"
proof (rule js_trim_visible)
  have v: "is_digit c \<Longrightarrow> visible c" for c by (simp add: visible_def is_digit_def code_def)
  have d: "digits_of_nat n \<noteq> []" "visible (hd (digits_of_nat n))" "visible (last (digits_of_nat n))" for n
    using digits_of_nat_digits [of n] by (auto simp: list_all_iff intro: v)
  then show "range_text ''-'' r \<noteq> []" "visible (hd (range_text ''-'' r))" "visible (last (range_text ''-'' r))"
    by (auto simp: range_text_def)
qed

text \<open>The normalised text of a range names the range it was made from.\<close>

lemma parsed_ports_range:
  assumes "wf_range r"
  shows "parseFirewallPortRange (range_text ''-'' r) = Some r"
proof -
  obtain f t where r: "r = (f, t)" by (cases r)
  have b: "1 \<le> f" "f \<le> t" "t \<le> 65535" using assms r by (auto simp: wf_range_def)
  have ports: "re_match (re_rep 1 5 re_digit) (digits_of_nat f)" "re_match (re_rep 1 5 re_digit) (digits_of_nat t)"
    using b by (simp_all add: port_digits del: One_nat_def)
  show ?thesis
  proof (cases "f = t")
    case True
    then have sp: "split_on (CHR ''-'') (range_text ''-'' r) = [digits_of_nat f]"
      using r by (simp add: range_text_def split_on_id digits_no_dash)
    show ?thesis
      unfolding parseFirewallPortRange_def js_trim_range sp using b ports r True
      by (simp add: nat_of_digits_of_nat)
  next
    case False
    then have sp: "split_on (CHR ''-'') (range_text ''-'' r) = [digits_of_nat f, digits_of_nat t]"
      using r by (simp add: range_text_def split_on_append_sep split_on_id digits_no_dash)
    show ?thesis
      unfolding parseFirewallPortRange_def js_trim_range sp using b ports r
      by (simp add: nat_of_digits_of_nat)
  qed
qed

section \<open>Well-formed payloads\<close>

definition wf_rule :: "firewall_rule \<Rightarrow> bool" where
  "wf_rule r \<longleftrightarrow> fr_id r \<noteq> [] \<and> length (fr_id r) \<le> 64 \<and> list_all id_char (fr_id r)
     \<and> fr_sources r \<noteq> [] \<and> distinct (fr_sources r) \<and> (\<forall>s \<in> set (fr_sources r). s = ''any'' \<or> wf_address s)
     \<and> (case fr_ports r of None \<Rightarrow> fr_action r \<noteq> Accept
        | Some s \<Rightarrow> fr_proto r \<noteq> AnyProto \<and> (\<exists>bounds. wf_range bounds \<and> s = range_text ''-'' bounds))
     \<and> (case fr_destinations r of None \<Rightarrow> True
        | Some ds \<Rightarrow> ds \<noteq> [] \<and> distinct ds \<and> (\<forall>d \<in> set ds. wf_address d))
     \<and> (case fr_comment r of None \<Rightarrow> True | Some c \<Rightarrow> c \<noteq> [] \<and> length c \<le> 48 \<and> list_all comment_char c)"

definition wf_ports :: "nat list \<Rightarrow> bool" where
  "wf_ports ports \<longleftrightarrow> sorted ports \<and> distinct ports \<and> (\<forall>p \<in> set ports. 1 \<le> p \<and> p \<le> 65535)"

definition wf_payload :: "reconcile_payload \<Rightarrow> bool" where
  "wf_payload p \<longleftrightarrow> 0 \<le> fp_generation p \<and> length (fp_rules p) \<le> FIREWALL_MAX_RULES
     \<and> distinct (map fr_id (fp_rules p)) \<and> (\<forall>r \<in> set (fp_rules p). wf_rule r)
     \<and> pred_option wf_ports (fp_controlPlane p) \<and> pred_option wf_ports (fp_sshPorts p)"

lemma address_entries_wf:
  "address_entries name es out = Inr ys \<Longrightarrow> distinct out \<Longrightarrow> \<forall>s \<in> set out. s = ''any'' \<or> wf_address s \<Longrightarrow>
     distinct ys \<and> (\<forall>s \<in> set ys. s = ''any'' \<or> wf_address s) \<and> set out \<subseteq> set ys \<and> (es \<noteq> [] \<longrightarrow> ys \<noteq> [])"
proof (induction name es out rule: address_entries.induct)
  case (2 name entry later out)
  obtain s where s: "parseFirewallAddress (Some entry) = Some s" using "2.prems"(1) by (auto split: option.splits)
  let ?out = "if s \<in> set out then out else out @ [s]"
  have "distinct ?out" "\<forall>x \<in> set ?out. x = ''any'' \<or> wf_address x" "s \<in> set ?out"
    using "2.prems" parseFirewallAddress_wf [OF s] by auto
  moreover have "address_entries name later ?out = Inr ys" using "2.prems" s by simp
  ultimately have "distinct ys \<and> (\<forall>s \<in> set ys. s = ''any'' \<or> wf_address s) \<and> set ?out \<subseteq> set ys"
    using "2.IH" [OF s] by blast
  moreover have "s \<in> set ?out" "set out \<subseteq> set ?out" by auto
  ultimately show ?case by (metis empty_iff empty_set subset_eq)
qed auto

lemma parseFirewallAddressList_wf:
  assumes "parseFirewallAddressList v name allow = Inr ys"
  shows "distinct ys" "\<forall>s \<in> set ys. s = ''any'' \<or> wf_address s" "\<not> allow \<Longrightarrow> ys \<noteq> []"
  using assms address_entries_wf [of name _ "[]" ys]
  by (auto simp: parseFirewallAddressList_def split: option.splits json.splits if_splits)

lemma pattern_string_rep:
  "pattern_string (re_rep 1 n (RCls P)) v = Some s \<Longrightarrow> 1 \<le> n \<Longrightarrow> s \<noteq> [] \<and> length s \<le> n \<and> list_all P s"
  by (auto simp: pattern_string_def re_match_iff lang_rep_Cls list_all_iff split: option.splits json.splits if_splits)

lemma or_error_Inr [simp]: "or_error e v = Inr x \<longleftrightarrow> v = Some x"
  by (auto simp: or_error_def split: option.splits)

lemma parseFirewallRule_wf:
  assumes "parseFirewallRule v i = Inr r"
  shows "wf_rule r"
proof -
  obtain fs ident scope action proto origin where v: "v = JObj fs"
      "parseFirewallRuleHead fs i = Inr (ident, scope, action, proto, origin)"
    using assms by (auto simp: parseFirewallRule_def result_simps split: json.splits)
  then obtain sources ports destinations comment where
      s: "parseFirewallAddressList (obj_get fs ''sources'') (rule_field i ''.sources'') False = Inr sources" and
      p: "parseFirewallRulePorts (obj_get fs ''ports'') action proto i = Inr ports" and
      d: "parseFirewallRuleDestinations (obj_get fs ''destinations'') i = Inr destinations" and
      c: "parseFirewallRuleComment (obj_get fs ''comment'') i = Inr comment" and
      r: "r = \<lparr>fr_id = ident, fr_scope = scope, fr_action = action, fr_proto = proto, fr_origin = origin,
           fr_sources = sources, fr_ports = ports, fr_destinations = destinations, fr_comment = comment\<rparr>"
    using assms by (auto simp: parseFirewallRule_def result_simps)
  have "pattern_string FIREWALL_RULE_ID_RE (obj_get fs ''id'') = Some ident"
    using v(2) by (auto simp: parseFirewallRuleHead_def result_simps)
  then have ident: "ident \<noteq> [] \<and> length ident \<le> 64 \<and> list_all id_char ident"
    using pattern_string_rep [of 64 id_char] by (simp add: FIREWALL_RULE_ID_RE_def)
  have ports: "case ports of None \<Rightarrow> action \<noteq> Accept
      | Some s \<Rightarrow> proto \<noteq> AnyProto \<and> (\<exists>bounds. wf_range bounds \<and> s = range_text ''-'' bounds)"
    using p parseFirewallPortRange_wf
    by (fastforce simp: parseFirewallRulePorts_def split: option.splits json.splits if_splits)
  have dests: "case destinations of None \<Rightarrow> True | Some ds \<Rightarrow> ds \<noteq> [] \<and> distinct ds \<and> (\<forall>d \<in> set ds. wf_address d)"
  proof (cases destinations)
    case (Some ds)
    then have l: "parseFirewallAddressList (obj_get fs ''destinations'') (rule_field i ''.destinations'') True = Inr ds"
        "''any'' \<notin> set ds" "ds \<noteq> []"
      using d by (auto simp: parseFirewallRuleDestinations_def result_simps split: if_splits)
    show ?thesis using l parseFirewallAddressList_wf(1,2) [OF l(1)] Some by fastforce
  qed simp
  have com: "case comment of None \<Rightarrow> True | Some c \<Rightarrow> c \<noteq> [] \<and> length c \<le> 48 \<and> list_all comment_char c"
    using c pattern_string_rep [of 48 comment_char]
    by (auto simp: parseFirewallRuleComment_def FIREWALL_COMMENT_RE_def result_simps split: if_splits option.splits)
  show ?thesis
    unfolding wf_rule_def r firewall_rule.simps using ident ports dests com parseFirewallAddressList_wf [OF s] by blast
qed

lemma parse_rules_from_wf:
  "parse_rules_from i vs = Inr rs \<Longrightarrow> (\<forall>r \<in> set rs. wf_rule r) \<and> length rs = length vs"
  by (induction i vs arbitrary: rs rule: parse_rules_from.induct)
    (auto simp: result_simps dest: parseFirewallRule_wf)

lemma first_repeated_None: "first_repeated seen xs = None \<longleftrightarrow> distinct xs \<and> set xs \<inter> seen = {}"
  by (induction seen xs rule: first_repeated.induct) auto

lemma port_entries_wf:
  "port_entries name es out = Inr ys \<Longrightarrow> distinct out \<Longrightarrow> \<forall>p \<in> set out. 1 \<le> p \<and> p \<le> 65535 \<Longrightarrow>
     distinct ys \<and> (\<forall>p \<in> set ys. 1 \<le> p \<and> p \<le> 65535)"
proof (induction name es out rule: port_entries.induct)
  case (2 name entry later out)
  obtain p where p: "isValidFirewallPort (Some entry) = Some p" using "2.prems"(1) by (auto split: option.splits)
  then have "1 \<le> p \<and> p \<le> 65535"
    by (auto simp: isValidFirewallPort_def split: json.splits option.splits if_splits)
  then have "distinct (if p \<in> set out then out else out @ [p])"
      "\<forall>q \<in> set (if p \<in> set out then out else out @ [p]). 1 \<le> q \<and> q \<le> 65535"
    using "2.prems" by auto
  moreover have "port_entries name later (if p \<in> set out then out else out @ [p]) = Inr ys"
    using "2.prems"(1) p by simp
  ultimately show ?case using "2.IH" [OF p] by blast
qed auto

lemma parseFirewallPortList_wf: "parseFirewallPortList v name = Inr ys \<Longrightarrow> wf_ports ys"
  using port_entries_wf [of name _ "[]"]
  by (auto simp: parseFirewallPortList_def wf_ports_def result_simps split: option.splits json.splits)

lemma parsed_payload_wf:
  assumes "parseFirewallReconcilePayload v = Inr payload"
  shows "wf_payload payload"
proof -
  obtain fs rules where fs: "v = Some (JObj fs)" "parseFirewallRules (obj_get fs ''rules'') = Inr rules"
      "fp_rules payload = rules" "natural_number (obj_get fs ''generation'') = Some (fp_generation payload)"
    using assms by (auto simp: parseFirewallReconcilePayload_def result_simps split: option.splits json.splits)
  have gen: "0 \<le> fp_generation payload"
    using fs(4) by (auto simp: natural_number_def split: option.splits json.splits if_splits)
  have rules: "length rules \<le> FIREWALL_MAX_RULES" "distinct (map fr_id rules)" "\<forall>r \<in> set rules. wf_rule r"
    using fs(2) by (auto simp: parseFirewallRules_def result_simps first_repeated_None
        split: option.splits json.splits if_splits dest: parse_rules_from_wf)
  have "pred_option wf_ports (fp_controlPlane payload)" "pred_option wf_ports (fp_sshPorts payload)"
    using assms fs(1)
    by (auto simp: parseFirewallReconcilePayload_def result_simps dest: parseFirewallPortList_wf
        split: option.splits json.splits)
  then show ?thesis using gen rules fs(3) by (simp add: wf_payload_def)
qed

text \<open>C32: Whatever JSON value arrives as \<open>server.firewall.reconcile\<close>, a payload the daemon accepts is well
  formed: at most 1024 rules with distinct ids of the permitted characters, every source the
  word \<open>any\<close> or an IPv4 or IPv6 range with a prefix length in bounds, no duplicate source,
  every destination such a range, every port text the normal form of an ascending range in
  1-65535 (required on an accept rule, refused without a protocol), every comment short and of
  the permitted characters, and the guaranteed port lists sorted, distinct and in range.
\<close>

theorem parsed_payload_wellformed:
  assumes "parseFirewallReconcilePayload v = Inr payload"
  shows "wf_payload payload"
  using assms by (rule parsed_payload_wf)

definition demo_payload_text :: string where
  "demo_payload_text = ''{\"generation\":3,\"mode\":\"managed\",\"policy\":{\"inputDefault\":\"accept\",\"ipv6\":\"mirror\"},\"rules\":[{\"id\":\"db\",\"scope\":\"published\",\"action\":\"accept\",\"proto\":\"tcp\",\"origin\":\"user\",\"sources\":[\"10.0.0.1\",\"2001:db8::/32\"],\"ports\":\"3306\",\"comment\":\"replica\"},{\"id\":\"smtp\",\"scope\":\"host\",\"action\":\"drop\",\"proto\":\"tcp\",\"origin\":\"user\",\"sources\":[\"any\"],\"ports\":\"25\"}],\"sshPorts\":[2222,22]}''"

definition demo_payload :: reconcile_payload where
  "demo_payload = \<lparr>fp_generation = 3, fp_mode = Managed,
     fp_policy = \<lparr>pol_inputDefault = DefaultAccept, pol_ipv6 = Mirror\<rparr>,
     fp_rules =
       [\<lparr>fr_id = ''db'', fr_scope = Published, fr_action = Accept, fr_proto = Tcp, fr_origin = UserRow,
          fr_sources = [''10.0.0.1/32'', ''2001:db8::/32''], fr_ports = Some ''3306'', fr_destinations = None,
          fr_comment = Some ''replica''\<rparr>,
        \<lparr>fr_id = ''smtp'', fr_scope = HostScope, fr_action = Drop, fr_proto = Tcp, fr_origin = UserRow,
          fr_sources = [''any''], fr_ports = Some ''25'', fr_destinations = None, fr_comment = None\<rparr>],
     fp_controlPlane = None, fp_sshPorts = Some [22, 2222]\<rparr>"

lemma demo_payload_parses: "parseFirewallReconcilePayload (json_parse demo_payload_text) = Inr demo_payload"
  by code_simp

theorem parsed_payload_wellformed_witness: "wf_payload demo_payload"
  using parsed_payload_wellformed [OF demo_payload_parses] .

end
