(* ===== verification/Firewall_Render_Laws.thy ===== *)
theory Firewall_Render_Laws
  imports Firewall_Render Firewall_Contracts_Laws
begin

text \<open>
  What a rendered document makes the kernel do. A chain is a list of lines walked from the
  top; whether a packet meets the conditions of a line is a parameter (\<open>hit\<close>), as is the type
  of packets, so the laws hold for every reading of the match options: they rest only on which
  lines there are, in which order, and what their targets are.
\<close>

section \<open>A chain\<close>

text \<open>The target of a line is the word after its last \<open>-j\<close>.\<close>

definition rule_target :: "string \<Rightarrow> string" where
  "rule_target line = hd (rev (takeWhile (\<lambda>w. w \<noteq> ''-j'') (rev (split_on (CHR '' '') line))))"

datatype decision = Allow | Deny | Undecided

definition line_decision :: "string \<Rightarrow> decision" where
  "line_decision line = (let t = rule_target line in if t = ''ACCEPT'' then Allow
     else if t = ''DROP'' \<or> t = ''REJECT'' then Deny else Undecided)"

definition applies :: "(string \<Rightarrow> 'p \<Rightarrow> bool) \<Rightarrow> string \<Rightarrow> 'p \<Rightarrow> string \<Rightarrow> bool" where
  "applies hit chain p line \<longleftrightarrow> starts_with (''-A '' @ chain @ '' '') line \<and> hit line p"

definition decide :: "(string \<Rightarrow> 'p \<Rightarrow> bool) \<Rightarrow> string \<Rightarrow> string list \<Rightarrow> 'p \<Rightarrow> decision" where
  "decide hit chain lines p = (case find (applies hit chain p) lines of
     None \<Rightarrow> Undecided | Some line \<Rightarrow> line_decision line)"

lemma find_append: "find P (xs @ ys) = (case find P xs of None \<Rightarrow> find P ys | Some x \<Rightarrow> Some x)"
  by (induction xs) auto

lemma decide_append:
  "decide hit chain (xs @ ys) p =
     (if \<exists>l \<in> set xs. applies hit chain p l then decide hit chain xs p else decide hit chain ys p)"
  by (auto simp: decide_def find_append find_None_iff split: option.splits)
    (metis find_None_iff option.distinct(1))+

lemma decide_same:
  assumes "\<exists>l \<in> set xs. applies hit chain p l" "\<forall>l \<in> set xs. applies hit chain p l \<longrightarrow> line_decision l = d"
  shows "decide hit chain xs p = d"
proof -
  obtain l where "find (applies hit chain p) xs = Some l"
    using assms(1) by (metis find_None_iff not_None_eq)
  moreover from this have "l \<in> set xs" "applies hit chain p l" by (auto simp: find_Some_iff)
  ultimately show ?thesis using assms(2) by (simp add: decide_def)
qed

lemma decide_none: "\<forall>l \<in> set xs. \<not> applies hit chain p l \<Longrightarrow> decide hit chain xs p = Undecided"
  by (auto simp: decide_def find_None_iff split: option.splits) (metis find_Some_iff nth_mem)

section \<open>The shape of a line\<close>

lemma join_with_snoc: "xs \<noteq> [] \<Longrightarrow> join_with sep (xs @ [y]) = join_with sep xs @ sep @ y"
  by (induction sep xs rule: join_with.induct) auto

lemma join_with_Cons: "xs \<noteq> [] \<Longrightarrow> join_with sep (x # xs) = x @ sep @ join_with sep xs"
  by (cases xs) auto

lemma joinArgs_line:
  assumes "a \<noteq> []" "c \<noteq> []" "l \<noteq> []"
  shows "joinArgs (a # xs @ [c, l]) = a @ '' '' @ joinArgs (xs @ [c]) @ '' '' @ l"
proof -
  let ?zs = "filter (\<lambda>part. part \<noteq> []) xs @ [c]"
  have "filter (\<lambda>part. part \<noteq> []) (a # xs @ [c, l]) = a # ?zs @ [l]" using assms by simp
  moreover have "join_with '' '' (a # ?zs @ [l]) = a @ '' '' @ join_with '' '' ?zs @ '' '' @ l"
    using join_with_snoc [of ?zs "'' ''" l] by (simp add: join_with_Cons)
  moreover have "filter (\<lambda>part. part \<noteq> []) (xs @ [c]) = ?zs" using assms by simp
  ultimately show ?thesis by (simp only: joinArgs_def)
qed

lemma rule_target_line:
  assumes "''-j'' \<notin> set (split_on (CHR '' '') t)"
  shows "rule_target (x @ '' -j '' @ t) = hd (split_on (CHR '' '') t)"
proof -
  have "split_on (CHR '' '') (x @ '' -j '' @ t) = split_on (CHR '' '') x @ ''-j'' # split_on (CHR '' '') t"
    using split_on_append [of "CHR '' ''" x "''-j '' @ t"] split_on_append [of "CHR '' ''" "''-j''" t]
    by (simp add: split_on_id)
  moreover have "takeWhile (\<lambda>w. w \<noteq> ''-j'') (rev (split_on (CHR '' '') t) @ ''-j'' # us) = rev (split_on (CHR '' '') t)" for us
    using assms by (subst takeWhile_append2) auto
  ultimately show ?thesis by (simp only: rule_target_def rev_append rev.simps append_assoc append_Cons append_Nil rev_rev_ident)
qed

lemma split_line:
  "split_on (CHR '' '') (x @ '' -j '' @ t) = split_on (CHR '' '') x @ ''-j'' # split_on (CHR '' '') t"
  using split_on_append [of "CHR '' ''" x "''-j '' @ t"] split_on_append [of "CHR '' ''" "''-j''" t]
  by (simp add: split_on_id)

text \<open>The targets the renderer writes.\<close>

lemma line_decisions:
  "line_decision (x @ '' -j ACCEPT'') = Allow" "line_decision (x @ '' -j DROP'') = Deny"
  "line_decision (x @ '' -j RETURN'') = Undecided"
  "fr_action r \<noteq> Accept \<Longrightarrow> line_decision (x @ '' -j '' @ targetFor r family) = Deny"
  "fr_action r = Accept \<Longrightarrow> line_decision (x @ '' -j '' @ targetFor r family) = Allow"
proof -
  have t: "rule_target (x @ '' -j '' @ t) = hd (split_on (CHR '' '') t)"
    if "t \<in> {''ACCEPT'', ''DROP'', ''RETURN'', ''REJECT --reject-with tcp-reset'',
        ''REJECT --reject-with icmp-port-unreachable'', ''REJECT --reject-with icmp6-port-unreachable''}" for t
    using that by (intro rule_target_line) auto
  have f: "targetFor r family \<in> {''ACCEPT'', ''DROP'', ''RETURN'', ''REJECT --reject-with tcp-reset'',
        ''REJECT --reject-with icmp-port-unreachable'', ''REJECT --reject-with icmp6-port-unreachable''}"
    by (simp add: targetFor_def split: rule_action.splits)
  show "line_decision (x @ '' -j ACCEPT'') = Allow" using t [of "''ACCEPT''"] by (simp add: line_decision_def)
  show "line_decision (x @ '' -j DROP'') = Deny" using t [of "''DROP''"] by (simp add: line_decision_def)
  show "line_decision (x @ '' -j RETURN'') = Undecided" using t [of "''RETURN''"] by (simp add: line_decision_def)
  show "line_decision (x @ '' -j '' @ targetFor r family) = Deny" if "fr_action r \<noteq> Accept"
    using t [OF f] that by (auto simp: line_decision_def Let_def targetFor_def split: rule_action.splits)
  show "line_decision (x @ '' -j '' @ targetFor r family) = Allow" if "fr_action r = Accept"
    using t [OF f] that by (auto simp: line_decision_def Let_def targetFor_def)
qed

lemma commentFor_nonempty [simp]: "commentFor r \<noteq> []"
  by (simp add: commentFor_def Let_def)

text \<open>Every rendered rule line, from its chain to its target.\<close>

lemma host_line_shape:
  "host_line r src dest t = ''-A TP-INPUT '' @ joinArgs [opt_arg ''-s '' src, opt_arg ''-d '' dest, protoArgs r,
     hostPortArgs r, commentFor r] @ '' -j '' @ t"
  using joinArgs_line [of "''-A TP-INPUT''" "commentFor r" "''-j '' @ t"
      "[opt_arg ''-s '' src, opt_arg ''-d '' dest, protoArgs r, hostPortArgs r]"]
  by (simp add: host_line_def FIREWALL_INPUT_CHAIN_def)

lemma published_line_shape:
  "published_line r src dest t = ''-A TP-FWD '' @ joinArgs [opt_arg ''-s '' src, protoArgs r,
     publishedMatchArgs r dest, commentFor r] @ '' -j '' @ t"
  using joinArgs_line [of "''-A TP-FWD''" "commentFor r" "''-j '' @ t"
      "[opt_arg ''-s '' src, protoArgs r, publishedMatchArgs r dest]"]
  by (simp add: published_line_def FIREWALL_FORWARD_CHAIN_def)

section \<open>Characters\<close>

definition safe_char :: "char \<Rightarrow> bool" where
  "safe_char c \<longleftrightarrow> is_alnum c \<or> c \<in> set ''- ._:,/+\"''"

lemma safe_chars:
  "id_char c \<Longrightarrow> safe_char c" "comment_char c \<Longrightarrow> safe_char c" "address_char c \<Longrightarrow> safe_char c" "is_digit c \<Longrightarrow> safe_char c"
proof -
  have h: "is_hex c \<Longrightarrow> is_alnum c" by (auto simp: is_hex_def is_alnum_def is_lower_def is_upper_def)
  show "id_char c \<Longrightarrow> safe_char c" "comment_char c \<Longrightarrow> safe_char c" "address_char c \<Longrightarrow> safe_char c"
      "is_digit c \<Longrightarrow> safe_char c"
    using h by (auto simp: id_char_def comment_char_def address_char_def safe_char_def is_alnum_def)
qed

lemma clean_digits: "list_all safe_char (digits_of_nat n)"
  using digits_of_nat_digits [of n] by (auto simp: list_all_iff intro: safe_chars)

lemma clean_join: "list_all safe_char (join_with sep xs) \<longleftrightarrow> (\<forall>x \<in> set xs. list_all safe_char x)"
  if "list_all safe_char sep"
  using that by (induction sep xs rule: join_with.induct) auto

lemma clean_joinArgs: "\<forall>x \<in> set xs. list_all safe_char x \<Longrightarrow> list_all safe_char (joinArgs xs)"
  unfolding joinArgs_def by (subst clean_join) (auto simp: safe_char_def)

lemma safe_char_literals [simp]:
  "safe_char (CHR '' '')" "safe_char (CHR ''-'')" "safe_char (CHR '':'')" "safe_char (CHR 0x22)" "safe_char (CHR ''/'')"
  "safe_char (CHR ''.'')" "safe_char (CHR '','')" "safe_char (CHR ''+'')"
  by (simp_all add: safe_char_def)

lemma clean_words:
  "list_all safe_char ''-A TP-INPUT ''" "list_all safe_char ''-A TP-FWD ''" "list_all safe_char '' -j ''"
  "list_all safe_char ''-m comment --comment ''" "list_all safe_char (origin_text origin)"
  "list_all safe_char (protoArgs r)" "list_all safe_char (targetFor r family)" "list_all safe_char ''ACCEPT''"
  "list_all safe_char ''DROP''" "list_all safe_char ''RETURN''" "list_all safe_char ''-s ''" "list_all safe_char ''-d ''"
  "list_all safe_char ''--dport ''" "list_all safe_char ''--ctorigdstport ''" "list_all safe_char ''--ctorigdst ''"
  "list_all safe_char ''-m conntrack ''" "list_all safe_char ''tp:''" "list_all safe_char ''system:''"
proof -
  show "list_all safe_char (origin_text origin)"
    by (cases origin; simp only: origin_text_def rule_origin.case; code_simp)
  show "list_all safe_char (protoArgs r)"
    by (cases "fr_proto r"; simp only: protoArgs_def rule_proto.case; code_simp)
  have "list_all safe_char ''ACCEPT''" "list_all safe_char ''DROP''" "list_all safe_char ''REJECT --reject-with tcp-reset''"
    "list_all safe_char ''REJECT --reject-with icmp-port-unreachable''"
    "list_all safe_char ''REJECT --reject-with icmp6-port-unreachable''" by code_simp+
  then show "list_all safe_char (targetFor r family)"
    unfolding targetFor_def by (cases "fr_action r"; simp only: rule_action.case split: if_split; blast)
qed code_simp+

lemma clean_comment:
  assumes "wf_rule r"
  shows "list_all safe_char (commentFor r)"
proof -
  have "list_all safe_char (fr_id r)" using assms by (auto simp: wf_rule_def list_all_iff intro: safe_chars)
  moreover have "list_all safe_char c" if "fr_comment r = Some c" for c
    using assms that by (auto simp: wf_rule_def list_all_iff intro: safe_chars)
  ultimately show ?thesis
    using clean_words(4,5,17) [simplified] by (auto simp: commentFor_def Let_def split: option.splits)
qed

lemma clean_named_ports: "named_ports r = Some t \<Longrightarrow> list_all safe_char t"
  by (auto simp: named_ports_def range_text_def clean_digits split: option.splits if_splits)

lemma clean_host_ports: "list_all safe_char (hostPortArgs r)"
  using clean_named_ports clean_words(13) [simplified] by (auto simp: hostPortArgs_def split: option.splits)

lemma clean_published_match:
  "(\<And>d. dest = Some d \<Longrightarrow> list_all safe_char d) \<Longrightarrow> list_all safe_char (publishedMatchArgs r dest)"
  using clean_named_ports clean_words(14,15,16) [simplified]
  by (auto simp: publishedMatchArgs_def Let_def clean_join split: option.splits)

lemma clean_opt_arg:
  "list_all safe_char flag \<Longrightarrow> (\<And>d. v = Some d \<Longrightarrow> list_all safe_char d) \<Longrightarrow> list_all safe_char (opt_arg flag v)"
  by (auto simp: opt_arg_def split: option.splits)

lemma sources_clean:
  assumes "wf_rule r" "Some s \<in> set (sourcesFor r family)"
  shows "list_all safe_char s"
proof -
  have "s \<in> set (fr_sources r)" "''any'' \<notin> set (fr_sources r)"
    using assms(2) by (auto simp: sourcesFor_def split: if_splits)
  then have "wf_address s" using assms(1) by (auto simp: wf_rule_def)
  then show ?thesis using wf_address_chars by (auto simp: list_all_iff intro: safe_chars)
qed

lemma destinations_clean:
  assumes "wf_rule r" "Some d \<in> set (destinationsFor r family)"
  shows "list_all safe_char d"
proof -
  obtain ds where "fr_destinations r = Some ds" "d \<in> set ds"
    using assms(2) by (auto simp: destinationsFor_def split: option.splits if_splits)
  then have "wf_address d" using assms(1) by (auto simp: wf_rule_def)
  then show ?thesis using wf_address_chars by (auto simp: list_all_iff intro: safe_chars)
qed

text \<open>A line of a rule: chain, target and a safe middle.\<close>

definition rule_line :: "string \<Rightarrow> string set \<Rightarrow> string \<Rightarrow> bool" where
  "rule_line chain targets line \<longleftrightarrow> (\<exists>mid t. line = ''-A '' @ chain @ '' '' @ mid @ '' -j '' @ t
     \<and> list_all safe_char mid \<and> t \<in> targets)"

lemma rule_lineI:
  "line = ''-A '' @ chain @ '' '' @ mid @ '' -j '' @ t \<Longrightarrow> list_all safe_char mid \<Longrightarrow> t \<in> targets \<Longrightarrow>
     rule_line chain targets line"
  unfolding rule_line_def by blast

lemma renderHostRule_lines:
  assumes "wf_rule r" "l \<in> set (renderHostRule r family)"
  shows "rule_line ''TP-INPUT'' {targetFor r family} l"
proof -
  obtain src dest where l: "l = host_line r src dest (targetFor r family)" "src \<in> set (sourcesFor r family)"
      "dest \<in> set (destinationsFor r family)"
    using assms(2) by (auto simp: renderHostRule_def)
  have "list_all safe_char (opt_arg ''-s '' src)" "list_all safe_char (opt_arg ''-d '' dest)"
    using l(2,3) sources_clean destinations_clean assms(1) clean_words(11,12) by (blast intro: clean_opt_arg)+
  then have "list_all safe_char (joinArgs [opt_arg ''-s '' src, opt_arg ''-d '' dest, protoArgs r, hostPortArgs r, commentFor r])"
    using clean_comment [OF assms(1)] clean_host_ports clean_words(6) by (intro clean_joinArgs) auto
  then show ?thesis
    by (rule rule_lineI [rotated]) (simp_all add: l(1) host_line_shape)
qed

lemma published_line_rule:
  assumes "wf_rule r" "src = None \<or> src \<in> set (sourcesFor r family)" "dest \<in> set (destinationsFor r family)" "t \<in> targets"
  shows "rule_line ''TP-FWD'' targets (published_line r src dest t)"
proof -
  have "list_all safe_char (opt_arg ''-s '' src)" "list_all safe_char (publishedMatchArgs r dest)"
    using assms(2,3) sources_clean destinations_clean assms(1) clean_words(11)
    by (blast intro: clean_opt_arg clean_published_match)+
  then have "list_all safe_char (joinArgs [opt_arg ''-s '' src, protoArgs r, publishedMatchArgs r dest, commentFor r])"
    using clean_comment [OF assms(1)] clean_words(6) by (intro clean_joinArgs) auto
  then show ?thesis
    by (rule rule_lineI [rotated]) (simp_all add: published_line_shape assms(4))
qed

lemma renderPublishedRule_lines:
  assumes "wf_rule r" "l \<in> set (renderPublishedRule r family)"
  shows "rule_line ''TP-FWD'' (if fr_action r = Accept then {''RETURN'', ''DROP''} else {targetFor r family}) l"
  using assms(2) published_line_rule [OF assms(1), of _ family]
  by (auto simp: renderPublishedRule_def Let_def split: if_splits)

lemma clean_system:
  "list_all safe_char args \<Longrightarrow> list_all safe_char label \<Longrightarrow> list_all safe_char (args @ '' '' @ systemComment label)"
  using clean_words(4,17,18) [simplified] by (simp add: systemComment_def)

lemma port_line_shape: "rule_line ''TP-INPUT'' {''ACCEPT''} (port_line port)"
proof (rule rule_lineI)
  show "list_all safe_char ((''-p tcp --dport '' @ digits_of_nat port) @ '' '' @ systemComment (''tcp-'' @ digits_of_nat port))"
  proof (rule clean_system)
    have "list_all safe_char ''-p tcp --dport ''" "list_all safe_char ''tcp-''" by code_simp+
    then show "list_all safe_char (''-p tcp --dport '' @ digits_of_nat port)" "list_all safe_char (''tcp-'' @ digits_of_nat port)"
      using clean_digits by (simp_all only: list_all_append)
  qed
qed (simp_all add: port_line_def FIREWALL_INPUT_CHAIN_def)

lemma clean_system_words:
  "list_all safe_char (''-i lo '' @ systemComment ''loopback'')"
  "list_all safe_char (''-m conntrack --ctstate ESTABLISHED,RELATED '' @ systemComment ''established'')"
  "list_all safe_char (''-p icmp '' @ systemComment ''icmp'')"
  "list_all safe_char (''-p udp --sport 67 --dport 68 '' @ systemComment ''dhcp'')"
  "list_all safe_char (''-p ipv6-icmp '' @ systemComment ''icmpv6'')"
  "list_all safe_char (''-p udp --sport 547 --dport 546 '' @ systemComment ''dhcpv6'')"
  "list_all safe_char (systemComment ''default'')"
  "list_all safe_char (''-i docker0 '' @ systemComment ''container-egress'')"
  "list_all safe_char (''-i br-+ '' @ systemComment ''container-egress'')"
  "list_all safe_char (''-i tp0 '' @ systemComment ''container-egress'')"
  by code_simp+

lemma inputInvariants_lines: "l \<in> set (inputInvariants family ports) \<Longrightarrow> rule_line ''TP-INPUT'' {''ACCEPT''} l"
  using port_line_shape clean_system_words(1-6) [THEN [2] rule_lineI, of _ "''TP-INPUT''" "''ACCEPT''" "{''ACCEPT''}"]
  by (auto simp: inputInvariants_def Let_def FIREWALL_INPUT_CHAIN_def split: family.splits)

lemma default_lines_lines: "l \<in> set (default_lines input) \<Longrightarrow> rule_line ''TP-INPUT'' {''DROP''} l"
  using clean_system_words(7) [THEN [2] rule_lineI, of _ "''TP-INPUT''" "''DROP''" "{''DROP''}"]
  by (auto simp: default_lines_def FIREWALL_INPUT_CHAIN_def split: if_splits)

lemma forwardPrefix_lines: "l \<in> set forwardPrefix \<Longrightarrow> rule_line ''TP-FWD'' {''RETURN''} l"
  using clean_system_words(2,8,9,10) [THEN [2] rule_lineI, of _ "''TP-FWD''" "''RETURN''" "{''RETURN''}"]
  by (auto simp: forwardPrefix_def Let_def FIREWALL_FORWARD_CHAIN_def CONTAINER_INGRESS_INTERFACES_def)

lemma rule_line_clean:
  assumes "rule_line chain targets l" "list_all safe_char chain" "\<forall>t \<in> targets. list_all safe_char t"
  shows "list_all safe_char l"
proof -
  have "list_all safe_char ''-A ''" "list_all safe_char '' ''" by code_simp+
  then show ?thesis using assms clean_words(3) by (auto simp only: rule_line_def list_all_append)
qed

lemma rule_line_front: "rule_line chain targets l \<Longrightarrow> \<exists>x t. l = x @ '' -j '' @ t \<and> t \<in> targets"
  unfolding rule_line_def by (metis append_assoc)

lemma rule_line_decision:
  "rule_line chain {''ACCEPT''} l \<Longrightarrow> line_decision l = Allow" "rule_line chain {''DROP''} l \<Longrightarrow> line_decision l = Deny"
  "rule_line chain {''RETURN''} l \<Longrightarrow> line_decision l = Undecided"
  "rule_line chain {targetFor r family} l \<Longrightarrow> line_decision l = (if fr_action r = Accept then Allow else Deny)"
  by (drule rule_line_front, use line_decisions in auto)+

lemma rule_line_applies: "rule_line chain targets l \<Longrightarrow> applies hit chain p l \<longleftrightarrow> hit l p"
  unfolding rule_line_def applies_def by (metis append_assoc starts_with_append)

lemma rule_line_other:
  "rule_line ''TP-FWD'' targets l \<Longrightarrow> \<not> applies hit ''TP-INPUT'' p l" "rule_line ''TP-INPUT'' targets l \<Longrightarrow> \<not> applies hit ''TP-FWD'' p l"
  by (auto simp: rule_line_def applies_def)

section \<open>The document\<close>

lemma scoped_rules: "r \<in> set (scoped input scope) \<longleftrightarrow> r \<in> set (fp_rules (ri_payload input)) \<and> fr_scope r = scope"
  by (auto simp: scoped_def orderedRules_def)

definition newline :: char where "newline = CHR 0x0A"

lemma newline_unsafe: "list_all safe_char l \<Longrightarrow> newline \<notin> set l"
  by (auto simp: list_all_iff newline_def safe_char_def is_alnum_def is_digit_def is_lower_def is_upper_def)

definition frame_line :: "string \<Rightarrow> bool" where
  "frame_line l \<longleftrightarrow> l \<in> {''*filter'', '':TP-INPUT - [0:0]'', '':TP-FWD - [0:0]'', ''COMMIT''}"

lemma family_line_cases:
  assumes "wf_payload (ri_payload input)" "l \<in> set (family_lines input family ports)"
  shows "frame_line l \<or> list_all safe_char l \<and> (\<exists>targets. rule_line ''TP-INPUT'' targets l \<or> rule_line ''TP-FWD'' targets l)"
proof -
  have wf: "wf_rule r" if "r \<in> set (scoped input scope)" for r scope
    using assms(1) that by (auto simp: wf_payload_def scoped_rules)
  have chains: "list_all safe_char ''TP-INPUT''" "list_all safe_char ''TP-FWD''" by code_simp+
  consider "frame_line l" | "l \<in> set (inputInvariants family ports)"
    | r where "r \<in> set (scoped input HostScope)" "l \<in> set (renderHostRule r family)"
    | "l \<in> set (default_lines input)" | "l \<in> set forwardPrefix"
    | r where "r \<in> set (scoped input Published)" "l \<in> set (renderPublishedRule r family)"
    using assms(2) by (auto simp: family_lines_def frame_line_def FIREWALL_INPUT_CHAIN_def FIREWALL_FORWARD_CHAIN_def
        split: if_splits)
  then show ?thesis
  proof cases
    case 2
    from inputInvariants_lines [OF this] show ?thesis using rule_line_clean chains clean_words(8) by blast
  next
    case (3 r)
    from renderHostRule_lines [OF wf [OF 3(1)] 3(2)] show ?thesis using rule_line_clean chains clean_words(7) by blast
  next
    case 4
    from default_lines_lines [OF this] show ?thesis using rule_line_clean chains clean_words(9) by blast
  next
    case 5
    from forwardPrefix_lines [OF this] show ?thesis using rule_line_clean chains clean_words(10) by blast
  next
    case (6 r)
    let ?targets = "if fr_action r = Accept then {''RETURN'', ''DROP''} else {targetFor r family}"
    have "\<forall>t \<in> ?targets. list_all safe_char t" using clean_words(7,9,10) by auto
    then show ?thesis
      using renderPublishedRule_lines [OF wf [OF 6(1)] 6(2)] rule_line_clean chains(2) by blast
  qed simp
qed

definition document :: "string list \<Rightarrow> string" where
  "document lines = join_with [newline] lines @ [newline]"

lemma document_lines:
  assumes "wf_payload (ri_payload input)"
  shows "split_on newline (document (family_lines input family ports)) = family_lines input family ports @ [[]]"
proof -
  have "newline \<notin> set l" if "l \<in> set (family_lines input family ports)" for l
    using family_line_cases [OF assms that] newline_unsafe by (auto simp: frame_line_def newline_def)
  then have "split_on newline (join_with [newline] (family_lines input family ports)) = family_lines input family ports"
    by (intro split_join) (auto simp: family_lines_def)
  then show ?thesis by (simp add: document_def split_on_append)
qed

text \<open>The document of a family, as the reconcile command loads it.\<close>

definition rendered_for :: "rendered_firewall \<Rightarrow> family \<Rightarrow> string option" where
  "rendered_for r family = (case family of V4 \<Rightarrow> Some (rf_v4 r) | V6 \<Rightarrow> rf_v6 r)"

lemma rendered_document:
  "rendered_for (renderFirewall sha input) family = Some doc \<Longrightarrow>
     doc = document (family_lines input family (guaranteed_ports input))"
  by (auto simp: rendered_for_def renderFirewall_def renderFamily_def document_def newline_def Let_def
      split: family.splits prod.splits if_splits)

section \<open>What the chains decide\<close>

definition host_lines :: "render_input \<Rightarrow> family \<Rightarrow> bool \<Rightarrow> string list" where
  "host_lines input family accepts = concat (map (\<lambda>r. renderHostRule r family)
     (filter (\<lambda>r. (fr_action r = Accept) = accepts) (filter (\<lambda>r. fr_scope r = HostScope) (fp_rules (ri_payload input)))))"

lemma scoped_host_lines:
  "concat (map (\<lambda>r. renderHostRule r family) (scoped input HostScope)) = host_lines input family False @ host_lines input family True"
  by (simp add: scoped_def orderedRules_def host_lines_def)

lemma host_lines_rule:
  assumes "wf_payload (ri_payload input)" "l \<in> set (host_lines input family accepts)"
  shows "\<exists>targets. rule_line ''TP-INPUT'' targets l" "line_decision l = (if accepts then Allow else Deny)"
proof -
  obtain r where r: "l \<in> set (renderHostRule r family)" "r \<in> set (fp_rules (ri_payload input))" "(fr_action r = Accept) = accepts"
    using assms(2) by (auto simp: host_lines_def)
  then have "rule_line ''TP-INPUT'' {targetFor r family} l"
    using assms(1) by (intro renderHostRule_lines) (auto simp: wf_payload_def)
  then show "\<exists>targets. rule_line ''TP-INPUT'' targets l" "line_decision l = (if accepts then Allow else Deny)"
    using rule_line_decision(4) [of "''TP-INPUT''" r family l] r(3) by auto
qed

lemma decide_segment:
  assumes "\<forall>l \<in> set xs. (\<exists>targets. rule_line chain targets l) \<and> line_decision l = d"
  shows "decide hit chain (xs @ ys) p = (if \<exists>l \<in> set xs. hit l p then d else decide hit chain ys p)"
proof -
  have "applies hit chain p l \<longleftrightarrow> hit l p" if mem: "l \<in> set xs" for l
  proof -
    obtain targets where "rule_line chain targets l" using assms mem by blast
    then show ?thesis by (rule rule_line_applies)
  qed
  then have eq: "(\<exists>l \<in> set xs. applies hit chain p l) \<longleftrightarrow> (\<exists>l \<in> set xs. hit l p)" by blast
  have "decide hit chain xs p = d" if "\<exists>l \<in> set xs. applies hit chain p l"
    using that assms by (simp add: decide_same)
  then show ?thesis unfolding decide_append eq by presburger
qed

lemma decide_skip: "\<forall>l \<in> set xs. \<not> applies hit chain p l \<Longrightarrow> decide hit chain (xs @ ys) p = decide hit chain ys p"
  by (auto simp: decide_append)

lemma decide_host:
  assumes wf: "wf_payload (ri_payload input)"
    and doc: "rendered_for (renderFirewall sha input) family = Some doc"
  shows "decide hit ''TP-INPUT'' (split_on newline doc) p =
    (if \<exists>l \<in> set (inputInvariants family (guaranteed_ports input)). hit l p then Allow
     else if \<exists>r \<in> set (fp_rules (ri_payload input)). fr_scope r = HostScope \<and> fr_action r \<noteq> Accept
       \<and> (\<exists>l \<in> set (renderHostRule r family). hit l p) then Deny
     else if \<exists>r \<in> set (fp_rules (ri_payload input)). fr_scope r = HostScope \<and> fr_action r = Accept
       \<and> (\<exists>l \<in> set (renderHostRule r family). hit l p) then Allow
     else if \<exists>l \<in> set (default_lines input). hit l p then Deny
     else Undecided)"
proof -
  let ?ports = "guaranteed_ports input" and ?fwd = "ri_includeForward input family"
  let ?head = "[''*filter'', '':TP-INPUT - [0:0]''] @ (if ?fwd then ['':TP-FWD - [0:0]''] else [])"
  let ?tail = "(if ?fwd then forwardPrefix @ concat (map (\<lambda>r. renderPublishedRule r family) (scoped input Published)) else [])
      @ [''COMMIT''] @ [[]]"
  have lines: "split_on newline doc = ?head @ inputInvariants family ?ports @ host_lines input family False
      @ host_lines input family True @ default_lines input @ ?tail"
    using document_lines [OF wf] rendered_document [OF assms(2)]
    by (simp add: family_lines_def scoped_host_lines FIREWALL_INPUT_CHAIN_def FIREWALL_FORWARD_CHAIN_def)
  have "\<not> applies hit ''TP-INPUT'' p l" if mem: "l \<in> set ?tail" for l
  proof -
    consider "l \<in> set forwardPrefix" | r where "wf_rule r" "l \<in> set (renderPublishedRule r family)" | "l = ''COMMIT'' \<or> l = []"
      using mem wf by (fastforce simp: scoped_rules wf_payload_def split: if_splits)
    then show ?thesis
    proof cases
      case 1
      from forwardPrefix_lines [OF this] show ?thesis by (rule rule_line_other)
    next
      case (2 r)
      from renderPublishedRule_lines [OF this] show ?thesis by (rule rule_line_other)
    qed (auto simp: applies_def)
  qed
  then have tail: "decide hit ''TP-INPUT'' ?tail p = Undecided" by (intro decide_none) blast
  have head: "\<forall>l \<in> set ?head. \<not> applies hit ''TP-INPUT'' p l"
    by (simp add: applies_def)
  have inv: "\<forall>l \<in> set (inputInvariants family ?ports). (\<exists>targets. rule_line ''TP-INPUT'' targets l) \<and> line_decision l = Allow"
    using inputInvariants_lines rule_line_decision(1) by meson
  have def: "\<forall>l \<in> set (default_lines input). (\<exists>targets. rule_line ''TP-INPUT'' targets l) \<and> line_decision l = Deny"
    using default_lines_lines rule_line_decision(2) by meson
  have host: "\<forall>l \<in> set (host_lines input family b). (\<exists>targets. rule_line ''TP-INPUT'' targets l)
      \<and> line_decision l = (if b then Allow else Deny)" for b
    using host_lines_rule [OF wf] by meson
  have "decide hit ''TP-INPUT'' (split_on newline doc) p =
     (if \<exists>l \<in> set (inputInvariants family ?ports). hit l p then Allow
      else if \<exists>l \<in> set (host_lines input family False). hit l p then Deny
      else if \<exists>l \<in> set (host_lines input family True). hit l p then Allow
      else if \<exists>l \<in> set (default_lines input). hit l p then Deny else Undecided)"
    unfolding lines decide_skip [OF head] decide_segment [OF inv] decide_segment [OF host]
      decide_segment [OF def] tail by simp
  then show ?thesis by (auto simp: host_lines_def)
qed

text \<open>C9: What the document decides about a packet for the host itself, for every way the kernel may
  read the match options of a line (\<open>hit\<close>): the invariants (loopback, established, ICMP, DHCP, every
  guaranteed port) accept first; then a packet that meets any \<open>drop\<close> or \<open>reject\<close> rule is denied,
  whatever accept rules say; then an accept rule accepts; then a default of \<open>drop\<close> denies; and
  otherwise the chain says nothing.
\<close>

theorem host_packets_decided:
  assumes "parseFirewallReconcilePayload v = Inr (ri_payload input)"
    and "rendered_for (renderFirewall sha input) family = Some doc"
  shows "decide hit ''TP-INPUT'' (split_on newline doc) p =
    (if \<exists>l \<in> set (inputInvariants family (guaranteed_ports input)). hit l p then Allow
     else if \<exists>r \<in> set (fp_rules (ri_payload input)). fr_scope r = HostScope \<and> fr_action r \<noteq> Accept
       \<and> (\<exists>l \<in> set (renderHostRule r family). hit l p) then Deny
     else if \<exists>r \<in> set (fp_rules (ri_payload input)). fr_scope r = HostScope \<and> fr_action r = Accept
       \<and> (\<exists>l \<in> set (renderHostRule r family). hit l p) then Allow
     else if \<exists>l \<in> set (default_lines input). hit l p then Deny
     else Undecided)"
  using decide_host [OF parsed_payload_wf [OF assms(1)] assms(2)] .

definition demo_input :: render_input where
  "demo_input = \<lparr>ri_payload = demo_payload, ri_sshPorts = [2222, 22], ri_includeForward = (\<lambda>_. True)\<rparr>"

definition smtp_line :: string where
  "smtp_line = ''-A TP-INPUT -p tcp --dport 25 -m comment --comment \"tp:user:smtp\" -j DROP''"

lemma demo_smtp_lines: "renderHostRule (fp_rules demo_payload ! 1) V4 = [smtp_line]"
  by code_simp

lemma demo_invariants: "smtp_line \<notin> set (inputInvariants V4 (guaranteed_ports demo_input))"
  by code_simp

theorem host_packets_decided_witness:
  "\<exists>doc. rendered_for (renderFirewall id demo_input) V4 = Some doc
     \<and> decide (\<lambda>line p. line = p) ''TP-INPUT'' (split_on newline doc) smtp_line = Deny"
proof -
  obtain doc where doc: "rendered_for (renderFirewall id demo_input) V4 = Some doc" by (simp add: rendered_for_def)
  have p: "parseFirewallReconcilePayload (json_parse demo_payload_text) = Inr (ri_payload demo_input)"
    using demo_payload_parses by (simp add: demo_input_def)
  have "fp_rules demo_payload ! 1 \<in> set (fp_rules (ri_payload demo_input))"
      "fr_scope (fp_rules demo_payload ! 1) = HostScope" "fr_action (fp_rules demo_payload ! 1) \<noteq> Accept"
    by (simp_all add: demo_input_def demo_payload_def)
  then show ?thesis
    using doc host_packets_decided [OF p doc, of "\<lambda>line p. line = p" smtp_line] demo_smtp_lines demo_invariants
    by (metis list.set_intros(1))
qed



section \<open>Published ports\<close>

definition published_lines :: "render_input \<Rightarrow> family \<Rightarrow> bool \<Rightarrow> string list" where
  "published_lines input family accepts = concat (map (\<lambda>r. renderPublishedRule r family)
     (filter (\<lambda>r. (fr_action r = Accept) = accepts) (filter (\<lambda>r. fr_scope r = Published) (fp_rules (ri_payload input)))))"

lemma scoped_published_lines:
  "concat (map (\<lambda>r. renderPublishedRule r family) (scoped input Published))
     = published_lines input family False @ published_lines input family True"
  by (simp add: scoped_def orderedRules_def published_lines_def)

text \<open>The lines of an accept rule: a return for each named source, then a drop for the rest.\<close>

definition return_lines :: "firewall_rule \<Rightarrow> family \<Rightarrow> string list" where
  "return_lines r family = [published_line r src dest ''RETURN''. dest \<leftarrow> destinationsFor r family, src \<leftarrow> sourcesFor r family]"

definition drop_lines :: "firewall_rule \<Rightarrow> family \<Rightarrow> string list" where
  "drop_lines r family = [published_line r None dest ''DROP''. dest \<leftarrow> destinationsFor r family]"

lemma accept_lines:
  "fr_action r = Accept \<Longrightarrow> ''any'' \<notin> set (fr_sources r) \<Longrightarrow>
     set (renderPublishedRule r family) = set (return_lines r family) \<union> set (drop_lines r family)"
  by (auto simp: renderPublishedRule_def return_lines_def drop_lines_def Let_def)

lemma published_lines_shape:
  assumes "wf_payload (ri_payload input)" "l \<in> set (published_lines input family accepts)"
  shows "\<exists>targets. rule_line ''TP-FWD'' targets l" "\<not> accepts \<Longrightarrow> line_decision l = Deny"
proof -
  obtain r where r: "l \<in> set (renderPublishedRule r family)" "r \<in> set (fp_rules (ri_payload input))" "(fr_action r = Accept) = accepts"
    using assms(2) by (auto simp: published_lines_def)
  then have "rule_line ''TP-FWD'' (if accepts then {''RETURN'', ''DROP''} else {targetFor r family}) l"
    using assms(1) renderPublishedRule_lines [OF _ r(1)] by (auto simp: wf_payload_def)
  then show "\<exists>targets. rule_line ''TP-FWD'' targets l" "\<not> accepts \<Longrightarrow> line_decision l = Deny"
    using rule_line_decision(4) [of "''TP-FWD''" r family l] r(3) by auto
qed

lemma published_accept_line:
  assumes "wf_payload (ri_payload input)" "l \<in> set (published_lines input family True)"
  obtains r where "r \<in> set (fp_rules (ri_payload input))" "fr_scope r = Published" "fr_action r = Accept"
    "l \<in> set (return_lines r family) \<or> l \<in> set (drop_lines r family)"
proof -
  obtain r where r: "l \<in> set (renderPublishedRule r family)" "r \<in> set (fp_rules (ri_payload input))"
      "fr_scope r = Published" "fr_action r = Accept"
    using assms(2) by (auto simp: published_lines_def)
  moreover have "''any'' \<notin> set (fr_sources r)" using r by (auto simp: renderPublishedRule_def Let_def split: if_splits)
  ultimately show ?thesis using that accept_lines [of r family] by blast
qed

lemma drop_line_decision: "wf_rule r \<Longrightarrow> l \<in> set (drop_lines r family) \<Longrightarrow> line_decision l = Deny"
  using published_line_rule [of r None family _ "''DROP''" "{''DROP''}"] rule_line_decision(2)
  by (fastforce simp: drop_lines_def)

lemma decide_published:
  assumes wf: "wf_payload (ri_payload input)" and "ri_includeForward input family"
    and "rendered_for (renderFirewall sha input) family = Some doc"
  shows "(\<exists>l \<in> set forwardPrefix. hit l p) \<Longrightarrow> decide hit ''TP-FWD'' (split_on newline doc) p = Undecided"
    and "\<not> (\<exists>l \<in> set forwardPrefix. hit l p) \<Longrightarrow> r \<in> set (fp_rules (ri_payload input)) \<Longrightarrow> fr_scope r = Published \<Longrightarrow>
      fr_action r \<noteq> Accept \<Longrightarrow> \<exists>l \<in> set (renderPublishedRule r family). hit l p \<Longrightarrow>
      decide hit ''TP-FWD'' (split_on newline doc) p = Deny"
    and "\<not> (\<exists>l \<in> set forwardPrefix. hit l p) \<Longrightarrow> r \<in> set (fp_rules (ri_payload input)) \<Longrightarrow> fr_scope r = Published \<Longrightarrow>
      fr_action r = Accept \<Longrightarrow> ''any'' \<notin> set (fr_sources r) \<Longrightarrow> \<exists>l \<in> set (drop_lines r family). hit l p \<Longrightarrow>
      \<forall>q \<in> set (fp_rules (ri_payload input)). \<forall>l \<in> set (return_lines q family). \<not> hit l p \<Longrightarrow>
      decide hit ''TP-FWD'' (split_on newline doc) p = Deny"
    and "\<forall>q \<in> set (fp_rules (ri_payload input)). \<forall>l \<in> set (renderPublishedRule q family). \<not> hit l p \<Longrightarrow>
      decide hit ''TP-FWD'' (split_on newline doc) p = Undecided"
proof -
  let ?head = "[''*filter'', '':TP-INPUT - [0:0]'', '':TP-FWD - [0:0]''] @ inputInvariants family (guaranteed_ports input)
      @ host_lines input family False @ host_lines input family True @ default_lines input"
  let ?block = "published_lines input family False" and ?acc = "published_lines input family True"
  have lines: "split_on newline doc = ?head @ forwardPrefix @ ?block @ ?acc @ [''COMMIT''] @ [[]]"
    using document_lines [OF wf, of family "guaranteed_ports input"] rendered_document [OF assms(3)] assms(2)
    by (simp add: family_lines_def scoped_host_lines scoped_published_lines FIREWALL_INPUT_CHAIN_def FIREWALL_FORWARD_CHAIN_def)
  have head: "\<forall>l \<in> set ?head. \<not> applies hit ''TP-FWD'' p l"
  proof
    fix l assume "l \<in> set ?head"
    then consider "l \<in> {''*filter'', '':TP-INPUT - [0:0]'', '':TP-FWD - [0:0]''}"
      | "l \<in> set (inputInvariants family (guaranteed_ports input))" | b where "l \<in> set (host_lines input family b)"
      | "l \<in> set (default_lines input)"
      by auto
    then have "l \<in> {''*filter'', '':TP-INPUT - [0:0]'', '':TP-FWD - [0:0]''} \<or> (\<exists>targets. rule_line ''TP-INPUT'' targets l)"
      by cases (blast intro: inputInvariants_lines default_lines_lines host_lines_rule(1) [OF wf])+
    then show "\<not> applies hit ''TP-FWD'' p l"
    proof
      assume "\<exists>targets. rule_line ''TP-INPUT'' targets l"
      then obtain targets where "rule_line ''TP-INPUT'' targets l" ..
      then show ?thesis by (rule rule_line_other(2))
    qed (auto simp: applies_def)
  qed
  have pre: "\<forall>l \<in> set forwardPrefix. (\<exists>targets. rule_line ''TP-FWD'' targets l) \<and> line_decision l = Undecided"
    using forwardPrefix_lines rule_line_decision(3) by meson
  have block: "\<forall>l \<in> set ?block. (\<exists>targets. rule_line ''TP-FWD'' targets l) \<and> line_decision l = Deny"
    using published_lines_shape [OF wf, of _ family False] by simp
  have rest: "decide hit ''TP-FWD'' (?acc @ [''COMMIT''] @ [[]]) p =
      (if \<exists>l \<in> set ?acc. applies hit ''TP-FWD'' p l then decide hit ''TP-FWD'' ?acc p else Undecided)"
    by (simp add: decide_append) (simp add: decide_def applies_def)
  have main: "decide hit ''TP-FWD'' (split_on newline doc) p =
      (if \<exists>l \<in> set forwardPrefix. hit l p then Undecided else if \<exists>l \<in> set ?block. hit l p then Deny
       else if \<exists>l \<in> set ?acc. applies hit ''TP-FWD'' p l then decide hit ''TP-FWD'' ?acc p else Undecided)"
    unfolding lines decide_skip [OF head] decide_segment [OF pre] decide_segment [OF block] rest ..
  then show "(\<exists>l \<in> set forwardPrefix. hit l p) \<Longrightarrow> decide hit ''TP-FWD'' (split_on newline doc) p = Undecided" by simp
  show "decide hit ''TP-FWD'' (split_on newline doc) p = Deny"
    if "\<not> (\<exists>l \<in> set forwardPrefix. hit l p)" "r \<in> set (fp_rules (ri_payload input))" "fr_scope r = Published"
      "fr_action r \<noteq> Accept" "\<exists>l \<in> set (renderPublishedRule r family). hit l p"
  proof -
    have "\<exists>l \<in> set ?block. hit l p" using that by (auto simp: published_lines_def)
    then show ?thesis using main that(1) by simp
  qed
  show "decide hit ''TP-FWD'' (split_on newline doc) p = Undecided"
    if none: "\<forall>q \<in> set (fp_rules (ri_payload input)). \<forall>l \<in> set (renderPublishedRule q family). \<not> hit l p"
  proof -
    have "\<not> (\<exists>l \<in> set ?block. hit l p)" "\<not> (\<exists>l \<in> set ?acc. hit l p)" using none by (auto simp: published_lines_def)
    then show ?thesis using main by (auto simp: applies_def)
  qed
  show "decide hit ''TP-FWD'' (split_on newline doc) p = Deny"
    if a: "\<not> (\<exists>l \<in> set forwardPrefix. hit l p)" "r \<in> set (fp_rules (ri_payload input))" "fr_scope r = Published"
      "fr_action r = Accept" "''any'' \<notin> set (fr_sources r)" "\<exists>l \<in> set (drop_lines r family). hit l p"
      "\<forall>q \<in> set (fp_rules (ri_payload input)). \<forall>l \<in> set (return_lines q family). \<not> hit l p"
  proof -
    have dec: "line_decision l = Deny" if m: "l \<in> set ?acc" "applies hit ''TP-FWD'' p l" for l
    proof -
      obtain q where q: "q \<in> set (fp_rules (ri_payload input))" "l \<in> set (return_lines q family) \<or> l \<in> set (drop_lines q family)"
        using published_accept_line [OF wf m(1)] by metis
      then have "l \<in> set (drop_lines q family)" using a(7) m(2) by (auto simp: applies_def)
      then show ?thesis using q(1) wf by (intro drop_line_decision) (auto simp: wf_payload_def)
    qed
    obtain l where l: "l \<in> set (drop_lines r family)" "hit l p" using a(6) by blast
    then have "l \<in> set (renderPublishedRule r family)" using a(4,5) accept_lines [of r family] by blast
    then have m: "l \<in> set ?acc" using a(2-4) by (auto simp: published_lines_def)
    obtain targets where t: "rule_line ''TP-FWD'' targets l" using published_lines_shape(1) [OF wf m] ..
    have ex: "\<exists>l \<in> set ?acc. applies hit ''TP-FWD'' p l" using rule_line_applies [OF t, of hit p] m l(2) by auto
    then have "decide hit ''TP-FWD'' ?acc p = Deny" using dec by (simp add: decide_same)
    then show ?thesis using main a(1) ex by simp
  qed
qed

text \<open>C24: What the document decides about a packet for a port Docker publishes, again for every reading of
  the match options: reply traffic and traffic from containers is left alone; otherwise a packet
  that meets a \<open>drop\<close> or \<open>reject\<close> rule is denied whatever the accept rules say; a packet to a port
  that an accept rule narrows, which none of the named sources matches, is denied; and a packet no
  rule speaks about is left to Docker.
\<close>

theorem published_packets_decided:
  assumes "parseFirewallReconcilePayload v = Inr (ri_payload input)" "ri_includeForward input family"
    and "rendered_for (renderFirewall sha input) family = Some doc"
  shows "if \<exists>l \<in> set forwardPrefix. hit l p then decide hit ''TP-FWD'' (split_on newline doc) p = Undecided
    else (\<forall>r \<in> set (fp_rules (ri_payload input)). fr_scope r = Published \<longrightarrow>
        (fr_action r \<noteq> Accept \<and> (\<exists>l \<in> set (renderPublishedRule r family). hit l p)
         \<or> fr_action r = Accept \<and> ''any'' \<notin> set (fr_sources r) \<and> (\<exists>l \<in> set (drop_lines r family). hit l p)
           \<and> (\<forall>q \<in> set (fp_rules (ri_payload input)). \<forall>l \<in> set (return_lines q family). \<not> hit l p)
         \<longrightarrow> decide hit ''TP-FWD'' (split_on newline doc) p = Deny))
      \<and> ((\<forall>q \<in> set (fp_rules (ri_payload input)). \<forall>l \<in> set (renderPublishedRule q family). \<not> hit l p)
         \<longrightarrow> decide hit ''TP-FWD'' (split_on newline doc) p = Undecided)"
  using decide_published [OF parsed_payload_wf [OF assms(1)] assms(2,3), where hit = hit and p = p] by auto

lemma demo_published:
  "renderPublishedRule (fp_rules demo_payload ! 0) V4 =
     [''-A TP-FWD -s 10.0.0.1/32 -p tcp -m conntrack --ctorigdstport 3306 -m comment --comment \"tp:user:db replica\" -j RETURN'',
      ''-A TP-FWD -p tcp -m conntrack --ctorigdstport 3306 -m comment --comment \"tp:user:db replica\" -j DROP'']"
  "drop_lines (fp_rules demo_payload ! 0) V4 =
     [''-A TP-FWD -p tcp -m conntrack --ctorigdstport 3306 -m comment --comment \"tp:user:db replica\" -j DROP'']"
  "\<forall>q \<in> set (fp_rules demo_payload). drop_lines (fp_rules demo_payload ! 0) V4 ! 0 \<notin> set (return_lines q V4)"
  "drop_lines (fp_rules demo_payload ! 0) V4 ! 0 \<notin> set forwardPrefix"
  by code_simp+

theorem published_packets_decided_witness:
  "\<exists>doc. rendered_for (renderFirewall id demo_input) V4 = Some doc
     \<and> decide (\<lambda>line p. line = p) ''TP-FWD'' (split_on newline doc) (drop_lines (fp_rules demo_payload ! 0) V4 ! 0) = Deny"
proof -
  let ?l = "drop_lines (fp_rules demo_payload ! 0) V4 ! 0"
  obtain doc where doc: "rendered_for (renderFirewall id demo_input) V4 = Some doc" by (simp add: rendered_for_def)
  have p: "parseFirewallReconcilePayload (json_parse demo_payload_text) = Inr (ri_payload demo_input)"
    using demo_payload_parses by (simp add: demo_input_def)
  have fwd: "ri_includeForward demo_input V4" by (simp add: demo_input_def)
  have r: "fp_rules demo_payload ! 0 \<in> set (fp_rules (ri_payload demo_input))" "fr_scope (fp_rules demo_payload ! 0) = Published"
      "fr_action (fp_rules demo_payload ! 0) = Accept" "''any'' \<notin> set (fr_sources (fp_rules demo_payload ! 0))"
      "fp_rules (ri_payload demo_input) = fp_rules demo_payload"
    by (simp_all add: demo_input_def demo_payload_def)
  have "?l \<in> set (drop_lines (fp_rules demo_payload ! 0) V4)" using demo_published(2) by simp
  then show ?thesis
    using doc published_packets_decided [OF p fwd doc, of "\<lambda>line p. line = p" ?l] r demo_published(3,4) by auto
qed

end
