(* ===== verification/Firewall_Guard.thy ===== *)
theory Firewall_Guard
  imports Firewall_Render_Laws
begin

text \<open>
  The check that the root guard makes of a document before it loads it
  (\<open>tp_validate_document\<close> of \<open>orchestration/scripts/tp-firewall-guard\<close>), and that what the
  renderer writes passes it. The guard loads only what passes: a refused document leaves the
  host without its confirmed rules after a reboot or a rollback.
\<close>

definition JUMP_WORDS :: "string list" where
  "JUMP_WORDS = [''-g'', ''--goto'', ''--jump'']"

definition GUARD_TARGETS :: "string list" where
  "GUARD_TARGETS = [''ACCEPT'', ''DROP'', ''REJECT'', ''RETURN'', ''TP-INPUT'', ''TP-FWD'']"

fun bad_words :: "string list \<Rightarrow> bool" where
  "bad_words [] = False"
| "bad_words (w # ws) =
     (w \<in> set JUMP_WORDS \<or> w = ''-j'' \<and> (case ws of [] \<Rightarrow> True | t # _ \<Rightarrow> t \<notin> set GUARD_TARGETS) \<or> bad_words ws)"

definition awk_words :: "string \<Rightarrow> string list" where
  "awk_words line = filter (\<lambda>w. w \<noteq> []) (split_on (CHR '' '') line)"

definition guard_line :: "string \<Rightarrow> bool" where
  "guard_line line \<longleftrightarrow> list_all (\<lambda>c. c = CHR '' '' \<or> c = CHR 0x09) line \<or> starts_with ''#'' line
     \<or> line \<in> set [''*filter'', ''COMMIT'', '':TP-INPUT - [0:0]'', '':TP-FWD - [0:0]'']
     \<or> (starts_with ''-A TP-INPUT '' line \<or> starts_with ''-A TP-FWD '' line)
       \<and> list_all safe_char line \<and> \<not> bad_words (awk_words line)"

definition tp_validate_document :: "string \<Rightarrow> bool" where
  "tp_validate_document doc = list_all guard_line (split_on newline doc)"

section \<open>Words of a rendered line\<close>

definition bad_word :: "string \<Rightarrow> bool" where
  "bad_word w \<longleftrightarrow> w \<in> set JUMP_WORDS \<or> w = ''-j''"

definition words :: "string \<Rightarrow> string set" where
  "words s = set (split_on (CHR '' '') s)"

definition harmless :: "string \<Rightarrow> bool" where
  "harmless s \<longleftrightarrow> (\<forall>w \<in> words s. \<not> bad_word w)"

lemma harmless_no_dash: "CHR ''-'' \<notin> set s \<Longrightarrow> harmless s"
proof -
  assume s: "CHR ''-'' \<notin> set s"
  have "CHR ''-'' \<in> set w" if "bad_word w" for w using that by (auto simp: bad_word_def JUMP_WORDS_def)
  then show ?thesis using s split_on_subset by (fastforce simp: harmless_def words_def)
qed

lemma words_append: "words (a @ CHR '' '' # b) = words a \<union> words b"
  by (simp add: words_def split_on_append)

lemma harmless_append: "harmless (a @ CHR '' '' # b) \<longleftrightarrow> harmless a \<and> harmless b"
  by (auto simp: harmless_def words_append)

lemma harmless_join: "\<forall>x \<in> set xs. harmless x \<Longrightarrow> harmless (join_with '' '' xs)"
proof (induction "'' ''" xs rule: join_with.induct)
  case 1
  then show ?case by (simp add: harmless_def words_def bad_word_def JUMP_WORDS_def)
next
  case (3 x y ys)
  then show ?case by (simp add: harmless_append)
qed simp

lemma harmless_joinArgs: "\<forall>x \<in> set xs. harmless x \<Longrightarrow> harmless (joinArgs xs)"
  unfolding joinArgs_def by (rule harmless_join) auto

lemma harmless_flag: "\<not> bad_word flag \<Longrightarrow> CHR '' '' \<notin> set flag \<Longrightarrow> CHR ''-'' \<notin> set s \<Longrightarrow> harmless (flag @ CHR '' '' # s)"
  using harmless_no_dash [of s] by (simp add: harmless_append) (simp add: harmless_def words_def split_on_id)

lemma split_snoc: "c \<noteq> q \<Longrightarrow> split_on c (s @ [q]) = butlast (split_on c s) @ [last (split_on c s) @ [q]]"
proof (induction s)
  case (Cons x s)
  then show ?case
    using split_on_nonempty [of c s] by (cases "split_on c s") (auto simp: split_on_Cons hd_append butlast_append)
qed simp

lemma harmless_quoted:
  assumes "harmless s"
  shows "harmless (s @ [CHR 0x22])"
proof -
  have "w \<in> words s \<or> CHR 0x22 \<in> set w" if "w \<in> words (s @ [CHR 0x22])" for w
    using that by (auto simp: words_def split_snoc dest: in_set_butlastD)
  moreover have "\<not> bad_word w" if "CHR 0x22 \<in> set w" for w using that by (auto simp: bad_word_def JUMP_WORDS_def)
  ultimately show ?thesis using assms by (auto simp: harmless_def)
qed

text \<open>A rule whose comment holds no jump option as a word.\<close>

definition harmless_rule :: "firewall_rule \<Rightarrow> bool" where
  "harmless_rule r \<longleftrightarrow> (case fr_comment r of None \<Rightarrow> True | Some c \<Rightarrow> harmless c)"

lemma quote_words:
  assumes "CHR '' '' \<notin> set s" "CHR 0x22 \<in> set s"
  shows "harmless s"
  using assms by (auto simp: harmless_def words_def split_on_id bad_word_def JUMP_WORDS_def)

lemma harmless_opening: "harmless ''-m comment --comment''"
  by code_simp

lemma harmless_comment:
  assumes "wf_rule r" "harmless_rule r"
  shows "harmless (commentFor r)"
proof -
  define name where "name = CHR 0x22 # ''tp:'' @ origin_text (fr_origin r) @ '':'' @ fr_id r"
  have "\<not> id_char (CHR '' '')" by code_simp
  then have "CHR '' '' \<notin> set (fr_id r)" using assms(1) by (auto simp: wf_rule_def list_all_iff)
  then have n: "CHR '' '' \<notin> set name" "CHR 0x22 \<in> set name"
    by (auto simp: name_def origin_text_def split: rule_origin.splits)
  show ?thesis
  proof (cases "fr_comment r = None \<or> fr_comment r = Some []")
    case True
    then have "commentFor r = ''-m comment --comment'' @ CHR '' '' # (name @ [CHR 0x22])"
      by (auto simp: commentFor_def name_def)
    then show ?thesis using n harmless_opening by (simp only: harmless_append) (simp add: quote_words)
  next
    case False
    then obtain c where c: "fr_comment r = Some c" "c \<noteq> []" by auto
    then have "commentFor r = ''-m comment --comment'' @ CHR '' '' # (name @ CHR '' '' # (c @ [CHR 0x22]))"
      by (auto simp: commentFor_def name_def)
    moreover have "harmless (c @ [CHR 0x22])" using assms(2) c by (intro harmless_quoted) (simp add: harmless_rule_def)
    ultimately show ?thesis using n harmless_opening by (simp only: harmless_append) (simp add: quote_words)
  qed
qed

lemma named_ports_no_dash: "named_ports r = Some t \<Longrightarrow> CHR ''-'' \<notin> set t"
  using digits_no_dash by (auto simp: named_ports_def range_text_def split: option.splits if_splits)

lemma address_no_dash: "wf_address s \<Longrightarrow> CHR ''-'' \<notin> set s"
  using wf_address_chars [of s] by (auto simp: list_all_iff address_char_def is_hex_def is_digit_def)

lemma harmless_words:
  "harmless []" "harmless (protoArgs r)" "harmless (hostPortArgs r)"
proof -
  show e: "harmless []" by code_simp
  have "harmless ''-p tcp''" "harmless ''-p udp''" by code_simp+
  with e show "harmless (protoArgs r)" by (simp add: protoArgs_def split: rule_proto.splits)
  have "harmless (''--dport'' @ CHR '' '' # t)" if "named_ports r = Some t" for t
    using named_ports_no_dash [OF that] by (intro harmless_flag) (auto simp: bad_word_def JUMP_WORDS_def)
  with e show "harmless (hostPortArgs r)" by (simp add: hostPortArgs_def split: option.splits)
qed

lemma harmless_address:
  assumes "\<And>s. v = Some s \<Longrightarrow> wf_address s" "\<not> bad_word flag" "CHR '' '' \<notin> set flag"
  shows "harmless (opt_arg (flag @ '' '') v)"
  using assms harmless_words(1) harmless_flag [OF assms(2,3)] address_no_dash
  by (auto simp: opt_arg_def split: option.splits)

lemma harmless_published_match:
  assumes "\<And>d. dest = Some d \<Longrightarrow> wf_address d"
  shows "harmless (publishedMatchArgs r dest)"
proof -
  define parts where "parts = (case named_ports r of None \<Rightarrow> [] | Some t \<Rightarrow> [''--ctorigdstport '' @ t])
        @ (case dest of None \<Rightarrow> [] | Some d \<Rightarrow> [''--ctorigdst '' @ d])"
  have "harmless (''--ctorigdstport'' @ CHR '' '' # t)" if "named_ports r = Some t" for t
    using named_ports_no_dash [OF that] by (intro harmless_flag) (auto simp: bad_word_def JUMP_WORDS_def)
  moreover have "harmless (''--ctorigdst'' @ CHR '' '' # d)" if "dest = Some d" for d
    using address_no_dash [OF assms [OF that]] by (intro harmless_flag) (auto simp: bad_word_def JUMP_WORDS_def)
  ultimately have "\<forall>x \<in> set parts. harmless x" by (auto simp: parts_def split: option.splits)
  then have j: "harmless (join_with '' '' parts)" by (rule harmless_join)
  have "harmless ''-m conntrack''" by code_simp
  then have "harmless (''-m conntrack'' @ CHR '' '' # join_with '' '' parts)" using j by (simp only: harmless_append)
  moreover have "publishedMatchArgs r dest = (if parts = [] then [] else ''-m conntrack'' @ CHR '' '' # join_with '' '' parts)"
    by (simp add: publishedMatchArgs_def parts_def)
  ultimately show ?thesis using harmless_words(1) by presburger
qed

lemma sources_wf: "wf_rule r \<Longrightarrow> Some s \<in> set (sourcesFor r family) \<Longrightarrow> wf_address s"
  by (auto simp: sourcesFor_def wf_rule_def split: if_splits)

lemma destinations_wf: "wf_rule r \<Longrightarrow> Some d \<in> set (destinationsFor r family) \<Longrightarrow> wf_address d"
  by (auto simp: destinationsFor_def wf_rule_def split: option.splits if_splits)

section \<open>Lines the guard accepts\<close>

definition render_targets :: "string list" where
  "render_targets = [''ACCEPT'', ''DROP'', ''RETURN'', ''REJECT --reject-with tcp-reset'',
     ''REJECT --reject-with icmp-port-unreachable'', ''REJECT --reject-with icmp6-port-unreachable'']"

lemma targetFor_render: "targetFor r family \<in> set render_targets"
  by (simp add: targetFor_def render_targets_def split: rule_action.splits)

lemma target_words: "list_all (\<lambda>t. \<not> bad_words (''-j'' # awk_words t)) render_targets"
  by code_simp

lemma bad_words_append: "\<forall>w \<in> set xs. \<not> bad_word w \<Longrightarrow> bad_words (xs @ ys) = bad_words ys"
  by (induction xs) (auto simp: bad_word_def)

lemma guard_rule_line:
  assumes "chain \<in> {''TP-INPUT'', ''TP-FWD''}" "harmless mid" "list_all safe_char mid" "t \<in> set render_targets"
  shows "guard_line (''-A '' @ chain @ '' '' @ mid @ '' -j '' @ t)"
proof -
  let ?line = "''-A '' @ chain @ '' '' @ mid @ '' -j '' @ t"
  have "list_all (list_all safe_char) render_targets" "list_all safe_char ''-A ''" "list_all safe_char '' -j ''"
      "list_all safe_char ''TP-INPUT''" "list_all safe_char ''TP-FWD''" "list_all safe_char '' ''" by code_simp+
  moreover from this have "list_all safe_char t" using assms(4) list_all_iff [of "list_all safe_char" render_targets] by blast
  ultimately have safe: "list_all safe_char ?line" using assms(1,3) unfolding list_all_append by fast
  have "harmless ''-A TP-INPUT''" "harmless ''-A TP-FWD''" by code_simp+
  then have front: "harmless ((''-A '' @ chain) @ CHR '' '' # mid)"
    using assms(1,2) unfolding harmless_append by auto
  have "awk_words ?line = awk_words ((''-A '' @ chain) @ CHR '' '' # mid) @ ''-j'' # awk_words t"
    using split_line [of "(''-A '' @ chain) @ CHR '' '' # mid" t] by (simp add: awk_words_def)
  moreover have "\<forall>w \<in> set (awk_words ((''-A '' @ chain) @ CHR '' '' # mid)). \<not> bad_word w"
    using front by (auto simp: awk_words_def harmless_def words_def)
  moreover have "\<not> bad_words (''-j'' # awk_words t)" using target_words assms(4) by (auto simp: list_all_iff)
  ultimately have "\<not> bad_words (awk_words ?line)" using bad_words_append by metis
  moreover have "starts_with ''-A TP-INPUT '' ?line \<or> starts_with ''-A TP-FWD '' ?line" using assms(1) by auto
  ultimately show ?thesis using safe unfolding guard_line_def by blast
qed

lemma guard_host_line:
  assumes "wf_rule r" "harmless_rule r" "l \<in> set (renderHostRule r family)"
  shows "guard_line l"
proof -
  obtain src dest where l: "l = host_line r src dest (targetFor r family)" "src \<in> set (sourcesFor r family)"
      "dest \<in> set (destinationsFor r family)"
    using assms(3) by (auto simp: renderHostRule_def)
  let ?mid = "joinArgs [opt_arg ''-s '' src, opt_arg ''-d '' dest, protoArgs r, hostPortArgs r, commentFor r]"
  have "harmless (opt_arg (''-s'' @ '' '') src)" "harmless (opt_arg (''-d'' @ '' '') dest)"
    using l(2,3) sources_wf destinations_wf assms(1)
    by (intro harmless_address; fastforce simp: bad_word_def JUMP_WORDS_def)+
  then have "harmless ?mid"
    using harmless_words harmless_comment [OF assms(1,2)] by (intro harmless_joinArgs) auto
  moreover have "list_all safe_char (opt_arg ''-s '' src)" "list_all safe_char (opt_arg ''-d '' dest)"
    using l(2,3) sources_clean destinations_clean assms(1) clean_words(11,12) by (blast intro: clean_opt_arg)+
  then have "list_all safe_char ?mid"
    using clean_words(6) clean_comment [OF assms(1)] clean_host_ports by (intro clean_joinArgs) auto
  ultimately show ?thesis
    using guard_rule_line [of "''TP-INPUT''" ?mid "targetFor r family"] targetFor_render
    by (simp add: l(1) host_line_shape)
qed

lemma guard_published_line:
  assumes "wf_rule r" "harmless_rule r" "src = None \<or> src \<in> set (sourcesFor r family)"
    "dest \<in> set (destinationsFor r family)" "t \<in> set render_targets"
  shows "guard_line (published_line r src dest t)"
proof -
  let ?mid = "joinArgs [opt_arg ''-s '' src, protoArgs r, publishedMatchArgs r dest, commentFor r]"
  have "harmless (opt_arg (''-s'' @ '' '') src)"
    using assms(1,3) sources_wf by (intro harmless_address; fastforce simp: bad_word_def JUMP_WORDS_def)
  moreover have "harmless (publishedMatchArgs r dest)"
    using assms(1,4) destinations_wf by (intro harmless_published_match) blast
  ultimately have "harmless ?mid"
    using harmless_words harmless_comment [OF assms(1,2)] by (intro harmless_joinArgs) auto
  moreover have "list_all safe_char (opt_arg ''-s '' src)" "list_all safe_char (publishedMatchArgs r dest)"
    using assms(3,4) sources_clean destinations_clean assms(1) clean_words(11)
    by (blast intro: clean_opt_arg clean_published_match)+
  then have "list_all safe_char ?mid"
    using clean_words(6) clean_comment [OF assms(1)] by (intro clean_joinArgs) auto
  ultimately show ?thesis
    using guard_rule_line [of "''TP-FWD''" ?mid t] assms(5) by (simp add: published_line_shape)
qed

lemma guard_system_line:
  "list_all guard_line forwardPrefix" "list_all guard_line (inputInvariants family [])"
  "guard_line (''-A TP-INPUT '' @ systemComment ''default'' @ '' -j DROP'')"
proof -
  have "list_all guard_line (inputInvariants V4 [])" "list_all guard_line (inputInvariants V6 [])" by code_simp+
  then show "list_all guard_line (inputInvariants family [])" by (cases family) (simp_all only:)
qed code_simp+

lemma guard_port_line: "guard_line (port_line port)"
proof -
  let ?digits = "digits_of_nat port"
  let ?quoted = "CHR 0x22 # ''tp:system:tcp-'' @ ?digits @ [CHR 0x22]"
  have "CHR '' '' \<notin> set ?digits" using digits_of_nat_digits [of port] by (auto simp: list_all_iff is_digit_def)
  then have "harmless ?quoted" by (intro quote_words) auto
  moreover have "harmless ''-p tcp --dport''" by code_simp
  moreover have "harmless ?digits" using digits_no_dash by (rule harmless_no_dash)
  ultimately have h: "harmless (''-p tcp --dport'' @ CHR '' '' # ?digits @ CHR '' '' # ''-m comment --comment'' @ CHR '' '' # ?quoted)"
    using harmless_opening by (simp only: harmless_append)
  let ?mid = "''-p tcp --dport '' @ ?digits @ '' '' @ systemComment (''tcp-'' @ ?digits)"
  have eq: "?mid = ''-p tcp --dport'' @ CHR '' '' # ?digits @ CHR '' '' # ''-m comment --comment'' @ CHR '' '' # ?quoted"
    by (simp add: systemComment_def)
  have "list_all safe_char ''-p tcp --dport ''" "list_all safe_char ''tcp-''" by code_simp+
  then have "list_all safe_char ((''-p tcp --dport '' @ ?digits) @ '' '' @ systemComment (''tcp-'' @ ?digits))"
    using clean_digits by (intro clean_system) (simp_all only: list_all_append)
  then have "list_all safe_char ?mid" by (simp only: append_assoc)
  then show ?thesis
    using guard_rule_line [of "''TP-INPUT''" ?mid "''ACCEPT''"] h eq
    by (simp add: port_line_def FIREWALL_INPUT_CHAIN_def render_targets_def)
qed

lemma guard_family_line:
  assumes "wf_payload (ri_payload input)" "\<forall>r \<in> set (fp_rules (ri_payload input)). harmless_rule r"
    and "l \<in> set (family_lines input family ports)"
  shows "guard_line l"
proof -
  have wf: "wf_rule r" "harmless_rule r" if "r \<in> set (scoped input scope)" for r scope
    using assms(1,2) that by (auto simp: wf_payload_def scoped_rules)
  have inv: "inputInvariants family ports = inputInvariants family [] @ map port_line ports"
    by (simp add: inputInvariants_def Let_def)
  consider "frame_line l" | "l \<in> set (inputInvariants family ports)"
    | r where "r \<in> set (scoped input HostScope)" "l \<in> set (renderHostRule r family)"
    | "l \<in> set (default_lines input)" | "l \<in> set forwardPrefix"
    | r where "r \<in> set (scoped input Published)" "l \<in> set (renderPublishedRule r family)"
    using assms(3) by (auto simp: family_lines_def frame_line_def FIREWALL_INPUT_CHAIN_def FIREWALL_FORWARD_CHAIN_def
        split: if_splits)
  then show ?thesis
  proof cases
    case 1
    then show ?thesis by (auto simp: frame_line_def guard_line_def)
  next
    case 2
    then show ?thesis using guard_system_line(2) guard_port_line unfolding inv by (auto simp: list_all_iff)
  next
    case (3 r)
    then show ?thesis using guard_host_line wf by blast
  next
    case 4
    then show ?thesis using guard_system_line(3) by (simp add: default_lines_def FIREWALL_INPUT_CHAIN_def split: if_splits)
  next
    case 5
    then show ?thesis using guard_system_line(1) by (simp add: list_all_iff)
  next
    case (6 r)
    then obtain src dest t where p: "l = published_line r src dest t" "src = None \<or> src \<in> set (sourcesFor r family)"
        "dest \<in> set (destinationsFor r family)" "t = ''RETURN'' \<or> t = ''DROP'' \<or> t = targetFor r family"
      by (auto simp: renderPublishedRule_def Let_def split: if_splits)
    then have "t \<in> set render_targets" using targetFor_render [of r family] by (auto simp: render_targets_def)
    then show ?thesis using guard_published_line [OF wf [OF 6(1)] p(2,3)] p(1) by simp
  qed
qed

text \<open>C33: The root guard accepts what the renderer writes: when no rule comment contains a jump option
  (\<open>-j\<close>, \<open>-g\<close>, \<open>--goto\<close>, \<open>--jump\<close>) as a word, both documents rendered from an accepted payload pass the
  check the guard makes before it loads a confirmed ruleset at boot or in a rollback.
\<close>

theorem rendered_document_passes_the_guard:
  assumes "parseFirewallReconcilePayload v = Inr (ri_payload input)"
    and "\<forall>r \<in> set (fp_rules (ri_payload input)). harmless_rule r"
    and "rendered_for (renderFirewall sha input) family = Some doc"
  shows "tp_validate_document doc"
proof -
  have wf: "wf_payload (ri_payload input)" using assms(1) by (rule parsed_payload_wf)
  have "split_on newline doc = family_lines input family (guaranteed_ports input) @ [[]]"
    using document_lines [OF wf] rendered_document [OF assms(3)] by simp
  moreover have "guard_line []" by (simp add: guard_line_def)
  ultimately show ?thesis
    using guard_family_line [OF wf assms(2)] by (auto simp: tp_validate_document_def list_all_iff)
qed

lemma demo_harmless: "\<forall>r \<in> set (fp_rules demo_payload). harmless_rule r"
  by code_simp

theorem rendered_document_passes_the_guard_witness:
  "tp_validate_document (rf_v4 (renderFirewall id demo_input))"
proof -
  have p: "parseFirewallReconcilePayload (json_parse demo_payload_text) = Inr (ri_payload demo_input)"
    using demo_payload_parses by (simp add: demo_input_def)
  have h: "\<forall>r \<in> set (fp_rules (ri_payload demo_input)). harmless_rule r" using demo_harmless by (simp add: demo_input_def)
  show ?thesis
    using rendered_document_passes_the_guard [OF p h, of id V4] by (simp add: rendered_for_def)
qed

section \<open>A comment the guard refuses\<close>

text \<open>
  The condition on the comments is needed: the payload below is accepted by the contract
  parser, but the guard refuses the document it renders to, because a word of the comment reads as a
  jump. After a confirm the host would come back from a reboot without its rules.
\<close>

definition jump_comment_text :: string where
  "jump_comment_text = ''{\"generation\":4,\"mode\":\"managed\",\"policy\":{\"inputDefault\":\"accept\",\"ipv6\":\"skip\"},\"rules\":[{\"id\":\"smtp\",\"scope\":\"host\",\"action\":\"drop\",\"proto\":\"tcp\",\"origin\":\"user\",\"sources\":[\"any\"],\"ports\":\"25\",\"comment\":\"no -g mail\"}]}''"

definition jump_comment_payload :: reconcile_payload where
  "jump_comment_payload = \<lparr>fp_generation = 4, fp_mode = Managed,
     fp_policy = \<lparr>pol_inputDefault = DefaultAccept, pol_ipv6 = Skip\<rparr>,
     fp_rules = [\<lparr>fr_id = ''smtp'', fr_scope = HostScope, fr_action = Drop, fr_proto = Tcp, fr_origin = UserRow,
       fr_sources = [''any''], fr_ports = Some ''25'', fr_destinations = None, fr_comment = Some ''no -g mail''\<rparr>],
     fp_controlPlane = None, fp_sshPorts = None\<rparr>"

lemma jump_comment_parses:
  "parseFirewallReconcilePayload (json_parse jump_comment_text) = Inr jump_comment_payload"
  by code_simp

lemma jump_comment_line: "\<not> list_all guard_line (renderHostRule (hd (fp_rules jump_comment_payload)) V4)"
  by code_simp

lemma guard_refuses_a_jump_comment:
  assumes "ri_payload input = jump_comment_payload"
  shows "\<not> tp_validate_document (rf_v4 (renderFirewall sha input))"
proof -
  let ?r = "hd (fp_rules jump_comment_payload)"
  obtain l where l: "l \<in> set (renderHostRule ?r V4)" "\<not> guard_line l" using jump_comment_line by (auto simp: list_all_iff)
  have wf: "wf_payload (ri_payload input)" using parsed_payload_wf [OF jump_comment_parses] assms by simp
  have "?r \<in> set (scoped input HostScope)"
    by (simp add: scoped_rules assms) (simp add: jump_comment_payload_def)
  then have "l \<in> set (family_lines input V4 (guaranteed_ports input))" using l(1) by (auto simp: family_lines_def)
  moreover have "split_on newline (rf_v4 (renderFirewall sha input)) = family_lines input V4 (guaranteed_ports input) @ [[]]"
    using document_lines [OF wf] rendered_document [of sha input V4] by (simp add: rendered_for_def)
  ultimately show ?thesis using l(2) by (auto simp: tp_validate_document_def list_all_iff)
qed

end
