(* ===== verification/Log_Text.thy ===== *)
theory Log_Text
  imports Text_Encoding
begin

text \<open>
  The log sanitizer (\<open>src/util/logger.ts\<close>): terminal escape sequences are removed, every other
  control character becomes an underscore. The source walks code units; here the walk is over
  the bytes of the text, where a C1 control is the byte \<open>C2\<close> and its continuation.
\<close>

definition endOfCsi :: "string \<Rightarrow> string" where
  "endOfCsi s =
     (let r = dropWhile (byte_in 32 47) (dropWhile (byte_in 48 63) s)
      in case r of [] \<Rightarrow> [] | c # t \<Rightarrow> if byte_in 64 126 c then t else r)"

fun endOfString :: "string \<Rightarrow> string" where
  "endOfString [] = []"
| "endOfString (c # s) =
     (if code c = 7 then s
      else if code c = 27 then (case s of [] \<Rightarrow> [c] | d # t \<Rightarrow> if code d = 92 then t else c # s)
      else endOfString s)"

text \<open>What follows an escape sequence, given what follows its \<open>ESC\<close>.\<close>

definition endOfEscape :: "string \<Rightarrow> string" where
  "endOfEscape s = (case s of [] \<Rightarrow> []
     | c # t \<Rightarrow> if c = CHR ''['' then endOfCsi t
         else if c \<in> set '']PX^_'' then endOfString t
         else if byte_in 64 95 c then t else s)"

definition isLoneControl :: "char \<Rightarrow> bool" where
  "isLoneControl c \<longleftrightarrow> code c \<noteq> 9 \<and> code c \<noteq> 10 \<and> code c \<noteq> 13 \<and> (code c < 32 \<or> code c = 127)"

lemma length_endOfCsi: "length (endOfCsi s) \<le> length s"
proof -
  have "length (case r of [] \<Rightarrow> [] | c # t \<Rightarrow> if P c then t else r) \<le> length r" for r :: string and P
    by (cases r) auto
  then show ?thesis unfolding endOfCsi_def Let_def by (meson le_trans length_dropWhile_le)
qed

lemma length_endOfString: "length (endOfString s) \<le> length s"
proof (induction s)
  case (Cons c s)
  then show ?case by (cases s) (auto simp: le_SucI simp del: One_nat_def)
qed simp

lemma length_endOfEscape: "length (endOfEscape s) \<le> length s"
  using length_endOfCsi [of "tl s"] length_endOfString [of "tl s"] by (cases s) (auto simp: endOfEscape_def le_SucI)

function (sequential) stripTerminalControls :: "string \<Rightarrow> string" where
  "stripTerminalControls [] = []"
| "stripTerminalControls (c # s) =
     (if code c = 27 then stripTerminalControls (endOfEscape s)
      else if isLoneControl c then CHR ''_'' # stripTerminalControls s
      else if code c = 194 \<and> s \<noteq> [] \<and> byte_in 128 159 (hd s) then CHR ''_'' # stripTerminalControls (tl s)
      else c # stripTerminalControls s)"
  by pat_completeness auto
termination
  by (relation "measure length") (auto simp: le_imp_less_Suc length_endOfEscape)

definition stripLogInjection :: "string \<Rightarrow> string" where
  "stripLogInjection text = map (\<lambda>c. if code c = 10 \<or> code c = 13 \<or> code c = 9 then CHR ''_'' else c) (stripTerminalControls text)"

definition sanitizeForLog :: "string \<Rightarrow> string" where
  "sanitizeForLog text = stripLogInjection text"

lemma stripTerminalControls_clean: "c \<in> set (stripTerminalControls s) \<Longrightarrow> \<not> isLoneControl c"
proof (induction s rule: stripTerminalControls.induct)
  case (2 d s)
  have "\<not> isLoneControl (CHR ''_'')" by code_simp
  with 2 show ?case by (auto split: if_splits)
qed simp

text \<open>A sanitized text cannot forge a log line or drive a terminal: it holds no line break, no tab and
  no other ASCII control character, whatever the text was.
\<close>

lemma sanitized_text_has_no_controls:
  "c \<in> set (sanitizeForLog text) \<Longrightarrow> 32 \<le> code c \<and> code c \<noteq> 127"
proof -
  assume "c \<in> set (sanitizeForLog text)"
  then obtain d where d: "d \<in> set (stripTerminalControls text)"
      "c = (if code d = 10 \<or> code d = 13 \<or> code d = 9 then CHR ''_'' else d)"
    by (auto simp: sanitizeForLog_def stripLogInjection_def)
  have "32 \<le> code (CHR ''_'') \<and> code (CHR ''_'') \<noteq> 127" by code_simp
  then show ?thesis using d stripTerminalControls_clean [OF d(1)] by (auto simp: isLoneControl_def)
qed

lemma demo_sanitized: "sanitizeForLog [CHR ''a'', CHR 0x1B, CHR ''['', CHR ''2'', CHR ''J'', CHR 0x0A, CHR ''b''] = ''a_b''"
  by code_simp

end
