(* ===== verification/Firewall_Pending.thy ===== *)
theory Firewall_Pending
  imports Firewall_Render Json_Text Log_Text
begin

text \<open>
  The host as the firewall code sees it, and the state of a ruleset that waits for its confirm
  (\<open>src/firewall/run.ts\<close>, \<open>src/firewall/pending.ts\<close>).

  The state is the content of the files the code keeps (\<open>fw_files\<close>) and everything done so far
  (\<open>fw_trace\<close>): commands run, with their answers, and files written or removed. What the host
  answers is the record \<open>fw_env\<close>: the answer to a command and the failure of a file operation
  may depend on everything that happened before, and so may the clock (milliseconds). The
  conversions between times and texts (\<open>toISOString\<close>, \<open>Date.parse\<close>) and the text of a number
  are part of it too. An operation that may throw returns a result; what it did before the
  throw stays. Log lines and the time limits of commands are left out.
\<close>

section \<open>The host\<close>

record run_result =
  run_success :: bool
  run_code :: int
  run_stdout :: string
  run_stderr :: string

datatype fw_file = MarkerFile | PendingDoc family | DurableDoc family | RollbackFile

datatype fw_op = ReadOp fw_file | WriteOp fw_file | RemoveOp fw_file | DirOp

datatype fw_event =
    Ran string "string list" "string option" run_result
  | Wrote fw_file string
  | Removed fw_file
  | IoFailed fw_op

record fw_env =
  fe_answer :: "fw_event list \<Rightarrow> string \<Rightarrow> string list \<Rightarrow> string option \<Rightarrow> run_result"
  fe_fails :: "fw_event list \<Rightarrow> fw_op \<Rightarrow> string option"
  fe_now :: "fw_event list \<Rightarrow> int"
  fe_iso :: "int \<Rightarrow> string"
  fe_dateParse :: "string \<Rightarrow> int option"
  fe_numText :: "int \<Rightarrow> int \<Rightarrow> string"
  fe_sha256hex :: "string \<Rightarrow> string"

record fw_state =
  fw_files :: "fw_file \<Rightarrow> string option"
  fw_trace :: "fw_event list"

datatype fw_error = FwError (fw_name: string) (fw_message: string)

type_synonym 'a fw = "fw_state \<Rightarrow> (fw_error, 'a) result \<times> fw_state"

definition fbind :: "'a fw \<Rightarrow> ('a \<Rightarrow> 'b fw) \<Rightarrow> 'b fw" where
  "fbind m f s = (case m s of (Inl e, s') \<Rightarrow> (Inl e, s') | (Inr x, s') \<Rightarrow> f x s')"

definition freturn :: "'a \<Rightarrow> 'a fw" where
  "freturn x s = (Inr x, s)"

definition fthrow :: "fw_error \<Rightarrow> 'a fw" where
  "fthrow e s = (Inl e, s)"

definition fcatch :: "'a fw \<Rightarrow> (fw_error \<Rightarrow> 'a fw) \<Rightarrow> 'a fw" where
  "fcatch m h s = (case m s of (Inl e, s') \<Rightarrow> h e s' | (Inr x, s') \<Rightarrow> (Inr x, s'))"

fun each_step :: "('a \<Rightarrow> unit fw) \<Rightarrow> 'a list \<Rightarrow> unit fw" where
  "each_step f [] = freturn ()"
| "each_step f (x # xs) = fbind (f x) (\<lambda>_. each_step f xs)"

fun map_step :: "('a \<Rightarrow> 'b fw) \<Rightarrow> 'a list \<Rightarrow> 'b list fw" where
  "map_step f [] = freturn []"
| "map_step f (x # xs) = fbind (f x) (\<lambda>y. fbind (map_step f xs) (\<lambda>ys. freturn (y # ys)))"

definition record_event :: "fw_event \<Rightarrow> fw_state \<Rightarrow> fw_state" where
  "record_event e s = s\<lparr>fw_trace := fw_trace s @ [e]\<rparr>"

definition run_cmd :: "fw_env \<Rightarrow> string \<Rightarrow> string list \<Rightarrow> run_result fw" where
  "run_cmd env cmd args s = (let r = fe_answer env (fw_trace s) cmd args None
     in (Inr r, record_event (Ran cmd args None r) s))"

definition run_stdin :: "fw_env \<Rightarrow> string \<Rightarrow> string list \<Rightarrow> string \<Rightarrow> run_result fw" where
  "run_stdin env cmd args text s = (let r = fe_answer env (fw_trace s) cmd args (Some text)
     in (Inr r, record_event (Ran cmd args (Some text) r) s))"

definition io_step :: "fw_env \<Rightarrow> fw_op \<Rightarrow> (fw_state \<Rightarrow> 'a \<times> fw_state) \<Rightarrow> 'a fw" where
  "io_step env op f s = (case fe_fails env (fw_trace s) op of
     Some message \<Rightarrow> (Inl (FwError ''Error'' message), record_event (IoFailed op) s)
   | None \<Rightarrow> (case f s of (x, s') \<Rightarrow> (Inr x, s')))"

definition writeFileAtomic :: "fw_env \<Rightarrow> fw_file \<Rightarrow> string \<Rightarrow> unit fw" where
  "writeFileAtomic env file text = io_step env (WriteOp file) (\<lambda>s.
     ((), record_event (Wrote file text) s\<lparr>fw_files := (fw_files s)(file := Some text)\<rparr>))"

definition removeIfPresent :: "fw_env \<Rightarrow> fw_file \<Rightarrow> unit fw" where
  "removeIfPresent env file = io_step env (RemoveOp file) (\<lambda>s.
     ((), record_event (Removed file) s\<lparr>fw_files := (fw_files s)(file := None)\<rparr>))"

definition readTextIfPresent :: "fw_env \<Rightarrow> fw_file \<Rightarrow> string option fw" where
  "readTextIfPresent env file = io_step env (ReadOp file) (\<lambda>s. (fw_files s file, s))"

definition ensure_dir :: "fw_env \<Rightarrow> unit fw" where
  "ensure_dir env = io_step env DirOp (\<lambda>s. ((), s))"

section \<open>Answers of commands\<close>

definition result_text :: "run_result \<Rightarrow> string" where
  "result_text r = to_lower (run_stderr r @ '' '' @ run_stdout r)"

definition isPermissionDeniedText :: "run_result \<Rightarrow> bool" where
  "isPermissionDeniedText r = list_ex (\<lambda>w. includes_str w (result_text r))
     [''permission denied'', ''operation not permitted'', ''access denied'',
      ''interactive authentication required'', ''no hostkeys available'']"

definition isMissingRuleText :: "run_result \<Rightarrow> bool" where
  "isMissingRuleText r = list_ex (\<lambda>w. includes_str w (result_text r))
     [''no such chain'', ''no chain/target/match'', ''does not exist'', ''bad rule'',
      ''rule doesn'' @ [CHR 0x27] @ ''t exist'', ''can'' @ [CHR 0x27] @ ''t find'']"

definition isMissingBinaryText :: "run_result \<Rightarrow> bool" where
  "isMissingBinaryText r \<longleftrightarrow> run_code r = 127 \<and> list_ex (\<lambda>w. includes_str w (result_text r))
     [''no such file'', ''not found'', ''spawn failed'']"

definition XTABLES_BINARIES :: "string list" where
  "XTABLES_BINARIES = [''iptables'', ''ip6tables'', ''iptables-restore'', ''ip6tables-restore'',
     ''iptables-save'', ''ip6tables-save'']"

definition XTABLES_LOCK_WAIT_SECONDS :: nat where "XTABLES_LOCK_WAIT_SECONDS = 5"

text \<open>
  The runner behind the commands: \<open>spawn\<close> runs one program, \<open>sudo_args\<close> is \<open>hostSudoArgs\<close>. A
  refused program is tried once more through sudo.
\<close>

definition runFirewallHost ::
  "(string \<Rightarrow> string list \<Rightarrow> string option \<Rightarrow> run_result) \<Rightarrow> (string list \<Rightarrow> string list)
     \<Rightarrow> string \<Rightarrow> string list \<Rightarrow> string option \<Rightarrow> run_result" where
  "runFirewallHost spawn sudo_args cmd args stdin =
     (let finalArgs = (if cmd \<in> set XTABLES_BINARIES
            then [''-w'', digits_of_nat XTABLES_LOCK_WAIT_SECONDS] @ args else args);
          direct = spawn cmd finalArgs stdin
      in if run_success direct \<or> \<not> isPermissionDeniedText direct then direct
         else spawn ''sudo'' (sudo_args ([''-n'', cmd] @ finalArgs)) stdin)"

definition failureText :: "run_result \<Rightarrow> string" where
  "failureText r = (if run_stderr r \<noteq> [] then run_stderr r else if run_stdout r \<noteq> [] then run_stdout r
     else ''exit '' @ int_text (run_code r))"

section \<open>The pending ruleset\<close>

definition FIREWALL_CONFIRM_WINDOW_SECONDS :: int where "FIREWALL_CONFIRM_WINDOW_SECONDS = 120"
definition FIREWALL_GUARD_TIMER :: string where "FIREWALL_GUARD_TIMER = ''turbopanel-firewall-guard.timer''"
definition FIREWALL_GUARD_SERVICE :: string where "FIREWALL_GUARD_SERVICE = ''turbopanel-firewall-guard.service''"

datatype v6_intent = ReplaceV6 | ForgetV6 | KeepV6

definition intent_text :: "v6_intent \<Rightarrow> string" where
  "intent_text intent = (case intent of ReplaceV6 \<Rightarrow> ''replace'' | ForgetV6 \<Rightarrow> ''forget'' | KeepV6 \<Rightarrow> ''keep'')"

text \<open>A marker that passed its check is the object that was read, with what the code uses of it.\<close>

record pending_marker =
  pm_fields :: fields
  pm_digest :: string
  pm_deadlineAt :: string
  pm_v6 :: v6_intent

fun string_field :: "json option \<Rightarrow> string option" where
  "string_field (Some (JStr s)) = Some s"
| "string_field _ = None"

fun number_field :: "json option \<Rightarrow> (int \<times> int) option" where
  "number_field (Some (JNum m e)) = Some (m, e)"
| "number_field _ = None"

definition isMarker :: "fw_env \<Rightarrow> json \<Rightarrow> pending_marker option" where
  "isMarker env value = (case value of
     JObj fs \<Rightarrow>
       if Option.bind (number_field (obj_get fs ''version'')) (\<lambda>(m, e). decimal_integer m e) \<noteq> Some 1 then None
       else Option.bind (string_field (obj_get fs ''digest'')) (\<lambda>digest.
         if number_field (obj_get fs ''generation'') = None \<or> string_field (obj_get fs ''armedAt'') = None then None
         else Option.bind (string_field (obj_get fs ''deadlineAt'')) (\<lambda>deadlineAt.
           if fe_dateParse env deadlineAt = None \<or> number_field (obj_get fs ''windowSeconds'') = None then None
           else Option.bind (pick [(''replace'', ReplaceV6), (''forget'', ForgetV6), (''keep'', KeepV6)] (obj_get fs ''v6''))
             (\<lambda>v6. Some \<lparr>pm_fields = fs, pm_digest = digest, pm_deadlineAt = deadlineAt, pm_v6 = v6\<rparr>)))
   | _ \<Rightarrow> None)"

definition readPendingMarker :: "fw_env \<Rightarrow> pending_marker option fw" where
  "readPendingMarker env = fbind (readTextIfPresent env MarkerFile) (\<lambda>text. (case text of
     None \<Rightarrow> freturn None
   | Some t \<Rightarrow> freturn (Option.bind (json_parse t) (isMarker env))))"

record rollback_record =
  rb_digest :: string
  rb_at :: string
  rb_restored :: string

definition parse_rollback :: "json \<Rightarrow> rollback_record option" where
  "parse_rollback v =
     Option.bind (string_field (jprop (Some v) ''digest'')) (\<lambda>digest.
     Option.bind (string_field (jprop (Some v) ''at'')) (\<lambda>at.
     Option.bind (string_field (jprop (Some v) ''restored'')) (\<lambda>restored.
       if restored \<in> set [''durable'', ''none'', ''open'']
       then Some \<lparr>rb_digest = digest, rb_at = at, rb_restored = restored\<rparr> else None)))"

definition readRollbackRecord :: "fw_env \<Rightarrow> rollback_record option fw" where
  "readRollbackRecord env = fcatch
     (fbind (readTextIfPresent env RollbackFile) (\<lambda>text. (case text of
        None \<Rightarrow> freturn None
      | Some t \<Rightarrow> freturn (Option.bind (json_parse t) parse_rollback))))
     (\<lambda>_. freturn None)"

definition armGuardTimer :: "fw_env \<Rightarrow> unit fw" where
  "armGuardTimer env = fbind (run_cmd env ''systemctl'' [''restart'', FIREWALL_GUARD_TIMER]) (\<lambda>r.
     if run_success r then freturn ()
     else fthrow (FwError ''FirewallGuardUnavailableError''
       (''firewall rollback guard could not be armed, so no rules were loaded: '' @ sanitizeForLog (failureText r))))"

definition disarmGuardTimer :: "fw_env \<Rightarrow> unit fw" where
  "disarmGuardTimer env = fbind (run_cmd env ''systemctl'' [''stop'', FIREWALL_GUARD_TIMER]) (\<lambda>_. freturn ())"

definition clearPendingFirewall :: "fw_env \<Rightarrow> unit fw" where
  "clearPendingFirewall env =
     fbind (removeIfPresent env MarkerFile) (\<lambda>_.
     fbind (removeIfPresent env (PendingDoc V4)) (\<lambda>_. removeIfPresent env (PendingDoc V6)))"

record pending_input =
  pi_digest :: string
  pi_generation :: int
  pi_v4 :: string

record armed_pending =
  ap_deadlineAt :: string
  ap_windowSeconds :: int

definition new_marker :: "fw_env \<Rightarrow> pending_input \<Rightarrow> int \<Rightarrow> fields" where
  "new_marker env input now =
     [(''version'', JNum 1 0), (''digest'', JStr (pi_digest input)), (''generation'', JNum (pi_generation input) 0),
      (''armedAt'', JStr (fe_iso env now)),
      (''deadlineAt'', JStr (fe_iso env (now + FIREWALL_CONFIRM_WINDOW_SECONDS * 1000))),
      (''windowSeconds'', JNum FIREWALL_CONFIRM_WINDOW_SECONDS 0), (''v6'', JStr (intent_text KeepV6))]"

definition arm_at :: "fw_env \<Rightarrow> pending_input \<Rightarrow> int \<Rightarrow> armed_pending fw" where
  "arm_at env input now =
     fbind (ensure_dir env) (\<lambda>_. fbind (ensure_dir env) (\<lambda>_.
     fbind (removeIfPresent env RollbackFile) (\<lambda>_.
     fbind (removeIfPresent env (PendingDoc V6)) (\<lambda>_.
     fbind (writeFileAtomic env (PendingDoc V4) (pi_v4 input)) (\<lambda>_.
     fbind (writeFileAtomic env MarkerFile (json_text (fe_numText env) (JObj (new_marker env input now)))) (\<lambda>_.
     fbind (fcatch (armGuardTimer env) (\<lambda>e. fbind (clearPendingFirewall env) (\<lambda>_. fthrow e))) (\<lambda>_.
       freturn \<lparr>ap_deadlineAt = fe_iso env (now + FIREWALL_CONFIRM_WINDOW_SECONDS * 1000),
         ap_windowSeconds = FIREWALL_CONFIRM_WINDOW_SECONDS\<rparr>)))))))"

definition armPendingFirewall :: "fw_env \<Rightarrow> pending_input \<Rightarrow> armed_pending fw" where
  "armPendingFirewall env input s = arm_at env input (fe_now env (fw_trace s)) s"

definition recordPendingV6 :: "fw_env \<Rightarrow> v6_intent \<Rightarrow> string option \<Rightarrow> unit fw" where
  "recordPendingV6 env intent v6Document = fbind (readPendingMarker env) (\<lambda>marker. (case marker of
     None \<Rightarrow> freturn ()
   | Some m \<Rightarrow>
       fbind (case v6Document of
           Some d \<Rightarrow> if intent = ReplaceV6 then writeFileAtomic env (PendingDoc V6) d else removeIfPresent env (PendingDoc V6)
         | None \<Rightarrow> removeIfPresent env (PendingDoc V6)) (\<lambda>_.
         writeFileAtomic env MarkerFile
           (json_text (fe_numText env) (JObj (AList.update ''v6'' (JStr (intent_text intent)) (pm_fields m)))))))"

end
