(* ===== verification/Firewall_Fold.thy ===== *)
theory Firewall_Fold
  imports Firewall_Pending
begin

text \<open>
  Folding the legacy managed-listener chain into the managed rule set
  (\<open>src/firewall/fold.ts\<close>): the reading of \<open>iptables -S\<close>, the coverage test and the removal.
\<close>

definition LEGACY_MANAGED_PARENT_CHAIN :: string where "LEGACY_MANAGED_PARENT_CHAIN = ''TP-MANAGED-PUB''"
definition DOCKER_USER_CHAIN :: string where "DOCKER_USER_CHAIN = ''DOCKER-USER''"
definition MAX_JUMP_REMOVALS :: nat where "MAX_JUMP_REMOVALS = 8"

definition LEGACY_CHILD_CHAIN_RE :: re where
  "LEGACY_CHILD_CHAIN_RE = RSeq (re_str ''TP-MGD-'') (re_rep 1 20 (RCls (\<lambda>c. is_lower c \<or> is_digit c)))"

record legacy_listener =
  ll_dest :: "string option"
  ll_port :: string
  ll_hasDrop :: bool
  ll_sources :: "string list"

record parsed_rule =
  pr_chain :: string
  pr_source :: "string option"
  pr_dest :: "string option"
  pr_port :: "string option"
  pr_target :: string

datatype fold_state = NothingToFold | Folded | KeptLegacy | Deferred | Partial

record fold_outcome =
  fo_state :: fold_state
  fo_listeners :: nat
  fo_reasons :: "string list"

section \<open>Reading iptables -S\<close>

text \<open>\<open>\S+\<close> at the front of a text.\<close>

fun nonspace :: "string \<Rightarrow> string" where
  "nonspace [] = []"
| "nonspace (c # s) = (if strip_one js_spaces (c # s) \<noteq> None then [] else c # nonspace s)"

text \<open>The first match of \<open>(?:^| )flag (\S+)\<close>; \<open>opening\<close> says that a match may begin here.\<close>

definition word_after :: "string \<Rightarrow> string \<Rightarrow> string option" where
  "word_after flag s = (if starts_with flag s
     then (case nonspace (drop (length flag) s) of [] \<Rightarrow> None | c # w \<Rightarrow> Some (c # w)) else None)"

fun field_from :: "string \<Rightarrow> bool \<Rightarrow> string \<Rightarrow> string option" where
  "field_from flag opening [] = None"
| "field_from flag opening (c # s) = (case (if opening then word_after flag (c # s) else None) of
     Some word \<Rightarrow> Some word
   | None \<Rightarrow> field_from flag (c = CHR '' '') s)"

definition fieldOf :: "string \<Rightarrow> string \<Rightarrow> string option" where
  "fieldOf line flag = field_from (flag @ '' '') True line"

definition parseRuleLine :: "string \<Rightarrow> parsed_rule option" where
  "parseRuleLine line =
     (let trimmed = js_trim line; chain = nonspace (drop 3 trimmed)
      in if \<not> starts_with ''-A '' trimmed \<or> chain = [] then None
         else map_option (\<lambda>target. \<lparr>pr_chain = chain, pr_source = fieldOf line ''-s'',
           pr_dest = fieldOf line ''--ctorigdst'', pr_port = fieldOf line ''--ctorigdstport'', pr_target = target\<rparr>)
           (fieldOf line ''-j''))"

definition parseRules :: "string \<Rightarrow> parsed_rule list" where
  "parseRules stdout = List.map_filter parseRuleLine (split_on (CHR 0x0A) stdout)"

section \<open>Coverage\<close>

definition ipv4ToInt :: "string \<Rightarrow> int option" where
  "ipv4ToInt address =
     (let parts = split_on (CHR ''.'') address
      in if length parts = 4 \<and> list_all (\<lambda>part. re_match (re_rep 1 3 re_digit) part \<and> nat_of_digits 10 part \<le> 255) parts
         then Some (fold (\<lambda>part value. value * 256 + int (nat_of_digits 10 part)) parts 0) else None)"

definition text_integer :: "string \<Rightarrow> int option" where
  "text_integer s = Option.bind (number_of_text s) (\<lambda>(m, e). decimal_integer m e)"

definition splitCidr :: "string \<Rightarrow> (int \<times> nat) option" where
  "splitCidr value =
     (let parts = split_on (CHR ''/'') value
      in case (ipv4ToInt (hd parts), if length parts > 1 then text_integer (parts ! 1) else Some 32) of
           (Some base, Some bits) \<Rightarrow> if 0 \<le> bits \<and> bits \<le> 32 then Some (base, nat bits) else None
         | _ \<Rightarrow> None)"

definition cidrContains :: "string \<Rightarrow> string \<Rightarrow> bool" where
  "cidrContains outer inner = (case (splitCidr outer, splitCidr inner) of
     (Some (ob, obits), Some (ib, ibits)) \<Rightarrow>
       obits \<le> ibits \<and> ob div 2 ^ (32 - obits) = ib div 2 ^ (32 - obits)
   | _ \<Rightarrow> False)"

definition portBounds :: "string \<Rightarrow> (int \<times> int) option" where
  "portBounds port =
     (let parts = split_on (CHR '':'') port
      in case (text_integer (hd parts), if length parts > 1 then text_integer (parts ! 1) else text_integer (hd parts)) of
           (Some lo, Some hi) \<Rightarrow> if hi < lo then None else Some (lo, hi)
         | _ \<Rightarrow> None)"

definition portContains :: "string \<Rightarrow> string \<Rightarrow> bool" where
  "portContains outer inner = (case (portBounds outer, portBounds inner) of
     (Some (ol, oh), Some (il, ih)) \<Rightarrow> ol \<le> il \<and> ih \<le> oh
   | _ \<Rightarrow> False)"

definition sameDest :: "string option \<Rightarrow> string option \<Rightarrow> bool" where
  "sameDest newDest legacyDest = (case newDest of None \<Rightarrow> True
     | Some d \<Rightarrow> (case legacyDest of None \<Rightarrow> False | Some l \<Rightarrow> cidrContains d l))"

definition targetsPort :: "parsed_rule \<Rightarrow> legacy_listener \<Rightarrow> bool" where
  "targetsPort r listener = (case pr_port r of None \<Rightarrow> False
     | Some p \<Rightarrow> portContains p (ll_port listener) \<and> sameDest (pr_dest r) (ll_dest listener))"

definition uncoveredReasons :: "legacy_listener \<Rightarrow> parsed_rule list \<Rightarrow> string list" where
  "uncoveredReasons listener forward =
     (let place = (case ll_dest listener of None \<Rightarrow> ''*'' | Some d \<Rightarrow> d) @ '':'' @ ll_port listener;
          scopedTo = filter (\<lambda>r. targetsPort r listener) forward;
          drops = filter (\<lambda>r. pr_source r = None \<and> (pr_target r = ''DROP'' \<or> pr_target r = ''REJECT'')) scopedTo;
          returns = filter (\<lambda>r. pr_source r \<noteq> None \<and> pr_target r = ''RETURN'') scopedTo
      in (if ll_hasDrop listener \<and> drops = [] then [place @ '': no DROP for other sources in TP-FWD''] else [])
         @ map (\<lambda>src. place @ '': '' @ src @ '' is not allowed in TP-FWD'')
             (filter (\<lambda>src. \<not> list_ex (\<lambda>r. cidrContains (case pr_source r of None \<Rightarrow> [] | Some o1 \<Rightarrow> o1) src) returns)
                (ll_sources listener)))"

definition listener_key :: "parsed_rule \<Rightarrow> string \<Rightarrow> string" where
  "listener_key r port = (case pr_dest r of None \<Rightarrow> [] | Some d \<Rightarrow> d) @ ''|'' @ port"

definition add_rule :: "parsed_rule \<Rightarrow> (string \<times> legacy_listener) list \<Rightarrow> (string \<times> legacy_listener) list" where
  "add_rule r byKey = (case pr_port r of
     None \<Rightarrow> byKey
   | Some port \<Rightarrow>
       let key = listener_key r port;
           entry = (case map_of byKey key of Some l \<Rightarrow> l
             | None \<Rightarrow> \<lparr>ll_dest = pr_dest r, ll_port = port, ll_hasDrop = False, ll_sources = []\<rparr>);
           entry1 = (case pr_source r of Some src \<Rightarrow>
               if pr_target r = ''ACCEPT'' then entry\<lparr>ll_sources := ll_sources entry @ [src]\<rparr> else entry
             | None \<Rightarrow> if pr_target r = ''DROP'' then entry\<lparr>ll_hasDrop := True\<rparr> else entry)
       in AList.update key entry1 byKey)"

definition legacyListeners :: "parsed_rule list \<Rightarrow> legacy_listener list" where
  "legacyListeners rules = map snd (fold add_rule rules [])"

section \<open>The fold\<close>

definition pendingNow :: "fw_env \<Rightarrow> bool fw" where
  "pendingNow env = fbind (readPendingMarker env) (\<lambda>m. freturn (m \<noteq> None))"

definition liveForwardRules :: "fw_env \<Rightarrow> parsed_rule list option fw" where
  "liveForwardRules env = fbind (pendingNow env) (\<lambda>pending.
     if pending then freturn None
     else fbind (run_cmd env ''iptables'' [''-C'', DOCKER_USER_CHAIN, ''-j'', FIREWALL_FORWARD_CHAIN]) (\<lambda>hung.
       if \<not> run_success hung then freturn None
       else fbind (run_cmd env ''iptables'' [''-S'', FIREWALL_FORWARD_CHAIN]) (\<lambda>listed.
         freturn (if run_success listed then Some (parseRules (run_stdout listed)) else None))))"

definition isManagedListenerCovered :: "fw_env \<Rightarrow> legacy_listener \<Rightarrow> bool fw" where
  "isManagedListenerCovered env listener = fcatch
     (fbind (liveForwardRules env) (\<lambda>forward. freturn (case forward of None \<Rightarrow> False
        | Some rules \<Rightarrow> uncoveredReasons listener rules = [])))
     (\<lambda>_. freturn False)"

definition legacyChildren :: "fw_env \<Rightarrow> string list option fw" where
  "legacyChildren env = fbind (run_cmd env ''iptables'' [''-S'', LEGACY_MANAGED_PARENT_CHAIN]) (\<lambda>parent.
     freturn (if \<not> run_success parent \<or> \<not> includes_str (''-N '' @ LEGACY_MANAGED_PARENT_CHAIN) (run_stdout parent) then None
       else Some (filter (re_match LEGACY_CHILD_CHAIN_RE)
         (map pr_target (filter (\<lambda>r. pr_chain r = LEGACY_MANAGED_PARENT_CHAIN) (parseRules (run_stdout parent)))))))"

definition readLegacyListeners :: "fw_env \<Rightarrow> string list \<Rightarrow> legacy_listener list fw" where
  "readLegacyListeners env children =
     fbind (map_step (\<lambda>child. fbind (run_cmd env ''iptables'' [''-S'', child]) (\<lambda>listed.
       freturn (if run_success listed then legacyListeners (parseRules (run_stdout listed)) else []))) children)
       (\<lambda>perChild. freturn (concat perChild))"

text \<open>One removal, with the failures so far.\<close>

definition attempt :: "fw_env \<Rightarrow> string list \<Rightarrow> string list \<Rightarrow> (bool \<times> string list) fw" where
  "attempt env args failures = fbind (run_cmd env ''iptables'' args) (\<lambda>r.
     freturn (run_success r,
       if \<not> run_success r \<and> \<not> isMissingRuleText r
       then failures @ [''iptables '' @ join_with '' '' args @ '': '' @ failureText r] else failures))"

fun remove_jumps :: "fw_env \<Rightarrow> nat \<Rightarrow> string list \<Rightarrow> string list fw" where
  "remove_jumps env 0 failures = freturn failures"
| "remove_jumps env (Suc left) failures =
     fbind (attempt env [''-D'', DOCKER_USER_CHAIN, ''-j'', LEGACY_MANAGED_PARENT_CHAIN] failures) (\<lambda>(removed, failures1).
       if removed then remove_jumps env left failures1 else freturn failures1)"

fun attempt_all :: "fw_env \<Rightarrow> string list list \<Rightarrow> string list \<Rightarrow> string list fw" where
  "attempt_all env [] failures = freturn failures"
| "attempt_all env (args # later) failures =
     fbind (attempt env args failures) (\<lambda>(_, failures1). attempt_all env later failures1)"

definition removeLegacy :: "fw_env \<Rightarrow> string list \<Rightarrow> string list fw" where
  "removeLegacy env children =
     fbind (remove_jumps env MAX_JUMP_REMOVALS []) (\<lambda>failures.
       attempt_all env
         ([[''-F'', LEGACY_MANAGED_PARENT_CHAIN], [''-X'', LEGACY_MANAGED_PARENT_CHAIN]]
          @ concat (map (\<lambda>chain. [[''-F'', chain], [''-X'', chain]]) children)) failures)"

definition fold_covered :: "fw_env \<Rightarrow> string list \<Rightarrow> legacy_listener list \<Rightarrow> parsed_rule list option \<Rightarrow> fold_outcome fw" where
  "fold_covered env names listeners forward = (case forward of
     None \<Rightarrow> freturn \<lparr>fo_state = KeptLegacy, fo_listeners = length listeners,
       fo_reasons = [''TP-FWD is not loaded and hung off DOCKER-USER'']\<rparr>
   | Some rules \<Rightarrow>
       let reasons = concat (map (\<lambda>l. uncoveredReasons l rules) listeners)
       in if reasons \<noteq> [] then freturn \<lparr>fo_state = KeptLegacy, fo_listeners = length listeners, fo_reasons = reasons\<rparr>
          else fbind (removeLegacy env names) (\<lambda>failures.
            freturn \<lparr>fo_state = (if failures \<noteq> [] then Partial else Folded),
              fo_listeners = length listeners, fo_reasons = failures\<rparr>))"

definition fold_children :: "fw_env \<Rightarrow> string list option \<Rightarrow> fold_outcome fw" where
  "fold_children env children = (case children of
     None \<Rightarrow> freturn \<lparr>fo_state = NothingToFold, fo_listeners = 0, fo_reasons = []\<rparr>
   | Some names \<Rightarrow> fbind (readLegacyListeners env names) (\<lambda>listeners.
       fbind (liveForwardRules env) (fold_covered env names listeners)))"

definition foldManagedPublicChain :: "fw_env \<Rightarrow> fold_outcome fw" where
  "foldManagedPublicChain env = fbind (pendingNow env) (\<lambda>pending.
     if pending
     then freturn \<lparr>fo_state = Deferred, fo_listeners = 0, fo_reasons = [''a firewall ruleset is pending confirmation'']\<rparr>
     else fbind (legacyChildren env) (fold_children env))"

definition foldManagedPublicChainBestEffort :: "fw_env \<Rightarrow> unit fw" where
  "foldManagedPublicChainBestEffort env = fcatch (fbind (foldManagedPublicChain env) (\<lambda>_. freturn ())) (\<lambda>_. freturn ())"

end
