(* ===== verification/Firewall_Commit.thy ===== *)
theory Firewall_Commit
  imports Firewall_Fold
begin

text \<open>
  The firewall on the host: probing, loading and removing rulesets
  (\<open>src/firewall/apply.ts\<close>), the confirm that makes a pending ruleset durable
  (\<open>src/firewall/confirm.ts\<close>), the daemon's own confirm (\<open>src/firewall/auto-confirm.ts\<close>), the
  ports of the SSH daemon (\<open>src/firewall/sshd-port.ts\<close>) and the two command handlers
  (\<open>src/commands/firewall-reconcile.ts\<close>, \<open>src/commands/firewall-confirm.ts\<close>).

  All operations run on the host of \<open>Firewall_Pending\<close>. The check of the control plane is an
  argument: no check at all, or a function of what happened so far that gives no message when the
  round trip succeeded and otherwise the message of its failure (a timeout included).
\<close>

section \<open>The tools of the host\<close>

definition CONTROL_PLANE_UNIT :: string where "CONTROL_PLANE_UNIT = ''turbopanel-instance.service''"
definition INPUT_BUILTIN :: string where "INPUT_BUILTIN = ''INPUT''"

definition binaryFor :: "family \<Rightarrow> string \<Rightarrow> string" where
  "binaryFor family tool = (case family of V4 \<Rightarrow> ''iptables'' | V6 \<Rightarrow> ''ip6tables'') @ tool"

record xtables_probe =
  xp_ok :: bool
  xp_version :: string
  xp_ipv6 :: bool
  xp_warning :: "string option"

definition probeXtables :: "fw_env \<Rightarrow> xtables_probe fw" where
  "probeXtables env = fbind (run_cmd env ''iptables'' [''-V'']) (\<lambda>v4.
     if \<not> run_success v4
     then freturn \<lparr>xp_ok = False, xp_version = [], xp_ipv6 = False,
       xp_warning = Some (if isMissingBinaryText v4
         then ''iptables is not installed on this host (apt-get install iptables)''
         else ''iptables -V failed: '' @ failureText v4)\<rparr>
     else fbind (run_cmd env ''ip6tables'' [''-V'']) (\<lambda>v6.
       freturn \<lparr>xp_ok = True, xp_version = run_stdout v4, xp_ipv6 = run_success v6,
         xp_warning = (if includes_str ''nf_tables'' (run_stdout v4) then None
           else Some (''iptables reports a legacy backend ('' @ run_stdout v4
             @ ''); rules apply but do not share a table with nftables tooling''))\<rparr>))"

definition hasDockerUserChain :: "fw_env \<Rightarrow> family \<Rightarrow> bool fw" where
  "hasDockerUserChain env family =
     fbind (run_cmd env (binaryFor family []) [''-S'', DOCKER_USER_CHAIN]) (\<lambda>r. freturn (run_success r))"

definition isControlPlaneColocated :: "fw_env \<Rightarrow> bool fw" where
  "isControlPlaneColocated env =
     fbind (run_cmd env ''systemctl'' [''is-active'', CONTROL_PLANE_UNIT]) (\<lambda>r.
       freturn (js_trim (run_stdout r) = ''active''))"

definition ensureJump :: "fw_env \<Rightarrow> family \<Rightarrow> string \<Rightarrow> string \<Rightarrow> unit fw" where
  "ensureJump env family parent child =
     (let bin = binaryFor family []
      in fbind (run_cmd env bin [''-C'', parent, ''-j'', child]) (\<lambda>exists.
         if run_success exists then freturn ()
         else fbind (run_cmd env bin [''-I'', parent, ''1'', ''-j'', child]) (\<lambda>added.
           if run_success added then freturn ()
           else fthrow (FwError ''Error'' (bin @ '' -I '' @ parent @ '' 1 -j '' @ child @ '' failed: '' @ failureText added)))))"

fun remove_jump_attempts :: "fw_env \<Rightarrow> nat \<Rightarrow> string \<Rightarrow> string \<Rightarrow> string \<Rightarrow> unit fw" where
  "remove_jump_attempts env 0 bin parent child = freturn ()"
| "remove_jump_attempts env (Suc attempts) bin parent child =
     fbind (run_cmd env bin [''-D'', parent, ''-j'', child]) (\<lambda>removed.
       if run_success removed then remove_jump_attempts env attempts bin parent child else freturn ())"

definition removeJumpBestEffort :: "fw_env \<Rightarrow> family \<Rightarrow> string \<Rightarrow> string \<Rightarrow> unit fw" where
  "removeJumpBestEffort env family parent child = remove_jump_attempts env 8 (binaryFor family []) parent child"

definition restoreDocument :: "fw_env \<Rightarrow> family \<Rightarrow> string \<Rightarrow> unit fw" where
  "restoreDocument env family document =
     (let bin = binaryFor family ''-restore''
      in fbind (run_stdin env bin [''--noflush'', ''--test''] document) (\<lambda>tested.
         if \<not> run_success tested
         then fthrow (FwError ''FirewallRulesetRefusedError'' (bin @ '' --test refused the ruleset: '' @ failureText tested))
         else fbind (run_stdin env bin [''--noflush''] document) (\<lambda>applied.
           if \<not> run_success applied then fthrow (FwError ''Error'' (bin @ '' failed: '' @ failureText applied))
           else freturn ())))"

record firewall_validation =
  va_ok :: bool
  va_errors :: "string list"

definition test_document :: "fw_env \<Rightarrow> family \<times> string \<Rightarrow> string list fw" where
  "test_document env fd = (case fd of (family, document) \<Rightarrow>
     let bin = binaryFor family ''-restore''
     in fbind (run_stdin env bin [''--noflush'', ''--test''] document) (\<lambda>tested.
       freturn (if run_success tested then []
         else [js_slice0 500 (sanitizeForLog (bin @ '' --test refused the ruleset: '' @ failureText tested))])))"

definition validateRenderedFirewall :: "fw_env \<Rightarrow> rendered_firewall \<Rightarrow> xtables_probe \<Rightarrow> firewall_validation fw" where
  "validateRenderedFirewall env rendered probe =
     (let documents = (V4, rf_v4 rendered) #
            (case rf_v6 rendered of None \<Rightarrow> [] | Some d \<Rightarrow> if xp_ipv6 probe then [(V6, d)] else [])
      in fbind (map_step (test_document env) documents) (\<lambda>errors.
         freturn \<lparr>va_ok = (concat errors = []), va_errors = concat errors\<rparr>))"

section \<open>Applying a ruleset\<close>

datatype ipv6_status = Ipv6Applied | Ipv6Skipped | Ipv6Unfiltered

definition IPV6_UNFILTERED_WARNING :: string where
  "IPV6_UNFILTERED_WARNING = ''ipv6_unfiltered: ip6tables is not available; IPv4 is enforced but IPv6 is NOT filtered (left unchanged)''"

record apply_outcome =
  ao_ipv6Applied :: bool
  ao_ipv6Status :: ipv6_status
  ao_forwardApplied :: bool
  ao_warnings :: "string list"
  ao_confirmation :: armed_pending

definition FirewallIpv6ApplyError :: "fw_error \<Rightarrow> fw_error" where
  "FirewallIpv6ApplyError cause = FwError ''FirewallIpv6ApplyError''
     (''ipv6_unfiltered: IPv6 ruleset was not applied (IPv4 is applied; IPv6 left unchanged): '' @ fw_message cause)"

definition applyIpv6 :: "fw_env \<Rightarrow> string \<Rightarrow> bool \<Rightarrow> unit fw" where
  "applyIpv6 env v6 includeForward =
     fbind (restoreDocument env V6 v6) (\<lambda>_.
     fbind (ensureJump env V6 INPUT_BUILTIN FIREWALL_INPUT_CHAIN) (\<lambda>_.
       if includeForward then ensureJump env V6 DOCKER_USER_CHAIN FIREWALL_FORWARD_CHAIN else freturn ()))"

text \<open>The IPv6 part: whether it was applied, the failure it met, its warnings.\<close>

definition load_ipv6 :: "fw_env \<Rightarrow> rendered_firewall \<Rightarrow> (family \<Rightarrow> bool) \<Rightarrow> xtables_probe
    \<Rightarrow> (bool \<times> fw_error option \<times> string list) fw" where
  "load_ipv6 env rendered includeForward probe = (case rf_v6 rendered of
     None \<Rightarrow> freturn (False, None, [])
   | Some v6 \<Rightarrow>
       if xp_ipv6 probe
       then fcatch (fbind (applyIpv6 env v6 (includeForward V6)) (\<lambda>_. freturn (True, None, [])))
              (\<lambda>e. freturn (False, Some e, []))
       else freturn (False, None, [IPV6_UNFILTERED_WARNING]))"

text \<open>What follows the load of the IPv4 document (the point where \<open>progress.v4Loaded\<close> is set): the
  jumps, the IPv6 document, and what a confirm is to do with the durable IPv6 document.\<close>

definition ensure_v4_jumps :: "fw_env \<Rightarrow> (family \<Rightarrow> bool) \<Rightarrow> string list fw" where
  "ensure_v4_jumps env includeForward =
     fbind (ensureJump env V4 INPUT_BUILTIN FIREWALL_INPUT_CHAIN) (\<lambda>_.
       if includeForward V4
       then fbind (ensureJump env V4 DOCKER_USER_CHAIN FIREWALL_FORWARD_CHAIN) (\<lambda>_. freturn [])
       else freturn [''DOCKER-USER is absent (Docker not running yet); published-port rules are deferred until dockerd creates it''])"

definition record_ipv6 :: "fw_env \<Rightarrow> rendered_firewall \<Rightarrow> (family \<Rightarrow> bool) \<Rightarrow> armed_pending \<Rightarrow> string list
    \<Rightarrow> bool \<times> fw_error option \<times> string list \<Rightarrow> apply_outcome fw" where
  "record_ipv6 env rendered includeForward armed warnings loaded6 = (case loaded6 of (ipv6Applied, ipv6Failure, warnings6) \<Rightarrow>
     (case ipv6Failure of
       Some e \<Rightarrow> fbind (recordPendingV6 env KeepV6 None) (\<lambda>_. fthrow (FirewallIpv6ApplyError e))
     | None \<Rightarrow>
         fbind (recordPendingV6 env (if ipv6Applied then ReplaceV6 else ForgetV6)
             (if ipv6Applied then rf_v6 rendered else None)) (\<lambda>_.
           freturn \<lparr>ao_ipv6Applied = ipv6Applied,
             ao_ipv6Status = (if ipv6Applied then Ipv6Applied else if rf_v6 rendered \<noteq> None then Ipv6Unfiltered else Ipv6Skipped),
             ao_forwardApplied = includeForward V4, ao_warnings = warnings @ warnings6, ao_confirmation = armed\<rparr>)))"

definition load_jumps_and_ipv6 :: "fw_env \<Rightarrow> rendered_firewall \<Rightarrow> (family \<Rightarrow> bool) \<Rightarrow> xtables_probe
    \<Rightarrow> armed_pending \<Rightarrow> apply_outcome fw" where
  "load_jumps_and_ipv6 env rendered includeForward probe armed =
     fbind (ensure_v4_jumps env includeForward) (\<lambda>warnings.
     fbind (load_ipv6 env rendered includeForward probe) (record_ipv6 env rendered includeForward armed warnings))"

text \<open>The result and whether the IPv4 rules were loaded, whichever way it ended.\<close>

definition loadStagedRuleset :: "fw_env \<Rightarrow> rendered_firewall \<Rightarrow> (family \<Rightarrow> bool) \<Rightarrow> xtables_probe
    \<Rightarrow> armed_pending \<Rightarrow> fw_state \<Rightarrow> (fw_error, apply_outcome) result \<times> bool \<times> fw_state" where
  "loadStagedRuleset env rendered includeForward probe armed s =
     (case restoreDocument env V4 (rf_v4 rendered) s of
        (Inl e, s1) \<Rightarrow> (Inl e, False, s1)
      | (Inr _, s1) \<Rightarrow> (case load_jumps_and_ipv6 env rendered includeForward probe armed s1 of
          (r, s2) \<Rightarrow> (r, True, s2)))"

definition applyRenderedFirewall :: "fw_env \<Rightarrow> rendered_firewall \<Rightarrow> (family \<Rightarrow> bool) \<Rightarrow> xtables_probe
    \<Rightarrow> int \<Rightarrow> apply_outcome fw" where
  "applyRenderedFirewall env rendered includeForward probe generation =
     fbind (armPendingFirewall env \<lparr>pi_digest = rf_digest rendered, pi_generation = generation, pi_v4 = rf_v4 rendered\<rparr>)
       (\<lambda>armed s. (case loadStagedRuleset env rendered includeForward probe armed s of
          (Inr outcome, _, s1) \<Rightarrow> (Inr outcome, s1)
        | (Inl e, v4Loaded, s1) \<Rightarrow>
            if v4Loaded then (Inl e, s1)
            else fbind (clearPendingFirewall env) (\<lambda>_. fbind (disarmGuardTimer env) (\<lambda>_. fthrow e)) s1))"

section \<open>Removing the firewall\<close>

definition removeFamilyChains :: "fw_env \<Rightarrow> family \<Rightarrow> unit fw" where
  "removeFamilyChains env family =
     fbind (removeJumpBestEffort env family INPUT_BUILTIN FIREWALL_INPUT_CHAIN) (\<lambda>_.
     fbind (removeJumpBestEffort env family DOCKER_USER_CHAIN FIREWALL_FORWARD_CHAIN) (\<lambda>_.
       each_step (\<lambda>(chain, flag). fbind (run_cmd env (binaryFor family []) [flag, chain]) (\<lambda>_. freturn ()))
         (concat (map (\<lambda>chain. map (\<lambda>flag. (chain, flag)) [''-F'', ''-X'']) [FIREWALL_INPUT_CHAIN, FIREWALL_FORWARD_CHAIN]))))"

definition removeFirewall :: "fw_env \<Rightarrow> unit fw" where
  "removeFirewall env =
     fbind (each_step (removeFamilyChains env) [V4, V6]) (\<lambda>_.
     fbind (removeIfPresent env (DurableDoc V4)) (\<lambda>_.
     fbind (removeIfPresent env (DurableDoc V6)) (\<lambda>_.
     fbind (clearPendingFirewall env) (\<lambda>_.
     fbind (removeIfPresent env RollbackFile) (\<lambda>_. disarmGuardTimer env)))))"

definition snapshotFirewallChains :: "fw_env \<Rightarrow> family \<Rightarrow> string option fw" where
  "snapshotFirewallChains env family = fbind (run_cmd env (binaryFor family ''-save'') [''-t'', ''filter'']) (\<lambda>r.
     freturn (if \<not> run_success r then None
       else Some (join_with [CHR 0x0A] (filter (\<lambda>line. starts_with '':TP-'' line \<or> starts_with ''-A TP-'' line
         \<or> includes_str ''-j TP-'' line) (split_on (CHR 0x0A) (run_stdout r))))))"

section \<open>After a restart of the container engine\<close>

definition forwardDocumentFilename :: "family \<Rightarrow> pending_marker option \<Rightarrow> fw_file option" where
  "forwardDocumentFilename family pending = (case pending of
     None \<Rightarrow> Some (DurableDoc family)
   | Some m \<Rightarrow> (case family of
       V4 \<Rightarrow> Some (PendingDoc V4)
     | V6 \<Rightarrow> if pm_v6 m = ReplaceV6 then Some (PendingDoc V6) else None))"

definition rehangForwardChain :: "fw_env \<Rightarrow> family \<Rightarrow> fw_file option \<Rightarrow> unit fw" where
  "rehangForwardChain env family filename = (case filename of
     None \<Rightarrow> freturn ()
   | Some file \<Rightarrow>
       fbind (fcatch (readTextIfPresent env file) (\<lambda>_. freturn None)) (\<lambda>text. (case text of
         None \<Rightarrow> freturn ()
       | Some document \<Rightarrow>
           if \<not> includes_str ('':'' @ FIREWALL_FORWARD_CHAIN @ '' '') document then freturn ()
           else fcatch
             (fbind (hasDockerUserChain env family) (\<lambda>docker.
                if \<not> docker then freturn ()
                else fbind (restoreDocument env family document) (\<lambda>_.
                  ensureJump env family DOCKER_USER_CHAIN FIREWALL_FORWARD_CHAIN)))
             (\<lambda>_. freturn ()))))"

definition reinstallFirewallForwardingIfEnabled :: "fw_env \<Rightarrow> unit fw" where
  "reinstallFirewallForwardingIfEnabled env s = (case readPendingMarker env s of
     (Inl e, s1) \<Rightarrow> (Inr (), s1)
   | (Inr pending, s1) \<Rightarrow>
       each_step (\<lambda>family. rehangForwardChain env family (forwardDocumentFilename family pending)) [V4, V6] s1)"

section \<open>The confirm\<close>

datatype confirm_state = Confirmed | NothingPending | DigestMismatch | Expired | RolledBack

record confirm_outcome =
  co_state :: confirm_state
  co_digest :: string
  co_pendingDigest :: "string option"
  co_summary :: string

definition promoteDurable :: "fw_env \<Rightarrow> v6_intent \<Rightarrow> string \<Rightarrow> unit fw" where
  "promoteDurable env v6 v4Document =
     fbind (ensure_dir env) (\<lambda>_.
     fbind (writeFileAtomic env (DurableDoc V4) v4Document) (\<lambda>_. (case v6 of
       KeepV6 \<Rightarrow> freturn ()
     | ForgetV6 \<Rightarrow> removeIfPresent env (DurableDoc V6)
     | ReplaceV6 \<Rightarrow>
         fbind (readTextIfPresent env (PendingDoc V6)) (\<lambda>v6Document. (case v6Document of
           None \<Rightarrow> fthrow (FwError ''Error'' ''pending IPv6 document is missing; not promoting'')
         | Some d \<Rightarrow> writeFileAtomic env (DurableDoc V6) d)))))"

definition confirm_result :: "confirm_state \<Rightarrow> string \<Rightarrow> string \<Rightarrow> confirm_outcome" where
  "confirm_result state digest summary =
     \<lparr>co_state = state, co_digest = digest, co_pendingDigest = None, co_summary = summary\<rparr>"

definition noPendingOutcome :: "fw_env \<Rightarrow> string \<Rightarrow> confirm_outcome fw" where
  "noPendingOutcome env digest = fbind (readRollbackRecord env) (\<lambda>rollback. freturn (case rollback of
     Some r \<Rightarrow> if rb_digest r = digest
       then confirm_result RolledBack digest
         (''the ruleset was not confirmed in time and the host restored its last confirmed rules at '' @ rb_at r)
       else confirm_result NothingPending digest ''no unconfirmed ruleset is pending on this host''
   | None \<Rightarrow> confirm_result NothingPending digest ''no unconfirmed ruleset is pending on this host''))"

definition promote_pending :: "fw_env \<Rightarrow> pending_marker \<Rightarrow> string \<Rightarrow> confirm_outcome fw" where
  "promote_pending env m digest = fbind (readTextIfPresent env (PendingDoc V4)) (\<lambda>v4Document. (case v4Document of
     None \<Rightarrow> fthrow (FwError ''Error'' ''pending IPv4 document is missing; not promoting'')
   | Some v4 \<Rightarrow>
       fbind (promoteDurable env (pm_v6 m) v4) (\<lambda>_.
       fbind (clearPendingFirewall env) (\<lambda>_.
       fbind (disarmGuardTimer env) (\<lambda>_.
       fbind (removeIfPresent env RollbackFile) (\<lambda>_.
       fbind (foldManagedPublicChainBestEffort env) (\<lambda>_.
         freturn (confirm_result Confirmed digest ''the pending ruleset is now durable and survives a reboot''))))))))"

definition deadline_passed :: "fw_env \<Rightarrow> int \<Rightarrow> pending_marker \<Rightarrow> bool" where
  "deadline_passed env now m = (case fe_dateParse env (pm_deadlineAt m) of None \<Rightarrow> False | Some d \<Rightarrow> d \<le> now)"

definition confirm_at :: "fw_env \<Rightarrow> string \<Rightarrow> int \<Rightarrow> confirm_outcome fw" where
  "confirm_at env digest now = fbind (readPendingMarker env) (\<lambda>marker. (case marker of
     None \<Rightarrow> noPendingOutcome env digest
   | Some m \<Rightarrow>
       if pm_digest m \<noteq> digest
       then freturn ((confirm_result DigestMismatch digest
           ''a different ruleset is pending on this host; it was not confirmed'')\<lparr>co_pendingDigest := Some (pm_digest m)\<rparr>)
       else if deadline_passed env now m
       then fbind (run_cmd env ''systemctl'' [''start'', ''--no-block'', FIREWALL_GUARD_SERVICE]) (\<lambda>_.
         freturn (confirm_result Expired digest (''the confirm window ended at '' @ pm_deadlineAt m
           @ ''; the host is restoring its last confirmed rules'')))
       else promote_pending env m digest))"

definition confirmPendingFirewall :: "fw_env \<Rightarrow> string \<Rightarrow> confirm_outcome fw" where
  "confirmPendingFirewall env digest s = confirm_at env digest (fe_now env (fw_trace s)) s"

definition handleFirewallConfirm :: "fw_env \<Rightarrow> string \<Rightarrow> confirm_outcome fw" where
  "handleFirewallConfirm env digest = confirmPendingFirewall env digest"

section \<open>The daemon's own confirm\<close>

type_synonym plane_check = "(fw_event list \<Rightarrow> string option) option"

record auto_confirm_result =
  ac_confirmed :: bool
  ac_reason :: string

definition state_text :: "confirm_state \<Rightarrow> string" where
  "state_text state = (case state of Confirmed \<Rightarrow> ''confirmed'' | NothingPending \<Rightarrow> ''nothing_pending''
     | DigestMismatch \<Rightarrow> ''digest_mismatch'' | Expired \<Rightarrow> ''expired'' | RolledBack \<Rightarrow> ''rolled_back'')"

definition autoConfirmFirewall :: "fw_env \<Rightarrow> plane_check \<Rightarrow> string \<Rightarrow> auto_confirm_result fw" where
  "autoConfirmFirewall env verifyControlPlane digest s = (case verifyControlPlane of
     None \<Rightarrow> (Inr \<lparr>ac_confirmed = False,
       ac_reason = ''the daemon has no control-plane connection to check with; the ruleset rolls back unless confirmed''\<rparr>, s)
   | Some verify \<Rightarrow> (case verify (fw_trace s) of
       Some message \<Rightarrow> (Inr \<lparr>ac_confirmed = False,
         ac_reason = ''the daemon could not reach the control plane after the change ('' @ sanitizeForLog message
           @ ''); the host rolls back at the deadline''\<rparr>, s)
     | None \<Rightarrow> fcatch
         (fbind (confirmPendingFirewall env digest) (\<lambda>outcome. freturn
            (if co_state outcome = Confirmed
             then \<lparr>ac_confirmed = True,
               ac_reason = ''the daemon reached the control plane after the rules went live and confirmed the change itself''\<rparr>
             else \<lparr>ac_confirmed = False,
               ac_reason = ''the control-plane check passed but the confirm answered '' @ state_text (co_state outcome)
                 @ '': '' @ co_summary outcome\<rparr>)))
         (\<lambda>e. freturn \<lparr>ac_confirmed = False,
           ac_reason = ''the control-plane check passed but the confirm failed ('' @ sanitizeForLog (fw_message e)
             @ ''); the host rolls back at the deadline''\<rparr>) s))"

section \<open>The ports of the SSH daemon\<close>

definition port_number :: "string \<Rightarrow> nat option" where
  "port_number s = (if re_match (re_rep 1 5 re_digit) s
     then isValidFirewallPort (Some (JNum (int (nat_of_digits 10 s)) 0)) else None)"

text \<open>What follows a keyword and at least one space.\<close>

definition keyword_rest :: "string \<Rightarrow> string \<Rightarrow> string option" where
  "keyword_rest keyword line =
     (let rest = drop (length keyword) line
      in if starts_with keyword line \<and> strip_one js_spaces rest \<noteq> None then Some (strip_left js_spaces rest) else None)"

definition listen_host :: "string \<Rightarrow> bool" where
  "listen_host h = (case h of [] \<Rightarrow> False
     | c # t \<Rightarrow> (c = CHR ''['' \<and> length t \<ge> 2 \<and> last t = CHR '']'' \<and> CHR '']'' \<notin> set (butlast t))
         \<or> (CHR '':'' \<notin> set h \<and> nonspace h = h))"

definition listen_port :: "string \<Rightarrow> nat option" where
  "listen_port rest = (case last_index_of (CHR '':'') rest of
     None \<Rightarrow> None
   | Some i \<Rightarrow> if listen_host (take i rest) then port_number (drop (i + 1) rest) else None)"

definition line_port :: "string \<Rightarrow> nat option" where
  "line_port raw = (let line = to_lower (js_trim raw)
     in case Option.bind (keyword_rest ''port'' line) port_number of
          Some p \<Rightarrow> Some p
        | None \<Rightarrow> Option.bind (keyword_rest ''listenaddress'' line) listen_port)"

definition parseSshdEffectivePorts :: "string \<Rightarrow> nat list" where
  "parseSshdEffectivePorts stdout = sort (remdups (List.map_filter line_port (split_on (CHR 0x0A) stdout)))"

definition readSshdEffectivePorts :: "fw_env \<Rightarrow> (nat list \<times> string option) fw" where
  "readSshdEffectivePorts env = fbind (run_cmd env ''sshd'' [''-T'']) (\<lambda>r.
     freturn (if \<not> run_success r \<or> includes_str ''no hostkeys available'' (to_lower (run_stderr r))
       then ([], Some (''sshd -T failed ('' @ failureText r @ ''); the sshd port could not be detected''))
       else let ports = parseSshdEffectivePorts (run_stdout r)
         in if ports = [] then (ports, Some ''sshd -T printed no port line; the sshd port could not be detected'')
            else (ports, None)))"

section \<open>The reconcile command\<close>

definition FIREWALL_RENDERED_MAX_BYTES :: nat where "FIREWALL_RENDERED_MAX_BYTES = 65536"

definition DEFAULT_DROP_HELD_WARNING :: string where
  "DEFAULT_DROP_HELD_WARNING = ''policy.inputDefault drop is held until the commit-confirm rollback is proven on a real host (fw-proof); rendered, not applied''"

definition CONTROL_PLANE_PORTS_MISSING_WARNING :: string where
  "CONTROL_PLANE_PORTS_MISSING_WARNING = ''turbopanel-instance.service is active on this host but the payload names no controlPlane.tcpPorts; a default-drop apply would close the control plane and is refused''"

record pending_confirmation =
  pc_confirmed :: bool
  pc_deadlineAt :: string
  pc_windowSeconds :: int
  pc_autoConfirm :: auto_confirm_result

record reconcile_result =
  rr_generation :: int
  rr_mode :: firewall_mode
  rr_applied :: bool
  rr_digest :: string
  rr_ruleCount :: nat
  rr_ipv6Applied :: bool
  rr_ipv6Status :: "ipv6_status option"
  rr_forwardApplied :: bool
  rr_sshPorts :: "nat list"
  rr_warnings :: "string list"
  rr_confirmation :: "pending_confirmation option"
  rr_lastRollback :: "rollback_record option"
  rr_validation :: "firewall_validation option"
  rr_rendered :: "(string \<times> string option) option"
  rr_summary :: string

definition union_ports :: "nat list \<Rightarrow> nat list \<Rightarrow> nat list" where
  "union_ports a b = sort (remdups (a @ b))"

definition renderedForResult :: "rendered_firewall \<Rightarrow> (string \<times> string option) option \<times> string list" where
  "renderedForResult rendered =
     (if js_length (rf_v4 rendered) > FIREWALL_RENDERED_MAX_BYTES
         \<or> (case rf_v6 rendered of None \<Rightarrow> False | Some v6 \<Rightarrow> js_length v6 > FIREWALL_RENDERED_MAX_BYTES)
      then (None, [''the rendered ruleset is larger than '' @ digits_of_nat FIREWALL_RENDERED_MAX_BYTES
        @ '' characters and is not included; the digest and rule count still describe it''])
      else (Some (rf_v4 rendered, rf_v6 rendered), []))"

definition generation_text :: "reconcile_payload \<Rightarrow> string" where
  "generation_text payload = ''firewall generation '' @ int_text (fp_generation payload)"

definition renderOnlyResult :: "fw_env \<Rightarrow> reconcile_payload \<Rightarrow> rendered_firewall \<Rightarrow> xtables_probe \<Rightarrow> string list
    \<Rightarrow> string list \<Rightarrow> reconcile_result fw" where
  "renderOnlyResult env payload rendered probe warnings refusals =
     fbind (validateRenderedFirewall env rendered probe) (\<lambda>validation.
       let (text, oversize) = renderedForResult rendered
       in freturn \<lparr>rr_generation = fp_generation payload, rr_mode = fp_mode payload, rr_applied = False,
         rr_digest = rf_digest rendered, rr_ruleCount = rf_ruleCount rendered, rr_ipv6Applied = False,
         rr_ipv6Status = None, rr_forwardApplied = False, rr_sshPorts = rf_sshPorts rendered,
         rr_warnings = warnings @ refusals
           @ (if va_ok validation then []
              else [''the kernel would refuse this ruleset (iptables-restore --test failed); see validation'']) @ oversize,
         rr_confirmation = None, rr_lastRollback = None, rr_validation = Some validation, rr_rendered = text,
         rr_summary = (if fp_mode payload = ObserveOnly
           then generation_text payload @ '' observed: '' @ digits_of_nat (rf_ruleCount rendered) @ '' rules would render''
           else generation_text payload @ '' refused: '' @ digits_of_nat (length refusals)
             @ '' condition(s) block a default-drop apply'')\<rparr>)"

definition lastRollbackField :: "fw_env \<Rightarrow> rollback_record option fw" where
  "lastRollbackField env = fbind (readPendingMarker env) (\<lambda>marker.
     if marker \<noteq> None then freturn None else readRollbackRecord env)"

definition selfConfirm :: "fw_env \<Rightarrow> plane_check \<Rightarrow> string \<Rightarrow> armed_pending \<Rightarrow> pending_confirmation fw" where
  "selfConfirm env verifyControlPlane digest armed =
     fbind (autoConfirmFirewall env verifyControlPlane digest) (\<lambda>outcome.
       freturn \<lparr>pc_confirmed = ac_confirmed outcome, pc_deadlineAt = ap_deadlineAt armed,
         pc_windowSeconds = ap_windowSeconds armed, pc_autoConfirm = outcome\<rparr>)"

definition off_result :: "reconcile_payload \<Rightarrow> reconcile_result" where
  "off_result payload = \<lparr>rr_generation = fp_generation payload, rr_mode = Off, rr_applied = True, rr_digest = [],
     rr_ruleCount = 0, rr_ipv6Applied = False, rr_ipv6Status = None, rr_forwardApplied = False, rr_sshPorts = [],
     rr_warnings = [], rr_confirmation = None, rr_lastRollback = None, rr_validation = None, rr_rendered = None,
     rr_summary = generation_text payload @ '': TurboPanel chains removed''\<rparr>"

text \<open>The conditions that hold an apply back.\<close>

definition refusals_of :: "fw_env \<Rightarrow> reconcile_payload \<Rightarrow> string list fw" where
  "refusals_of env payload =
     (if pol_inputDefault (fp_policy payload) = DefaultDrop
      then fbind (isControlPlaneColocated env) (\<lambda>colocated.
        freturn ((if colocated \<and> (case fp_controlPlane payload of None \<Rightarrow> True | Some ports \<Rightarrow> ports = [])
          then [CONTROL_PLANE_PORTS_MISSING_WARNING] else []) @ [DEFAULT_DROP_HELD_WARNING]))
      else freturn [])"

definition apply_and_confirm :: "fw_env \<Rightarrow> plane_check \<Rightarrow> reconcile_payload \<Rightarrow> rendered_firewall \<Rightarrow> (family \<Rightarrow> bool)
    \<Rightarrow> xtables_probe \<Rightarrow> string list \<Rightarrow> reconcile_result fw" where
  "apply_and_confirm env verifyControlPlane payload rendered includeForward probe warnings =
     fbind (applyRenderedFirewall env rendered includeForward probe (fp_generation payload)) (\<lambda>outcome.
     fbind (selfConfirm env verifyControlPlane (rf_digest rendered) (ao_confirmation outcome)) (\<lambda>confirmation.
       freturn \<lparr>rr_generation = fp_generation payload, rr_mode = fp_mode payload, rr_applied = True,
         rr_digest = rf_digest rendered, rr_ruleCount = rf_ruleCount rendered,
         rr_ipv6Applied = ao_ipv6Applied outcome, rr_ipv6Status = Some (ao_ipv6Status outcome),
         rr_forwardApplied = ao_forwardApplied outcome, rr_sshPorts = rf_sshPorts rendered,
         rr_warnings = warnings @ ao_warnings outcome, rr_confirmation = Some confirmation,
         rr_lastRollback = None, rr_validation = None, rr_rendered = None,
         rr_summary = generation_text payload
           @ (if pc_confirmed confirmation then '' applied and confirmed by the daemon: ''
              else '' applied, pending confirmation until '' @ ap_deadlineAt (ao_confirmation outcome)
                @ '' ('' @ ac_reason (pc_autoConfirm confirmation) @ ''): '')
           @ digits_of_nat (rf_ruleCount rendered) @ '' rules, '' @ xp_version probe\<rparr>))"

definition apply_or_preview :: "fw_env \<Rightarrow> plane_check \<Rightarrow> reconcile_payload \<Rightarrow> rendered_firewall \<Rightarrow> (family \<Rightarrow> bool)
    \<Rightarrow> xtables_probe \<Rightarrow> string list \<Rightarrow> string list \<Rightarrow> reconcile_result fw" where
  "apply_or_preview env verifyControlPlane payload rendered includeForward probe warnings refusals =
     (if fp_mode payload = ObserveOnly \<or> refusals \<noteq> []
      then fbind (renderOnlyResult env payload rendered probe warnings refusals) (\<lambda>preview.
        fbind (lastRollbackField env) (\<lambda>rollback. freturn (preview\<lparr>rr_lastRollback := rollback\<rparr>)))
      else apply_and_confirm env verifyControlPlane payload rendered includeForward probe warnings)"

definition opt_warning :: "string option \<Rightarrow> string list" where
  "opt_warning w = (case w of None \<Rightarrow> [] | Some t \<Rightarrow> if t = [] then [] else [t])"

definition handleFirewallReconcile :: "fw_env \<Rightarrow> plane_check \<Rightarrow> reconcile_payload \<Rightarrow> reconcile_result fw" where
  "handleFirewallReconcile env verifyControlPlane payload =
     (if fp_mode payload = Off then fbind (removeFirewall env) (\<lambda>_. freturn (off_result payload))
      else fbind (probeXtables env) (\<lambda>probe.
        if \<not> xp_ok probe
        then fthrow (FwError ''Error'' (case xp_warning probe of None \<Rightarrow> ''iptables is not available'' | Some w \<Rightarrow> w))
        else fbind (readSshdEffectivePorts env) (\<lambda>(detected, sshWarning).
          let sshPorts = union_ports detected (case fp_sshPorts payload of None \<Rightarrow> [] | Some ports \<Rightarrow> ports)
          in fbind (hasDockerUserChain env V4) (\<lambda>forward4.
             fbind (if pol_ipv6 (fp_policy payload) = Mirror \<and> xp_ipv6 probe then hasDockerUserChain env V6 else freturn False)
               (\<lambda>forward6.
               let includeForward = (\<lambda>family. case family of V4 \<Rightarrow> forward4 | V6 \<Rightarrow> forward6);
                   rendered = renderFirewall (fe_sha256hex env)
                     \<lparr>ri_payload = payload, ri_sshPorts = sshPorts, ri_includeForward = includeForward\<rparr>;
                   warnings = opt_warning (xp_warning probe) @ opt_warning sshWarning @ rf_warnings rendered
               in fbind (refusals_of env payload)
                    (apply_or_preview env verifyControlPlane payload rendered includeForward probe warnings))))))"

end
