(* ===== verification/Firewall_Host_Laws.thy ===== *)
theory Firewall_Host_Laws
  imports Firewall_Commit
begin

text \<open>
  Reasoning about the firewall operations by what they leave behind. An operation \<open>stays\<close> in a
  relation between the states before and after it, whether it returns or throws. The locale
  \<open>host_preorder\<close> collects, once for every reflexive and transitive relation, how the combinators
  of the model keep it; its two instances are \<open>extends P\<close> (the trace grows by events of kind \<open>P\<close>)
  and \<open>frozen F\<close> (the files of \<open>F\<close> keep their content).
\<close>

definition stays :: "(fw_state \<Rightarrow> fw_state \<Rightarrow> bool) \<Rightarrow> 'a fw \<Rightarrow> bool" where
  "stays R m \<longleftrightarrow> (\<forall>s. R s (snd (m s)))"

lemma staysI: "(\<And>s. R s (snd (m s))) \<Longrightarrow> stays R m"
  by (simp add: stays_def)

lemma staysD: "stays R m \<Longrightarrow> R s (snd (m s))"
  by (simp add: stays_def)

lemma stays_result: "stays R m \<Longrightarrow> m s = (x, s') \<Longrightarrow> R s s'"
  using staysD [of R m s] by simp

lemma stays_if: "(b \<Longrightarrow> stays R m) \<Longrightarrow> (\<not> b \<Longrightarrow> stays R n) \<Longrightarrow> stays R (if b then m else n)"
  by simp

lemma stays_option:
  "(x = None \<Longrightarrow> stays R m) \<Longrightarrow> (\<And>y. x = Some y \<Longrightarrow> stays R (f y)) \<Longrightarrow> stays R (case x of None \<Rightarrow> m | Some y \<Rightarrow> f y)"
  by (cases x) simp_all

lemma stays_prod: "(\<And>a b. x = (a, b) \<Longrightarrow> stays R (f a b)) \<Longrightarrow> stays R (case x of (a, b) \<Rightarrow> f a b)"
  by (cases x) simp

lemma stays_let: "(\<And>y. y = x \<Longrightarrow> stays R (f y)) \<Longrightarrow> stays R (let y = x in f y)"
  by simp

lemma stays_family: "stays R m \<Longrightarrow> stays R n \<Longrightarrow> stays R (case x of V4 \<Rightarrow> m | V6 \<Rightarrow> n)"
  by (cases x) simp_all

lemma stays_intent:
  "stays R m \<Longrightarrow> stays R n \<Longrightarrow> stays R k \<Longrightarrow> stays R (case x of ReplaceV6 \<Rightarrow> m | ForgetV6 \<Rightarrow> n | KeepV6 \<Rightarrow> k)"
  by (cases x) simp_all

text \<open>An operation that looks at the state first (the clock, for instance).\<close>

lemma stays_at: "(\<And>s. f s = m (g s) s) \<Longrightarrow> (\<And>t. stays R (m t)) \<Longrightarrow> stays R f"
  by (simp add: stays_def)

lemmas stays_splits = stays_if stays_option stays_prod stays_let stays_family stays_intent

locale host_preorder =
  fixes R :: "fw_state \<Rightarrow> fw_state \<Rightarrow> bool"
  assumes refl: "R s s"
    and trans: "R s t \<Longrightarrow> R t u \<Longrightarrow> R s u"
begin

lemma stays_return: "stays R (freturn x)"
  by (simp add: stays_def freturn_def refl)

lemma stays_throw: "stays R (fthrow e)"
  by (simp add: stays_def fthrow_def refl)

lemma stays_bind:
  assumes "stays R m" "\<And>x. stays R (f x)"
  shows "stays R (fbind m f)"
proof (rule staysI)
  fix s
  obtain r s' where m: "m s = (r, s')" by (cases "m s")
  have "R s s'" using stays_result [OF assms(1) m] .
  then show "R s (snd (fbind m f s))"
    using staysD [OF assms(2), of s'] by (cases r) (auto simp: fbind_def m intro: trans)
qed

lemma stays_catch:
  assumes "stays R m" "\<And>e. stays R (h e)"
  shows "stays R (fcatch m h)"
proof (rule staysI)
  fix s
  obtain r s' where m: "m s = (r, s')" by (cases "m s")
  have "R s s'" using stays_result [OF assms(1) m] .
  then show "R s (snd (fcatch m h s))"
    using staysD [OF assms(2), of s'] by (cases r) (auto simp: fcatch_def m intro: trans)
qed

lemma stays_each: "(\<And>x. x \<in> set xs \<Longrightarrow> stays R (f x)) \<Longrightarrow> stays R (each_step f xs)"
  by (induction xs) (auto intro: stays_return stays_bind)

lemma stays_map: "(\<And>x. x \<in> set xs \<Longrightarrow> stays R (f x)) \<Longrightarrow> stays R (map_step f xs)"
  by (induction xs) (auto intro!: stays_return stays_bind)

lemmas stays_steps = stays_return stays_throw stays_bind stays_catch stays_each stays_map

end

section \<open>What a trace may grow by\<close>

definition extends :: "(fw_event \<Rightarrow> bool) \<Rightarrow> fw_state \<Rightarrow> fw_state \<Rightarrow> bool" where
  "extends P s s' \<longleftrightarrow> (\<exists>es. fw_trace s' = fw_trace s @ es \<and> list_all P es)"

interpretation ext: host_preorder "extends P" for P
proof
  show "extends P s s" for s by (simp add: extends_def)
  show "extends P s u" if "extends P s t" "extends P t u" for s t u
    using that by (force simp: extends_def)
qed

lemma extends_record: "P e \<Longrightarrow> extends P s (record_event e s)"
  by (simp add: extends_def record_event_def)

lemma ext_run: "(\<And>r. P (Ran c args None r)) \<Longrightarrow> stays (extends P) (run_cmd env c args)"
  by (simp add: stays_def run_cmd_def Let_def extends_record)

lemma ext_stdin: "(\<And>r. P (Ran c args (Some text) r)) \<Longrightarrow> stays (extends P) (run_stdin env c args text)"
  by (simp add: stays_def run_stdin_def Let_def extends_record)

lemma ext_write: "P (Wrote file text) \<Longrightarrow> P (IoFailed (WriteOp file)) \<Longrightarrow> stays (extends P) (writeFileAtomic env file text)"
  by (auto simp: stays_def writeFileAtomic_def io_step_def extends_def record_event_def split: option.split)

lemma ext_remove: "P (Removed file) \<Longrightarrow> P (IoFailed (RemoveOp file)) \<Longrightarrow> stays (extends P) (removeIfPresent env file)"
  by (auto simp: stays_def removeIfPresent_def io_step_def extends_def record_event_def split: option.split)

lemma ext_read: "P (IoFailed (ReadOp file)) \<Longrightarrow> stays (extends P) (readTextIfPresent env file)"
  by (auto simp: stays_def readTextIfPresent_def io_step_def extends_def record_event_def split: option.split)

lemma ext_dir: "P (IoFailed DirOp) \<Longrightarrow> stays (extends P) (ensure_dir env)"
  by (auto simp: stays_def ensure_dir_def io_step_def extends_def record_event_def split: option.split)

lemmas ext_rules = ext.stays_steps stays_splits ext_run ext_stdin ext_write ext_remove ext_read ext_dir

section \<open>What files an operation leaves alone\<close>

definition frozen :: "fw_file set \<Rightarrow> fw_state \<Rightarrow> fw_state \<Rightarrow> bool" where
  "frozen F s s' \<longleftrightarrow> (\<forall>f \<in> F. fw_files s' f = fw_files s f)"

interpretation frz: host_preorder "frozen F" for F
  by unfold_locales (auto simp: frozen_def)

lemma frz_run: "stays (frozen F) (run_cmd env c args)"
  by (simp add: stays_def frozen_def run_cmd_def Let_def record_event_def)

lemma frz_stdin: "stays (frozen F) (run_stdin env c args text)"
  by (simp add: stays_def frozen_def run_stdin_def Let_def record_event_def)

lemma frz_write: "file \<notin> F \<Longrightarrow> stays (frozen F) (writeFileAtomic env file text)"
  by (auto simp: stays_def frozen_def writeFileAtomic_def io_step_def record_event_def split: option.split)

lemma frz_remove: "file \<notin> F \<Longrightarrow> stays (frozen F) (removeIfPresent env file)"
  by (auto simp: stays_def frozen_def removeIfPresent_def io_step_def record_event_def split: option.split)

lemma frz_read: "stays (frozen F) (readTextIfPresent env file)"
  by (auto simp: stays_def frozen_def readTextIfPresent_def io_step_def record_event_def split: option.split)

lemma frz_dir: "stays (frozen F) (ensure_dir env)"
  by (auto simp: stays_def frozen_def ensure_dir_def io_step_def record_event_def split: option.split)

lemmas frz_rules = frz.stays_steps stays_splits frz_run frz_stdin frz_write frz_remove frz_read frz_dir

section \<open>A host for the witnesses\<close>

text \<open>Every command succeeds, no file operation fails, the clock stands still and prints times as
  decimals.\<close>

definition calm_parse :: "string \<Rightarrow> int option" where
  "calm_parse s = Some (case s of c # t \<Rightarrow>
     if c = CHR ''-'' then - int (nat_of_digits 10 t) else int (nat_of_digits 10 s) | [] \<Rightarrow> 0)"

definition calm_host :: fw_env where
  "calm_host = \<lparr>fe_answer = (\<lambda>_ _ _ _. \<lparr>run_success = True, run_code = 0, run_stdout = ''nf_tables'', run_stderr = []\<rparr>),
     fe_fails = (\<lambda>_ _. None), fe_now = (\<lambda>_. 0), fe_iso = int_text, fe_dateParse = calm_parse,
     fe_numText = (\<lambda>m _. int_text m), fe_sha256hex = (\<lambda>_. ''00'')\<rparr>"

definition new_host :: fw_state where
  "new_host = \<lparr>fw_files = (\<lambda>_. None), fw_trace = []\<rparr>"

definition calm_payload :: reconcile_payload where
  "calm_payload = \<lparr>fp_generation = 1, fp_mode = Managed, fp_policy = \<lparr>pol_inputDefault = DefaultAccept, pol_ipv6 = Skip\<rparr>,
     fp_rules = [], fp_controlPlane = None, fp_sshPorts = Some [22]\<rparr>"

lemma calm_iso_parse: "calm_parse (int_text n) = Some n"
proof -
  obtain c t where digits: "digits_of_nat (nat n) = c # t" "is_digit c"
    using digits_of_nat_digits [of "nat n"] by (cases "digits_of_nat (nat n)") auto
  have "c \<noteq> CHR ''-''" using digits(2) by (auto simp: is_digit_def)
  then show ?thesis
    using digits(1) nat_of_digits_of_nat [of "nat n"] nat_of_digits_of_nat [of "nat (- n)"]
    by (auto simp: calm_parse_def int_text_def)
qed

lemma calm_iso_valid: "utf8_valid (int_text n)"
proof (rule utf8_valid_ascii)
  have "code d < 128" if "is_digit d" for d using that by (auto simp: is_digit_def code_def)
  moreover have "code (CHR ''-'') < 128" by code_simp
  ultimately show "\<forall>c \<in> set (int_text n). code c < 128"
    using digits_of_nat_digits by (auto simp: int_text_def list_all_iff)
qed

end
