(* ===== verification/Firewall_Commit_Laws.thy ===== *)
theory Firewall_Commit_Laws
  imports Firewall_Host_Laws
begin

text \<open>
  What the firewall commands do to the host, whatever the host answers: rules are loaded only
  while the rollback guard is armed, a preview changes nothing, a confirm makes durable exactly the
  ruleset that was pending.
\<close>

section \<open>Loads under the guard\<close>

text \<open>A load is a restore that is not a test.\<close>

fun is_load :: "fw_event \<Rightarrow> bool" where
  "is_load (Ran cmd args stdin r) \<longleftrightarrow> cmd \<in> set [''iptables-restore'', ''ip6tables-restore''] \<and> ''--test'' \<notin> set args"
| "is_load _ = False"

text \<open>What an observer of the events knows of the guard.\<close>

record guard_view =
  gv_marker :: bool
  gv_timer :: bool
  gv_staged :: "string option"

fun guard_next :: "fw_event \<Rightarrow> guard_view \<Rightarrow> guard_view" where
  "guard_next (Wrote MarkerFile _) g = g\<lparr>gv_marker := True\<rparr>"
| "guard_next (Removed MarkerFile) g = g\<lparr>gv_marker := False\<rparr>"
| "guard_next (Wrote (PendingDoc V4) text) g = g\<lparr>gv_staged := Some text\<rparr>"
| "guard_next (Removed (PendingDoc V4)) g = g\<lparr>gv_staged := None\<rparr>"
| "guard_next (Ran cmd args stdin r) g =
     (if cmd = ''systemctl'' \<and> args = [''restart'', FIREWALL_GUARD_TIMER] then g\<lparr>gv_timer := run_success r\<rparr>
      else if cmd = ''systemctl'' \<and> args = [''stop'', FIREWALL_GUARD_TIMER] then g\<lparr>gv_timer := False\<rparr> else g)"
| "guard_next _ g = g"

fun load_allowed :: "guard_view \<Rightarrow> fw_event \<Rightarrow> bool" where
  "load_allowed g (Ran cmd args stdin r) \<longleftrightarrow> (is_load (Ran cmd args stdin r) \<longrightarrow>
     gv_marker g \<and> gv_timer g \<and> (cmd = ''iptables-restore'' \<longrightarrow> stdin \<noteq> None \<and> stdin = gv_staged g))"
| "load_allowed g _ = True"

fun loads_guarded :: "guard_view \<Rightarrow> fw_event list \<Rightarrow> bool" where
  "loads_guarded g [] = True"
| "loads_guarded g (e # es) \<longleftrightarrow> load_allowed g e \<and> loads_guarded (guard_next e g) es"

lemma loads_guarded_append:
  "loads_guarded g (xs @ ys) \<longleftrightarrow> loads_guarded g xs \<and> loads_guarded (fold guard_next xs g) ys"
  by (induction xs arbitrary: g) auto

lemma quiet_allowed: "\<not> is_load e \<Longrightarrow> load_allowed g e"
  by (cases e) auto

lemma quiet_guarded: "list_all (\<lambda>e. \<not> is_load e) es \<Longrightarrow> loads_guarded g es"
  by (induction es arbitrary: g) (auto simp: quiet_allowed)

definition guarded :: "fw_state \<Rightarrow> fw_state \<Rightarrow> bool" where
  "guarded s s' \<longleftrightarrow> (\<exists>es. fw_trace s' = fw_trace s @ es \<and> (\<forall>g. loads_guarded g es))"

interpretation grd: host_preorder guarded
proof
  show "guarded s s" for s by (simp add: guarded_def)
  show "guarded s u" if "guarded s t" "guarded t u" for s t u
    using that by (force simp: guarded_def loads_guarded_append)
qed

lemma quiet_stays_guarded: "stays (extends (\<lambda>e. \<not> is_load e)) m \<Longrightarrow> stays guarded m"
  by (fastforce simp: stays_def extends_def guarded_def intro: quiet_guarded)

text \<open>Events that leave the guard as it is; loads among them are of the staged document.\<close>

fun lawful :: "string \<Rightarrow> fw_event \<Rightarrow> bool" where
  "lawful doc (Ran cmd args stdin r) \<longleftrightarrow> cmd \<noteq> ''systemctl'' \<and> (cmd = ''iptables-restore'' \<longrightarrow> stdin = Some doc)"
| "lawful doc (Wrote file text) \<longleftrightarrow> file \<noteq> PendingDoc V4"
| "lawful doc (Removed file) \<longleftrightarrow> file \<noteq> PendingDoc V4 \<and> file \<noteq> MarkerFile"
| "lawful doc (IoFailed op) \<longleftrightarrow> True"

abbreviation armed_with :: "string \<Rightarrow> guard_view \<Rightarrow> bool" where
  "armed_with doc g \<equiv> gv_marker g \<and> gv_timer g \<and> gv_staged g = Some doc"

lemma lawful_keeps_armed: "lawful doc e \<Longrightarrow> armed_with doc g \<Longrightarrow> load_allowed g e \<and> armed_with doc (guard_next e g)"
  by (induction e g rule: guard_next.induct) auto

lemma lawful_guarded: "list_all (lawful doc) es \<Longrightarrow> armed_with doc g \<Longrightarrow> loads_guarded g es"
  by (induction es arbitrary: g) (auto dest: lawful_keeps_armed)

section \<open>Results of the combinators\<close>

lemma fbind_Inr: "fbind m f s = (Inr y, s') \<longleftrightarrow> (\<exists>x t. m s = (Inr x, t) \<and> f x t = (Inr y, s'))"
  by (auto simp: fbind_def split: prod.splits sum.splits)

lemma writeFileAtomic_Inr:
  "writeFileAtomic env file text s = (Inr u, s') \<longleftrightarrow> fe_fails env (fw_trace s) (WriteOp file) = None
     \<and> s' = record_event (Wrote file text) s\<lparr>fw_files := (fw_files s)(file := Some text)\<rparr>"
  by (auto simp: writeFileAtomic_def io_step_def split: option.splits)

lemma removeIfPresent_Inr:
  "removeIfPresent env file s = (Inr u, s') \<longleftrightarrow> fe_fails env (fw_trace s) (RemoveOp file) = None
     \<and> s' = record_event (Removed file) s\<lparr>fw_files := (fw_files s)(file := None)\<rparr>"
  by (auto simp: removeIfPresent_def io_step_def split: option.splits)

lemma readTextIfPresent_Inr:
  "readTextIfPresent env file s = (Inr x, s') \<longleftrightarrow> fe_fails env (fw_trace s) (ReadOp file) = None
     \<and> x = fw_files s file \<and> s' = s"
  by (auto simp: readTextIfPresent_def io_step_def split: option.splits)

lemma ensure_dir_Inr:
  "ensure_dir env s = (Inr u, s') \<longleftrightarrow> fe_fails env (fw_trace s) DirOp = None \<and> s' = s"
  by (auto simp: ensure_dir_def io_step_def split: option.splits)

lemma run_cmd_Inr:
  "run_cmd env c args s = (Inr r, s') \<longleftrightarrow> r = fe_answer env (fw_trace s) c args None
     \<and> s' = record_event (Ran c args None r) s"
  by (auto simp: run_cmd_def Let_def)

lemma freturn_Inr: "freturn x s = (Inr y, s') \<longleftrightarrow> y = x \<and> s' = s"
  by (auto simp: freturn_def)

lemma fthrow_Inr: "fthrow e s \<noteq> (Inr y, s')"
  by (simp add: fthrow_def)

lemmas Inr_rules = fbind_Inr writeFileAtomic_Inr removeIfPresent_Inr readTextIfPresent_Inr ensure_dir_Inr run_cmd_Inr
  freturn_Inr fthrow_Inr

lemma armGuardTimer_Inr:
  "fcatch (armGuardTimer env) (\<lambda>e. fbind (clearPendingFirewall env) (\<lambda>_. fthrow e)) s = (Inr u, s')
     \<longleftrightarrow> (\<exists>r. run_success r \<and> r = fe_answer env (fw_trace s) ''systemctl'' [''restart'', FIREWALL_GUARD_TIMER] None
          \<and> s' = record_event (Ran ''systemctl'' [''restart'', FIREWALL_GUARD_TIMER] None r) s)"
proof -
  let ?r = "fe_answer env (fw_trace s) ''systemctl'' [''restart'', FIREWALL_GUARD_TIMER] None"
  let ?s = "record_event (Ran ''systemctl'' [''restart'', FIREWALL_GUARD_TIMER] None ?r) s"
  show ?thesis
  proof (cases "run_success ?r")
    case True
    then have "armGuardTimer env s = (Inr (), ?s)" by (simp add: armGuardTimer_def fbind_def run_cmd_def Let_def freturn_def)
    then show ?thesis using True by (auto simp: fcatch_def)
  next
    case False
    then obtain e where "armGuardTimer env s = (Inl e, ?s)"
      by (simp add: armGuardTimer_def fbind_def run_cmd_def Let_def fthrow_def)
    then show ?thesis using False by (auto simp: fcatch_def fbind_Inr fthrow_Inr)
  qed
qed

section \<open>Arming, loading, reconciling\<close>

lemma armPendingFirewall_Inr:
  assumes "armPendingFirewall env input s = (Inr armed, s')"
  defines "now \<equiv> fe_now env (fw_trace s)"
  defines "marker \<equiv> json_text (fe_numText env) (JObj (new_marker env input now))"
  shows "\<exists>r. run_success r \<and> fw_trace s' = fw_trace s @ [Removed RollbackFile, Removed (PendingDoc V6),
      Wrote (PendingDoc V4) (pi_v4 input), Wrote MarkerFile marker, Ran ''systemctl'' [''restart'', FIREWALL_GUARD_TIMER] None r]
    \<and> fw_files s' = (fw_files s)(RollbackFile := None, PendingDoc V6 := None, PendingDoc V4 := Some (pi_v4 input),
        MarkerFile := Some marker)
    \<and> armed = \<lparr>ap_deadlineAt = fe_iso env (now + FIREWALL_CONFIRM_WINDOW_SECONDS * 1000),
        ap_windowSeconds = FIREWALL_CONFIRM_WINDOW_SECONDS\<rparr>"
  using assms(1) unfolding armPendingFirewall_def arm_at_def Inr_rules armGuardTimer_Inr
  by (auto simp: record_event_def now_def marker_def)

lemma ext_clear:
  assumes "\<And>f. P (Removed f)" "\<And>f. P (IoFailed (RemoveOp f))"
  shows "stays (extends P) (clearPendingFirewall env)"
  using assms unfolding clearPendingFirewall_def by (intro ext_rules) auto

lemma ext_disarm:
  assumes "\<And>r. P (Ran ''systemctl'' [''stop'', FIREWALL_GUARD_TIMER] None r)"
  shows "stays (extends P) (disarmGuardTimer env)"
  using assms unfolding disarmGuardTimer_def by (intro ext_rules)

lemma ext_arm:
  assumes "\<And>f. P (Removed f)" "\<And>f text. P (Wrote f text)" "\<And>op. P (IoFailed op)"
    and "\<And>r. P (Ran ''systemctl'' [''restart'', FIREWALL_GUARD_TIMER] None r)"
  shows "stays (extends P) (armPendingFirewall env input)"
proof (rule stays_at [where m = "arm_at env input"], rule armPendingFirewall_def)
  show "stays (extends P) (arm_at env input now)" for now
    unfolding arm_at_def armGuardTimer_def by (intro ext_rules ext_clear assms)
qed

lemma ext_marker: "P (IoFailed (ReadOp MarkerFile)) \<Longrightarrow> stays (extends P) (readPendingMarker env)"
  unfolding readPendingMarker_def by (intro ext_rules) auto

lemma ext_restore:
  assumes "\<And>args r. P (Ran (binaryFor family ''-restore'') args (Some doc) r)"
  shows "stays (extends P) (restoreDocument env family doc)"
  unfolding restoreDocument_def by (intro ext_rules) (use assms in auto)

lemma ext_jump:
  assumes "\<And>args r. P (Ran (binaryFor family []) args None r)"
  shows "stays (extends P) (ensureJump env family parent child)"
  unfolding ensureJump_def by (intro ext_rules) (use assms in auto)

lemma ext_recordV6:
  assumes "\<And>op. P (IoFailed op)" "P (Removed (PendingDoc V6))" "\<And>text. P (Wrote (PendingDoc V6) text)"
    "\<And>text. P (Wrote MarkerFile text)"
  shows "stays (extends P) (recordPendingV6 env intent doc)"
  unfolding recordPendingV6_def by (intro ext_rules ext_marker assms)

lemma binaryFor_simps:
  "binaryFor V4 t = ''iptables'' @ t" "binaryFor V6 t = ''ip6tables'' @ t"
  by (simp_all add: binaryFor_def)

lemma restore_lawful: "stays (extends (lawful doc)) (restoreDocument env V4 doc)"
  by (rule ext_restore) (simp add: binaryFor_simps)

lemma load_rest_lawful: "stays (extends (lawful doc)) (load_jumps_and_ipv6 env rendered includeForward probe armed)"
  unfolding load_jumps_and_ipv6_def ensure_v4_jumps_def record_ipv6_def load_ipv6_def applyIpv6_def
  by (intro ext_rules ext_restore ext_jump ext_recordV6) (simp_all add: binaryFor_simps INPUT_BUILTIN_def)

lemma loadStagedRuleset_lawful:
  assumes "loadStagedRuleset env rendered includeForward probe armed s = (r, v4Loaded, s')"
  shows "extends (lawful (rf_v4 rendered)) s s'"
  using assms stays_result [OF restore_lawful, of env "rf_v4 rendered" s]
  by (auto simp: loadStagedRuleset_def split: prod.splits sum.splits
      dest: stays_result [OF load_rest_lawful [of "rf_v4 rendered"]] intro: ext.trans)

lemma apply_guarded: "stays guarded (applyRenderedFirewall env rendered includeForward probe generation)"
proof (rule staysI)
  fix s
  let ?input = "\<lparr>pi_digest = rf_digest rendered, pi_generation = generation, pi_v4 = rf_v4 rendered\<rparr>"
  obtain a s1 where arm: "armPendingFirewall env ?input s = (a, s1)" by (cases "armPendingFirewall env ?input s")
  have quiet: "guarded s s1"
    by (rule stays_result [OF quiet_stays_guarded [OF ext_arm] arm]) simp_all
  show "guarded s (snd (applyRenderedFirewall env rendered includeForward probe generation s))"
  proof (cases a)
    case (Inl e)
    then show ?thesis using quiet arm by (simp add: applyRenderedFirewall_def fbind_def)
  next
    case (Inr armed)
    obtain r v4Loaded s2 where load: "loadStagedRuleset env rendered includeForward probe armed s1 = (r, v4Loaded, s2)"
      by (cases "loadStagedRuleset env rendered includeForward probe armed s1") auto
    obtain es where es: "fw_trace s2 = fw_trace s1 @ es" "list_all (lawful (rf_v4 rendered)) es"
      using loadStagedRuleset_lawful [OF load] by (auto simp: extends_def)
    obtain es0 where es0: "fw_trace s1 = fw_trace s @ es0" "list_all (\<lambda>e. \<not> is_load e) es0"
        "\<And>g. armed_with (rf_v4 rendered) (fold guard_next es0 g)"
      using armPendingFirewall_Inr [OF arm [unfolded Inr]] by (auto simp: FIREWALL_GUARD_TIMER_def)
    have loaded: "guarded s s2"
      using es es0 lawful_guarded [OF es(2)] quiet_guarded [OF es0(2)] by (auto simp: guarded_def loads_guarded_append)
    have "stays guarded (fbind (clearPendingFirewall env) (\<lambda>_. fbind (disarmGuardTimer env) (\<lambda>_. fthrow e)))"
      for e :: fw_error and env
      by (intro quiet_stays_guarded ext_rules ext_clear ext_disarm) simp_all
    from staysD [OF this] loaded grd.trans show ?thesis
      using load by (auto simp: applyRenderedFirewall_def fbind_def arm Inr split: sum.split) blast
  qed
qed

lemma ext_fold:
  assumes "\<And>args r. P (Ran ''iptables'' args None r)" "P (IoFailed (ReadOp MarkerFile))"
  shows "stays (extends P) (foldManagedPublicChainBestEffort env)"
proof -
  have attempt: "stays (extends P) (attempt env args failures)" for args failures
    unfolding attempt_def by (intro ext_rules assms)
  have jumps: "stays (extends P) (remove_jumps env n failures)" for n failures
    by (induction n arbitrary: failures) (auto intro!: ext_rules attempt)
  have all: "stays (extends P) (attempt_all env xs failures)" for xs failures
    by (induction xs arbitrary: failures) (auto intro!: ext_rules attempt)
  show ?thesis
    unfolding foldManagedPublicChainBestEffort_def foldManagedPublicChain_def fold_children_def fold_covered_def pendingNow_def legacyChildren_def
      readLegacyListeners_def liveForwardRules_def removeLegacy_def
    by (intro ext_rules ext_marker jumps all assms)
qed

lemma ext_confirm:
  assumes "\<And>args r. P (Ran ''iptables'' args None r)" "\<And>args r. P (Ran ''systemctl'' args None r)"
    and "\<And>f. P (Removed f)" "\<And>f text. P (Wrote f text)" "\<And>op. P (IoFailed op)"
  shows "stays (extends P) (confirmPendingFirewall env digest)"
proof (rule stays_at [where m = "confirm_at env digest"], rule confirmPendingFirewall_def)
  show "stays (extends P) (confirm_at env digest now)" for now
    unfolding confirm_at_def noPendingOutcome_def readRollbackRecord_def promote_pending_def promoteDurable_def
    by (intro ext_rules ext_marker ext_clear ext_disarm ext_fold assms)
qed

lemma autoConfirm_cases:
  "\<exists>r. autoConfirmFirewall env verify digest s = (Inr r, s) \<and> \<not> ac_confirmed r
   \<or> (\<exists>check f h. verify = Some check \<and> check (fw_trace s) = None
       \<and> autoConfirmFirewall env verify digest s
         = fcatch (fbind (confirmPendingFirewall env digest) (\<lambda>x. freturn (f x))) (\<lambda>e. freturn (h e)) s)"
  by (cases verify) (fastforce simp: autoConfirmFirewall_def split: option.split)+

context host_preorder
begin

lemma stays_autoConfirm:
  assumes "stays R (confirmPendingFirewall env digest)"
  shows "stays R (autoConfirmFirewall env verify digest)"
proof (rule staysI)
  fix s
  have "stays R (fcatch (fbind (confirmPendingFirewall env digest) (\<lambda>x. freturn (f x))) (\<lambda>e. freturn (h e)))"
    for f :: "confirm_outcome \<Rightarrow> auto_confirm_result" and h
    by (intro stays_steps assms)
  note confirms = staysD [OF this]
  show "R s (snd (autoConfirmFirewall env verify digest s))"
    using autoConfirm_cases [of env verify digest s] by (auto simp: refl confirms)
qed

end

text \<open>The questions a reconcile asks the host before it decides.\<close>

definition asks :: "string \<Rightarrow> string list \<Rightarrow> bool" where
  "asks cmd args \<longleftrightarrow> (cmd, args) \<in> set [(''iptables'', [''-V'']), (''ip6tables'', [''-V'']), (''sshd'', [''-T'']),
     (''iptables'', [''-S'', ''DOCKER-USER'']), (''ip6tables'', [''-S'', ''DOCKER-USER'']),
     (''systemctl'', [''is-active'', ''turbopanel-instance.service'']),
     (''iptables-restore'', [''--noflush'', ''--test'']), (''ip6tables-restore'', [''--noflush'', ''--test''])]"

fun only_asks :: "fw_event \<Rightarrow> bool" where
  "only_asks (Ran cmd args stdin r) = asks cmd args"
| "only_asks (IoFailed (ReadOp f)) = True"
| "only_asks _ = False"

lemmas ask_defs = probeXtables_def readSshdEffectivePorts_def hasDockerUserChain_def refusals_of_def
  isControlPlaneColocated_def

lemmas ask_names = binaryFor_simps DOCKER_USER_CHAIN_def CONTROL_PLANE_UNIT_def

lemma ext_asks:
  assumes "\<And>cmd args stdin r. asks cmd args \<Longrightarrow> P (Ran cmd args stdin r)"
  shows "stays (extends P) (probeXtables env)" "stays (extends P) (readSshdEffectivePorts env)"
    "stays (extends P) (hasDockerUserChain env family)" "stays (extends P) (refusals_of env payload)"
    "stays (extends P) (validateRenderedFirewall env rendered probe)"
proof -
  show "stays (extends P) (hasDockerUserChain env family)"
    unfolding hasDockerUserChain_def by (cases family) (intro ext_rules assms; simp add: asks_def ask_names)+
  have "stays (extends P) (test_document env (family, doc))" for family doc
    unfolding test_document_def prod.case Let_def by (cases family) (intro ext_rules assms; simp add: asks_def ask_names)+
  then have "stays (extends P) (test_document env fd)" for fd by (cases fd) simp
  then show "stays (extends P) (validateRenderedFirewall env rendered probe)"
    unfolding validateRenderedFirewall_def by (intro ext_rules)
qed (unfold ask_defs, (intro ext_rules assms; simp add: asks_def ask_names)+)

section \<open>A whole reconcile\<close>

lemma fbind_assoc: "fbind (fbind m f) g = fbind m (\<lambda>x. fbind (f x) g)"
  by (rule ext) (auto simp: fbind_def split: prod.splits sum.splits)

lemma fbind_run: "m s = (Inr x, t) \<Longrightarrow> fbind m f s = f x t"
  by (simp add: fbind_def)

lemma snd_fbind: "snd (fbind m f s) = (case m s of (Inl e, t) \<Rightarrow> t | (Inr x, t) \<Rightarrow> snd (f x t))"
  by (simp add: fbind_def split: prod.splits sum.splits)

lemma fbind_return: "fbind (freturn x) f = f x"
  by (rule ext) (simp add: fbind_def freturn_def)

context host_preorder
begin

lemma stays_preview:
  assumes "\<And>rendered. stays R (validateRenderedFirewall env rendered probe)"
    and "stays R (readPendingMarker env)" "stays R (readTextIfPresent env RollbackFile)"
  shows "stays R (fbind (renderOnlyResult env payload rendered probe warnings refusals) (\<lambda>preview.
     fbind (lastRollbackField env) (\<lambda>rollback. freturn (preview\<lparr>rr_lastRollback := rollback\<rparr>))))"
  unfolding renderOnlyResult_def lastRollbackField_def readRollbackRecord_def
  by (intro stays_steps stays_splits assms)

lemma stays_reconcile:
  assumes asks: "stays R (probeXtables env)" "stays R (readSshdEffectivePorts env)"
      "\<And>family. stays R (hasDockerUserChain env family)" "stays R (refusals_of env payload)"
      "\<And>rendered probe. stays R (validateRenderedFirewall env rendered probe)"
      "stays R (readPendingMarker env)" "stays R (readTextIfPresent env RollbackFile)"
    and off: "fp_mode payload = Off \<Longrightarrow> stays R (removeFirewall env)"
    and apply_step: "\<And>rendered includeForward probe warnings. fp_mode payload \<noteq> ObserveOnly \<Longrightarrow>
      pol_inputDefault (fp_policy payload) \<noteq> DefaultDrop \<Longrightarrow>
      stays R (apply_and_confirm env verify payload rendered includeForward probe warnings)"
  shows "stays R (handleFirewallReconcile env verify payload)"
proof -
  have last_step: "stays R (fbind (refusals_of env payload) (apply_or_preview env verify payload rendered includeForward probe warnings))"
    for rendered includeForward probe warnings
  proof (cases "pol_inputDefault (fp_policy payload) = DefaultDrop")
    case True
    have "stays R (isControlPlaneColocated env)"
      using asks(4) True unfolding refusals_of_def isControlPlaneColocated_def
      by (simp add: stays_def fbind_def run_cmd_def Let_def freturn_def)
    moreover have "stays R (apply_or_preview env verify payload rendered includeForward probe warnings (rs @ [DEFAULT_DROP_HELD_WARNING]))" for rs
      by (simp add: apply_or_preview_def stays_preview asks)
    ultimately show ?thesis
      unfolding refusals_of_def using True by (simp add: fbind_assoc fbind_return stays_bind)
  next
    case False
    then show ?thesis
      unfolding refusals_of_def
      by (auto simp: fbind_return apply_or_preview_def intro!: stays_preview asks apply_step)
  qed
  show ?thesis
    unfolding handleFirewallReconcile_def
    by (intro last_step stays_steps stays_splits asks off)
qed

end

lemma quiet_asks: "asks cmd args \<Longrightarrow> \<not> is_load (Ran cmd args stdin r)"
  by (auto simp: asks_def)

lemma ext_remove_jump:
  assumes "\<And>args r. P (Ran bin args None r)"
  shows "stays (extends P) (remove_jump_attempts env n bin parent child)"
  by (induction n) (auto intro!: ext_rules assms)

lemma ext_removeFirewall:
  assumes "\<And>family args r. P (Ran (binaryFor family []) args None r)" "\<And>args r. P (Ran ''systemctl'' args None r)"
    and "\<And>f. P (Removed f)" "\<And>op. P (IoFailed op)"
  shows "stays (extends P) (removeFirewall env)"
proof -
  have "stays (extends P) (removeFamilyChains env family)" for family
    unfolding removeFamilyChains_def removeJumpBestEffort_def by (intro ext_rules ext_remove_jump assms)
  then show ?thesis
    unfolding removeFirewall_def by (intro ext_rules ext_clear ext_disarm assms)
qed

text \<open>C4: Rules reach the kernel only under the guard. Whatever a reconcile is asked and whatever the host
  answers, at every restore that loads rules the pending marker is on disk and the rollback timer
  was started successfully and not stopped since, and the IPv4 document loaded is the one that was staged as
  pending; so a ruleset that cuts the host off is undone at the deadline.
\<close>

theorem rules_load_only_under_the_guard:
  "loads_guarded g (drop (length (fw_trace s)) (fw_trace (snd (handleFirewallReconcile env verify payload s))))"
proof -
  note quiet_ask = ext_asks [of "\<lambda>e. \<not> is_load e", OF quiet_asks]
  note quiet = quiet_stays_guarded
  have "stays guarded (handleFirewallReconcile env verify payload)"
  proof (rule grd.stays_reconcile)
    show "stays guarded (apply_and_confirm env verify payload rendered includeForward probe warnings)"
      for rendered includeForward probe warnings
      unfolding apply_and_confirm_def selfConfirm_def
      by (intro grd.stays_steps apply_guarded grd.stays_autoConfirm quiet_stays_guarded ext_confirm) auto
  qed (intro quiet quiet_ask ext_marker ext_read ext_removeFirewall;
      simp add: binaryFor_def split: family.splits)+
  then have "guarded s (snd (handleFirewallReconcile env verify payload s))" by (rule staysD)
  then show ?thesis by (auto simp: guarded_def)
qed

lemma ask_extends: "asks cmd args \<Longrightarrow> only_asks (Ran cmd args stdin r)"
  by simp

lemma frz_asks:
  "stays (frozen F) (probeXtables env)" "stays (frozen F) (readSshdEffectivePorts env)"
  "stays (frozen F) (hasDockerUserChain env family)" "stays (frozen F) (refusals_of env payload)"
  "stays (frozen F) (validateRenderedFirewall env rendered probe)" "stays (frozen F) (readPendingMarker env)"
  unfolding ask_defs validateRenderedFirewall_def test_document_def readPendingMarker_def by (intro frz_rules)+

text \<open>C23: A preview changes nothing: a reconcile in observe mode, and one that asks for a default of \<open>drop\<close>,
  leaves every file as it was and runs only queries (\<open>-V\<close>, \<open>-S\<close>, \<open>sshd -T\<close>, \<open>is-active\<close> and \<open>--test\<close>,
  which loads nothing); what it returns says that nothing was applied.
\<close>

theorem preview_changes_nothing:
  assumes "fp_mode payload = ObserveOnly \<or> fp_mode payload = Managed \<and> pol_inputDefault (fp_policy payload) = DefaultDrop"
    and "handleFirewallReconcile env verify payload s = (res, s')"
  shows "fw_files s' = fw_files s \<and> (\<exists>es. fw_trace s' = fw_trace s @ es \<and> list_all only_asks es)
    \<and> (\<forall>r. res = Inr r \<longrightarrow> \<not> rr_applied r)"
proof -
  have "stays (extends only_asks) (handleFirewallReconcile env verify payload)"
    by (rule ext.stays_reconcile) (use assms(1) in \<open>auto intro!: ext_asks ext_marker ext_read\<close>)
  then have trace: "extends only_asks s s'" using assms(2) by (rule stays_result)
  have "stays (frozen UNIV) (handleFirewallReconcile env verify payload)"
    by (rule frz.stays_reconcile) (use assms(1) in \<open>auto intro!: frz_asks frz_read\<close>)
  then have files: "frozen UNIV s s'" using assms(2) by (rule stays_result)
  have "\<not> rr_applied r" if "res = Inr r" for r
    using assms that
    by (auto simp: handleFirewallReconcile_def apply_or_preview_def renderOnlyResult_def refusals_of_def Let_def fbind_Inr
        freturn_Inr fthrow_Inr split: if_splits prod.splits)
  then show ?thesis using trace files by (auto simp: extends_def frozen_def)
qed

section \<open>The confirm\<close>

definition pending_of :: "fw_env \<Rightarrow> fw_state \<Rightarrow> pending_marker option" where
  "pending_of env s = Option.bind (fw_files s MarkerFile) (\<lambda>text. Option.bind (json_parse text) (isMarker env))"

text \<open>The files once a pending ruleset is confirmed.\<close>

definition promoted :: "v6_intent \<Rightarrow> (fw_file \<Rightarrow> string option) \<Rightarrow> fw_file \<Rightarrow> string option" where
  "promoted v6 files = files(DurableDoc V4 := files (PendingDoc V4),
     DurableDoc V6 := (case v6 of KeepV6 \<Rightarrow> files (DurableDoc V6) | ForgetV6 \<Rightarrow> None | ReplaceV6 \<Rightarrow> files (PendingDoc V6)),
     MarkerFile := None, PendingDoc V4 := None, PendingDoc V6 := None, RollbackFile := None)"

lemma readPendingMarker_Inr:
  "readPendingMarker env s = (Inr x, s') \<longleftrightarrow> fe_fails env (fw_trace s) (ReadOp MarkerFile) = None \<and> x = pending_of env s \<and> s' = s"
  by (auto simp: readPendingMarker_def pending_of_def Inr_rules split: option.splits)

lemma frz_fold: "stays (frozen F) (foldManagedPublicChainBestEffort env)"
proof -
  have attempt: "stays (frozen F) (attempt env args failures)" for args failures
    unfolding attempt_def by (intro frz_rules)
  have jumps: "stays (frozen F) (remove_jumps env n failures)" for n failures
    by (induction n arbitrary: failures) (auto intro!: frz_rules attempt)
  have all: "stays (frozen F) (attempt_all env xs failures)" for xs failures
    by (induction xs arbitrary: failures) (auto intro!: frz_rules attempt)
  show ?thesis
    unfolding foldManagedPublicChainBestEffort_def foldManagedPublicChain_def fold_children_def fold_covered_def pendingNow_def legacyChildren_def
      readLegacyListeners_def liveForwardRules_def removeLegacy_def
    by (intro frz_rules frz_asks(6) jumps all)
qed

lemma disarmGuardTimer_files: "disarmGuardTimer env s = (x, s') \<Longrightarrow> fw_files s' = fw_files s"
  by (auto simp: disarmGuardTimer_def fbind_def run_cmd_def Let_def freturn_def record_event_def)

lemma fold_files: "foldManagedPublicChainBestEffort env s = (x, s') \<Longrightarrow> fw_files s' = fw_files s"
  using stays_result [OF frz_fold, of env s x s' UNIV] by (auto simp: frozen_def)

lemma promoteDurable_Inr:
  assumes "promoteDurable env v6 d s = (Inr u, s')"
  shows "fw_files s' = (fw_files s)(DurableDoc V4 := Some d,
      DurableDoc V6 := (case v6 of KeepV6 \<Rightarrow> fw_files s (DurableDoc V6) | ForgetV6 \<Rightarrow> None | ReplaceV6 \<Rightarrow> fw_files s (PendingDoc V6)))
    \<and> (v6 = ReplaceV6 \<longrightarrow> fw_files s (PendingDoc V6) \<noteq> None)"
  using assms by (cases v6) (auto simp: promoteDurable_def Inr_rules record_event_def split: option.splits)

lemma promote_pending_Inr:
  assumes "promote_pending env m digest s = (Inr out, s')"
  shows "out = confirm_result Confirmed digest ''the pending ruleset is now durable and survives a reboot''
    \<and> fw_files s (PendingDoc V4) \<noteq> None \<and> (pm_v6 m = ReplaceV6 \<longrightarrow> fw_files s (PendingDoc V6) \<noteq> None)
    \<and> fw_files s' = promoted (pm_v6 m) (fw_files s)"
proof -
  obtain v4 t where v4: "fw_files s (PendingDoc V4) = Some v4" "promoteDurable env (pm_v6 m) v4 s = (Inr (), t)"
      and rest: "fbind (clearPendingFirewall env) (\<lambda>_. fbind (disarmGuardTimer env) (\<lambda>_.
        fbind (removeIfPresent env RollbackFile) (\<lambda>_. fbind (foldManagedPublicChainBestEffort env) (\<lambda>_.
          freturn (confirm_result Confirmed digest ''the pending ruleset is now durable and survives a reboot''))))) t = (Inr out, s')"
    using assms by (auto simp: promote_pending_def fbind_Inr readTextIfPresent_Inr fthrow_Inr split: option.splits)
  have "out = confirm_result Confirmed digest ''the pending ruleset is now durable and survives a reboot''
    \<and> fw_files s' = (fw_files t)(MarkerFile := None, PendingDoc V4 := None, PendingDoc V6 := None, RollbackFile := None)"
    using rest
    by (auto simp: fbind_Inr clearPendingFirewall_def removeIfPresent_Inr freturn_Inr record_event_def
        dest!: disarmGuardTimer_files fold_files)
  then show ?thesis using promoteDurable_Inr [OF v4(2)] v4(1) by (auto simp: promoted_def fun_eq_iff)
qed

lemma confirm_cases:
  assumes "confirmPendingFirewall env digest s = (Inr out, s')"
  shows "case pending_of env s of
      None \<Rightarrow> co_state out \<in> {NothingPending, RolledBack} \<and> fw_files s' = fw_files s
    | Some m \<Rightarrow>
        if pm_digest m \<noteq> digest
        then co_state out = DigestMismatch \<and> co_pendingDigest out = Some (pm_digest m) \<and> fw_files s' = fw_files s
        else if deadline_passed env (fe_now env (fw_trace s)) m
        then co_state out = Expired \<and> fw_files s' = fw_files s
        else co_state out = Confirmed \<and> fw_files s (PendingDoc V4) \<noteq> None
          \<and> (pm_v6 m = ReplaceV6 \<longrightarrow> fw_files s (PendingDoc V6) \<noteq> None)
          \<and> fw_files s' = promoted (pm_v6 m) (fw_files s)"
proof (cases "pending_of env s")
  case None
  have "stays (frozen UNIV) (noPendingOutcome env digest)"
    unfolding noPendingOutcome_def readRollbackRecord_def by (intro frz_rules)
  then have "frozen UNIV s s'"
    using assms None stays_result
    by (auto simp: confirmPendingFirewall_def confirm_at_def fbind_Inr readPendingMarker_Inr)
  moreover have "co_state out \<in> {NothingPending, RolledBack}"
    using assms None
    by (auto simp: confirmPendingFirewall_def confirm_at_def fbind_Inr readPendingMarker_Inr noPendingOutcome_def
        freturn_Inr confirm_result_def split: option.splits)
  ultimately show ?thesis using None by (simp add: frozen_def fun_eq_iff)
next
  case (Some m)
  then show ?thesis
    using assms promote_pending_Inr [of env m digest s out s']
    by (auto simp: confirmPendingFirewall_def confirm_at_def fbind_Inr readPendingMarker_Inr freturn_Inr run_cmd_Inr
        confirm_result_def record_event_def split: if_splits)
qed

text \<open>C11: What a confirm that returns has done, in every case: it confirms exactly when the pending marker
  on disk names the same digest and its deadline lies ahead. Then the pending documents are
  the durable ones (the IPv6 one replaced, forgotten or kept as recorded at the apply) and nothing is pending any
  more; in all other cases no file has changed.
\<close>

theorem confirm_promotes_exactly_the_pending_ruleset:
  assumes "confirmPendingFirewall env digest s = (Inr out, s')"
  shows "case pending_of env s of
      None \<Rightarrow> co_state out \<in> {NothingPending, RolledBack} \<and> fw_files s' = fw_files s
    | Some m \<Rightarrow>
        if pm_digest m \<noteq> digest
        then co_state out = DigestMismatch \<and> co_pendingDigest out = Some (pm_digest m) \<and> fw_files s' = fw_files s
        else if deadline_passed env (fe_now env (fw_trace s)) m
        then co_state out = Expired \<and> fw_files s' = fw_files s
        else co_state out = Confirmed \<and> fw_files s (PendingDoc V4) \<noteq> None
          \<and> (pm_v6 m = ReplaceV6 \<longrightarrow> fw_files s (PendingDoc V6) \<noteq> None)
          \<and> fw_files s' = promoted (pm_v6 m) (fw_files s)"
  using assms by (rule confirm_cases)

section \<open>Concrete runs\<close>

theorem preview_changes_nothing_witness:
  "fw_files (snd (handleFirewallReconcile calm_host None (calm_payload\<lparr>fp_mode := ObserveOnly\<rparr>) new_host)) = fw_files new_host"
  by (rule conjunct1 [OF preview_changes_nothing]) (simp_all add: prod_eq_iff)

text \<open>A ruleset that is pending until time 1, on the host whose clock shows 0.\<close>

definition waiting_host :: fw_state where
  "waiting_host = new_host\<lparr>fw_files := (\<lambda>_. None)(MarkerFile := Some
      ''{\"version\":1,\"digest\":\"00\",\"generation\":1,\"armedAt\":\"0\",\"deadlineAt\":\"1\",\"windowSeconds\":120,\"v6\":\"keep\"}'',
     PendingDoc V4 := Some ''*filter'')\<rparr>"

lemma waiting_confirmed:
  "case fst (confirmPendingFirewall calm_host ''00'' waiting_host) of Inl _ \<Rightarrow> False | Inr out \<Rightarrow> co_state out = Confirmed"
  by code_simp

lemma waiting_pending:
  "map_option pm_v6 (pending_of calm_host waiting_host) = Some KeepV6"
  "map_option pm_digest (pending_of calm_host waiting_host) = Some ''00''"
  by code_simp+

theorem confirm_promotes_exactly_the_pending_ruleset_witness:
  "fw_files (snd (confirmPendingFirewall calm_host ''00'' waiting_host)) (DurableDoc V4) = Some ''*filter''
   \<and> fw_files (snd (confirmPendingFirewall calm_host ''00'' waiting_host)) MarkerFile = None"
proof -
  obtain out where out: "confirmPendingFirewall calm_host ''00'' waiting_host
      = (Inr out, snd (confirmPendingFirewall calm_host ''00'' waiting_host))" "co_state out = Confirmed"
    using waiting_confirmed by (cases "confirmPendingFirewall calm_host ''00'' waiting_host") (auto split: sum.splits)
  obtain m where m: "pending_of calm_host waiting_host = Some m" "pm_v6 m = KeepV6" "pm_digest m = ''00''"
    using waiting_pending by auto
  from confirm_promotes_exactly_the_pending_ruleset [OF out(1)] m out(2)
  have "fw_files (snd (confirmPendingFirewall calm_host ''00'' waiting_host)) = promoted KeepV6 (fw_files waiting_host)"
    by (auto split: if_splits)
  then show ?thesis by (simp add: promoted_def waiting_host_def)
qed

text \<open>
  Staging writes the pending document before the marker. When the marker cannot be written, the marker
  of the ruleset before stays beside the new document, and a confirm of the old digest makes the
  new document durable, which was never loaded.
\<close>

definition torn_host :: fw_env where
  "torn_host = calm_host\<lparr>fe_fails := (\<lambda>_ op. if op = WriteOp MarkerFile then Some ''no space left on device'' else None)\<rparr>"

lemma failed_marker_write_mixes_rulesets:
  "fw_files (snd (confirmPendingFirewall calm_host ''00''
     (snd (armPendingFirewall torn_host \<lparr>pi_digest = ''11'', pi_generation = 2, pi_v4 = ''*new''\<rparr> waiting_host)))) (DurableDoc V4)
   = Some ''*new''"
  by code_simp

end
