(* ===== verification/Firewall_Life.thy ===== *)
theory Firewall_Life
  imports Firewall_Commit_Laws
begin

text \<open>
  The life of a host: any sequence of reconciles, confirms, engine restarts and rollbacks by the root
  guard. On a host whose file operations succeed, a document becomes durable only when the kernel has
  accepted and loaded it before.
\<close>

section \<open>The invariant\<close>

definition loaded :: "family \<Rightarrow> string \<Rightarrow> fw_state \<Rightarrow> bool" where
  "loaded family d s \<longleftrightarrow> (\<exists>r. run_success r \<and> Ran (binaryFor family ''-restore'') [''--noflush''] (Some d) r \<in> set (fw_trace s))"

definition life_ok :: "fw_state \<Rightarrow> bool" where
  "life_ok s \<longleftrightarrow> (fw_files s MarkerFile \<noteq> None \<longrightarrow> (\<exists>d. fw_files s (PendingDoc V4) = Some d \<and> loaded V4 d s))
     \<and> (\<forall>d. fw_files s (PendingDoc V6) = Some d \<longrightarrow> loaded V6 d s)
     \<and> (\<forall>family d. fw_files s (DurableDoc family) = Some d \<longrightarrow> loaded family d s)"

abbreviation keeps_life :: "fw_state \<Rightarrow> fw_state \<Rightarrow> bool" where
  "keeps_life s s' \<equiv> life_ok s \<longrightarrow> life_ok s'"

interpretation life: host_preorder keeps_life
  by unfold_locales auto

lemma loaded_extends: "extends P s s' \<Longrightarrow> loaded family d s \<Longrightarrow> loaded family d s'"
  by (auto simp: extends_def loaded_def)

lemma loaded_record [simp]: "loaded family d s \<Longrightarrow> loaded family d (record_event e s)"
  by (auto simp: loaded_def record_event_def)

lemma loaded_files [simp]: "loaded family d (s\<lparr>fw_files := fs\<rparr>) = loaded family d s"
  by (simp add: loaded_def)

lemma files_record [simp]: "fw_files (record_event e s) = fw_files s"
  by (simp add: record_event_def)

lemma idle_keeps_life: "extends P s s' \<Longrightarrow> fw_files s' = fw_files s \<Longrightarrow> keeps_life s s'"
  using loaded_extends [of P s s'] by (auto simp: life_ok_def)

lemma idle_stays:
  assumes "stays (extends P) m" "stays (frozen UNIV) m"
  shows "stays keeps_life m"
proof (rule staysI)
  show "keeps_life s (snd (m s))" for s
    using idle_keeps_life [OF staysD [OF assms(1), of s]] staysD [OF assms(2), of s] by (simp add: frozen_def fun_eq_iff)
qed

lemma idle_ops:
  "stays keeps_life (run_cmd env c args)" "stays keeps_life (run_stdin env c args text)"
  "stays keeps_life (readTextIfPresent env f)" "stays keeps_life (readPendingMarker env)"
  "stays keeps_life (disarmGuardTimer env)" "stays keeps_life (ensure_dir env)"
  "stays keeps_life (foldManagedPublicChainBestEffort env)"
  by (rule idle_stays [of "\<lambda>_. True"]; auto simp: disarmGuardTimer_def intro!: ext_rules frz_rules ext_marker frz_asks ext_fold frz_fold)+

lemmas life_rules = life.stays_steps stays_splits idle_ops

section \<open>Reliable file operations\<close>

definition reliable :: "fw_env \<Rightarrow> bool" where
  "reliable env \<longleftrightarrow> (\<forall>t op. fe_fails env t op = None)"

lemma reliable_ops [simp]:
  assumes "reliable env"
  shows "writeFileAtomic env f text s = (Inr (), record_event (Wrote f text) s\<lparr>fw_files := (fw_files s)(f := Some text)\<rparr>)"
    and "removeIfPresent env f s = (Inr (), record_event (Removed f) s\<lparr>fw_files := (fw_files s)(f := None)\<rparr>)"
    and "readTextIfPresent env f s = (Inr (fw_files s f), s)"
    and "ensure_dir env s = (Inr (), s)"
  using assms
  by (simp_all add: reliable_def writeFileAtomic_def removeIfPresent_def readTextIfPresent_def ensure_dir_def io_step_def)

lemma reliable_marker [simp]: "reliable env \<Longrightarrow> readPendingMarker env s = (Inr (pending_of env s), s)"
  by (simp add: readPendingMarker_def fbind_def pending_of_def freturn_def split: option.split)

lemma clear_files:
  assumes "reliable env"
  shows "\<exists>s'. clearPendingFirewall env s = (Inr (), s') \<and> (\<forall>f d. loaded f d s \<longrightarrow> loaded f d s')
    \<and> fw_files s' = (fw_files s)(MarkerFile := None, PendingDoc V4 := None, PendingDoc V6 := None)"
  using assms by (simp add: clearPendingFirewall_def fbind_def)

lemma clear_life: "reliable env \<Longrightarrow> stays keeps_life (clearPendingFirewall env)"
proof (rule staysI)
  fix s
  assume "reliable env"
  then obtain s' where s': "clearPendingFirewall env s = (Inr (), s')" "\<And>f d. loaded f d s \<Longrightarrow> loaded f d s'"
      "fw_files s' = (fw_files s)(MarkerFile := None, PendingDoc V4 := None, PendingDoc V6 := None)"
    using clear_files [of env s] by blast
  then show "keeps_life s (snd (clearPendingFirewall env s))" by (simp add: life_ok_def)
qed

lemma remove_life:
  assumes "reliable env" "f \<noteq> PendingDoc V4"
  shows "stays keeps_life (removeIfPresent env f)"
  using assms by (auto intro!: staysI simp: life_ok_def split: if_splits)

lemma durable_life:
  assumes "reliable env" "loaded family d s" "life_ok s"
  shows "life_ok (snd (writeFileAtomic env (DurableDoc family) d s))"
  using assms by (auto simp: life_ok_def)

section \<open>Every operation keeps the invariant\<close>

lemma ensureJump_life: "stays keeps_life (ensureJump env family parent child)"
  unfolding ensureJump_def by (intro life_rules)

lemma restoreDocument_life: "stays keeps_life (restoreDocument env family d)"
  unfolding restoreDocument_def by (intro life_rules)

lemma restoreDocument_files: "fw_files (snd (restoreDocument env family d s)) = fw_files s"
proof -
  have "stays (frozen UNIV) (restoreDocument env family d)" unfolding restoreDocument_def by (intro frz_rules)
  then show ?thesis using staysD by (force simp: frozen_def)
qed

lemma run_stdin_Inr:
  "run_stdin env c args text s = (Inr r, s') \<longleftrightarrow> r = fe_answer env (fw_trace s) c args (Some text)
     \<and> s' = record_event (Ran c args (Some text) r) s"
  by (auto simp: run_stdin_def Let_def)

lemma restoreDocument_loads: "restoreDocument env family d s = (Inr u, s') \<Longrightarrow> loaded family d s'"
  unfolding restoreDocument_def Let_def
  by (auto simp: fbind_Inr run_stdin_Inr fthrow_Inr freturn_Inr loaded_def record_event_def split: if_splits)

text \<open>Once a document is loaded it stays so.\<close>

lemma still_loaded: "stays (extends P) m \<Longrightarrow> m s = (x, s') \<Longrightarrow> loaded family d s \<Longrightarrow> loaded family d s'"
  by (blast dest: stays_result loaded_extends)

lemma applyIpv6_loads:
  assumes "applyIpv6 env v6 includeForward s = (Inr u, s')"
  shows "loaded V6 v6 s'"
proof -
  obtain t where t: "restoreDocument env V6 v6 s = (Inr (), t)"
      "fbind (ensureJump env V6 INPUT_BUILTIN FIREWALL_INPUT_CHAIN) (\<lambda>_.
         if includeForward then ensureJump env V6 DOCKER_USER_CHAIN FIREWALL_FORWARD_CHAIN else freturn ()) t = (Inr u, s')"
    using assms by (auto simp: applyIpv6_def fbind_Inr)
  have "stays (extends (\<lambda>_. True)) (fbind (ensureJump env V6 INPUT_BUILTIN FIREWALL_INPUT_CHAIN) (\<lambda>_.
         if includeForward then ensureJump env V6 DOCKER_USER_CHAIN FIREWALL_FORWARD_CHAIN else freturn ()))"
    by (intro ext_rules ext_jump) simp_all
  from still_loaded [OF this t(2) restoreDocument_loads [OF t(1)]] show ?thesis .
qed

lemma load_ipv6_result:
  assumes "load_ipv6 env rendered includeForward probe s = (r, s')" "life_ok s"
  shows "life_ok s' \<and> (\<exists>applied failure warnings. r = Inr (applied, failure, warnings)
    \<and> (applied \<longrightarrow> (\<exists>v6. rf_v6 rendered = Some v6 \<and> loaded V6 v6 s')))"
proof (cases "rf_v6 rendered")
  case None
  then show ?thesis using assms by (auto simp: load_ipv6_def freturn_def)
next
  case (Some v6)
  have "stays keeps_life (applyIpv6 env v6 (includeForward V6))"
    unfolding applyIpv6_def by (intro life_rules restoreDocument_life ensureJump_life)
  then have "life_ok (snd (applyIpv6 env v6 (includeForward V6) s))" using assms(2) by (auto dest: staysD)
  then show ?thesis
    using assms Some applyIpv6_loads [of env v6 "includeForward V6" s]
    by (auto simp: load_ipv6_def fcatch_def fbind_def freturn_def split: if_splits prod.splits sum.splits)
qed

lemma pending_marker_file: "pending_of env s = Some m \<Longrightarrow> fw_files s MarkerFile \<noteq> None"
  by (cases "fw_files s MarkerFile") (auto simp: pending_of_def)

lemma recordPendingV6_life:
  assumes "reliable env" "life_ok s" "\<And>d. intent = ReplaceV6 \<Longrightarrow> doc = Some d \<Longrightarrow> loaded V6 d s"
  shows "life_ok (snd (recordPendingV6 env intent doc s))"
proof (cases "pending_of env s")
  case None
  then show ?thesis using assms by (simp add: recordPendingV6_def fbind_def freturn_def)
next
  case (Some m)
  then show ?thesis
    using pending_marker_file [OF Some] assms by (auto simp: recordPendingV6_def fbind_def life_ok_def split: option.split)
qed

lemma record_ipv6_life:
  assumes "reliable env" "life_ok s" "applied \<Longrightarrow> \<exists>v6. rf_v6 rendered = Some v6 \<and> loaded V6 v6 s"
  shows "life_ok (snd (record_ipv6 env rendered includeForward armed warnings (applied, failure, warnings6) s))"
proof -
  have "snd (record_ipv6 env rendered includeForward armed warnings (applied, failure, warnings6) s)
    = snd (case failure of Some e \<Rightarrow> recordPendingV6 env KeepV6 None s
        | None \<Rightarrow> recordPendingV6 env (if applied then ReplaceV6 else ForgetV6) (if applied then rf_v6 rendered else None) s)"
    by (simp add: record_ipv6_def snd_fbind fthrow_def freturn_def split: option.split prod.split sum.split)
  then show ?thesis
    using assms by (auto intro!: recordPendingV6_life split: option.split)
qed

lemma load_rest_life:
  assumes "reliable env"
  shows "stays keeps_life (load_jumps_and_ipv6 env rendered includeForward probe armed)"
proof -
  have v6: "stays keeps_life (fbind (load_ipv6 env rendered includeForward probe) (record_ipv6 env rendered includeForward armed warnings))"
    for warnings
  proof (intro staysI impI)
    fix s
    assume "life_ok s"
    obtain r t where load: "load_ipv6 env rendered includeForward probe s = (r, t)" by (cases "load_ipv6 env rendered includeForward probe s")
    show "life_ok (snd (fbind (load_ipv6 env rendered includeForward probe) (record_ipv6 env rendered includeForward armed warnings) s))"
      using load_ipv6_result [OF load \<open>life_ok s\<close>] record_ipv6_life [OF assms, of t] by (auto simp: snd_fbind load)
  qed
  show ?thesis
    unfolding load_jumps_and_ipv6_def ensure_v4_jumps_def by (intro v6 life_rules ensureJump_life)
qed

text \<open>After the attempt to arm, either the pending files are gone or they describe the staged document.\<close>

lemma arm_outcome:
  assumes "reliable env" "armPendingFirewall env input s = (r, t)" "life_ok s"
  shows "(\<forall>f d. loaded f d s \<longrightarrow> loaded f d t)
    \<and> (\<forall>family. fw_files t (DurableDoc family) = fw_files s (DurableDoc family)) \<and> fw_files t (PendingDoc V6) = None
    \<and> (case r of Inl e \<Rightarrow> fw_files t MarkerFile = None | Inr a \<Rightarrow> fw_files t (PendingDoc V4) = Some (pi_v4 input))"
proof -
  have "stays (extends (\<lambda>_. True)) (armPendingFirewall env input)" by (rule ext_arm) simp_all
  from still_loaded [OF this assms(2)] have "\<forall>f d. loaded f d s \<longrightarrow> loaded f d t" by blast
  moreover have "stays (frozen (range DurableDoc)) (arm_at env input now)" for now
    unfolding arm_at_def armGuardTimer_def clearPendingFirewall_def by (intro frz_rules) auto
  then have "stays (frozen (range DurableDoc)) (armPendingFirewall env input)"
    by (rule stays_at [where m = "arm_at env input", rotated]) (rule armPendingFirewall_def)
  from stays_result [OF this assms(2)] have "\<forall>family. fw_files t (DurableDoc family) = fw_files s (DurableDoc family)"
    by (auto simp: frozen_def)
  moreover have "fw_files t (PendingDoc V6) = None
    \<and> (case r of Inl e \<Rightarrow> fw_files t MarkerFile = None | Inr a \<Rightarrow> fw_files t (PendingDoc V4) = Some (pi_v4 input))"
    using assms(1,2)
    by (auto simp: armPendingFirewall_def arm_at_def fbind_def armGuardTimer_def run_cmd_def Let_def fcatch_def
        freturn_def fthrow_def clearPendingFirewall_def split: if_splits)
  ultimately show ?thesis by blast
qed

lemma apply_life:
  assumes "reliable env"
  shows "stays keeps_life (applyRenderedFirewall env rendered includeForward probe generation)"
proof (intro staysI impI)
  fix s
  assume ok: "life_ok s"
  let ?input = "\<lparr>pi_digest = rf_digest rendered, pi_generation = generation, pi_v4 = rf_v4 rendered\<rparr>"
  obtain a t where arm: "armPendingFirewall env ?input s = (a, t)" by (cases "armPendingFirewall env ?input s")
  note t = arm_outcome [OF assms arm ok]
  obtain r u where restore: "restoreDocument env V4 (rf_v4 rendered) t = (r, u)" by (cases "restoreDocument env V4 (rf_v4 rendered) t")
  have "stays (extends (\<lambda>_. True)) (restoreDocument env V4 (rf_v4 rendered))" by (rule ext_restore) simp
  note kept = still_loaded [OF this restore]
  have files: "fw_files u = fw_files t" using restoreDocument_files [of env V4 "rf_v4 rendered" t] by (simp add: restore)
  show "life_ok (snd (applyRenderedFirewall env rendered includeForward probe generation s))"
  proof (cases a)
    case (Inl e)
    then show ?thesis using t ok by (auto simp: applyRenderedFirewall_def fbind_def arm life_ok_def)
  next
    case (Inr armed)
    show ?thesis
    proof (cases r)
      case Inl
      obtain v where v: "clearPendingFirewall env u = (Inr (), v)" "\<And>f d. loaded f d u \<Longrightarrow> loaded f d v"
          "fw_files v = (fw_files u)(MarkerFile := None, PendingDoc V4 := None, PendingDoc V6 := None)"
        using clear_files [OF assms, of u] by blast
      have "life_ok v" using v t ok files kept by (auto simp: life_ok_def)
      then show ?thesis using staysD [OF idle_ops(5), of v env]
        by (auto simp: applyRenderedFirewall_def fbind_def arm Inr loadStagedRuleset_def restore Inl v fthrow_def split: prod.split sum.split)
    next
      case (Inr x)
      then have "life_ok u"
        using restoreDocument_loads [OF restore [unfolded Inr]] t ok files kept \<open>a = Inr armed\<close> by (auto simp: life_ok_def)
      then have "life_ok (snd (load_jumps_and_ipv6 env rendered includeForward probe armed u))"
        using staysD [OF load_rest_life [OF assms]] by blast
      then show ?thesis
        by (auto simp: applyRenderedFirewall_def fbind_def arm \<open>a = Inr armed\<close> loadStagedRuleset_def restore Inr split: prod.splits sum.splits)
    qed
  qed
qed

lemma promoteDurable_life:
  assumes "reliable env" "life_ok s" "loaded V4 d s"
  shows "life_ok (snd (promoteDurable env v6 d s))"
proof (cases v6)
  case ReplaceV6
  then show ?thesis
    using assms
    by (cases "fw_files s (PendingDoc V6)")
      (auto simp: promoteDurable_def fbind_def freturn_def fthrow_def life_ok_def)
qed (use assms in \<open>auto simp: promoteDurable_def fbind_def freturn_def life_ok_def\<close>)

lemma promote_pending_life:
  assumes "reliable env" "life_ok s" "fw_files s MarkerFile \<noteq> None"
  shows "life_ok (snd (promote_pending env m digest s))"
proof -
  obtain d where d: "fw_files s (PendingDoc V4) = Some d" "loaded V4 d s"
    using assms(2,3) by (auto simp: life_ok_def)
  have tail: "stays keeps_life (fbind (clearPendingFirewall env) (\<lambda>_. fbind (disarmGuardTimer env) (\<lambda>_.
      fbind (removeIfPresent env RollbackFile) (\<lambda>_. fbind (foldManagedPublicChainBestEffort env) (\<lambda>_.
        freturn (confirm_result Confirmed digest ''the pending ruleset is now durable and survives a reboot''))))))"
    by (intro life_rules clear_life remove_life assms(1)) simp
  note life_tail = staysD [OF tail]
  have "life_ok (snd (promoteDurable env (pm_v6 m) d s))" using promoteDurable_life [OF assms(1,2) d(2)] .
  then show ?thesis
    using assms(1) d(1) life_tail
    by (auto simp: promote_pending_def snd_fbind [of "readTextIfPresent env (PendingDoc V4)"]
        snd_fbind [of "promoteDurable env (pm_v6 m) d"] split: prod.splits sum.splits)
qed

lemma confirm_life:
  assumes "reliable env"
  shows "stays keeps_life (confirmPendingFirewall env digest)"
proof (rule stays_at [where m = "confirm_at env digest"], rule confirmPendingFirewall_def)
  fix now
  have pend: "stays keeps_life (noPendingOutcome env digest)"
    unfolding noPendingOutcome_def readRollbackRecord_def by (intro life_rules)
  note no_pending = staysD [OF pend]
  show "stays keeps_life (confirm_at env digest now)"
  proof (intro staysI impI)
    fix s
    assume ok: "life_ok s"
    show "life_ok (snd (confirm_at env digest now s))"
    proof (cases "pending_of env s")
      case None
      then show ?thesis using assms ok no_pending by (simp add: confirm_at_def snd_fbind)
    next
      case (Some m)
      have "life_ok (snd (run_cmd env c args s))" for c args using staysD [OF idle_ops(1)] ok by blast
      then show ?thesis
        using assms ok Some promote_pending_life [OF assms ok pending_marker_file [OF Some], of m]
        by (auto simp: confirm_at_def snd_fbind freturn_def run_cmd_def Let_def)
    qed
  qed
qed

lemma removeFirewall_life:
  assumes "reliable env"
  shows "stays keeps_life (removeFirewall env)"
proof -
  have jumps: "stays keeps_life (remove_jump_attempts env n bin parent child)" for n bin parent child
    by (induction n) (auto intro!: life_rules)
  have "stays keeps_life (removeFamilyChains env family)" for family
    unfolding removeFamilyChains_def removeJumpBestEffort_def by (intro life_rules jumps)
  then show ?thesis
    unfolding removeFirewall_def by (intro life_rules remove_life clear_life assms) simp_all
qed

lemma reconcile_life:
  assumes "reliable env"
  shows "stays keeps_life (handleFirewallReconcile env verify payload)"
proof (rule life.stays_reconcile)
  show "stays keeps_life (apply_and_confirm env verify payload rendered includeForward probe warnings)"
    for rendered includeForward probe warnings
    unfolding apply_and_confirm_def selfConfirm_def
    by (intro life_rules apply_life life.stays_autoConfirm confirm_life assms)
qed (auto intro!: idle_ops removeFirewall_life assms idle_stays [OF ext_asks(1) [of "\<lambda>_. True"] frz_asks(1)]
    idle_stays [OF ext_asks(2) [of "\<lambda>_. True"] frz_asks(2)] idle_stays [OF ext_asks(3) [of "\<lambda>_. True"] frz_asks(3)]
    idle_stays [OF ext_asks(4) [of "\<lambda>_. True"] frz_asks(4)] idle_stays [OF ext_asks(5) [of "\<lambda>_. True"] frz_asks(5)])

lemma reinstall_life: "stays keeps_life (reinstallFirewallForwardingIfEnabled env)"
proof (rule staysI)
  fix s
  have chain: "stays keeps_life (rehangForwardChain env family f)" for family f
    unfolding rehangForwardChain_def hasDockerUserChain_def
    by (intro life_rules restoreDocument_life ensureJump_life)
  have "stays keeps_life (each_step (\<lambda>family. rehangForwardChain env family (forwardDocumentFilename family pending)) [V4, V6])"
    for pending by (intro life_rules chain)
  note families = staysD [OF this]
  show "keeps_life s (snd (reinstallFirewallForwardingIfEnabled env s))"
    using families stays_result [OF idle_ops(4), of env s]
    by (auto simp: reinstallFirewallForwardingIfEnabled_def split: prod.split sum.split)
qed

section \<open>Lives\<close>

text \<open>The root guard ends a pending ruleset on its own: it writes a rollback record and removes the
  pending documents and the marker; the durable documents stay.\<close>

inductive host_run :: "fw_env \<Rightarrow> fw_state \<Rightarrow> bool" for env where
  run_start: "host_run env \<lparr>fw_files = (\<lambda>_. None), fw_trace = []\<rparr>"
| run_reconcile: "host_run env s \<Longrightarrow> host_run env (snd (handleFirewallReconcile env verify payload s))"
| run_confirm: "host_run env s \<Longrightarrow> host_run env (snd (handleFirewallConfirm env digest s))"
| run_engine: "host_run env s \<Longrightarrow> host_run env (snd (reinstallFirewallForwardingIfEnabled env s))"
| run_guard: "host_run env s \<Longrightarrow> host_run env (s\<lparr>fw_files := (fw_files s)
    (RollbackFile := Some content, PendingDoc V4 := None, PendingDoc V6 := None, MarkerFile := None)\<rparr>)"

lemma host_run_life: "host_run env s \<Longrightarrow> reliable env \<Longrightarrow> life_ok s"
proof (induction rule: host_run.induct)
  case run_start
  then show ?case by (simp add: life_ok_def)
next
  case (run_reconcile s verify payload)
  then show ?case using staysD [OF reconcile_life] by blast
next
  case (run_confirm s digest)
  then show ?case using staysD [OF confirm_life] unfolding handleFirewallConfirm_def by blast
next
  case (run_engine s)
  then show ?case using staysD [OF reinstall_life] by blast
next
  case (run_guard s content)
  then show ?case by (simp add: life_ok_def)
qed

end
