(* ===== verification/Firewall_Exchange.thy ===== *)
theory Firewall_Exchange
  imports Firewall_Life "HOL-Library.Sublist"
begin

text \<open>
  A reconcile that goes well, from the command to the durable document. \<open>succeeds m s Q\<close> says that the
  operation returns and that its result and the state after it meet \<open>Q\<close>; the rules for the
  combinators reduce a whole command to the steps of the host.
\<close>

section \<open>Operations that return\<close>

definition succeeds :: "'a fw \<Rightarrow> fw_state \<Rightarrow> ('a \<Rightarrow> fw_state \<Rightarrow> bool) \<Rightarrow> bool" where
  "succeeds m s Q \<longleftrightarrow> (\<exists>x t. m s = (Inr x, t) \<and> Q x t)"

lemma succeeds_mono: "succeeds m s P \<Longrightarrow> (\<And>x t. P x t \<Longrightarrow> Q x t) \<Longrightarrow> succeeds m s Q"
  by (auto simp: succeeds_def)

lemma succeeds_bind: "succeeds m s (\<lambda>x t. succeeds (f x) t Q) \<Longrightarrow> succeeds (fbind m f) s Q"
  by (auto simp: succeeds_def fbind_def)

lemma succeeds_step: "succeeds m s P \<Longrightarrow> (\<And>x t. P x t \<Longrightarrow> succeeds (f x) t Q) \<Longrightarrow> succeeds (fbind m f) s Q"
  by (rule succeeds_bind) (rule succeeds_mono)

lemma succeeds_return: "Q x s \<Longrightarrow> succeeds (freturn x) s Q"
  by (simp add: succeeds_def freturn_def)

lemma succeeds_catch: "succeeds m s Q \<Longrightarrow> succeeds (fcatch m h) s Q"
  by (auto simp: succeeds_def fcatch_def)

lemma succeeds_then: "b \<Longrightarrow> succeeds m s Q \<Longrightarrow> succeeds (if b then m else n) s Q"
  by simp

lemma succeeds_else: "\<not> b \<Longrightarrow> succeeds n s Q \<Longrightarrow> succeeds (if b then m else n) s Q"
  by simp

definition idle :: "fw_state \<Rightarrow> fw_state \<Rightarrow> bool" where
  "idle s t \<longleftrightarrow> fw_files t = fw_files s \<and> prefix (fw_trace s) (fw_trace t)"

lemma idle_refl: "idle s s" by (simp add: idle_def)
lemma idle_trans: "idle s t \<Longrightarrow> idle t u \<Longrightarrow> idle s u" by (auto simp: idle_def)
lemma idle_record: "idle s (record_event e s)" by (simp add: idle_def record_event_def)

lemma succeeds_run:
  "succeeds (run_cmd env c args) s (\<lambda>r t. (\<exists>u. r = fe_answer env u c args None) \<and> idle s t)"
  by (auto simp: succeeds_def run_cmd_def Let_def idle_record)

lemma succeeds_stdin:
  "succeeds (run_stdin env c args d) s (\<lambda>r t. (\<exists>u. r = fe_answer env u c args (Some d)) \<and> idle s t)"
  by (auto simp: succeeds_def run_stdin_def Let_def idle_record)

section \<open>A host in good order\<close>

text \<open>
  File operations succeed; so do the firewall tools and the start of the guard timer. The clock's
  texts read back as the times they print, numbers print as decimals, digests are plain text.
\<close>

definition good_host :: "fw_env \<Rightarrow> bool" where
  "good_host env \<longleftrightarrow> reliable env
     \<and> (\<forall>t c args i. c \<in> set XTABLES_BINARIES \<or> c = ''systemctl'' \<and> args = [''restart'', FIREWALL_GUARD_TIMER]
          \<longrightarrow> run_success (fe_answer env t c args i))
     \<and> (\<forall>n. utf8_valid (fe_iso env n) \<and> fe_dateParse env (fe_iso env n) = Some n)
     \<and> (\<forall>m \<ge> 0. fe_numText env m 0 = int_text m) \<and> (\<forall>x. utf8_valid (fe_sha256hex env x))"

lemma good_host_reliable: "good_host env \<Longrightarrow> reliable env"
  by (simp add: good_host_def)

lemma good_host_answers:
  "good_host env \<Longrightarrow> c \<in> set XTABLES_BINARIES \<Longrightarrow> run_success (fe_answer env t c args i)"
  "good_host env \<Longrightarrow> run_success (fe_answer env t ''systemctl'' [''restart'', FIREWALL_GUARD_TIMER] i)"
  by (simp_all add: good_host_def)

lemma xtables_names [simp]:
  "binaryFor family [] \<in> set XTABLES_BINARIES" "binaryFor family ''-restore'' \<in> set XTABLES_BINARIES"
  "''iptables'' \<in> set XTABLES_BINARIES" "''ip6tables'' \<in> set XTABLES_BINARIES"
  by (cases family; simp add: binaryFor_def XTABLES_BINARIES_def)+

lemma good_probe:
  "good_host env \<Longrightarrow> succeeds (probeXtables env) s (\<lambda>p t. xp_ok p \<and> xp_ipv6 p \<and> idle s t)"
  unfolding probeXtables_def
  by (rule succeeds_step [OF succeeds_run], rule succeeds_else, force simp: good_host_answers,
      rule succeeds_step [OF succeeds_run], rule succeeds_return, auto simp: good_host_answers intro: idle_trans)

lemma good_docker:
  "good_host env \<Longrightarrow> succeeds (hasDockerUserChain env family) s (\<lambda>b t. b \<and> idle s t)"
  unfolding hasDockerUserChain_def
  by (rule succeeds_step [OF succeeds_run]) (auto simp: good_host_answers intro!: succeeds_return)

lemma good_ssh: "succeeds (readSshdEffectivePorts env) s (\<lambda>_ t. idle s t)"
  unfolding readSshdEffectivePorts_def by (rule succeeds_step [OF succeeds_run]) (auto intro!: succeeds_return)

lemma good_jump: "good_host env \<Longrightarrow> succeeds (ensureJump env family parent child) s (\<lambda>_ t. idle s t)"
  unfolding ensureJump_def Let_def
  by (rule succeeds_step [OF succeeds_run], rule succeeds_then, force simp: good_host_answers, rule succeeds_return) simp

lemma good_restore: "good_host env \<Longrightarrow> succeeds (restoreDocument env family d) s (\<lambda>_ t. idle s t)"
  unfolding restoreDocument_def Let_def
  by (rule succeeds_step [OF succeeds_stdin], rule succeeds_else, force simp: good_host_answers,
      rule succeeds_step [OF succeeds_stdin], rule succeeds_else, force simp: good_host_answers,
      rule succeeds_return, auto intro: idle_trans)

lemma good_v4_jumps: "good_host env \<Longrightarrow> succeeds (ensure_v4_jumps env includeForward) s (\<lambda>_ t. idle s t)"
  unfolding ensure_v4_jumps_def
  by (rule succeeds_step [OF good_jump], assumption, cases "includeForward V4", simp,
      rule succeeds_step [OF good_jump], assumption) (auto intro!: succeeds_return intro: idle_trans)

lemma good_ipv6:
  assumes "good_host env" "xp_ipv6 probe"
  shows "succeeds (load_ipv6 env rendered includeForward probe) s
    (\<lambda>x t. fst x = (rf_v6 rendered \<noteq> None) \<and> fst (snd x) = None \<and> idle s t)"
proof (cases "rf_v6 rendered")
  case None
  then show ?thesis by (auto simp: load_ipv6_def idle_refl intro!: succeeds_return)
next
  case (Some v6)
  have "succeeds (applyIpv6 env v6 (includeForward V6)) s (\<lambda>_ t. idle s t)"
    unfolding applyIpv6_def
    by (rule succeeds_step [OF good_restore [OF assms(1)]], rule succeeds_step [OF good_jump [OF assms(1)]],
        cases "includeForward V6", simp, rule succeeds_mono [OF good_jump [OF assms(1)]])
      (auto intro!: succeeds_return intro: idle_trans)
  then have "succeeds (fbind (applyIpv6 env v6 (includeForward V6)) (\<lambda>_. freturn (True, None :: fw_error option, [] :: string list))) s
      (\<lambda>x t. fst x = (rf_v6 rendered \<noteq> None) \<and> fst (snd x) = None \<and> idle s t)"
    by (rule succeeds_step) (simp add: succeeds_return Some)
  then show ?thesis
    using assms(2) Some by (simp add: load_ipv6_def succeeds_catch)
qed

section \<open>The marker reads back\<close>

definition marker_fields :: "fw_env \<Rightarrow> pending_input \<Rightarrow> int \<Rightarrow> v6_intent \<Rightarrow> fields" where
  "marker_fields env input now intent =
     [(''version'', JNum 1 0), (''digest'', JStr (pi_digest input)), (''generation'', JNum (pi_generation input) 0),
      (''armedAt'', JStr (fe_iso env now)),
      (''deadlineAt'', JStr (fe_iso env (now + FIREWALL_CONFIRM_WINDOW_SECONDS * 1000))),
      (''windowSeconds'', JNum FIREWALL_CONFIRM_WINDOW_SECONDS 0), (''v6'', JStr (intent_text intent))]"

definition marker_of :: "fw_env \<Rightarrow> pending_input \<Rightarrow> int \<Rightarrow> v6_intent \<Rightarrow> pending_marker" where
  "marker_of env input now intent = \<lparr>pm_fields = marker_fields env input now intent, pm_digest = pi_digest input,
     pm_deadlineAt = fe_iso env (now + FIREWALL_CONFIRM_WINDOW_SECONDS * 1000), pm_v6 = intent\<rparr>"

definition marker_text :: "fw_env \<Rightarrow> pending_input \<Rightarrow> int \<Rightarrow> v6_intent \<Rightarrow> string" where
  "marker_text env input now intent = json_text (fe_numText env) (JObj (marker_fields env input now intent))"

lemma new_marker_fields: "new_marker env input now = marker_fields env input now KeepV6"
  by (simp add: new_marker_def marker_fields_def)

lemma marker_fields_update:
  "AList.update ''v6'' (JStr (intent_text intent)) (marker_fields env input now old) = marker_fields env input now intent"
  by (simp add: marker_fields_def)

lemma intent_pick:
  "pick [(''replace'', ReplaceV6), (''forget'', ForgetV6), (''keep'', KeepV6)] (Some (JStr (intent_text intent))) = Some intent"
  by (cases intent) (simp_all add: intent_text_def pick_def)

lemma isMarker_marker:
  assumes "good_host env"
  shows "isMarker env (JObj (marker_fields env input now intent)) = Some (marker_of env input now intent)"
proof -
  have "decimal_integer 1 0 = Some 1" by code_simp
  moreover have "fe_dateParse env (fe_iso env n) \<noteq> None" for n using assms by (simp add: good_host_def)
  ultimately show ?thesis
    by (simp add: isMarker_def marker_fields_def marker_of_def obj_get_def intent_pick)
qed

lemma plain_object_keys: "list_all (\<lambda>k. \<not> is_array_index k) (map fst fs) \<Longrightarrow> object_keys fs = map fst fs"
  by (simp add: object_keys_def list_all_iff filter_True filter_False)

lemma marker_plain:
  assumes "good_host env" "0 \<le> pi_generation input" "utf8_valid (pi_digest input)"
  shows "plain_json (fe_numText env) (JObj (marker_fields env input now intent))"
proof -
  have keys: "object_keys (marker_fields env input now intent) = map fst (marker_fields env input now intent)"
  proof (rule plain_object_keys)
    have "map fst (marker_fields env input now intent)
        = [''version'', ''digest'', ''generation'', ''armedAt'', ''deadlineAt'', ''windowSeconds'', ''v6'']"
      by (simp add: marker_fields_def)
    moreover have "list_all (\<lambda>k. \<not> is_array_index k)
        [''version'', ''digest'', ''generation'', ''armedAt'', ''deadlineAt'', ''windowSeconds'', ''v6'']"
      by code_simp
    ultimately show "list_all (\<lambda>k. \<not> is_array_index k) (map fst (marker_fields env input now intent))" by (simp only:)
  qed
  have "utf8_valid ''replace''" "utf8_valid ''forget''" "utf8_valid ''keep''" by code_simp+
  then have "utf8_valid (intent_text intent)" by (cases intent) (simp_all only: intent_text_def v6_intent.case)
  moreover have "utf8_valid ''version''" "utf8_valid ''digest''" "utf8_valid ''generation''" "utf8_valid ''armedAt''"
      "utf8_valid ''deadlineAt''" "utf8_valid ''windowSeconds''" "utf8_valid ''v6''"
    by code_simp+
  ultimately show ?thesis
    using assms keys
    by (simp add: marker_fields_def good_host_def FIREWALL_CONFIRM_WINDOW_SECONDS_def del: utf8_valid.simps)
qed

lemma pending_marker_text:
  assumes "good_host env" "0 \<le> pi_generation input" "utf8_valid (pi_digest input)"
    and "fw_files s MarkerFile = Some (marker_text env input now intent)"
  shows "pending_of env s = Some (marker_of env input now intent)"
  using json_parse_text [OF marker_plain [OF assms(1-3)], of now intent] assms(4)
  by (simp add: pending_of_def marker_text_def isMarker_marker [OF assms(1)])

section \<open>From the command to the durable document\<close>

lemma extends_prefix: "extends P s t \<Longrightarrow> prefix (fw_trace s) (fw_trace t)"
  by (auto simp: extends_def)

lemma good_arm:
  assumes "good_host env"
  shows "succeeds (armPendingFirewall env input) s (\<lambda>a t. prefix (fw_trace s) (fw_trace t)
    \<and> fw_files t = (fw_files s)(RollbackFile := None, PendingDoc V6 := None, PendingDoc V4 := Some (pi_v4 input),
        MarkerFile := Some (marker_text env input (fe_now env (fw_trace s)) KeepV6)))"
  using assms good_host_reliable [OF assms]
  by (simp add: succeeds_def armPendingFirewall_def arm_at_def fbind_def armGuardTimer_def run_cmd_def Let_def fcatch_def
      good_host_answers freturn_def new_marker_fields marker_text_def record_event_def)

lemma good_record:
  assumes "good_host env" "0 \<le> pi_generation input" "utf8_valid (pi_digest input)"
    and "fw_files s MarkerFile = Some (marker_text env input now old)"
  shows "succeeds (recordPendingV6 env intent doc) s (\<lambda>_ t. prefix (fw_trace s) (fw_trace t)
    \<and> fw_files t = (fw_files s)(PendingDoc V6 := (if intent = ReplaceV6 then doc else None),
        MarkerFile := Some (marker_text env input now intent)))"
  using pending_marker_text [OF assms] good_host_reliable [OF assms(1)]
  by (cases doc)
    (auto simp: succeeds_def recordPendingV6_def fbind_def marker_of_def marker_fields_update marker_text_def record_event_def)

lemma good_apply:
  assumes "good_host env" "xp_ipv6 probe" "0 \<le> generation" "utf8_valid (rf_digest rendered)"
  defines "input \<equiv> \<lparr>pi_digest = rf_digest rendered, pi_generation = generation, pi_v4 = rf_v4 rendered\<rparr>"
  shows "succeeds (applyRenderedFirewall env rendered includeForward probe generation) s
    (\<lambda>_ t. prefix (fw_trace s) (fw_trace t)
      \<and> fw_files t = (fw_files s)(RollbackFile := None, PendingDoc V4 := Some (rf_v4 rendered), PendingDoc V6 := rf_v6 rendered,
          MarkerFile := Some (marker_text env input (fe_now env (fw_trace s))
            (if rf_v6 rendered = None then ForgetV6 else ReplaceV6))))"
  (is "succeeds _ s ?Q")
proof -
  have input: "0 \<le> pi_generation input" "utf8_valid (pi_digest input)" "pi_v4 input = rf_v4 rendered"
    using assms by (simp_all add: input_def)
  have load: "succeeds (load_jumps_and_ipv6 env rendered includeForward probe armed) u ?Q"
    if u: "prefix (fw_trace s) (fw_trace u)"
      "fw_files u = (fw_files s)(RollbackFile := None, PendingDoc V6 := None, PendingDoc V4 := Some (pi_v4 input),
        MarkerFile := Some (marker_text env input (fe_now env (fw_trace s)) KeepV6))" for armed u
    unfolding load_jumps_and_ipv6_def
  proof (rule succeeds_step [OF good_v4_jumps [OF assms(1)]], rule succeeds_step [OF good_ipv6 [OF assms(1,2)]])
    fix warnings v w and x :: "bool \<times> fw_error option \<times> string list"
    assume v: "idle u v" and w: "fst x = (rf_v6 rendered \<noteq> None) \<and> fst (snd x) = None \<and> idle v w"
    obtain warnings6 where x: "x = (rf_v6 rendered \<noteq> None, None, warnings6)" "idle v w" using w by (cases x) auto
    have "fw_files w MarkerFile = Some (marker_text env input (fe_now env (fw_trace s)) KeepV6)"
      using u v x by (simp add: idle_def)
    note record_step = good_record [OF assms(1) input(1,2) this]
    show "succeeds (record_ipv6 env rendered includeForward armed warnings x) w ?Q"
      unfolding x(1) record_ipv6_def prod.case option.case
      by (rule succeeds_step [OF record_step], rule succeeds_return)
        (use u v x(2) input(3) in \<open>auto simp: idle_def fun_eq_iff\<close>)
  qed
  show ?thesis
    unfolding applyRenderedFirewall_def
  proof (rule succeeds_step [OF good_arm [OF assms(1)]])
    fix armed :: armed_pending and u :: fw_state
    assume u: "prefix (fw_trace s) (fw_trace u) \<and> fw_files u = (fw_files s)
      (RollbackFile := None, PendingDoc V6 := None,
       PendingDoc V4 := Some (pi_v4 \<lparr>pi_digest = rf_digest rendered, pi_generation = generation, pi_v4 = rf_v4 rendered\<rparr>),
       MarkerFile := Some (marker_text env \<lparr>pi_digest = rf_digest rendered, pi_generation = generation, pi_v4 = rf_v4 rendered\<rparr>
         (fe_now env (fw_trace s)) KeepV6))"
    obtain u1 where u1: "restoreDocument env V4 (rf_v4 rendered) u = (Inr (), u1)" "idle u u1"
      using good_restore [OF assms(1), of V4 "rf_v4 rendered" u] by (auto simp: succeeds_def)
    have "succeeds (load_jumps_and_ipv6 env rendered includeForward probe armed) u1 ?Q"
      by (rule load) (use u u1(2) in \<open>auto simp: idle_def input_def\<close>)
    then show "succeeds (\<lambda>s. case loadStagedRuleset env rendered includeForward probe armed s of
          (Inr outcome, _, s1) \<Rightarrow> (Inr outcome, s1)
        | (Inl e, v4Loaded, s1) \<Rightarrow>
            if v4Loaded then (Inl e, s1)
            else fbind (clearPendingFirewall env) (\<lambda>_. fbind (disarmGuardTimer env) (\<lambda>_. fthrow e)) s1) u ?Q"
      by (auto simp: succeeds_def loadStagedRuleset_def u1(1))
  qed
qed

lemma good_fold: "succeeds (foldManagedPublicChainBestEffort env) s (\<lambda>_ t. idle s t)"
proof -
  have "\<exists>t. foldManagedPublicChainBestEffort env s = (Inr (), t)"
    by (auto simp: foldManagedPublicChainBestEffort_def fcatch_def freturn_def split: prod.split sum.split)
  then show ?thesis
    using stays_result [OF ext_fold [of "\<lambda>_. True"]] fold_files extends_prefix
    by (fastforce simp: succeeds_def idle_def)
qed

lemma good_confirm:
  assumes "good_host env" "pending_of env s = Some m" "pm_digest m = digest"
    and "\<not> deadline_passed env (fe_now env (fw_trace s)) m" "fw_files s (PendingDoc V4) = Some d"
    and "pm_v6 m = ReplaceV6 \<longrightarrow> fw_files s (PendingDoc V6) \<noteq> None"
  shows "succeeds (confirmPendingFirewall env digest) s (\<lambda>out t. co_state out = Confirmed \<and> prefix (fw_trace s) (fw_trace t))"
proof -
  note reliable = good_host_reliable [OF assms(1)]
  have promote: "succeeds (promoteDurable env (pm_v6 m) d) s (\<lambda>_ t. prefix (fw_trace s) (fw_trace t))"
    using assms(6) reliable
    by (cases "pm_v6 m") (auto simp: succeeds_def promoteDurable_def fbind_def freturn_def record_event_def)
  have clear: "succeeds (clearPendingFirewall env) t (\<lambda>_ u. prefix (fw_trace t) (fw_trace u))" for t
    using reliable by (simp add: succeeds_def clearPendingFirewall_def fbind_def record_event_def)
  have disarm: "succeeds (disarmGuardTimer env) t (\<lambda>_ u. prefix (fw_trace t) (fw_trace u))" for t
    by (simp add: succeeds_def disarmGuardTimer_def fbind_def run_cmd_def Let_def freturn_def record_event_def)
  have remove: "succeeds (removeIfPresent env f) t (\<lambda>_ u. prefix (fw_trace t) (fw_trace u))" for f t
    using reliable by (simp add: succeeds_def record_event_def)
  have "succeeds (promote_pending env m digest) s (\<lambda>out t. co_state out = Confirmed \<and> prefix (fw_trace s) (fw_trace t))"
    unfolding promote_pending_def
  proof (rule succeeds_bind)
    show "succeeds (readTextIfPresent env (PendingDoc V4)) s (\<lambda>x t. succeeds (case x of
        None \<Rightarrow> fthrow (FwError ''Error'' ''pending IPv4 document is missing; not promoting'')
      | Some v4 \<Rightarrow> fbind (promoteDurable env (pm_v6 m) v4) (\<lambda>_. fbind (clearPendingFirewall env) (\<lambda>_.
          fbind (disarmGuardTimer env) (\<lambda>_. fbind (removeIfPresent env RollbackFile) (\<lambda>_.
          fbind (foldManagedPublicChainBestEffort env) (\<lambda>_.
            freturn (confirm_result Confirmed digest ''the pending ruleset is now durable and survives a reboot'')))))))
        t (\<lambda>out t. co_state out = Confirmed \<and> prefix (fw_trace s) (fw_trace t)))"
      using reliable assms(5)
      by (simp add: succeeds_def [of "readTextIfPresent env (PendingDoc V4)"])
        (rule succeeds_step [OF promote], rule succeeds_step [OF clear], rule succeeds_step [OF disarm],
          rule succeeds_step [OF remove], rule succeeds_step [OF good_fold], rule succeeds_return,
          auto simp: confirm_result_def idle_def intro: prefix_order.trans)
  qed
  then show ?thesis
    using assms(2-4) reliable
    by (simp add: succeeds_def confirmPendingFirewall_def confirm_at_def fbind_def [of "readPendingMarker env"])
qed

lemma rendered_digest_valid: "good_host env \<Longrightarrow> utf8_valid (rf_digest (renderFirewall (fe_sha256hex env) input))"
  by (simp add: good_host_def renderFirewall_def Let_def split: prod.split)

definition asked_ssh :: "reconcile_payload \<Rightarrow> nat list" where
  "asked_ssh payload = (case fp_sshPorts payload of None \<Rightarrow> [] | Some ports \<Rightarrow> ports)"

text \<open>What a reconcile did that applied its ruleset and confirmed it: the documents rendered from the
  payload are durable and nothing is pending.\<close>

definition settled_on :: "fw_env \<Rightarrow> reconcile_payload \<Rightarrow> reconcile_result \<Rightarrow> fw_state \<Rightarrow> bool" where
  "settled_on env payload r t \<longleftrightarrow> (\<exists>rendered sshPorts includeForward.
     rendered = renderFirewall (fe_sha256hex env)
       \<lparr>ri_payload = payload, ri_sshPorts = sshPorts, ri_includeForward = includeForward\<rparr>
     \<and> set (asked_ssh payload) \<subseteq> set sshPorts
     \<and> rr_applied r \<and> rr_digest r = rf_digest rendered
     \<and> fw_files t (DurableDoc V4) = Some (rf_v4 rendered) \<and> fw_files t (DurableDoc V6) = rf_v6 rendered
     \<and> fw_files t MarkerFile = None \<and> fw_files t (PendingDoc V4) = None \<and> fw_files t (PendingDoc V6) = None
     \<and> fw_files t RollbackFile = None)"

lemma good_self_confirm:
  assumes "good_host env" "0 \<le> pi_generation input" "utf8_valid (pi_digest input)"
    and "fw_files s MarkerFile = Some (marker_text env input now (if v6 = None then ForgetV6 else ReplaceV6))"
    and "fw_files s (PendingDoc V4) = Some v4" "fw_files s (PendingDoc V6) = v6"
    and "fe_now env (fw_trace s) < now + FIREWALL_CONFIRM_WINDOW_SECONDS * 1000" "\<And>t. check t = None"
  shows "succeeds (selfConfirm env (Some check) (pi_digest input) armed) s (\<lambda>c t. pc_confirmed c
    \<and> prefix (fw_trace s) (fw_trace t) \<and> fw_files t (DurableDoc V4) = Some v4 \<and> fw_files t (DurableDoc V6) = v6
    \<and> fw_files t MarkerFile = None \<and> fw_files t (PendingDoc V4) = None \<and> fw_files t (PendingDoc V6) = None
    \<and> fw_files t RollbackFile = None)"
proof -
  let ?m = "marker_of env input now (if v6 = None then ForgetV6 else ReplaceV6)"
  have m: "pending_of env s = Some ?m" using pending_marker_text [OF assms(1-4)] .
  have alive: "\<not> deadline_passed env (fe_now env (fw_trace s)) ?m"
    using assms(1,7) by (simp add: deadline_passed_def marker_of_def good_host_def)
  have v6: "pm_v6 ?m = ReplaceV6 \<longrightarrow> fw_files s (PendingDoc V6) \<noteq> None" by (simp add: marker_of_def assms(6))
  have digest: "pm_digest ?m = pi_digest input" by (simp add: marker_of_def)
  obtain out t where t: "confirmPendingFirewall env (pi_digest input) s = (Inr out, t)" "co_state out = Confirmed"
      "prefix (fw_trace s) (fw_trace t)"
    using good_confirm [OF assms(1) m digest alive assms(5) v6] by (auto simp: succeeds_def)
  have "fw_files t = promoted (pm_v6 ?m) (fw_files s)"
    using confirm_cases [OF t(1)] m alive by (simp add: marker_of_def)
  then show ?thesis
    using t assms(5,6,8)
    by (auto simp: succeeds_def selfConfirm_def autoConfirmFirewall_def fbind_def fcatch_def freturn_def promoted_def marker_of_def)
qed

text \<open>A managed reconcile comes down to the apply and the confirm of what was rendered.\<close>

lemma reconcile_applies:
  assumes "good_host env" "fp_mode payload = Managed" "pol_inputDefault (fp_policy payload) = DefaultAccept"
  shows "\<exists>u sshPorts includeForward probe warnings. idle s u \<and> xp_ipv6 probe
    \<and> set (asked_ssh payload) \<subseteq> set sshPorts
    \<and> handleFirewallReconcile env verify payload s = apply_and_confirm env verify payload
        (renderFirewall (fe_sha256hex env) \<lparr>ri_payload = payload, ri_sshPorts = sshPorts, ri_includeForward = includeForward\<rparr>)
        includeForward probe warnings u"
proof -
  obtain probe s1 where s1: "probeXtables env s = (Inr probe, s1)" "xp_ok probe" "xp_ipv6 probe" "idle s s1"
    using good_probe [OF assms(1), of s] by (auto simp: succeeds_def)
  obtain detected warning s2 where s2: "readSshdEffectivePorts env s1 = (Inr (detected, warning), s2)" "idle s1 s2"
    using good_ssh [of env s1] by (auto simp: succeeds_def)
  obtain s3 where s3: "hasDockerUserChain env V4 s2 = (Inr True, s3)" "idle s2 s3"
    using good_docker [OF assms(1), of V4 s2] by (auto simp: succeeds_def)
  obtain forward6 s4 where s4: "(if pol_ipv6 (fp_policy payload) = Mirror then hasDockerUserChain env V6 else freturn False) s3
      = (Inr forward6, s4)" "idle s3 s4"
    using good_docker [OF assms(1), of V6 s3] s1(3)
    by (cases "pol_ipv6 (fp_policy payload)") (auto simp: succeeds_def freturn_def idle_refl)
  have "idle s s4" using s1(4) s2(2) s3(2) s4(2) by (blast intro: idle_trans)
  moreover have "refusals_of env payload = freturn []" using assms(3) by (simp add: refusals_of_def)
  ultimately have "handleFirewallReconcile env verify payload s = apply_and_confirm env verify payload
        (renderFirewall (fe_sha256hex env) \<lparr>ri_payload = payload, ri_sshPorts = union_ports detected (asked_ssh payload),
          ri_includeForward = (\<lambda>family. case family of V4 \<Rightarrow> True | V6 \<Rightarrow> forward6)\<rparr>)
        (\<lambda>family. case family of V4 \<Rightarrow> True | V6 \<Rightarrow> forward6) probe
        (opt_warning (xp_warning probe) @ opt_warning warning @ rf_warnings (renderFirewall (fe_sha256hex env)
          \<lparr>ri_payload = payload, ri_sshPorts = union_ports detected (asked_ssh payload),
            ri_includeForward = (\<lambda>family. case family of V4 \<Rightarrow> True | V6 \<Rightarrow> forward6)\<rparr>)) s4"
    using assms(2) s1(2,3)
    by (simp add: handleFirewallReconcile_def fbind_run s1(1) s2(1) s3(1) s4(1) Let_def fbind_return apply_or_preview_def
        flip: asked_ssh_def)
  moreover have "set (asked_ssh payload) \<subseteq> set (union_ports detected (asked_ssh payload))" by (simp add: union_ports_def)
  ultimately show ?thesis using \<open>idle s s4\<close> s1(3) by blast
qed

lemma apply_and_confirm_result:
  assumes "applyRenderedFirewall env rendered includeForward probe (fp_generation payload) u = (Inr out, v)"
    and "selfConfirm env verify (rf_digest rendered) (ao_confirmation out) v = (Inr c, w)"
  shows "\<exists>r. apply_and_confirm env verify payload rendered includeForward probe warnings u = (Inr r, w)
    \<and> rr_confirmation r = Some c \<and> rr_applied r \<and> rr_digest r = rf_digest rendered"
  unfolding apply_and_confirm_def fbind_def assms prod.case sum.case freturn_def
  by (rule exI, intro conjI, rule refl) (simp_all only: reconcile_result.select_convs)

lemma good_reconcile:
  assumes "good_host env" "0 \<le> fp_generation payload" "fp_mode payload = Managed"
    and "pol_inputDefault (fp_policy payload) = DefaultAccept" "\<And>t. check t = None"
    and handle: "handleFirewallReconcile env (Some check) payload s = (res, s')"
    and window: "\<And>t t'. prefix (fw_trace s) t \<Longrightarrow> prefix t t' \<Longrightarrow> prefix t' (fw_trace s') \<Longrightarrow> fe_now env t' < fe_now env t + 120000"
  shows "\<exists>r c. res = Inr r \<and> rr_confirmation r = Some c \<and> pc_confirmed c \<and> settled_on env payload r s'"
proof -
  obtain u sshPorts includeForward probe warnings rendered where u: "idle s u" "xp_ipv6 probe"
      and ports: "set (asked_ssh payload) \<subseteq> set sshPorts"
      and rendered: "rendered = renderFirewall (fe_sha256hex env)
        \<lparr>ri_payload = payload, ri_sshPorts = sshPorts, ri_includeForward = includeForward\<rparr>"
      and run: "apply_and_confirm env (Some check) payload rendered includeForward probe warnings u = (res, s')"
    using reconcile_applies [OF assms(1,3,4), of s "Some check"] handle by auto
  let ?input = "\<lparr>pi_digest = rf_digest rendered, pi_generation = fp_generation payload, pi_v4 = rf_v4 rendered\<rparr>"
  have digest: "utf8_valid (rf_digest rendered)" unfolding rendered using assms(1) by (rule rendered_digest_valid)
  obtain out v where v: "applyRenderedFirewall env rendered includeForward probe (fp_generation payload) u = (Inr out, v)"
      "prefix (fw_trace u) (fw_trace v)"
      "fw_files v = (fw_files u)(RollbackFile := None, PendingDoc V4 := Some (rf_v4 rendered), PendingDoc V6 := rf_v6 rendered,
          MarkerFile := Some (marker_text env ?input (fe_now env (fw_trace u)) (if rf_v6 rendered = None then ForgetV6 else ReplaceV6)))"
    using good_apply [OF assms(1) u(2) assms(2) digest, of includeForward u] by (auto simp: succeeds_def)
  obtain x w where w: "selfConfirm env (Some check) (rf_digest rendered) (ao_confirmation out) v = (x, w)"
    by (cases "selfConfirm env (Some check) (rf_digest rendered) (ao_confirmation out) v")
  have s': "s' = w" using run
    by (cases x) (auto simp: apply_and_confirm_def fbind_def v(1) w freturn_def)
  have "stays (extends (\<lambda>_. True)) (selfConfirm env (Some check) (rf_digest rendered) (ao_confirmation out))"
    unfolding selfConfirm_def by (intro ext_rules ext.stays_autoConfirm ext_confirm) simp_all
  then have "prefix (fw_trace v) (fw_trace w)" using w by (blast dest: stays_result extends_prefix)
  then have alive: "fe_now env (fw_trace v) < fe_now env (fw_trace u) + FIREWALL_CONFIRM_WINDOW_SECONDS * 1000"
    using window [of "fw_trace u" "fw_trace v"] u(1) v(2) s' by (simp add: idle_def FIREWALL_CONFIRM_WINDOW_SECONDS_def)
  have "succeeds (selfConfirm env (Some check) (pi_digest ?input) (ao_confirmation out)) v (\<lambda>c t. pc_confirmed c
    \<and> prefix (fw_trace v) (fw_trace t) \<and> fw_files t (DurableDoc V4) = Some (rf_v4 rendered) \<and> fw_files t (DurableDoc V6) = rf_v6 rendered
    \<and> fw_files t MarkerFile = None \<and> fw_files t (PendingDoc V4) = None \<and> fw_files t (PendingDoc V6) = None
    \<and> fw_files t RollbackFile = None)"
    by (rule good_self_confirm [OF assms(1) _ _ _ _ _ alive assms(5)]) (use v(3) digest assms(2) in simp_all)
  then obtain c where c: "x = Inr c" "pc_confirmed c" and files: "fw_files w (DurableDoc V4) = Some (rf_v4 rendered)"
      "fw_files w (DurableDoc V6) = rf_v6 rendered" "fw_files w MarkerFile = None" "fw_files w (PendingDoc V4) = None"
      "fw_files w (PendingDoc V6) = None" "fw_files w RollbackFile = None"
    using w by (auto simp: succeeds_def)
  obtain r where r: "res = Inr r" "rr_confirmation r = Some c" "rr_applied r" "rr_digest r = rf_digest rendered"
    using apply_and_confirm_result [OF v(1) w [unfolded c(1)], of warnings] run by auto
  have "settled_on env payload r s'"
    unfolding settled_on_def using files r ports rendered s' by blast
  then show ?thesis using r(1,2) c(2) by blast
qed

lemma nothing_left_to_confirm:
  assumes "reliable env" "fw_files s MarkerFile = None" "fw_files s RollbackFile = None"
  shows "\<exists>out. confirmPendingFirewall env digest s = (Inr out, s) \<and> co_state out = NothingPending"
  using assms
  by (simp add: confirmPendingFirewall_def confirm_at_def fbind_def pending_of_def noPendingOutcome_def readRollbackRecord_def
      fcatch_def freturn_def confirm_result_def)


lemma calm_good: "good_host calm_host"
proof -
  have "utf8_valid ''00''" by code_simp
  then show ?thesis
    by (simp add: good_host_def reliable_def calm_host_def calm_iso_parse calm_iso_valid del: utf8_valid.simps)
qed



lemma calm_reconcile_durable:
  "fw_files (snd (handleFirewallReconcile calm_host (Some (\<lambda>_. None)) calm_payload new_host)) (DurableDoc V4) \<noteq> None"
proof -
  have "\<exists>r c. fst (handleFirewallReconcile calm_host (Some (\<lambda>_. None)) calm_payload new_host) = Inr r
      \<and> rr_confirmation r = Some c \<and> pc_confirmed c
      \<and> settled_on calm_host calm_payload r (snd (handleFirewallReconcile calm_host (Some (\<lambda>_. None)) calm_payload new_host))"
    by (rule good_reconcile [OF calm_good]) (auto simp: calm_payload_def calm_host_def)
  then show ?thesis by (auto simp: settled_on_def)
qed


end
