(* ===== verification/Firewall_Fold_Laws.thy ===== *)
theory Firewall_Fold_Laws
  imports Firewall_Commit_Laws
begin

text \<open>
  When the legacy chains of the managed databases may go: containment of address ranges as inclusion
  of address sets, coverage of a listener by the forward chain, and what must have been seen
  before the first removal.
\<close>

section \<open>Address ranges\<close>

definition addresses :: "string \<Rightarrow> int set" where
  "addresses c = (case splitCidr c of None \<Rightarrow> {}
     | Some (base, bits) \<Rightarrow> {a. 0 \<le> a \<and> a < 2 ^ 32 \<and> a div 2 ^ (32 - bits) = base div 2 ^ (32 - bits)})"

lemma fold_octets_bound:
  fixes acc :: int
  assumes "list_all (\<lambda>part. nat_of_digits 10 part \<le> 255) parts" "0 \<le> acc" "acc < b"
  shows "0 \<le> fold (\<lambda>part value. value * 256 + int (nat_of_digits 10 part)) parts acc
    \<and> fold (\<lambda>part value. value * 256 + int (nat_of_digits 10 part)) parts acc < b * 256 ^ length parts"
  using assms
proof (induction parts arbitrary: acc b)
  case (Cons p ps)
  have "acc * 256 + int (nat_of_digits 10 p) < b * 256" using Cons.prems by simp
  from Cons.IH [OF _ _ this] Cons.prems show ?case by (simp add: mult.assoc)
qed simp

lemma ipv4ToInt_bound: "ipv4ToInt a = Some n \<Longrightarrow> 0 \<le> n \<and> n < 2 ^ 32"
  using fold_octets_bound [of "split_on (CHR ''.'') a" 0 1]
  by (auto simp: ipv4ToInt_def Let_def list_all_iff split: if_splits)

lemma splitCidr_bound: "splitCidr c = Some (base, bits) \<Longrightarrow> 0 \<le> base \<and> base < 2 ^ 32 \<and> bits \<le> 32"
  by (auto simp: splitCidr_def Let_def dest: ipv4ToInt_bound split: option.splits if_splits)

lemma block_start:
  fixes base :: int and j k :: nat
  assumes "j < k"
  shows "(base div 2 ^ k * 2 ^ k) div 2 ^ j \<noteq> (base div 2 ^ k * 2 ^ k + 2 ^ k - 1) div 2 ^ j"
proof -
  obtain d where k: "k = j + Suc d" using assms less_imp_add_positive [of j k] by (metis Suc_pred')
  let ?q = "base div 2 ^ k * 2 ^ Suc d"
  have start: "base div 2 ^ k * 2 ^ k = ?q * 2 ^ j" by (simp add: k power_add)
  have "(?q * 2 ^ j + 2 ^ k - 1) div 2 ^ j \<ge> (?q * 2 ^ j + 2 ^ j) div (2 ^ j :: int)"
  proof (rule zdiv_mono1)
    have "(2::int) ^ j * 2 \<le> 2 ^ k" by (simp add: k)
    moreover have "(1::int) \<le> 2 ^ j" by simp
    ultimately show "?q * 2 ^ j + 2 ^ j \<le> ?q * 2 ^ j + 2 ^ k - 1" by linarith
  qed simp
  moreover have "(?q * 2 ^ j + 2 ^ j) div (2 ^ j :: int) = ?q + 1" by simp
  ultimately show ?thesis unfolding start by simp
qed

lemma block_member:
  fixes base :: int
  assumes "0 \<le> base" "base < 2 ^ 32" "k \<le> 32" "base div 2 ^ k * 2 ^ k \<le> a" "a < base div 2 ^ k * 2 ^ k + 2 ^ k"
  shows "0 \<le> a \<and> a < 2 ^ 32 \<and> a div 2 ^ k = base div 2 ^ k"
proof -
  obtain d where d: "32 = k + d" using assms(3) le_Suc_ex by blast
  have "base div 2 ^ k < 2 ^ d"
  proof (rule ccontr)
    assume "\<not> base div 2 ^ k < 2 ^ d"
    then have "2 ^ d * 2 ^ k \<le> base div 2 ^ k * 2 ^ k" by (intro mult_right_mono) simp_all
    also have "\<dots> \<le> base" by (simp flip: minus_mod_eq_div_mult)
    finally show False using assms(2) by (simp add: d power_add mult.commute)
  qed
  then have "(base div 2 ^ k + 1) * 2 ^ k \<le> 2 ^ d * 2 ^ k" by (intro mult_right_mono) simp_all
  then have "base div 2 ^ k * 2 ^ k + 2 ^ k \<le> 2 ^ 32" by (simp add: d power_add algebra_simps)
  moreover have "0 \<le> base div 2 ^ k * 2 ^ k" using assms(1) by (simp add: pos_imp_zdiv_nonneg_iff)
  moreover have "a div 2 ^ k = base div 2 ^ k"
    using assms(4,5) by (intro int_div_pos_eq [where r = "a - base div 2 ^ k * 2 ^ k"]) (simp_all add: algebra_simps)
  ultimately show ?thesis using assms(4,5) by (intro conjI) linarith+
qed


lemma block_first:
  fixes base :: int
  assumes "0 \<le> base" "base < 2 ^ 32" "k \<le> 32"
  shows "0 \<le> base div 2 ^ k * 2 ^ k \<and> base div 2 ^ k * 2 ^ k < 2 ^ 32 \<and> base div 2 ^ k * 2 ^ k div 2 ^ k = base div 2 ^ k"
  by (rule block_member [OF assms]) simp_all

lemma block_last:
  fixes base :: int
  assumes "0 \<le> base" "base < 2 ^ 32" "k \<le> 32"
  shows "0 \<le> base div 2 ^ k * 2 ^ k + 2 ^ k - 1 \<and> base div 2 ^ k * 2 ^ k + 2 ^ k - 1 < 2 ^ 32
    \<and> (base div 2 ^ k * 2 ^ k + 2 ^ k - 1) div 2 ^ k = base div 2 ^ k"
  by (rule block_member [OF assms]) simp_all

lemma div_power_coarser:
  fixes a b :: int
  assumes "j \<le> k" "a div 2 ^ j = b div 2 ^ j"
  shows "a div 2 ^ k = b div 2 ^ k"
proof -
  obtain d where "k = j + d" using assms(1) le_Suc_ex by blast
  then show ?thesis using assms(2) by (simp add: power_add zdiv_zmult2_eq)
qed

lemma cidrContains_iff:
  "cidrContains outer inner \<longleftrightarrow> splitCidr outer \<noteq> None \<and> splitCidr inner \<noteq> None \<and> addresses inner \<subseteq> addresses outer"
proof (cases "splitCidr outer"; cases "splitCidr inner")
  fix op ip
  assume some: "splitCidr outer = Some op" "splitCidr inner = Some ip"
  obtain ob obits ib ibits where o: "op = (ob, obits)" and i: "ip = (ib, ibits)" by (cases op, cases ip)
  note bounds = splitCidr_bound [OF some(2) [unfolded i]] splitCidr_bound [OF some(1) [unfolded o]]
  let ?j = "32 - obits" let ?k = "32 - ibits"
  have sets: "addresses inner = {a. 0 \<le> a \<and> a < 2 ^ 32 \<and> a div 2 ^ ?k = ib div 2 ^ ?k}"
      "addresses outer = {a. 0 \<le> a \<and> a < 2 ^ 32 \<and> a div 2 ^ ?j = ob div 2 ^ ?j}"
    using some o i by (simp_all add: addresses_def)
  have "obits \<le> ibits \<and> ob div 2 ^ ?j = ib div 2 ^ ?j" if sub: "addresses inner \<subseteq> addresses outer"
  proof
    let ?a = "ib div 2 ^ ?k * 2 ^ ?k"
    show "obits \<le> ibits"
    proof (rule ccontr)
      assume "\<not> obits \<le> ibits"
      then have "?j < ?k" using bounds by linarith
      have ib: "0 \<le> ib" "ib < 2 ^ 32" "?k \<le> 32" using bounds by simp_all
      have "?a \<in> addresses inner"
        unfolding sets mem_Collect_eq by (rule block_first [OF ib])
      moreover have "?a + 2 ^ ?k - 1 \<in> addresses inner"
        unfolding sets mem_Collect_eq by (rule block_last [OF ib])
      ultimately have "?a \<in> addresses outer" "?a + 2 ^ ?k - 1 \<in> addresses outer" using sub by blast+
      then have "?a div 2 ^ ?j = (?a + 2 ^ ?k - 1) div 2 ^ ?j" by (simp only: sets mem_Collect_eq)
      then show False using block_start [OF \<open>?j < ?k\<close>] by blast
    qed
    have "ib \<in> addresses inner" unfolding sets using bounds by simp
    then have "ib \<in> addresses outer" using sub by blast
    then show "ob div 2 ^ ?j = ib div 2 ^ ?j" by (simp only: sets mem_Collect_eq)
  qed
  moreover have "addresses inner \<subseteq> addresses outer" if le: "obits \<le> ibits" and same: "ob div 2 ^ ?j = ib div 2 ^ ?j"
  proof
    fix a
    assume "a \<in> addresses inner"
    then have a: "0 \<le> a \<and> a < 2 ^ 32 \<and> a div 2 ^ ?k = ib div 2 ^ ?k" by (simp only: sets mem_Collect_eq)
    then have "a div 2 ^ ?j = ib div 2 ^ ?j" using div_power_coarser [of ?k ?j a ib] diff_le_mono2 [OF le] by blast
    then show "a \<in> addresses outer" using a same by (simp only: sets mem_Collect_eq)
  qed
  ultimately have "addresses inner \<subseteq> addresses outer \<longleftrightarrow> obits \<le> ibits \<and> ob div 2 ^ ?j = ib div 2 ^ ?j" by blast
  then show ?thesis using some o i by (simp add: cidrContains_def)
qed (simp_all add: cidrContains_def)

lemma cidrContains_inclusion:
  "cidrContains outer inner \<longleftrightarrow> splitCidr inner \<noteq> None \<and> addresses inner \<subseteq> addresses outer"
proof -
  have "addresses c \<noteq> {}" if "splitCidr c \<noteq> None" for c
  proof -
    obtain base bits where c: "splitCidr c = Some (base, bits)" using \<open>splitCidr c \<noteq> None\<close> by auto
    then have "base \<in> addresses c" using splitCidr_bound [OF c] by (simp add: addresses_def)
    then show ?thesis by blast
  qed
  moreover have "splitCidr c \<noteq> None" if "addresses c \<noteq> {}" for c
    using that by (cases "splitCidr c") (simp_all add: addresses_def)
  ultimately show ?thesis unfolding cidrContains_iff by blast
qed

text \<open>Containment of IPv4 ranges is inclusion of the sets of addresses they stand for: the prefix
  arithmetic of the coverage check says yes exactly when the inner text is a range and every
  address of it is an address of the outer one.
\<close>

lemma cidrContains_is_inclusion:
  "cidrContains outer inner \<longleftrightarrow> splitCidr inner \<noteq> None \<and> addresses inner \<subseteq> addresses outer"
  by (rule cidrContains_inclusion)


section \<open>Coverage\<close>

text \<open>The forward chain covers a listener: it drops what the legacy chain dropped and lets through, for the
  same port and destination, every address the legacy chain let through.\<close>

definition covers :: "parsed_rule list \<Rightarrow> legacy_listener \<Rightarrow> bool" where
  "covers rules l \<longleftrightarrow>
     (ll_hasDrop l \<longrightarrow> (\<exists>r \<in> set rules. targetsPort r l \<and> pr_source r = None \<and> pr_target r \<in> {''DROP'', ''REJECT''}))
     \<and> (\<forall>src \<in> set (ll_sources l). \<exists>r \<in> set rules. \<exists>from. targetsPort r l \<and> pr_target r = ''RETURN'' \<and> pr_source r = Some from
          \<and> splitCidr src \<noteq> None \<and> addresses src \<subseteq> addresses from)"

lemma bex_filter2: "(\<exists>x \<in> set (filter A (filter T xs)). B x) \<longleftrightarrow> (\<exists>x \<in> set xs. T x \<and> A x \<and> B x)"
  by auto

lemma filter2_empty: "filter A (filter T xs) = [] \<longleftrightarrow> \<not> (\<exists>x \<in> set xs. T x \<and> A x)"
  by (auto simp: filter_empty_conv)

lemma filter_none: "filter (\<lambda>x. \<not> P x) xs = [] \<longleftrightarrow> (\<forall>x \<in> set xs. P x)"
  by (simp add: filter_empty_conv)

lemma warn_empty: "(if b then [x] else []) = [] \<longleftrightarrow> \<not> b"
  by simp

lemma uncoveredReasons_covers: "uncoveredReasons l rules = [] \<longleftrightarrow> covers rules l"
proof -
  let ?drops = "filter (\<lambda>r. pr_source r = None \<and> (pr_target r = ''DROP'' \<or> pr_target r = ''REJECT'')) (filter (\<lambda>r. targetsPort r l) rules)"
  let ?returns = "filter (\<lambda>r. pr_source r \<noteq> None \<and> pr_target r = ''RETURN'') (filter (\<lambda>r. targetsPort r l) rules)"
  let ?lets = "\<lambda>src. list_ex (\<lambda>r. cidrContains (case pr_source r of None \<Rightarrow> [] | Some o1 \<Rightarrow> o1) src) ?returns"
  have reasons: "uncoveredReasons l rules = [] \<longleftrightarrow> \<not> (ll_hasDrop l \<and> ?drops = []) \<and> (\<forall>src \<in> set (ll_sources l). ?lets src)"
    by (simp only: uncoveredReasons_def Let_def append_is_Nil_conv map_is_Nil_conv warn_empty filter_none)
  have drops: "\<not> (ll_hasDrop l \<and> ?drops = [])
      \<longleftrightarrow> (ll_hasDrop l \<longrightarrow> (\<exists>r \<in> set rules. targetsPort r l \<and> pr_source r = None \<and> pr_target r \<in> {''DROP'', ''REJECT''}))"
    by (simp only: filter2_empty) simp
  have lets: "?lets src \<longleftrightarrow> (\<exists>r \<in> set rules. \<exists>from. targetsPort r l \<and> pr_target r = ''RETURN'' \<and> pr_source r = Some from
      \<and> splitCidr src \<noteq> None \<and> addresses src \<subseteq> addresses from)" for src
    unfolding list_ex_iff cidrContains_inclusion bex_filter2
    by (rule bex_cong [OF refl]) (case_tac "pr_source x", simp_all)
  show ?thesis unfolding covers_def reasons drops lets ..
qed

section \<open>Before the first removal\<close>

fun removal :: "fw_event \<Rightarrow> bool" where
  "removal (Ran cmd args stdin r) \<longleftrightarrow> args \<noteq> [] \<and> hd args \<in> {''-D'', ''-F'', ''-X''}"
| "removal _ = False"

fun listing :: "fw_event \<Rightarrow> bool" where
  "listing (Ran cmd args stdin r) \<longleftrightarrow> args \<noteq> [] \<and> hd args \<in> {''-S'', ''-C''}"
| "listing _ = False"

lemma listing_not_removal: "listing e \<Longrightarrow> \<not> removal e"
  by (cases e) auto

lemma map_step_Inr:
  "map_step f (x # xs) s = (Inr ys, s') \<longleftrightarrow> (\<exists>y t zs. f x s = (Inr y, t) \<and> map_step f xs t = (Inr zs, s') \<and> ys = y # zs)"
  by (auto simp: fbind_Inr freturn_Inr)

text \<open>Every successful listing of a child chain contributes its listeners.\<close>

lemma readLegacyListeners_trace:
  assumes "readLegacyListeners env children s = (Inr listeners, s')"
  shows "\<exists>es. fw_trace s' = fw_trace s @ es \<and> fw_files s' = fw_files s \<and> list_all listing es
    \<and> (\<forall>args r. Ran ''iptables'' args None r \<in> set es \<and> run_success r \<longrightarrow>
        set (legacyListeners (parseRules (run_stdout r))) \<subseteq> set listeners)"
proof -
  obtain perChild where p: "map_step (\<lambda>child. fbind (run_cmd env ''iptables'' [''-S'', child]) (\<lambda>listed.
       freturn (if run_success listed then legacyListeners (parseRules (run_stdout listed)) else []))) children s = (Inr perChild, s')"
      "listeners = concat perChild"
    using assms by (auto simp: readLegacyListeners_def fbind_Inr freturn_Inr)
  have "\<exists>es. fw_trace s' = fw_trace s @ es \<and> fw_files s' = fw_files s \<and> list_all listing es
    \<and> (\<forall>args r. Ran ''iptables'' args None r \<in> set es \<and> run_success r \<longrightarrow>
        set (legacyListeners (parseRules (run_stdout r))) \<subseteq> set (concat perChild))"
    using p(1)
  proof (induction children arbitrary: s perChild)
    case (Cons child children)
    let ?r = "fe_answer env (fw_trace s) ''iptables'' [''-S'', child] None"
    let ?t = "record_event (Ran ''iptables'' [''-S'', child] None ?r) s"
    obtain zs where zs: "map_step (\<lambda>child. fbind (run_cmd env ''iptables'' [''-S'', child]) (\<lambda>listed.
         freturn (if run_success listed then legacyListeners (parseRules (run_stdout listed)) else []))) children ?t = (Inr zs, s')"
        "perChild = (if run_success ?r then legacyListeners (parseRules (run_stdout ?r)) else []) # zs"
      using Cons.prems unfolding map_step_Inr fbind_Inr run_cmd_Inr freturn_Inr by auto
    obtain es where es: "fw_trace s' = fw_trace ?t @ es" "fw_files s' = fw_files ?t" "list_all listing es"
        "\<forall>args r. Ran ''iptables'' args None r \<in> set es \<and> run_success r \<longrightarrow>
          set (legacyListeners (parseRules (run_stdout r))) \<subseteq> set (concat zs)"
      using Cons.IH [OF zs(1)] by blast
    then show ?case
      by (intro exI [of _ "Ran ''iptables'' [''-S'', child] None ?r # es"])
        (use es(4) in \<open>auto simp: record_event_def zs(2)\<close>)
  qed (simp add: freturn_def)
  then show ?thesis using p(2) by simp
qed


lemma attempt_removals:
  "args \<noteq> [] \<Longrightarrow> hd args \<in> {''-D'', ''-F'', ''-X''} \<Longrightarrow> stays (extends removal) (attempt env args failures)"
  unfolding attempt_def by (intro ext_rules) simp

lemma remove_jumps_removals: "stays (extends removal) (remove_jumps env n failures)"
  by (induction n arbitrary: failures) (auto intro!: ext_rules attempt_removals)

lemma attempt_all_removals:
  "\<forall>args \<in> set xs. args \<noteq> [] \<and> hd args \<in> {''-D'', ''-F'', ''-X''} \<Longrightarrow> stays (extends removal) (attempt_all env xs failures)"
  by (induction xs arbitrary: failures) (auto intro!: ext_rules attempt_removals)

lemma removeLegacy_removals: "stays (extends removal) (removeLegacy env names)"
  unfolding removeLegacy_def by (intro ext_rules remove_jumps_removals attempt_all_removals) auto

lemma fold_covered_removals:
  assumes "fold_covered env names listeners forward s = (res, s')"
  shows "s' = s \<or> (\<exists>rules. forward = Some rules \<and> (\<forall>l \<in> set listeners. covers rules l) \<and> extends removal s s')"
proof (cases forward)
  case None
  then show ?thesis using assms by (simp add: fold_covered_def freturn_def)
next
  case (Some rules)
  have "stays (extends removal) (fbind (removeLegacy env names) (\<lambda>failures. freturn (f failures)))" for f :: "string list \<Rightarrow> fold_outcome"
    by (intro ext_rules removeLegacy_removals)
  note removed = stays_result [OF this]
  show ?thesis
    using assms Some removed
    by (auto simp: fold_covered_def Let_def freturn_def uncoveredReasons_covers split: if_splits)
qed

lemma liveForwardRules_Some:
  assumes "liveForwardRules env s = (Inr (Some rules), s')"
  shows "\<exists>hung listed. run_success hung \<and> run_success listed \<and> rules = parseRules (run_stdout listed)
    \<and> fw_trace s' = fw_trace s @ [Ran ''iptables'' [''-C'', ''DOCKER-USER'', ''-j'', ''TP-FWD''] None hung,
        Ran ''iptables'' [''-S'', ''TP-FWD''] None listed]"
  using assms
  by (auto simp: liveForwardRules_def pendingNow_def fbind_Inr readPendingMarker_Inr run_cmd_Inr freturn_Inr record_event_def
      DOCKER_USER_CHAIN_def FIREWALL_FORWARD_CHAIN_def split: if_splits)

lemma quiet_reads:
  "stays (extends (\<lambda>e. \<not> removal e)) (pendingNow env)" "stays (extends (\<lambda>e. \<not> removal e)) (legacyChildren env)"
  "stays (extends (\<lambda>e. \<not> removal e)) (readLegacyListeners env names)" "stays (extends (\<lambda>e. \<not> removal e)) (liveForwardRules env)"
  unfolding pendingNow_def legacyChildren_def readLegacyListeners_def liveForwardRules_def
  by (intro ext_rules ext_marker; simp)+


text \<open>What a fold has read when its first removal happens.\<close>

definition fold_evidence :: "fw_event list \<Rightarrow> bool" where
  "fold_evidence es \<longleftrightarrow> (\<exists>hung listed.
     Ran ''iptables'' [''-C'', ''DOCKER-USER'', ''-j'', ''TP-FWD''] None hung \<in> set es \<and> run_success hung
     \<and> Ran ''iptables'' [''-S'', ''TP-FWD''] None listed \<in> set es \<and> run_success listed
     \<and> (\<forall>child r l. Ran ''iptables'' [''-S'', child] None r \<in> set es \<and> re_match LEGACY_CHILD_CHAIN_RE child \<and> run_success r
          \<and> l \<in> set (legacyListeners (parseRules (run_stdout r))) \<longrightarrow> covers (parseRules (run_stdout listed)) l))"

lemma fold_evidenceI:
  assumes "run_success hung" "run_success listed"
    and "\<And>args r. Ran ''iptables'' args None r \<in> set es1 \<Longrightarrow> run_success r \<Longrightarrow>
      set (legacyListeners (parseRules (run_stdout r))) \<subseteq> set listeners"
    and "\<forall>l \<in> set listeners. covers (parseRules (run_stdout listed)) l" "list_all removal es3"
  shows "fold_evidence (es1 @ [Ran ''iptables'' [''-C'', ''DOCKER-USER'', ''-j'', ''TP-FWD''] None hung,
    Ran ''iptables'' [''-S'', ''TP-FWD''] None listed] @ es3)" (is "fold_evidence (es1 @ [?hang, ?list] @ es3)")
proof -
  have own: "re_match LEGACY_CHILD_CHAIN_RE ''TP-FWD'' = False" by code_simp
  have child: "covers (parseRules (run_stdout listed)) l"
    if e: "Ran ''iptables'' [''-S'', child] None r \<in> set (es1 @ [?hang, ?list] @ es3)"
      and c: "re_match LEGACY_CHILD_CHAIN_RE child" "run_success r" "l \<in> set (legacyListeners (parseRules (run_stdout r)))"
    for child r l
  proof -
    have "child \<noteq> ''TP-FWD''" using c(1) own by (auto simp del: re_match.simps)
    moreover have "Ran ''iptables'' [''-S'', child] None r \<notin> set es3" using assms(5) by (auto simp: list_all_iff)
    ultimately have "Ran ''iptables'' [''-S'', child] None r \<in> set es1" using e by simp
    from assms(3) [OF this c(2)] c(3) assms(4) show ?thesis by blast
  qed
  have hang: "?hang \<in> set (es1 @ [?hang, ?list] @ es3)" by simp
  have list: "?list \<in> set (es1 @ [?hang, ?list] @ es3)" by simp
  show ?thesis
    unfolding fold_evidence_def
    by (rule exI [of _ hung], rule exI [of _ listed], intro conjI allI impI; (elim conjE)?)
      (rule hang assms(1) list assms(2) child; assumption?)+
qed

lemma fold_children_evidence:
  assumes "fold_children env children s = (res, s')"
  shows "\<exists>es. fw_trace s' = fw_trace s @ es \<and> (list_all (\<lambda>e. \<not> removal e) es \<or> fold_evidence es)"
proof (cases children)
  case None
  then show ?thesis using assms by (simp add: fold_children_def freturn_def)
next
  case (Some names)
  obtain x t where t: "readLegacyListeners env names s = (x, t)" by (cases "readLegacyListeners env names s")
  obtain es1 where es1: "fw_trace t = fw_trace s @ es1" "list_all (\<lambda>e. \<not> removal e) es1"
    using stays_result [OF quiet_reads(3) t] by (auto simp: extends_def)
  show ?thesis
  proof (cases x)
    case (Inl e)
    then show ?thesis using assms Some t es1 by (auto simp: fold_children_def fbind_def)
  next
    case (Inr listeners)
    obtain y u where u: "liveForwardRules env t = (y, u)" by (cases "liveForwardRules env t")
    obtain es2 where es2: "fw_trace u = fw_trace t @ es2" "list_all (\<lambda>e. \<not> removal e) es2"
      using stays_result [OF quiet_reads(4) u] by (auto simp: extends_def)
    show ?thesis
    proof (cases y)
      case (Inl e)
      then show ?thesis using assms Some t u \<open>x = Inr listeners\<close> es1 es2 by (auto simp: fold_children_def fbind_def)
    next
      case fwd: (Inr forward)
      have last: "fold_covered env names listeners forward u = (res, s')"
        using assms Some t u Inr fwd by (simp add: fold_children_def fbind_def)
      from fold_covered_removals [OF last] consider "s' = u"
        | rules where "forward = Some rules" "\<forall>l \<in> set listeners. covers rules l" "extends removal u s'" by blast
      then show ?thesis
      proof cases
        case 1
        then show ?thesis using es1 es2 by (intro exI [of _ "es1 @ es2"]) simp
      next
        case (2 rules)
        obtain hung listed where live: "run_success hung" "run_success listed" "rules = parseRules (run_stdout listed)"
            "fw_trace u = fw_trace t @ [Ran ''iptables'' [''-C'', ''DOCKER-USER'', ''-j'', ''TP-FWD''] None hung,
              Ran ''iptables'' [''-S'', ''TP-FWD''] None listed]"
          using liveForwardRules_Some [OF u [unfolded fwd 2(1)]] by blast
        obtain es3 where es3: "fw_trace s' = fw_trace u @ es3" "list_all removal es3" using 2(3) by (auto simp: extends_def)
        have "fold_evidence (es1 @ [Ran ''iptables'' [''-C'', ''DOCKER-USER'', ''-j'', ''TP-FWD''] None hung,
            Ran ''iptables'' [''-S'', ''TP-FWD''] None listed] @ es3)"
        proof (rule fold_evidenceI [OF live(1,2) _ _ es3(2)])
          show "set (legacyListeners (parseRules (run_stdout r))) \<subseteq> set listeners"
            if "Ran ''iptables'' args None r \<in> set es1" "run_success r" for args r
            using readLegacyListeners_trace [OF t [unfolded Inr]] es1(1) that by auto
        qed (use 2(2) live(3) in simp)
        moreover have "fw_trace s' = fw_trace s @ es1 @ [Ran ''iptables'' [''-C'', ''DOCKER-USER'', ''-j'', ''TP-FWD''] None hung,
            Ran ''iptables'' [''-S'', ''TP-FWD''] None listed] @ es3"
          using live(4) es1(1) es3(1) by simp
        ultimately show ?thesis by blast
      qed
    qed
  qed
qed

lemma fold_evidence_parent:
  assumes "fold_evidence es"
  shows "fold_evidence (Ran ''iptables'' [''-S'', ''TP-MANAGED-PUB''] None r0 # es)"
proof -
  have own: "re_match LEGACY_CHILD_CHAIN_RE ''TP-MANAGED-PUB'' = False" by code_simp
  have "child \<noteq> ''TP-MANAGED-PUB''" if "re_match LEGACY_CHILD_CHAIN_RE child" for child
    using that own by (auto simp del: re_match.simps)
  then show ?thesis using assms unfolding fold_evidence_def by (elim exE) (rule exI, rule exI, auto simp del: re_match.simps)
qed

text \<open>C26: The legacy chains of the managed databases are touched only when their restrictions live on. If a
  fold runs any command that removes a jump, flushes or deletes a chain, then no ruleset was pending, and the
  fold has seen the forward chain hung into the packet path and listed it; and for every legacy child chain
  it has listed, the forward chain drops what the listener dropped and lets through every address it let
  through.
\<close>

theorem legacy_chains_go_only_when_covered:
  assumes "foldManagedPublicChain env s = (res, s')" "fw_trace s' = fw_trace s @ es" "\<exists>e \<in> set es. removal e"
  shows "pending_of env s = None \<and> fold_evidence es"
proof (cases "fe_fails env (fw_trace s) (ReadOp MarkerFile)")
  case (Some m)
  then have "es = [IoFailed (ReadOp MarkerFile)]"
    using assms(1,2)
    by (auto simp: foldManagedPublicChain_def pendingNow_def fbind_def readPendingMarker_def readTextIfPresent_def io_step_def record_event_def)
  then show ?thesis using assms(3) by simp
next
  case None
  then have read: "readPendingMarker env s = (Inr (pending_of env s), s)" by (simp add: readPendingMarker_Inr)
  let ?r = "fe_answer env (fw_trace s) ''iptables'' [''-S'', ''TP-MANAGED-PUB''] None"
  let ?t = "record_event (Ran ''iptables'' [''-S'', ''TP-MANAGED-PUB''] None ?r) s"
  show ?thesis
  proof (cases "pending_of env s")
    case None
    obtain children where "fold_children env children ?t = (res, s')"
      using assms(1) read None
      by (auto simp: foldManagedPublicChain_def pendingNow_def fbind_def freturn_def legacyChildren_def run_cmd_def Let_def
          LEGACY_MANAGED_PARENT_CHAIN_def)
    from fold_children_evidence [OF this] obtain es' where es': "fw_trace s' = fw_trace ?t @ es'"
        "list_all (\<lambda>e. \<not> removal e) es' \<or> fold_evidence es'" by blast
    then have "es = Ran ''iptables'' [''-S'', ''TP-MANAGED-PUB''] None ?r # es'" using assms(2) by (simp add: record_event_def)
    then show ?thesis using es'(2) assms(3) None fold_evidence_parent by (auto simp: list_all_iff)
  next
    case (Some m)
    then have "s' = s" using assms(1) read by (simp add: foldManagedPublicChain_def pendingNow_def fbind_def freturn_def)
    then show ?thesis using assms(2,3) by simp
  qed
qed

section \<open>Two hosts\<close>

definition listed_as :: "string list \<Rightarrow> run_result" where
  "listed_as rows = \<lparr>run_success = True, run_code = 0, run_stdout = join_with [CHR 0x0A] rows, run_stderr = []\<rparr>"

definition legacy_host :: "run_result \<Rightarrow> string list \<Rightarrow> fw_env" where
  "legacy_host child forward = calm_host\<lparr>fe_answer := (\<lambda>_ _ args _.
     if args = [''-S'', ''TP-MANAGED-PUB''] then listed_as [''-N TP-MANAGED-PUB'', ''-A TP-MANAGED-PUB -j TP-MGD-db1'']
     else if args = [''-S'', ''TP-MGD-db1''] then child
     else if args = [''-S'', ''TP-FWD''] then listed_as forward else listed_as [])\<rparr>"

definition covered_host :: fw_env where
  "covered_host = legacy_host (listed_as [''-A TP-MGD-db1 -s 10.1.0.0/16 --ctorigdstport 3306 -j ACCEPT''])
     [''-A TP-FWD -s 10.0.0.0/8 --ctorigdstport 3306 -j RETURN'']"

definition covered_rule :: "string \<Rightarrow> string \<Rightarrow> string \<Rightarrow> parsed_rule" where
  "covered_rule chain from target = \<lparr>pr_chain = chain, pr_source = Some from, pr_dest = None, pr_port = Some ''3306'', pr_target = target\<rparr>"

lemma covered_listings:
  "parseRules (run_stdout (listed_as [''-A TP-MGD-db1 -s 10.1.0.0/16 --ctorigdstport 3306 -j ACCEPT'']))
    = [covered_rule ''TP-MGD-db1'' ''10.1.0.0/16'' ''ACCEPT'']"
  "parseRules (run_stdout (listed_as [''-A TP-FWD -s 10.0.0.0/8 --ctorigdstport 3306 -j RETURN'']))
    = [covered_rule ''TP-FWD'' ''10.0.0.0/8'' ''RETURN'']"
  by code_simp+

lemma covered_listener:
  "concat (map (\<lambda>l. uncoveredReasons l [covered_rule ''TP-FWD'' ''10.0.0.0/8'' ''RETURN''])
     (legacyListeners [covered_rule ''TP-MGD-db1'' ''10.1.0.0/16'' ''ACCEPT''])) = []"
  by code_simp

lemma covered_children:
  "filter (re_match LEGACY_CHILD_CHAIN_RE) (map pr_target (filter (\<lambda>r. pr_chain r = ''TP-MANAGED-PUB'')
     (parseRules (run_stdout (listed_as [''-N TP-MANAGED-PUB'', ''-A TP-MANAGED-PUB -j TP-MGD-db1'']))))) = [''TP-MGD-db1'']"
  "includes_str ''-N TP-MANAGED-PUB'' (run_stdout (listed_as [''-N TP-MANAGED-PUB'', ''-A TP-MANAGED-PUB -j TP-MGD-db1'']))"
  by code_simp+

lemma removeLegacy_removes: "\<exists>e \<in> set (fw_trace (snd (removeLegacy env names s))). removal e"
proof -
  let ?d = "[''-D'', DOCKER_USER_CHAIN, ''-j'', LEGACY_MANAGED_PARENT_CHAIN]"
  let ?r = "fe_answer env (fw_trace s) ''iptables'' ?d None"
  let ?e = "Ran ''iptables'' ?d None ?r"
  obtain failures x where first: "attempt env ?d [] s = (Inr (x, failures), record_event ?e s)"
    by (simp add: attempt_def fbind_def run_cmd_def Let_def freturn_def)
  have later: "stays (extends removal) (if x then remove_jumps env 7 failures else freturn failures)"
    by (intro ext_rules remove_jumps_removals)
  let ?all = "attempt_all env ([[''-F'', LEGACY_MANAGED_PARENT_CHAIN], [''-X'', LEGACY_MANAGED_PARENT_CHAIN]]
          @ concat (map (\<lambda>chain. [[''-F'', chain], [''-X'', chain]]) names))"
  have removed: "stays (extends removal) (fbind (if x then remove_jumps env 7 failures else freturn failures) ?all)"
    by (intro ext.stays_bind later attempt_all_removals) auto
  have run: "removeLegacy env names s
      = fbind (if x then remove_jumps env 7 failures else freturn failures) ?all (record_event ?e s)"
  proof -
    have seven: "MAX_JUMP_REMOVALS = Suc 7" by (simp add: MAX_JUMP_REMOVALS_def)
    show ?thesis
      unfolding removeLegacy_def seven remove_jumps.simps(2) fbind_assoc
      by (subst fbind_def) (simp only: first prod.case sum.case)
  qed
  have "extends removal (record_event ?e s) (snd (removeLegacy env names s))"
    unfolding run using staysD [OF removed, of "record_event ?e s"] .
  then show ?thesis by (intro bexI [of _ ?e]) (auto simp: extends_def record_event_def)
qed

lemma listed_success [simp]: "run_success (listed_as rows)"
  by (simp add: listed_as_def)

lemma legacy_host_answers:
  "fe_fails (legacy_host child forward) t op = None"
  "fe_answer (legacy_host child forward) t c [''-S'', ''TP-MANAGED-PUB''] i
     = listed_as [''-N TP-MANAGED-PUB'', ''-A TP-MANAGED-PUB -j TP-MGD-db1'']"
  "fe_answer (legacy_host child forward) t c [''-S'', ''TP-MGD-db1''] i = child"
  "fe_answer (legacy_host child forward) t c [''-S'', ''TP-FWD''] i = listed_as forward"
  "fe_answer (legacy_host child forward) t c [''-C'', ''DOCKER-USER'', ''-j'', ''TP-FWD''] i = listed_as []"
  by (simp_all add: legacy_host_def calm_host_def)

lemma legacy_host_folds:
  assumes "listeners = (if run_success child then legacyListeners (parseRules (run_stdout child)) else [])"
    and "concat (map (\<lambda>l. uncoveredReasons l (parseRules (run_stdout (listed_as forward)))) listeners) = []"
  shows "\<exists>e \<in> set (fw_trace (snd (foldManagedPublicChain (legacy_host child forward) new_host))). removal e"
proof -
  define env where "env = legacy_host child forward"
  note answers = legacy_host_answers [of child forward, folded env_def]
  note run = fbind_def run_cmd_def Let_def freturn_def answers
  have marker: "readPendingMarker env s = (Inr None, s)" if "fw_files s = fw_files new_host" for s
    using that by (simp add: readPendingMarker_Inr answers pending_of_def new_host_def)
  obtain t where t: "legacyChildren env new_host = (Inr (Some [''TP-MGD-db1'']), t)" "fw_files t = fw_files new_host"
    by (simp add: legacyChildren_def LEGACY_MANAGED_PARENT_CHAIN_def run covered_children record_event_def)
  obtain u where u: "readLegacyListeners env [''TP-MGD-db1''] t = (Inr listeners, u)" "fw_files u = fw_files new_host"
    using t(2) assms(1) by (simp add: readLegacyListeners_def run record_event_def)
  obtain v where v: "liveForwardRules env u = (Inr (Some (parseRules (run_stdout (listed_as forward)))), v)"
    using marker [OF u(2)]
    by (simp add: liveForwardRules_def pendingNow_def DOCKER_USER_CHAIN_def FIREWALL_FORWARD_CHAIN_def run)
  have "snd (foldManagedPublicChain env new_host) = snd (removeLegacy env [''TP-MGD-db1''] v)"
    using marker [OF refl] t(1) u(1) v
    by (simp add: foldManagedPublicChain_def pendingNow_def fold_children_def fold_covered_def fbind_run Let_def freturn_def
        assms(2) snd_fbind del: concat_eq_Nil_conv split: prod.split sum.split)
  then show ?thesis using removeLegacy_removes unfolding env_def by simp
qed

lemma covered_host_folds: "\<exists>e \<in> set (fw_trace (snd (foldManagedPublicChain covered_host new_host))). removal e"
  unfolding covered_host_def by (rule legacy_host_folds [OF refl]) (simp only: covered_listings covered_listener listed_success if_True)

theorem legacy_chains_go_only_when_covered_witness:
  "fold_evidence (fw_trace (snd (foldManagedPublicChain covered_host new_host)))"
proof (rule conjunct2 [OF legacy_chains_go_only_when_covered])
  show "foldManagedPublicChain covered_host new_host
      = (fst (foldManagedPublicChain covered_host new_host), snd (foldManagedPublicChain covered_host new_host))" by simp
  show "fw_trace (snd (foldManagedPublicChain covered_host new_host))
      = fw_trace new_host @ fw_trace (snd (foldManagedPublicChain covered_host new_host))" by (simp add: new_host_def)
  show "\<exists>e \<in> set (fw_trace (snd (foldManagedPublicChain covered_host new_host))). removal e" by (rule covered_host_folds)
qed

text \<open>
  A child chain whose listing fails counts as one without listeners: on this host the child cannot be
  listed and the forward chain is empty, and the legacy chains are removed all the same.
\<close>

definition unlisted_host :: fw_env where
  "unlisted_host = legacy_host
     \<lparr>run_success = False, run_code = 4, run_stdout = [], run_stderr = ''Another app is currently holding the xtables lock''\<rparr> []"

lemma unlisted_child_is_removed:
  "\<exists>e \<in> set (fw_trace (snd (foldManagedPublicChain unlisted_host new_host))). removal e"
  unfolding unlisted_host_def by (rule legacy_host_folds [OF refl]) simp

text \<open>A rule comment may hold a word that reads as an option: here the target of a \<open>DROP\<close> rule is
  read from its comment.\<close>

lemma comment_reads_as_target:
  "map_option pr_target (parseRuleLine ''-A TP-FWD -m comment --comment \"tp:user:x -j RETURN y\" -j DROP'') = Some ''RETURN''"
  by code_simp

end
