(* ===== verification/Outbox.thy ===== *)
theory Outbox
  imports Json_Text "HOL-Library.Option_ord"
begin

text \<open>
  The outbox of command outcomes (\<open>src/commands/command-outbox.ts\<close>) with the two guards in
  front of it: the ids the client has seen (\<open>src/instance/dispatch-dedupe.ts\<close>) and the start of
  \<open>handleCommandDispatch\<close>.

  An asynchronous function runs without interruption up to its next \<open>await\<close>; each such section is
  one definition on the state \<open>outbox\<close>. File operations that are under way are \<open>ob_io\<close>, functions
  that wait for some of them \<open>ob_tasks\<close>, and one event of \<open>outbox_step\<close> runs one section, so every
  interleaving of the sections is a sequence of events. The clock is read once per
  section. Sockets and peers are numbers; whether a socket is open, takes a frame, and what a peer
  answers is the record \<open>ob_env\<close> of the event. A journal file is \<open>ob_files cid\<close>, the text of
  \<open>cid.json\<close>; a write takes effect at its rename, and the temporary files, which are never listed,
  are left out, as are the log lines of failures.
\<close>

section \<open>Values\<close>

record ob_env =
  oe_now :: int
  oe_open :: "nat \<Rightarrow> bool"
  oe_takes :: "nat \<Rightarrow> string \<Rightarrow> bool"
  oe_supports :: "nat \<Rightarrow> string \<Rightarrow> bool"
  oe_known :: "nat \<Rightarrow> bool option"
  oe_iso :: "int \<Rightarrow> string"
  oe_dateParse :: "string \<Rightarrow> int option"
  oe_num :: "int \<Rightarrow> int \<Rightarrow> string"

definition COMMAND_RECOVERY_FEATURE :: string where "COMMAND_RECOVERY_FEATURE = ''command-recovery-v1''"
definition RESEND_INTERVAL_MS :: int where "RESEND_INTERVAL_MS = 30000"
definition PROGRESS_JOURNAL_INTERVAL_MS :: int where "PROGRESS_JOURNAL_INTERVAL_MS = 30000"
definition UNACKED_RETENTION_MS :: int where "UNACKED_RETENTION_MS = 7 * 24 * 60 * 60 * 1000"
definition UNACKED_MAX_ENTRIES :: nat where "UNACKED_MAX_ENTRIES = 64"
definition OUTCOME_BURST_MAX :: nat where "OUTCOME_BURST_MAX = 20"
definition REPORT_MAX_IDS :: nat where "REPORT_MAX_IDS = 64"
definition REPORT_MAX_ID_CHARS :: nat where "REPORT_MAX_ID_CHARS = 64"
definition PROMOTE_STEP_ID :: string where "PROMOTE_STEP_ID = ''start''"
definition SWITCH_STEP_ID :: string where "SWITCH_STEP_ID = ''switch''"
definition STOP_OLD_STEP_ID :: string where "STOP_OLD_STEP_ID = ''stop-old''"

definition outcome_id :: "fields \<Rightarrow> string" where
  "outcome_id outcome = (case obj_get outcome ''id'' of Some (JStr cid) \<Rightarrow> cid | _ \<Rightarrow> [])"

definition is_outcome :: "fields \<Rightarrow> bool" where
  "is_outcome m \<longleftrightarrow> obj_get m ''type'' = Some (JStr ''command-outcome'')"

fun truthy :: "json \<Rightarrow> bool" where
  "truthy JNull = False"
| "truthy (JBool b) = b"
| "truthy (JNum m e) = (m \<noteq> 0)"
| "truthy (JStr s) = (s \<noteq> [])"
| "truthy _ = True"

fun strict_eq :: "json option \<Rightarrow> json option \<Rightarrow> bool" where
  "strict_eq (Some (JNum m e)) (Some (JNum n f)) \<longleftrightarrow> m * 10 ^ nat (e - min e f) = n * 10 ^ nat (f - min e f)"
| "strict_eq (Some (JArr xs)) _ \<longleftrightarrow> False"
| "strict_eq (Some (JObj fs)) _ \<longleftrightarrow> False"
| "strict_eq a b \<longleftrightarrow> a = b"

fun js_text :: "(int \<Rightarrow> int \<Rightarrow> string) \<Rightarrow> json \<Rightarrow> (string, string) result" where
  "js_text num JNull = Inr ''null''"
| "js_text num (JBool b) = Inr (if b then ''true'' else ''false'')"
| "js_text num (JNum m e) = Inr (num m e)"
| "js_text num (JStr s) = Inr s"
| "js_text num (JArr xs) = rbind (rmap_list (\<lambda>x. if x = JNull then Inr [] else js_text num x) xs)
     (\<lambda>texts. Inr (join_with '','' texts))"
| "js_text num (JObj fs) = (if obj_get fs ''toString'' \<noteq> None then Inl ''TypeError'' else Inr ''[object Object]'')"

section \<open>What a journaled step plan shows\<close>

record interrupted_facts =
  if_lastStep :: "json option"
  if_releasePromoted :: "bool option"

text \<open>\<open>find\<close> over the steps: a property of \<open>null\<close> throws.\<close>

fun find_step :: "(json \<Rightarrow> bool) \<Rightarrow> json list \<Rightarrow> (string, json option) result" where
  "find_step p [] = Inr None"
| "find_step p (x # xs) = (if x = JNull then Inl ''TypeError'' else if p x then Inr (Some x) else find_step p xs)"

definition plan_steps :: "json \<Rightarrow> (string, json list) result" where
  "plan_steps progress = (case jprop (Some progress) ''steps'' of Some (JArr steps) \<Rightarrow> Inr steps | _ \<Rightarrow> Inl ''TypeError'')"

definition step_named :: "string \<Rightarrow> json list \<Rightarrow> (string, json option) result" where
  "step_named cid = find_step (\<lambda>step. jprop (Some step) ''id'' = Some (JStr cid))"

definition step_state :: "json option \<Rightarrow> string \<Rightarrow> bool" where
  "step_state step name \<longleftrightarrow> jprop step ''state'' = Some (JStr name)"

definition trafficSwitched :: "json list \<Rightarrow> json \<Rightarrow> (string, bool option) result" where
  "trafficSwitched steps switchStep =
     rbind (step_named STOP_OLD_STEP_ID steps) (\<lambda>stopOld.
     rbind (step_named PROMOTE_STEP_ID steps) (\<lambda>start.
     rbind (step_named ''health'' steps) (\<lambda>health.
       let switched = step_state (Some switchStep) ''done'' \<or> stopOld \<noteq> None \<and> \<not> step_state stopOld ''pending'';
           nextAppUnderWay = step_state start ''running'' \<or> step_state health ''running''
       in Inr (if switched then (if nextAppUnderWay then None else Some True)
         else if \<not> step_state (Some switchStep) ''pending'' then None
         else if step_state start ''pending'' then Some False else None))))"

definition releasePromoted :: "json list \<Rightarrow> (string, bool option) result" where
  "releasePromoted steps =
     rbind (step_named SWITCH_STEP_ID steps) (\<lambda>switchStep. (case switchStep of
       Some step \<Rightarrow> trafficSwitched steps step
     | None \<Rightarrow> rbind (step_named PROMOTE_STEP_ID steps) (\<lambda>start. (case start of
         None \<Rightarrow> Inr None
       | Some _ \<Rightarrow> rbind (step_named ''health'' steps) (\<lambda>health.
           Inr (if step_state start ''done'' \<or> health \<noteq> None \<and> \<not> step_state health ''pending'' then Some True
             else if step_state start ''pending'' then Some False else None))))))"

definition interruptedFacts :: "json option \<Rightarrow> (string, interrupted_facts) result" where
  "interruptedFacts progress = (case progress of
     None \<Rightarrow> Inr \<lparr>if_lastStep = None, if_releasePromoted = None\<rparr>
   | Some p \<Rightarrow> if \<not> truthy p then Inr \<lparr>if_lastStep = None, if_releasePromoted = None\<rparr>
     else rbind (plan_steps p) (\<lambda>steps.
       rbind (find_step (\<lambda>step. strict_eq (jprop (Some step) ''id'') (jprop (Some p) ''current'')) steps) (\<lambda>current.
       rbind (case current of Some step \<Rightarrow> Inr (Some step)
           | None \<Rightarrow> find_step (\<lambda>step. list_ex (step_state (Some step)) [''running'', ''done'', ''failed'']) (rev steps)) (\<lambda>last.
       rbind (releasePromoted steps) (\<lambda>promoted.
         Inr \<lparr>if_lastStep = (case last of Some step \<Rightarrow> if truthy step then jprop last ''label'' else None | None \<Rightarrow> None),
           if_releasePromoted = promoted\<rparr>)))))"

definition releaseNote :: "bool option \<Rightarrow> string" where
  "releaseNote promoted = (case promoted of None \<Rightarrow> []
     | Some b \<Rightarrow> if b then ''; the new release had been made live'' else ''; the new release had not been made live'')"

definition interruptedMessage :: "(int \<Rightarrow> int \<Rightarrow> string) \<Rightarrow> interrupted_facts \<Rightarrow> (string, string) result" where
  "interruptedMessage num facts =
     rbind (case if_lastStep facts of
         Some label \<Rightarrow> if truthy label then rbind (js_text num label) (\<lambda>t. Inr (''last step: '' @ t)) else Inr ''no step reported''
       | None \<Rightarrow> Inr ''no step reported'') (\<lambda>step.
       Inr (''The daemon restarted while this command was running ('' @ step @ releaseNote (if_releasePromoted facts)
         @ ''). The host may be partly changed; check it before running again.''))"

definition planSignature :: "(int \<Rightarrow> int \<Rightarrow> string) \<Rightarrow> json \<Rightarrow> string" where
  "planSignature num progress =
     (let steps = (case jprop (Some progress) ''steps'' of Some (JArr xs) \<Rightarrow> xs | _ \<Rightarrow> []);
          part = (\<lambda>step key. case jprop (Some step) key of Some (JStr s) \<Rightarrow> s | _ \<Rightarrow> ''undefined'');
          field = (\<lambda>key. case jprop (Some progress) key of Some v \<Rightarrow> v | None \<Rightarrow> JNull)
      in json_text num (JArr [JArr (map (\<lambda>step. JStr (part step ''id'' @ '':'' @ part step ''state'')) steps),
        field ''current'', field ''runningSince'']))"

section \<open>The state\<close>

text \<open>
  A queued write of a journal entry: most entries are composed when the write starts, a final
  outcome's when it is queued. \<open>Started\<close>, \<open>Confirmed\<close>, \<open>Dropped\<close> and \<open>Switched\<close> of the log are kept
  for the laws: a command given to its handler, an outcome the control plane confirmed, one dropped
  past the retention bound, a new session socket.
\<close>

datatype write_kind = MarkEntry | ProgressEntry json | ReplyEntry fields | FullEntry fields

datatype io = QueuedWrite nat string write_kind | Writing nat string string | Removing string

datatype task =
    Delivering nat fields
  | FlushOpen nat
  | FlushList nat
  | FlushRead nat "(string \<times> json option option) list"
  | FlushPrune nat
  | FlushResend nat

datatype ob_log =
    Sent int nat bool fields
  | Started string
  | Confirmed string
  | Dropped string
  | Switched int nat

record plan_note =
  pn_progress :: json
  pn_signature :: string
  pn_writtenAt :: int

record outbox =
  ob_seen :: "(string \<times> int) list"
  ob_held :: "(string \<times> fields) list"
  ob_unacked :: "(string \<times> fields) list"
  ob_running :: "string list"
  ob_acceptedAt :: "string \<Rightarrow> string option"
  ob_lastProgress :: "string \<Rightarrow> plan_note option"
  ob_writeChains :: "string \<Rightarrow> nat option"
  ob_socket :: "nat option"
  ob_peer :: "nat option"
  ob_timer :: bool
  ob_sentOnSocket :: "string \<Rightarrow> int option"
  ob_window :: "int \<times> nat"
  ob_keptSince :: "string \<Rightarrow> int option"
  ob_files :: "string \<Rightarrow> string option"
  ob_io :: "(nat \<times> io) list"
  ob_tasks :: "(nat list \<times> task) list"
  ob_next :: nat
  ob_log :: "ob_log list"

definition new_process :: "(string \<Rightarrow> string option) \<Rightarrow> nat \<Rightarrow> ob_log list \<Rightarrow> outbox" where
  "new_process files next log = \<lparr>ob_seen = [], ob_held = [], ob_unacked = [], ob_running = [],
     ob_acceptedAt = (\<lambda>_. None), ob_lastProgress = (\<lambda>_. None), ob_writeChains = (\<lambda>_. None), ob_socket = None,
     ob_peer = None, ob_timer = False, ob_sentOnSocket = (\<lambda>_. None), ob_window = (0, 0), ob_keptSince = (\<lambda>_. None),
     ob_files = files, ob_io = [], ob_tasks = [], ob_next = next, ob_log = log\<rparr>"

definition note_log :: "ob_log \<Rightarrow> outbox \<Rightarrow> outbox" where
  "note_log e s = s\<lparr>ob_log := ob_log s @ [e]\<rparr>"

section \<open>The session socket and its window\<close>

definition useSocket :: "ob_env \<Rightarrow> nat \<Rightarrow> outbox \<Rightarrow> outbox" where
  "useSocket env ws s = (if ob_socket s = Some ws then s
     else note_log (Switched (oe_now env) ws)
       (s\<lparr>ob_socket := Some ws, ob_sentOnSocket := (\<lambda>_. None), ob_window := (oe_now env, 0)\<rparr>))"

definition burstLeft :: "ob_env \<Rightarrow> outbox \<Rightarrow> int \<times> outbox" where
  "burstLeft env s =
     (let s1 = (if oe_now env - fst (ob_window s) \<ge> RESEND_INTERVAL_MS then s\<lparr>ob_window := (oe_now env, 0)\<rparr> else s)
      in (int OUTCOME_BURST_MAX - int (snd (ob_window s1)), s1))"

definition noteSent :: "ob_env \<Rightarrow> string \<Rightarrow> outbox \<Rightarrow> outbox" where
  "noteSent env cid s = s\<lparr>ob_sentOnSocket := (ob_sentOnSocket s)(cid := Some (oe_now env)),
     ob_window := (fst (ob_window s), Suc (snd (ob_window s)))\<rparr>"

definition recovers :: "ob_env \<Rightarrow> outbox \<Rightarrow> bool" where
  "recovers env s = (case ob_peer s of None \<Rightarrow> False | Some p \<Rightarrow> oe_supports env p COMMAND_RECOVERY_FEATURE)"

definition keepsUntilAck :: "ob_env \<Rightarrow> outbox \<Rightarrow> bool" where
  "keepsUntilAck env s \<longleftrightarrow> recovers env s
     \<or> (case ob_peer s of None \<Rightarrow> False | Some p \<Rightarrow> oe_known env p = Some False)"

definition recoveryEnabled :: "ob_env \<Rightarrow> outbox \<Rightarrow> bool" where
  "recoveryEnabled = recovers"

text \<open>\<open>paced\<close> marks a frame sent under the window of \<open>sendKept\<close>.\<close>

definition trySend :: "ob_env \<Rightarrow> bool \<Rightarrow> nat option \<Rightarrow> fields \<Rightarrow> outbox \<Rightarrow> bool \<times> outbox" where
  "trySend env paced ws message s = (case ws of
     None \<Rightarrow> (False, s)
   | Some w \<Rightarrow> if oe_open env w \<and> oe_takes env w (json_text (oe_num env) (JObj message))
       then (True, note_log (Sent (oe_now env) w paced message) s) else (False, s))"

definition sendCommandFrame :: "ob_env \<Rightarrow> nat \<Rightarrow> fields \<Rightarrow> outbox \<Rightarrow> bool \<times> outbox" where
  "sendCommandFrame env ws message s = (case trySend env False (ob_socket s) message s of
     (True, s1) \<Rightarrow> (True, s1) | (False, s1) \<Rightarrow> trySend env False (Some ws) message s1)"

definition sendLive :: "ob_env \<Rightarrow> nat option \<Rightarrow> fields \<Rightarrow> outbox \<Rightarrow> bool \<times> outbox" where
  "sendLive env ws outcome s = (case trySend env False (ob_socket s) outcome s of
     (True, s1) \<Rightarrow> (True, noteSent env (outcome_id outcome) s1) | (False, s1) \<Rightarrow> trySend env False ws outcome s1)"

definition stamped :: "ob_env \<Rightarrow> fields \<Rightarrow> fields" where
  "stamped env outcome = AList.update ''at'' (JStr (oe_iso env (oe_now env))) outcome"

definition sendOutcome :: "ob_env \<Rightarrow> nat option \<Rightarrow> fields \<Rightarrow> outbox \<Rightarrow> bool \<times> outbox" where
  "sendOutcome env ws outcome = sendLive env ws (stamped env outcome)"

definition sendKept :: "ob_env \<Rightarrow> fields \<Rightarrow> outbox \<Rightarrow> bool \<times> outbox" where
  "sendKept env outcome s = (case burstLeft env s of (left, s1) \<Rightarrow>
     if left \<le> 0 then (False, s1)
     else (case trySend env True (ob_socket s1) (stamped env outcome) s1 of
       (False, s2) \<Rightarrow> (False, s2) | (True, s2) \<Rightarrow> (True, noteSent env (outcome_id outcome) s2)))"

text \<open>The loops that send kept outcomes until one cannot be sent.\<close>

fun sendKept_while :: "ob_env \<Rightarrow> fields list \<Rightarrow> outbox \<Rightarrow> outbox" where
  "sendKept_while env [] s = s"
| "sendKept_while env (outcome # rest) s = (case sendKept env outcome s of
     (False, s1) \<Rightarrow> s1 | (True, s1) \<Rightarrow> sendKept_while env rest s1)"

section \<open>The journal\<close>

definition UNSAFE_ID :: "string \<Rightarrow> bool" where
  "UNSAFE_ID cid \<longleftrightarrow> list_ex (\<lambda>c. \<not> is_alnum c \<and> c \<noteq> CHR ''_'' \<and> c \<noteq> CHR ''-'') cid"

definition removeJournal :: "string \<Rightarrow> outbox \<Rightarrow> nat list \<times> outbox" where
  "removeJournal cid s = (if UNSAFE_ID cid then ([], s)
     else ([ob_next s], s\<lparr>ob_io := ob_io s @ [(ob_next s, Removing cid)], ob_next := Suc (ob_next s)\<rparr>))"

fun removeJournals :: "string list \<Rightarrow> outbox \<Rightarrow> nat list \<times> outbox" where
  "removeJournals [] s = ([], s)"
| "removeJournals (cid # ids) s = (let (ts, s1) = removeJournal cid s; (us, s2) = removeJournals ids s1 in (ts @ us, s2))"

definition queueWrite :: "string \<Rightarrow> write_kind \<Rightarrow> outbox \<Rightarrow> nat \<times> outbox" where
  "queueWrite cid kind s =
     (let chain = (case ob_writeChains s cid of Some c \<Rightarrow> c | None \<Rightarrow> ob_next s); t = Suc (ob_next s)
      in (t, s\<lparr>ob_writeChains := (ob_writeChains s)(cid := Some chain),
        ob_io := ob_io s @ [(t, QueuedWrite chain cid kind)], ob_next := Suc t\<rparr>))"

definition entryFor :: "ob_env \<Rightarrow> outbox \<Rightarrow> string \<Rightarrow> fields \<Rightarrow> fields" where
  "entryFor env s cid extra =
     [(''v'', JNum 1 0), (''id'', JStr cid),
      (''acceptedAt'', JStr (case ob_acceptedAt s cid of Some at \<Rightarrow> at | None \<Rightarrow> oe_iso env (oe_now env)))] @ extra"

definition outcomeTimeIso :: "ob_env \<Rightarrow> fields \<Rightarrow> string option" where
  "outcomeTimeIso env message = (case obj_get message ''at'' of
     Some (JStr at) \<Rightarrow> if oe_dateParse env at \<noteq> None then Some at else None | _ \<Rightarrow> None)"

definition write_entry :: "ob_env \<Rightarrow> outbox \<Rightarrow> string \<Rightarrow> write_kind \<Rightarrow> fields option" where
  "write_entry env s cid kind = (case kind of
     MarkEntry \<Rightarrow> Some (entryFor env s cid [])
   | ProgressEntry progress \<Rightarrow> if cid \<notin> set (ob_running s) then None else Some (entryFor env s cid [(''progress'', progress)])
   | ReplyEntry reply \<Rightarrow> Some (entryFor env s cid [(''outcome'', JObj reply),
       (''journaledAt'', JStr (case outcomeTimeIso env reply of Some at \<Rightarrow> at | None \<Rightarrow> oe_iso env (oe_now env)))])
   | FullEntry entry \<Rightarrow> Some entry)"

definition readJournalEntry :: "outbox \<Rightarrow> string \<Rightarrow> json option" where
  "readJournalEntry s cid = (if UNSAFE_ID cid then None
     else case Option.bind (ob_files s cid) json_parse of
       Some (JObj fs) \<Rightarrow> Some (JObj fs) | Some (JArr xs) \<Rightarrow> Some (JArr xs) | _ \<Rightarrow> None)"

definition journaledOutcome :: "json option \<Rightarrow> string \<Rightarrow> fields option" where
  "journaledOutcome entry cid = (case jprop entry ''outcome'' of
     Some (JObj outcome) \<Rightarrow> if is_outcome outcome \<and> obj_get outcome ''id'' = Some (JStr cid) then Some outcome else None
   | _ \<Rightarrow> None)"

definition entryRecordedMs :: "ob_env \<Rightarrow> json option \<Rightarrow> int option" where
  "entryRecordedMs env entry =
     (let parse = (\<lambda>v. case v of Some (JStr time) \<Rightarrow> oe_dateParse env time | _ \<Rightarrow> None);
          times = map parse [jprop entry ''journaledAt'', jprop (jprop entry ''outcome'') ''at'', jprop entry ''acceptedAt'']
      in Option.bind (find (\<lambda>t. t \<noteq> None) times) id)"

definition orphanReply :: "ob_env \<Rightarrow> string \<Rightarrow> json option \<Rightarrow> (string, fields) result" where
  "orphanReply env cid entry = (case journaledOutcome entry cid of
     Some outcome \<Rightarrow> Inr (stamped env outcome)
   | None \<Rightarrow> rbind (interruptedFacts (jprop entry ''progress'')) (\<lambda>facts.
       rbind (interruptedMessage (oe_num env) facts) (\<lambda>message.
       let now = JStr (oe_iso env (oe_now env)) in
       Inr [(''type'', JStr ''command-outcome''), (''id'', JStr cid), (''ok'', JBool False), (''error'', JStr message),
         (''result'', JObj ((''interrupted'', JBool True)
            # (case if_lastStep facts of Some label \<Rightarrow> [(''lastStep'', label)] | None \<Rightarrow> [])
            @ (case if_releasePromoted facts of Some b \<Rightarrow> [(''releasePromoted'', JBool b)] | None \<Rightarrow> []))),
         (''at'', now), (''daemonRespondedAt'', now)])))"

end
