(* ===== verification/Outbox_Session.thy ===== *)
theory Outbox_Session
  imports Outbox
begin

text \<open>
  The operations of the outbox (\<open>src/commands/command-outbox.ts\<close>), one definition per section
  between two \<open>await\<close>s, the arrival of a command (\<open>src/instance/client.ts\<close>,
  \<open>src/commands/command-router.ts\<close>), and the life of a daemon as a sequence of events.
\<close>

section \<open>Running commands\<close>

definition markCommandInFlight :: "ob_env \<Rightarrow> string \<Rightarrow> outbox \<Rightarrow> outbox" where
  "markCommandInFlight env cid s = snd (queueWrite cid MarkEntry
     (s\<lparr>ob_running := (if cid \<in> set (ob_running s) then ob_running s else ob_running s @ [cid]),
       ob_acceptedAt := (ob_acceptedAt s)(cid := Some (oe_iso env (oe_now env)))\<rparr>))"

definition progressFrame :: "ob_env \<Rightarrow> string \<Rightarrow> string \<Rightarrow> json \<Rightarrow> fields" where
  "progressFrame env cid commandId progress =
     [(''type'', JStr ''command-progress''), (''id'', JStr cid), (''commandId'', JStr commandId),
      (''at'', JStr (oe_iso env (oe_now env))), (''progress'', progress)]"

definition answerRepeatedDispatch :: "ob_env \<Rightarrow> nat \<Rightarrow> string \<Rightarrow> string \<Rightarrow> outbox \<Rightarrow> bool \<times> outbox" where
  "answerRepeatedDispatch env ws cid commandId s0 =
     (let s = (if oe_open env ws then useSocket env ws s0 else s0)
      in if cid \<in> set (ob_running s)
         then (True, case ob_lastProgress s cid of
             Some latest \<Rightarrow> snd (sendCommandFrame env ws (progressFrame env cid commandId (pn_progress latest)) s)
           | None \<Rightarrow> s)
         else case (case map_of (ob_held s) cid of Some outcome \<Rightarrow> Some outcome | None \<Rightarrow> map_of (ob_unacked s) cid) of
             None \<Rightarrow> (False, s)
           | Some kept \<Rightarrow> (True, snd (sendOutcome env (Some ws) kept s)))"

definition noteCommandProgress :: "ob_env \<Rightarrow> string \<Rightarrow> json \<Rightarrow> outbox \<Rightarrow> outbox" where
  "noteCommandProgress env cid progress s =
     (if cid \<notin> set (ob_running s) then s
      else let signature = planSignature (oe_num env) progress; previous = ob_lastProgress s cid;
               due = (case previous of None \<Rightarrow> True
                 | Some p \<Rightarrow> pn_signature p \<noteq> signature \<or> oe_now env - pn_writtenAt p \<ge> PROGRESS_JOURNAL_INTERVAL_MS)
        in if \<not> due
           then (case previous of
               Some p \<Rightarrow> s\<lparr>ob_lastProgress := (ob_lastProgress s)(cid := Some (p\<lparr>pn_progress := progress\<rparr>))\<rparr>
             | None \<Rightarrow> s)
           else snd (queueWrite cid (ProgressEntry progress) (s\<lparr>ob_lastProgress := (ob_lastProgress s)
             (cid := Some \<lparr>pn_progress = progress, pn_signature = signature, pn_writtenAt = oe_now env\<rparr>)\<rparr>)))"

section \<open>Outcomes\<close>

definition add_task :: "nat list \<Rightarrow> task \<Rightarrow> outbox \<Rightarrow> outbox" where
  "add_task tickets t s = s\<lparr>ob_tasks := ob_tasks s @ [(tickets, t)]\<rparr>"

definition scheduleResend :: "outbox \<Rightarrow> outbox" where
  "scheduleResend s = (if ob_timer s \<or> ob_unacked s = [] \<and> ob_held s = [] then s else s\<lparr>ob_timer := True\<rparr>)"

definition deliverCommandOutcome :: "ob_env \<Rightarrow> nat \<Rightarrow> fields \<Rightarrow> outbox \<Rightarrow> outbox" where
  "deliverCommandOutcome env ws outcome s =
     (let cid = outcome_id outcome;
          s1 = s\<lparr>ob_running := removeAll cid (ob_running s), ob_lastProgress := (ob_lastProgress s)(cid := None)\<rparr>;
          entry = entryFor env s1 cid [(''outcome'', JObj outcome), (''journaledAt'', JStr (oe_iso env (oe_now env)))];
          (t, s2) = queueWrite cid (FullEntry entry) s1
      in add_task [t] (Delivering ws outcome) s2)"

definition deliver_journaled :: "ob_env \<Rightarrow> nat \<Rightarrow> fields \<Rightarrow> outbox \<Rightarrow> outbox" where
  "deliver_journaled env ws outcome s =
     (let cid = outcome_id outcome;
          (sent, s1) = sendLive env (Some ws) outcome (s\<lparr>ob_acceptedAt := (ob_acceptedAt s)(cid := None)\<rparr>)
      in if keepsUntilAck env s1 then scheduleResend (s1\<lparr>ob_unacked := AList.update cid outcome (ob_unacked s1)\<rparr>)
         else if sent then snd (removeJournal cid s1)
         else s1\<lparr>ob_held := AList.update cid outcome (ob_held s1)\<rparr>)"

definition acknowledgeCommandOutcome :: "string \<Rightarrow> outbox \<Rightarrow> nat list \<times> outbox" where
  "acknowledgeCommandOutcome cid s =
     (if cid \<in> set (ob_running s) then ([], s)
      else removeJournal cid (s\<lparr>ob_unacked := AList.delete cid (ob_unacked s),
        ob_held := AList.delete cid (ob_held s), ob_keptSince := (ob_keptSince s)(cid := None),
        ob_writeChains := (ob_writeChains s)(cid := None)\<rparr>))"

fun acknowledge_all :: "string list \<Rightarrow> outbox \<Rightarrow> nat list \<times> outbox" where
  "acknowledge_all [] s = ([], s)"
| "acknowledge_all (cid # cids) s =
     (let (ts, s1) = acknowledgeCommandOutcome cid s; (us, s2) = acknowledge_all cids s1 in (ts @ us, s2))"

text \<open>\<open>None\<close> is the age \<open>Number.POSITIVE_INFINITY\<close>.\<close>

definition due_outcomes :: "ob_env \<Rightarrow> int option \<Rightarrow> outbox \<Rightarrow> fields list" where
  "due_outcomes env minAgeMs s =
     (let sentAt = (\<lambda>outcome. case ob_sentOnSocket s (outcome_id outcome) of Some at \<Rightarrow> at | None \<Rightarrow> -1)
      in sort_key sentAt (filter (\<lambda>outcome. ob_sentOnSocket s (outcome_id outcome) = None
        \<or> (case minAgeMs of None \<Rightarrow> False | Some age \<Rightarrow> oe_now env - sentAt outcome \<ge> age)) (map snd (ob_unacked s))))"

definition resendUnacked :: "ob_env \<Rightarrow> int option \<Rightarrow> outbox \<Rightarrow> outbox" where
  "resendUnacked env minAgeMs s = (case ob_socket s of
     None \<Rightarrow> s
   | Some ws \<Rightarrow> if \<not> oe_open env ws then s else sendKept_while env (due_outcomes env minAgeMs s) s)"

text \<open>The loop of \<open>flushHeld\<close>: the ids that are done, whose journals go.\<close>

fun flush_held_loop :: "ob_env \<Rightarrow> (string \<times> fields) list \<Rightarrow> outbox \<Rightarrow> string list \<times> outbox" where
  "flush_held_loop env [] s = ([], s)"
| "flush_held_loop env ((cid, outcome) # rest) s =
     (let (fine, s1) = (if ob_sentOnSocket s cid = None then sendKept env outcome s else (True, s))
      in if \<not> fine then ([], s1)
         else let (cids, s2) = flush_held_loop env rest (s1\<lparr>ob_held := AList.delete cid (ob_held s1)\<rparr>) in (cid # cids, s2))"

definition flushHeld :: "ob_env \<Rightarrow> outbox \<Rightarrow> nat list \<times> outbox" where
  "flushHeld env s =
     (if recovers env s
      then ([], s\<lparr>ob_unacked := fold (\<lambda>(cid, outcome). AList.update cid outcome) (ob_held s) (ob_unacked s), ob_held := []\<rparr>)
      else let (cids, s1) = flush_held_loop env (ob_held s) s in removeJournals cids s1)"

definition resend_timer :: "ob_env \<Rightarrow> outbox \<Rightarrow> outbox" where
  "resend_timer env s =
     (let s1 = resendUnacked env (Some RESEND_INTERVAL_MS) (s\<lparr>ob_timer := False\<rparr>);
          s2 = (if \<not> keepsUntilAck env s1 then snd (flushHeld env s1) else s1)
      in scheduleResend s2)"

section \<open>Orphans\<close>

definition orphanedIds :: "string list option \<Rightarrow> outbox \<Rightarrow> string list" where
  "orphanedIds listing s = filter (\<lambda>cid. cid \<notin> set (ob_running s) \<and> cid \<notin> fst ` set (ob_held s)
     \<and> cid \<notin> fst ` set (ob_unacked s)) (case listing of Some cids \<Rightarrow> cids | None \<Rightarrow> [])"

text \<open>
  The replies to the orphans are set one after the other; one that throws ends the attach. The
  flag says whether all were set.
\<close>

fun set_replies :: "ob_env \<Rightarrow> bool \<Rightarrow> (string \<times> json option) list \<Rightarrow> outbox \<Rightarrow> bool \<times> outbox" where
  "set_replies env keep [] s = (True, s)"
| "set_replies env keep ((cid, entry) # rest) s =
     (let s1 = (case entryRecordedMs env entry of None \<Rightarrow> s
            | Some recorded \<Rightarrow> s\<lparr>ob_keptSince := (ob_keptSince s)(cid := Some recorded)\<rparr>)
      in case orphanReply env cid entry of
           Inl e \<Rightarrow> (False, s1)
         | Inr reply \<Rightarrow> set_replies env keep rest
             (if keep then s1\<lparr>ob_unacked := AList.update cid reply (ob_unacked s1)\<rparr>
              else s1\<lparr>ob_held := AList.update cid reply (ob_held s1)\<rparr>))"

definition queue_reply :: "string \<Rightarrow> json option \<Rightarrow> outbox \<Rightarrow> nat list \<times> outbox" where
  "queue_reply cid entry s = (case map_of (ob_unacked s) cid of
     Some reply \<Rightarrow> if journaledOutcome entry cid = None
       then (let (t, s1) = queueWrite cid (ReplyEntry reply) s in ([t], s1)) else ([], s)
   | None \<Rightarrow> ([], s))"

fun queue_replies :: "(string \<times> json option) list \<Rightarrow> outbox \<Rightarrow> nat list \<times> outbox" where
  "queue_replies [] s = ([], s)"
| "queue_replies ((cid, entry) # rest) s =
     (let (ts, s1) = queue_reply cid entry s; (us, s2) = queue_replies rest s1 in (ts @ us, s2))"

definition answerOrphans :: "ob_env \<Rightarrow> (string \<times> json option) list \<Rightarrow> outbox \<Rightarrow> nat list option \<times> outbox" where
  "answerOrphans env entries s =
     (let keep = recovers env s; (fine, s1) = set_replies env keep entries s
      in if \<not> fine then (None, s1)
         else let (ts, s2) = (if keep then queue_replies entries s1 else flushHeld env s1) in (Some ts, s2))"

definition recordedAtMs :: "ob_env \<Rightarrow> outbox \<Rightarrow> string \<Rightarrow> int option" where
  "recordedAtMs env s cid = (case ob_keptSince s cid of
     Some since \<Rightarrow> Some since
   | None \<Rightarrow> Option.bind (map_of (ob_unacked s) cid) (\<lambda>o1. Option.bind (outcomeTimeIso env o1) (oe_dateParse env)))"

definition outcomes_to_drop :: "ob_env \<Rightarrow> outbox \<Rightarrow> string list" where
  "outcomes_to_drop env s =
     (let cutoff = oe_now env - UNACKED_RETENTION_MS; cids = map fst (ob_unacked s);
          stale = filter (\<lambda>cid. case recordedAtMs env s cid of None \<Rightarrow> False | Some at \<Rightarrow> at < cutoff) cids
      in stale @ take (length cids - length stale - UNACKED_MAX_ENTRIES)
           (sort_key (recordedAtMs env s) (filter (\<lambda>cid. cid \<notin> set stale) cids)))"

definition pruneUnacked :: "ob_env \<Rightarrow> outbox \<Rightarrow> nat list \<times> outbox" where
  "pruneUnacked env s = (let drop_ids = outcomes_to_drop env s
     in acknowledge_all drop_ids (fold (\<lambda>cid. note_log (Dropped cid)) drop_ids s))"

section \<open>Sessions\<close>

definition set_peer :: "nat option \<Rightarrow> outbox \<Rightarrow> outbox" where
  "set_peer peer s = (case peer of None \<Rightarrow> s | Some p \<Rightarrow> s\<lparr>ob_peer := Some p\<rparr>)"

definition noteSessionOpen :: "ob_env \<Rightarrow> nat \<Rightarrow> nat option \<Rightarrow> outbox \<Rightarrow> outbox" where
  "noteSessionOpen env ws peer s0 =
     (let s = set_peer peer s0
      in if \<not> oe_open env ws then s
         else let s1 = useSocket env ws s
              in scheduleResend (sendKept_while env (map snd (ob_unacked s1) @ map snd (ob_held s1)) s1))"

definition releaseForOlderPeer :: "ob_env \<Rightarrow> outbox \<Rightarrow> outbox" where
  "releaseForOlderPeer env s = (if recovers env s then s
     else s\<lparr>ob_held := fold (\<lambda>(cid, outcome). AList.update cid outcome) (ob_unacked s) (ob_held s), ob_unacked := []\<rparr>)"

definition flushCommandOutcomes :: "ob_env \<Rightarrow> nat \<Rightarrow> nat option \<Rightarrow> outbox \<Rightarrow> outbox" where
  "flushCommandOutcomes env ws peer s =
     (let (ts, s1) = flushHeld env (releaseForOlderPeer env (set_peer peer (useSocket env ws s)))
      in add_task ts (FlushOpen ws) s1)"

text \<open>What follows each \<open>await\<close> of \<open>flushCommandOutcomes\<close> and of \<open>deliverCommandOutcome\<close>.\<close>

definition resume_task :: "ob_env \<Rightarrow> task \<Rightarrow> outbox \<Rightarrow> outbox" where
  "resume_task env t s = (case t of
     Delivering ws outcome \<Rightarrow> deliver_journaled env ws outcome s
   | FlushOpen ws \<Rightarrow> if oe_open env ws then add_task [] (FlushList ws) s else s
   | FlushList ws \<Rightarrow> s
   | FlushRead ws entries \<Rightarrow>
       (case answerOrphans env (map (\<lambda>(cid, e). (cid, Option.bind e (\<lambda>x. x))) entries) s of
          (None, s1) \<Rightarrow> s1 | (Some ts, s1) \<Rightarrow> add_task ts (FlushPrune ws) s1)
   | FlushPrune ws \<Rightarrow> (case pruneUnacked env s of (ts, s1) \<Rightarrow> add_task ts (FlushResend ws) s1)
   | FlushResend ws \<Rightarrow> scheduleResend (resendUnacked env None s))"

definition boundedIds :: "string list \<Rightarrow> string list" where
  "boundedIds cids = take REPORT_MAX_IDS (filter (\<lambda>cid. js_length cid > 0 \<and> js_length cid \<le> REPORT_MAX_ID_CHARS) cids)"

definition commandRecoveryReport :: "outbox \<Rightarrow> (string list \<times> string list) option" where
  "commandRecoveryReport s =
     (let runningIds = boundedIds (ob_running s);
          kept = map fst (ob_unacked s) @ filter (\<lambda>cid. cid \<notin> fst ` set (ob_unacked s)) (map fst (ob_held s));
          unackedIds = boundedIds kept
      in if runningIds = [] \<and> unackedIds = [] then None else Some (runningIds, unackedIds))"

section \<open>The arrival of a command\<close>

definition SEEN_TTL_MS :: int where "SEEN_TTL_MS = 60 * 60000"
definition SEEN_MAX :: nat where "SEEN_MAX = 2000"

fun evict :: "int \<Rightarrow> (string \<times> int) list \<Rightarrow> (string \<times> int) list" where
  "evict now [] = []"
| "evict now ((cid, at) # seen) =
     (if now - at < SEEN_TTL_MS \<and> length ((cid, at) # seen) \<le> SEEN_MAX then (cid, at) # seen else evict now seen)"

definition seenBefore :: "string \<Rightarrow> int \<Rightarrow> (string \<times> int) list \<Rightarrow> bool \<times> (string \<times> int) list" where
  "seenBefore cid now seen0 = (let seen = evict now seen0
     in if cid \<in> fst ` set seen then (True, seen) else (False, seen @ [(cid, now)]))"

definition ack_frame :: "ob_env \<Rightarrow> string \<Rightarrow> fields" where
  "ack_frame env cid = [(''type'', JStr ''command-ack''), (''id'', JStr cid), (''at'', JStr (oe_iso env (oe_now env))),
     (''daemonReceivedAt'', JStr (oe_iso env (oe_now env)))]"

text \<open>A frame sent without a \<open>try\<close>: an open socket that does not take it throws, which ends the handler.\<close>

definition send_or_throw :: "ob_env \<Rightarrow> nat \<Rightarrow> fields \<Rightarrow> outbox \<Rightarrow> bool \<times> outbox" where
  "send_or_throw env ws message s = (if \<not> oe_open env ws then (True, s) else trySend env False (Some ws) message s)"

definition handleCommandDispatch :: "ob_env \<Rightarrow> nat \<Rightarrow> string \<Rightarrow> string \<Rightarrow> outbox \<Rightarrow> outbox" where
  "handleCommandDispatch env ws cid commandId s = (case send_or_throw env ws (ack_frame env cid) s of
     (False, s1) \<Rightarrow> s1
   | (True, s1) \<Rightarrow> (case answerRepeatedDispatch env ws cid commandId s1 of
       (True, s2) \<Rightarrow> s2
     | (False, s2) \<Rightarrow> markCommandInFlight env cid (note_log (Started cid) s2)))"

definition receive_dispatch :: "ob_env \<Rightarrow> nat \<Rightarrow> string \<Rightarrow> string \<Rightarrow> outbox \<Rightarrow> outbox" where
  "receive_dispatch env ws cid commandId s0 =
     (let (seen, ids) = seenBefore cid (oe_now env) (ob_seen s0); s = s0\<lparr>ob_seen := ids\<rparr>
      in if seen
         then (case send_or_throw env ws (ack_frame env cid) s of
             (False, s1) \<Rightarrow> s1 | (True, s1) \<Rightarrow> snd (answerRepeatedDispatch env ws cid commandId s1))
         else handleCommandDispatch env ws cid commandId s)"

section \<open>Events\<close>

text \<open>
  What can happen next: a frame or a result arrives, the timer fires, a queued write starts or
  ends, a removal ends, a waiting function goes on, the journal directory is listed, one journal
  is read, or the daemon is killed and a new one starts on the same files.
\<close>

datatype ob_event =
    Dispatch nat string string
  | Progress string json
  | Finish nat fields
  | AckFrame string
  | Opened nat "nat option"
  | Attached nat "nat option"
  | TimerFires
  | WriteStarts nat
  | WriteEnds nat bool
  | RemoveEnds nat bool
  | Resumes "nat list \<times> task"
  | Lists "nat list \<times> task" "string list option"
  | Reads "nat list \<times> task" string bool
  | Killed

definition chain_of :: "io \<Rightarrow> nat option" where
  "chain_of x = (case x of QueuedWrite chain cid kind \<Rightarrow> Some chain | Writing chain cid content \<Rightarrow> Some chain | Removing cid \<Rightarrow> None)"

definition first_in_chain :: "nat \<Rightarrow> nat \<Rightarrow> outbox \<Rightarrow> bool" where
  "first_in_chain t chain s \<longleftrightarrow> (case find (\<lambda>(u, x). chain_of x = Some chain) (ob_io s) of Some (u, x) \<Rightarrow> u = t | None \<Rightarrow> False)"

definition tickets_done :: "nat list \<Rightarrow> outbox \<Rightarrow> bool" where
  "tickets_done ts s \<longleftrightarrow> list_all (\<lambda>t. t \<notin> fst ` set (ob_io s)) ts"

definition enabled :: "ob_event \<Rightarrow> outbox \<Rightarrow> bool" where
  "enabled ev s = (case ev of
     Finish ws outcome \<Rightarrow> is_outcome outcome
   | TimerFires \<Rightarrow> ob_timer s
   | WriteStarts t \<Rightarrow> (case map_of (ob_io s) t of Some (QueuedWrite chain cid kind) \<Rightarrow> first_in_chain t chain s | _ \<Rightarrow> False)
   | WriteEnds t fine \<Rightarrow> (case map_of (ob_io s) t of Some (Writing chain cid content) \<Rightarrow> True | _ \<Rightarrow> False)
   | RemoveEnds t fine \<Rightarrow> (case map_of (ob_io s) t of Some (Removing cid) \<Rightarrow> True | _ \<Rightarrow> False)
   | Resumes w \<Rightarrow> w \<in> set (ob_tasks s) \<and> tickets_done (fst w) s
       \<and> (case snd w of FlushList ws \<Rightarrow> False | FlushRead ws entries \<Rightarrow> list_all (\<lambda>(cid, e). e \<noteq> None) entries | _ \<Rightarrow> True)
   | Lists w listing \<Rightarrow> w \<in> set (ob_tasks s) \<and> (case snd w of
       FlushList ws \<Rightarrow> (case listing of None \<Rightarrow> True | Some cids \<Rightarrow> distinct cids \<and> set cids = dom (ob_files s))
     | _ \<Rightarrow> False)
   | Reads w cid fine \<Rightarrow> w \<in> set (ob_tasks s) \<and> (case snd w of
       FlushRead ws entries \<Rightarrow> map_of entries cid = Some None | _ \<Rightarrow> False)
   | _ \<Rightarrow> True)"

definition set_task :: "nat list \<times> task \<Rightarrow> task \<Rightarrow> outbox \<Rightarrow> outbox" where
  "set_task w t s = s\<lparr>ob_tasks := remove1 w (ob_tasks s) @ [([], t)]\<rparr>"

definition end_io :: "nat \<Rightarrow> outbox \<Rightarrow> outbox" where
  "end_io t s = s\<lparr>ob_io := AList.delete t (ob_io s)\<rparr>"

definition start_write :: "ob_env \<Rightarrow> nat \<Rightarrow> outbox \<Rightarrow> outbox" where
  "start_write env t s = (case map_of (ob_io s) t of
     Some (QueuedWrite chain cid kind) \<Rightarrow> (case write_entry env s cid kind of
         None \<Rightarrow> end_io t s
       | Some entry \<Rightarrow> if UNSAFE_ID cid then end_io t s
           else s\<lparr>ob_io := AList.update t (Writing chain cid (json_text (oe_num env) (JObj entry))) (ob_io s)\<rparr>)
   | _ \<Rightarrow> s)"

definition end_write :: "nat \<Rightarrow> bool \<Rightarrow> outbox \<Rightarrow> outbox" where
  "end_write t fine s = (case map_of (ob_io s) t of
     Some (Writing chain cid content) \<Rightarrow>
       end_io t (if fine then s\<lparr>ob_files := (ob_files s)(cid := Some content)\<rparr> else s)
   | _ \<Rightarrow> s)"

definition end_remove :: "nat \<Rightarrow> bool \<Rightarrow> outbox \<Rightarrow> outbox" where
  "end_remove t fine s = (case map_of (ob_io s) t of
     Some (Removing cid) \<Rightarrow> end_io t (if fine then s\<lparr>ob_files := (ob_files s)(cid := None)\<rparr> else s)
   | _ \<Rightarrow> s)"

definition list_journal :: "nat list \<times> task \<Rightarrow> string list option \<Rightarrow> outbox \<Rightarrow> outbox" where
  "list_journal w listing s = (case snd w of
     FlushList ws \<Rightarrow> set_task w (FlushRead ws (map (\<lambda>cid. (cid, None)) (orphanedIds listing s))) s | _ \<Rightarrow> s)"

definition read_journal :: "nat list \<times> task \<Rightarrow> string \<Rightarrow> bool \<Rightarrow> outbox \<Rightarrow> outbox" where
  "read_journal w cid fine s = (case snd w of
     FlushRead ws entries \<Rightarrow>
       set_task w (FlushRead ws (AList.update cid (Some (if fine then readJournalEntry s cid else None)) entries)) s
   | _ \<Rightarrow> s)"

definition outbox_step :: "ob_env \<Rightarrow> ob_event \<Rightarrow> outbox \<Rightarrow> outbox" where
  "outbox_step env ev s = (case ev of
     Dispatch ws cid commandId \<Rightarrow> receive_dispatch env ws cid commandId s
   | Progress cid progress \<Rightarrow> noteCommandProgress env cid progress s
   | Finish ws outcome \<Rightarrow> deliverCommandOutcome env ws outcome s
   | AckFrame cid \<Rightarrow> snd (acknowledgeCommandOutcome cid (note_log (Confirmed cid) s))
   | Opened ws peer \<Rightarrow> noteSessionOpen env ws peer s
   | Attached ws peer \<Rightarrow> flushCommandOutcomes env ws peer s
   | TimerFires \<Rightarrow> resend_timer env s
   | WriteStarts t \<Rightarrow> start_write env t s
   | WriteEnds t fine \<Rightarrow> end_write t fine s
   | RemoveEnds t fine \<Rightarrow> end_remove t fine s
   | Resumes w \<Rightarrow> resume_task env (snd w) (s\<lparr>ob_tasks := remove1 w (ob_tasks s)\<rparr>)
   | Lists w listing \<Rightarrow> list_journal w listing s
   | Reads w cid fine \<Rightarrow> read_journal w cid fine s
   | Killed \<Rightarrow> new_process (ob_files s) (ob_next s) (ob_log s))"

fun outbox_run :: "(ob_env \<times> ob_event) list \<Rightarrow> outbox \<Rightarrow> outbox option" where
  "outbox_run [] s = Some s"
| "outbox_run ((env, ev) # es) s = (if enabled ev s then outbox_run es (outbox_step env ev s) else None)"

lemma outbox_run_append:
  "outbox_run (es @ fs) s = Option.bind (outbox_run es s) (outbox_run fs)"
  by (induction es s rule: outbox_run.induct) auto

end
