(* ===== verification/Outbox_Laws.thy ===== *)
theory Outbox_Laws
  imports Outbox_Session
begin

text \<open>
  What becomes of a command the daemon has taken: at every moment, under every interleaving, it
  runs, or its outcome is being journaled, or it is kept to be sent, or it was released; and its
  journal file goes only after the release.
\<close>

section \<open>Where a command is\<close>

definition sent_outcome :: "outbox \<Rightarrow> string \<Rightarrow> bool" where
  "sent_outcome s cid \<longleftrightarrow> (\<exists>now ws paced m. Sent now ws paced m \<in> set (ob_log s) \<and> is_outcome m \<and> outcome_id m = cid)"

text \<open>
  An outcome is released when it was confirmed or dropped past the retention bound, and, with a
  control plane that does not confirm (\<open>old\<close>), when it was sent.
\<close>

definition released :: "bool \<Rightarrow> outbox \<Rightarrow> string \<Rightarrow> bool" where
  "released old s cid \<longleftrightarrow> Confirmed cid \<in> set (ob_log s) \<or> Dropped cid \<in> set (ob_log s) \<or> old \<and> sent_outcome s cid"

definition kept :: "outbox \<Rightarrow> string \<Rightarrow> bool" where
  "kept s cid \<longleftrightarrow> cid \<in> fst ` set (ob_held s) \<or> cid \<in> fst ` set (ob_unacked s)"

definition awaits :: "outbox \<Rightarrow> fields \<Rightarrow> bool" where
  "awaits s outcome \<longleftrightarrow> (\<exists>ts ws. (ts, Delivering ws outcome) \<in> set (ob_tasks s))"

definition delivering :: "outbox \<Rightarrow> string \<Rightarrow> bool" where
  "delivering s cid \<longleftrightarrow> (\<exists>outcome. awaits s outcome \<and> outcome_id outcome = cid)"

definition present :: "outbox \<Rightarrow> string \<Rightarrow> bool" where
  "present s cid \<longleftrightarrow> cid \<in> set (ob_running s) \<or> delivering s cid \<or> kept s cid"

definition removing :: "outbox \<Rightarrow> string \<Rightarrow> bool" where
  "removing s cid \<longleftrightarrow> (\<exists>t. (t, Removing cid) \<in> set (ob_io s))"

definition outbox_wf :: "outbox \<Rightarrow> bool" where
  "outbox_wf s \<longleftrightarrow> (\<forall>(cid, o1) \<in> set (ob_held s) \<union> set (ob_unacked s). is_outcome o1 \<and> outcome_id o1 = cid)
     \<and> (\<forall>cid. ob_sentOnSocket s cid \<noteq> None \<longrightarrow> sent_outcome s cid)
     \<and> (\<forall>o1. awaits s o1 \<longrightarrow> is_outcome o1)"

text \<open>What one section may do to the commands.\<close>

definition moves :: "bool \<Rightarrow> outbox \<Rightarrow> outbox \<Rightarrow> bool" where
  "moves old s s' \<longleftrightarrow> outbox_wf s \<longrightarrow> outbox_wf s'
     \<and> (\<exists>l. ob_log s' = ob_log s @ l \<and> (\<forall>cid. Started cid \<in> set l \<longrightarrow> present s' cid \<or> released old s' cid))
     \<and> (\<forall>cid. present s cid \<longrightarrow> present s' cid \<or> released old s' cid)
     \<and> (\<forall>cid. removing s' cid \<longrightarrow> removing s cid \<or> released old s' cid)
     \<and> (\<forall>cid. ob_files s cid \<noteq> None \<longrightarrow> ob_files s' cid \<noteq> None \<or> removing s cid \<or> released old s' cid)"

lemma released_mono: "released old s cid \<Longrightarrow> ob_log s' = ob_log s @ l \<Longrightarrow> released old s' cid"
  by (auto simp: released_def sent_outcome_def)

lemma moves_refl [simp]: "moves old s s"
  by (auto simp: moves_def)

lemma moves_trans: "moves old s s1 \<Longrightarrow> moves old s1 s2 \<Longrightarrow> moves old s s2"
  unfolding moves_def
proof (rule impI)
  assume a: "outbox_wf s \<longrightarrow> outbox_wf s1 \<and> (\<exists>l. ob_log s1 = ob_log s @ l
        \<and> (\<forall>cid. Started cid \<in> set l \<longrightarrow> present s1 cid \<or> released old s1 cid))
      \<and> (\<forall>cid. present s cid \<longrightarrow> present s1 cid \<or> released old s1 cid)
      \<and> (\<forall>cid. removing s1 cid \<longrightarrow> removing s cid \<or> released old s1 cid)
      \<and> (\<forall>cid. ob_files s cid \<noteq> None \<longrightarrow> ob_files s1 cid \<noteq> None \<or> removing s cid \<or> released old s1 cid)"
    and b: "outbox_wf s1 \<longrightarrow> outbox_wf s2 \<and> (\<exists>l. ob_log s2 = ob_log s1 @ l
        \<and> (\<forall>cid. Started cid \<in> set l \<longrightarrow> present s2 cid \<or> released old s2 cid))
      \<and> (\<forall>cid. present s1 cid \<longrightarrow> present s2 cid \<or> released old s2 cid)
      \<and> (\<forall>cid. removing s2 cid \<longrightarrow> removing s1 cid \<or> released old s2 cid)
      \<and> (\<forall>cid. ob_files s1 cid \<noteq> None \<longrightarrow> ob_files s2 cid \<noteq> None \<or> removing s1 cid \<or> released old s2 cid)"
    and wf: "outbox_wf s"
  from a wf obtain l where l: "ob_log s1 = ob_log s @ l" "\<forall>cid. Started cid \<in> set l \<longrightarrow> present s1 cid \<or> released old s1 cid"
    and wf1: "outbox_wf s1" by blast
  from b wf1 obtain m where m: "ob_log s2 = ob_log s1 @ m" "\<forall>cid. Started cid \<in> set m \<longrightarrow> present s2 cid \<or> released old s2 cid"
    by blast
  have r: "\<And>cid. released old s1 cid \<Longrightarrow> released old s2 cid"
    using released_mono m(1) by blast
  have "ob_log s2 = ob_log s @ (l @ m)" using l(1) m(1) by simp
  moreover have "\<forall>cid. Started cid \<in> set (l @ m) \<longrightarrow> present s2 cid \<or> released old s2 cid"
    using l(2) m(2) r b wf1 by (metis Un_iff set_append)
  ultimately show "outbox_wf s2 \<and> (\<exists>l. ob_log s2 = ob_log s @ l
        \<and> (\<forall>cid. Started cid \<in> set l \<longrightarrow> present s2 cid \<or> released old s2 cid))
      \<and> (\<forall>cid. present s cid \<longrightarrow> present s2 cid \<or> released old s2 cid)
      \<and> (\<forall>cid. removing s2 cid \<longrightarrow> removing s cid \<or> released old s2 cid)
      \<and> (\<forall>cid. ob_files s cid \<noteq> None \<longrightarrow> ob_files s2 cid \<noteq> None \<or> removing s cid \<or> released old s2 cid)"
    using a b wf wf1 r by blast
qed

section \<open>Sections that only send\<close>

definition same_work :: "outbox \<Rightarrow> outbox \<Rightarrow> bool" where
  "same_work s s' \<longleftrightarrow> ob_held s' = ob_held s \<and> ob_unacked s' = ob_unacked s \<and> ob_running s' = ob_running s
     \<and> ob_tasks s' = ob_tasks s \<and> ob_io s' = ob_io s \<and> ob_files s' = ob_files s \<and> ob_peer s' = ob_peer s
     \<and> ob_keptSince s' = ob_keptSince s"

definition traffic :: "outbox \<Rightarrow> outbox \<Rightarrow> bool" where
  "traffic s s' \<longleftrightarrow> same_work s s' \<and> (\<exists>l. ob_log s' = ob_log s @ l \<and> (\<forall>cid. Started cid \<notin> set l))
     \<and> (\<forall>cid. ob_sentOnSocket s' cid \<noteq> None \<longrightarrow> ob_sentOnSocket s cid \<noteq> None \<or> sent_outcome s' cid)"

lemma sent_outcome_mono: "sent_outcome s cid \<Longrightarrow> ob_log s' = ob_log s @ l \<Longrightarrow> sent_outcome s' cid"
  by (auto simp: sent_outcome_def)

lemma traffic_refl: "traffic s s"
  by (auto simp: traffic_def same_work_def)

lemma traffic_trans:
  assumes "traffic s s1" "traffic s1 s2"
  shows "traffic s s2"
proof -
  from assms(1) obtain l where l: "ob_log s1 = ob_log s @ l" "\<forall>cid. Started cid \<notin> set l" by (auto simp: traffic_def)
  from assms(2) obtain m where m: "ob_log s2 = ob_log s1 @ m" "\<forall>cid. Started cid \<notin> set m" by (auto simp: traffic_def)
  have "same_work s s2"
    using assms unfolding traffic_def same_work_def by simp
  moreover have "ob_log s2 = ob_log s @ (l @ m) \<and> (\<forall>cid. Started cid \<notin> set (l @ m))"
    using l m by auto
  moreover have "\<forall>cid. ob_sentOnSocket s2 cid \<noteq> None \<longrightarrow> ob_sentOnSocket s cid \<noteq> None \<or> sent_outcome s2 cid"
    using assms sent_outcome_mono [OF _ m(1)] unfolding traffic_def by blast
  ultimately show ?thesis unfolding traffic_def by blast
qed

lemma traffic_moves:
  assumes "traffic s s'"
  shows "moves old s s'"
proof -
  obtain l where l: "ob_log s' = ob_log s @ l" "\<forall>cid. Started cid \<notin> set l" using assms by (auto simp: traffic_def)
  have same: "ob_held s' = ob_held s" "ob_unacked s' = ob_unacked s" "ob_running s' = ob_running s"
    "ob_tasks s' = ob_tasks s" "ob_io s' = ob_io s" "ob_files s' = ob_files s"
    using assms by (simp_all add: traffic_def same_work_def)
  have "outbox_wf s \<Longrightarrow> outbox_wf s'"
    using assms sent_outcome_mono [OF _ l(1)] unfolding outbox_wf_def awaits_def same traffic_def by blast
  then show ?thesis
    using l by (auto simp: moves_def present_def kept_def delivering_def awaits_def removing_def same)
qed

text \<open>
  A law that holds of every state and itself and passes along sections holds of the loops of the
  outbox when it holds of their bodies.
\<close>

locale section_law =
  fixes R :: "outbox \<Rightarrow> outbox \<Rightarrow> bool"
  assumes refl: "R s s"
    and trans: "R s s1 \<Longrightarrow> R s1 s2 \<Longrightarrow> R s s2"
begin

lemma sendKept_while:
  assumes "\<And>o1 s. o1 \<in> set os \<Longrightarrow> R s (snd (sendKept env o1 s))"
  shows "R s (sendKept_while env os s)"
  using assms
proof (induction os arbitrary: s)
  case (Cons o1 os)
  obtain b s1 where k: "sendKept env o1 s = (b, s1)" by fastforce
  then have "R s s1" using Cons.prems [of o1 s] by simp
  moreover have "R s1 (sendKept_while env os s1)" using Cons.IH Cons.prems by simp
  ultimately show ?case using k trans by (cases b) auto
qed (simp add: refl)

lemma noted:
  assumes "\<And>cid s. cid \<in> set cids \<Longrightarrow> R s (note_log (f cid) s)"
  shows "R s (fold (\<lambda>cid. note_log (f cid)) cids s)"
  using assms
proof (induction cids arbitrary: s)
  case (Cons cid cids)
  have "R s (note_log (f cid) s)" using Cons.prems by simp
  moreover have "R (note_log (f cid) s) (fold (\<lambda>cid. note_log (f cid)) cids (note_log (f cid) s))"
    using Cons.IH Cons.prems by simp
  ultimately show ?case using trans by auto
qed (simp add: refl)

end

interpretation mv: section_law "moves old" for old
  by unfold_locales (auto intro: moves_trans)

interpretation tr: section_law traffic
  by unfold_locales (auto intro: traffic_refl traffic_trans)

lemma stamped_outcome [simp]: "is_outcome (stamped env o1) = is_outcome o1" "outcome_id (stamped env o1) = outcome_id o1"
  by (simp_all add: stamped_def is_outcome_def outcome_id_def obj_get_def update_conv')

lemma traffic_trySend: "traffic s (snd (trySend env paced ws m s))"
  by (auto simp: trySend_def traffic_def same_work_def note_log_def sent_outcome_def split: option.splits)

lemma trySend_sent:
  assumes "fst (trySend env paced ws m s)" "is_outcome m"
  shows "sent_outcome (snd (trySend env paced ws m s)) (outcome_id m)"
  using assms by (auto simp: trySend_def note_log_def sent_outcome_def split: option.splits if_splits)

lemma traffic_noteSent: "sent_outcome s cid \<Longrightarrow> traffic s (noteSent env cid s)"
  by (auto simp: noteSent_def traffic_def same_work_def sent_outcome_def)

lemma traffic_useSocket: "traffic s (useSocket env ws s)"
  by (auto simp: useSocket_def traffic_def same_work_def note_log_def)

lemma traffic_burstLeft: "traffic s (snd (burstLeft env s))"
  by (auto simp: burstLeft_def traffic_def same_work_def sent_outcome_def Let_def)

lemma sendLive_facts:
  assumes "is_outcome o1" "sendLive env ws o1 s = (b, s')"
  shows "traffic s s'" and "b \<Longrightarrow> sent_outcome s' (outcome_id o1)"
proof -
  obtain c s1 where one: "trySend env False (ob_socket s) o1 s = (c, s1)" by fastforce
  have t1: "traffic s s1" using traffic_trySend [of s env False "ob_socket s" o1] one by simp
  have "traffic s s' \<and> (b \<longrightarrow> sent_outcome s' (outcome_id o1))"
  proof (cases c)
    case True
    then have sent: "sent_outcome s1 (outcome_id o1)"
      using trySend_sent [of env False "ob_socket s" o1 s] one assms(1) by simp
    have s': "s' = noteSent env (outcome_id o1) s1" using assms(2) one True by (simp add: sendLive_def)
    then have "sent_outcome s' (outcome_id o1)" using sent by (simp add: noteSent_def sent_outcome_def)
    then show ?thesis using traffic_trans [OF t1 traffic_noteSent [OF sent, of env]] s' by simp
  next
    case False
    then have two: "trySend env False ws o1 s1 = (b, s')" using assms(2) one by (simp add: sendLive_def)
    then have "traffic s1 s'" using traffic_trySend [of s1 env False ws o1] by simp
    then show ?thesis
      using t1 traffic_trans trySend_sent [of env False ws o1 s1] two assms(1) by auto
  qed
  then show "traffic s s'" "b \<Longrightarrow> sent_outcome s' (outcome_id o1)" by simp_all
qed

lemma sendKept_facts:
  assumes "is_outcome o1" "sendKept env o1 s = (b, s')"
  shows "traffic s s'" and "b \<Longrightarrow> sent_outcome s' (outcome_id o1)"
proof -
  obtain left s1 where one: "burstLeft env s = (left, s1)" by fastforce
  have t1: "traffic s s1" using traffic_burstLeft [of s env] one by simp
  obtain c s2 where two: "trySend env True (ob_socket s1) (stamped env o1) s1 = (c, s2)" by fastforce
  have t2: "traffic s s2" using traffic_trans [OF t1] traffic_trySend [of s1 env True "ob_socket s1" "stamped env o1"] two by simp
  have "traffic s s' \<and> (b \<longrightarrow> sent_outcome s' (outcome_id o1))"
  proof (cases "left \<le> 0 \<or> \<not> c")
    case True
    then show ?thesis using assms(2) one two t1 t2 by (auto simp: sendKept_def split: if_splits)
  next
    case False
    then have sent: "sent_outcome s2 (outcome_id o1)"
      using trySend_sent [of env True "ob_socket s1" "stamped env o1" s1] two assms(1) by simp
    have s': "s' = noteSent env (outcome_id o1) s2" using assms(2) one two False by (auto simp: sendKept_def)
    then have "sent_outcome s' (outcome_id o1)" using sent by (simp add: noteSent_def sent_outcome_def)
    then show ?thesis using traffic_trans [OF t2 traffic_noteSent [OF sent, of env]] s' by simp
  qed
  then show "traffic s s'" "b \<Longrightarrow> sent_outcome s' (outcome_id o1)" by simp_all
qed

lemma traffic_sendKept: "is_outcome o1 \<Longrightarrow> traffic s (snd (sendKept env o1 s))"
  using sendKept_facts(1) by (metis prod.collapse)

lemma traffic_sendKept_while: "\<forall>o1 \<in> set os. is_outcome o1 \<Longrightarrow> traffic s (sendKept_while env os s)"
  by (rule tr.sendKept_while) (simp add: traffic_sendKept)

lemma traffic_sendCommandFrame: "traffic s (snd (sendCommandFrame env ws m s))"
proof -
  obtain c s1 where one: "trySend env False (ob_socket s) m s = (c, s1)" by fastforce
  have t1: "traffic s s1" using traffic_trySend [of s env False "ob_socket s" m] one by simp
  show ?thesis
    using t1 one traffic_trans [OF t1 traffic_trySend] by (cases c) (simp_all add: sendCommandFrame_def)
qed

section \<open>The other sections\<close>

text \<open>A section that leaves the work as it was, except for queued writes and bookkeeping.\<close>

lemma moves_sameI:
  assumes "ob_held s' = ob_held s" "ob_unacked s' = ob_unacked s" "ob_running s' = ob_running s"
    "\<And>o1. awaits s' o1 = awaits s o1"
    "\<And>cid. removing s' cid \<Longrightarrow> removing s cid" "\<And>cid. ob_files s cid \<noteq> None \<Longrightarrow> ob_files s' cid \<noteq> None"
    "ob_log s' = ob_log s" "ob_sentOnSocket s' = ob_sentOnSocket s"
  shows "moves old s s'"
proof -
  have "outbox_wf s' = outbox_wf s"
    by (simp add: outbox_wf_def sent_outcome_def assms(1,2,4,7,8))
  moreover have "present s' cid = present s cid" for cid
    by (simp add: present_def kept_def delivering_def assms(1-4))
  ultimately show ?thesis
    using assms(5,6) unfolding moves_def by (simp add: assms(7))
qed

lemma moves_queueWrite: "moves old s (snd (queueWrite cid kind s))"
  by (rule moves_sameI) (auto simp: queueWrite_def awaits_def removing_def Let_def)

lemma moves_removeJournal:
  assumes "released old s cid"
  shows "moves old s (snd (removeJournal cid s))"
  using assms by (auto simp: moves_def removeJournal_def outbox_wf_def present_def kept_def delivering_def awaits_def removing_def
    released_def sent_outcome_def)

lemma removeJournal_log [simp]: "ob_log (snd (removeJournal cid s)) = ob_log s"
  by (simp add: removeJournal_def)

lemma moves_removeJournals:
  assumes "\<forall>cid \<in> set cids. released old s cid"
  shows "moves old s (snd (removeJournals cids s))"
  using assms
proof (induction cids arbitrary: s)
  case (Cons cid cids)
  obtain ts s1 where k: "removeJournal cid s = (ts, s1)" by fastforce
  then have "ob_log s1 = ob_log s" using removeJournal_log [of cid s] by simp
  then have "\<forall>cid \<in> set cids. released old s1 cid" using Cons.prems by (simp add: released_def sent_outcome_def)
  then have "moves old s1 (snd (removeJournals cids s1))" by (rule Cons.IH)
  moreover have "moves old s s1" using moves_removeJournal Cons.prems k by (metis list.set_intros(1) snd_conv)
  ultimately show ?case using k moves_trans by (auto split: prod.splits)
qed simp

lemma moves_scheduleResend: "moves old s (scheduleResend s)"
  by (rule moves_sameI) (auto simp: scheduleResend_def awaits_def removing_def split: if_splits)

lemma moves_started:
  "moves old s (markCommandInFlight env cid (note_log (Started cid) s))"
  by (auto simp: markCommandInFlight_def moves_def note_log_def queueWrite_def Let_def outbox_wf_def present_def kept_def
    delivering_def awaits_def removing_def released_def sent_outcome_def)

lemma moves_noteCommandProgress: "moves old s (noteCommandProgress env cid progress s)"
proof -
  have plan: "moves old s (s\<lparr>ob_lastProgress := f\<rparr>)" for f
    by (rule moves_sameI) (simp_all add: awaits_def removing_def)
  show ?thesis
    using plan moves_trans [OF plan moves_queueWrite]
    by (simp add: noteCommandProgress_def Let_def split: option.splits)
qed

lemma kept_outcome: "outbox_wf s \<Longrightarrow> o1 \<in> snd ` set (ob_held s) \<union> snd ` set (ob_unacked s) \<Longrightarrow> is_outcome o1"
  by (auto simp: outbox_wf_def)

lemma moves_wfI: "(outbox_wf s \<Longrightarrow> moves old s s') \<Longrightarrow> moves old s s'"
  by (simp add: moves_def)

lemma traffic_answerRepeatedDispatch:
  assumes wf: "outbox_wf s"
  shows "traffic s (snd (answerRepeatedDispatch env ws cid commandId s))"
proof -
  define s1 where "s1 = (if oe_open env ws then useSocket env ws s else s)"
  have t1: "traffic s s1" by (simp add: s1_def traffic_useSocket traffic_refl)
  have same: "ob_held s1 = ob_held s" "ob_unacked s1 = ob_unacked s" using t1 by (auto simp: traffic_def same_work_def)
  have "traffic s1 (snd (answerRepeatedDispatch env ws cid commandId s))"
  proof (cases "cid \<in> set (ob_running s1)")
    case True
    then show ?thesis
      by (auto simp: answerRepeatedDispatch_def s1_def [symmetric] Let_def traffic_refl traffic_sendCommandFrame split: option.splits)
  next
    case False
    have "is_outcome o1" if "map_of (ob_held s1) cid = Some o1 \<or> map_of (ob_unacked s1) cid = Some o1" for o1
      using that kept_outcome [OF wf, of o1] by (force simp: same dest: map_of_SomeD)
    then have sends: "traffic s1 (snd (sendOutcome env (Some ws) o1 s1))"
      if "map_of (ob_held s1) cid = Some o1 \<or> map_of (ob_unacked s1) cid = Some o1" for o1
      using that sendLive_facts(1) [of "stamped env o1" env "Some ws" s1] unfolding sendOutcome_def
      by (metis prod.collapse stamped_outcome(1))
    show ?thesis using False sends
      by (auto simp: answerRepeatedDispatch_def s1_def [symmetric] Let_def traffic_refl split: option.splits)
  qed
  then show ?thesis using traffic_trans [OF t1] by blast
qed

lemma moves_answerRepeatedDispatch: "moves old s (snd (answerRepeatedDispatch env ws cid commandId s))"
  by (rule moves_wfI) (rule traffic_moves [OF traffic_answerRepeatedDispatch])

lemma moves_deliverCommandOutcome:
  assumes "is_outcome outcome"
  shows "moves old s (deliverCommandOutcome env ws outcome s)"
proof -
  define cid where "cid = outcome_id outcome"
  define s1 where "s1 = s\<lparr>ob_running := removeAll cid (ob_running s), ob_lastProgress := (ob_lastProgress s)(cid := None)\<rparr>"
  obtain t s2 where q: "queueWrite cid (FullEntry (entryFor env s1 cid
      [(''outcome'', JObj outcome), (''journaledAt'', JStr (oe_iso env (oe_now env)))])) s1 = (t, s2)" by fastforce
  define s3 where "s3 = add_task [t] (Delivering ws outcome) s2"
  have d: "deliverCommandOutcome env ws outcome s = s3"
    using q by (simp add: deliverCommandOutcome_def cid_def s1_def s3_def Let_def)
  have same: "ob_held s3 = ob_held s" "ob_unacked s3 = ob_unacked s" "ob_running s3 = removeAll cid (ob_running s)"
      "ob_tasks s3 = ob_tasks s @ [([t], Delivering ws outcome)]" "ob_files s3 = ob_files s" "ob_log s3 = ob_log s"
      "ob_sentOnSocket s3 = ob_sentOnSocket s" "\<exists>x. ob_io s3 = ob_io s @ [(t, x)] \<and> (\<forall>c. x \<noteq> Removing c)"
    using q by (auto simp: s3_def add_task_def s1_def queueWrite_def Let_def)
  have "removing s3 c = removing s c" for c using same(8) by (auto simp: removing_def)
  moreover have aw: "awaits s3 o1 \<longleftrightarrow> awaits s o1 \<or> o1 = outcome" for o1
    by (auto simp: awaits_def same)
  then have "outbox_wf s \<Longrightarrow> outbox_wf s3"
    using assms by (auto simp: outbox_wf_def same sent_outcome_def)
  moreover have "delivering s3 c \<longleftrightarrow> delivering s c \<or> c = cid" for c
    by (auto simp: delivering_def aw cid_def)
  then have "present s c \<Longrightarrow> present s3 c" for c
    by (auto simp: present_def kept_def same)
  ultimately show ?thesis by (auto simp: d moves_def same released_def sent_outcome_def)
qed

lemma moves_acknowledge:
  assumes "released old s cid"
  shows "moves old s (snd (acknowledgeCommandOutcome cid s))"
proof (cases "cid \<in> set (ob_running s)")
  case False
  define s1 where "s1 = s\<lparr>ob_unacked := AList.delete cid (ob_unacked s),
        ob_held := AList.delete cid (ob_held s), ob_keptSince := (ob_keptSince s)(cid := None),
        ob_writeChains := (ob_writeChains s)(cid := None)\<rparr>"
  have r: "released old s1 cid" using assms by (simp add: s1_def released_def sent_outcome_def)
  then have "moves old s s1"
    by (auto simp: s1_def moves_def outbox_wf_def present_def kept_def delivering_def awaits_def removing_def
      sent_outcome_def AList.delete_eq)
  then show ?thesis using False moves_trans [OF _ moves_removeJournal [OF r]]
    by (simp add: acknowledgeCommandOutcome_def s1_def [symmetric])
qed (simp add: acknowledgeCommandOutcome_def)

lemma acknowledge_log [simp]: "ob_log (snd (acknowledgeCommandOutcome cid s)) = ob_log s"
  by (simp add: acknowledgeCommandOutcome_def)

lemma moves_acknowledge_all:
  assumes "\<forall>cid \<in> set cids. released old s cid"
  shows "moves old s (snd (acknowledge_all cids s))"
  using assms
proof (induction cids arbitrary: s)
  case (Cons cid cids)
  obtain ts s1 where k: "acknowledgeCommandOutcome cid s = (ts, s1)" by fastforce
  then have "ob_log s1 = ob_log s" using acknowledge_log [of cid s] by simp
  then have "\<forall>cid \<in> set cids. released old s1 cid" using Cons.prems by (simp add: released_def sent_outcome_def)
  then have "moves old s1 (snd (acknowledge_all cids s1))" by (rule Cons.IH)
  moreover have "moves old s s1" using moves_acknowledge Cons.prems k by (metis list.set_intros(1) snd_conv)
  ultimately show ?case using k moves_trans by (auto split: prod.splits)
qed simp

lemma moves_handover:
  assumes w: "(ts, Delivering ws o1) \<in> set (ob_tasks s)"
    and m: "moves old (s\<lparr>ob_tasks := remove1 (ts, Delivering ws o1) (ob_tasks s)\<rparr>) s'"
    and p: "outbox_wf s \<Longrightarrow> present s' (outcome_id o1) \<or> released old s' (outcome_id o1)"
  shows "moves old s s'"
proof -
  define s0 where "s0 = s\<lparr>ob_tasks := remove1 (ts, Delivering ws o1) (ob_tasks s)\<rparr>"
  have same: "ob_held s0 = ob_held s" "ob_unacked s0 = ob_unacked s" "ob_running s0 = ob_running s" "ob_files s0 = ob_files s"
    "ob_log s0 = ob_log s" "ob_sentOnSocket s0 = ob_sentOnSocket s" "ob_io s0 = ob_io s" by (simp_all add: s0_def)
  have aw: "awaits s0 o2 \<Longrightarrow> awaits s o2" for o2
    by (auto simp: s0_def awaits_def dest: set_remove1_subset [THEN subsetD])
  have "awaits s o2 \<Longrightarrow> awaits s0 o2 \<or> o2 = o1" for o2
    unfolding s0_def awaits_def by (cases "o2 = o1") (auto simp: in_set_remove1)
  then have pr: "present s c \<Longrightarrow> present s0 c \<or> c = outcome_id o1" for c
    by (auto simp: present_def kept_def delivering_def same)
  have wf: "outbox_wf s \<Longrightarrow> outbox_wf s0" using aw by (auto simp: outbox_wf_def same sent_outcome_def)
  show ?thesis
  proof (rule moves_wfI)
    assume a: "outbox_wf s"
    have rm: "removing s0 = removing s" by (simp add: removing_def same fun_eq_iff)
    have q: "present s' (outcome_id o1) \<or> released old s' (outcome_id o1)" using p a .
    show "moves old s s'"
      using m [folded s0_def] wf [OF a] pr q unfolding moves_def same rm by blast
  qed
qed

lemma moves_other_task:
  assumes "\<And>ws o1. snd w \<noteq> Delivering ws o1"
  shows "moves old s (s\<lparr>ob_tasks := remove1 w (ob_tasks s)\<rparr>)"
proof (rule moves_sameI)
  fix o1
  have "(ts, Delivering ws o1) \<in> set (remove1 w (ob_tasks s)) \<longleftrightarrow> (ts, Delivering ws o1) \<in> set (ob_tasks s)" for ts ws
    by (rule in_set_remove1) (use assms [of ws o1] in auto)
  then show "awaits (s\<lparr>ob_tasks := remove1 w (ob_tasks s)\<rparr>) o1 = awaits s o1" by (simp add: awaits_def)
qed (simp_all add: removing_def)

lemma moves_add_task:
  assumes "\<And>ws o1. t \<noteq> Delivering ws o1"
  shows "moves old s (add_task ts t s)"
  using assms by (intro moves_sameI) (auto simp: add_task_def awaits_def removing_def)

lemma wf_log: "moves old s s' \<Longrightarrow> outbox_wf s \<Longrightarrow> \<exists>l. ob_log s' = ob_log s @ l"
  by (auto simp: moves_def)

lemma wf_moves: "moves old s s' \<Longrightarrow> outbox_wf s \<Longrightarrow> outbox_wf s'"
  by (simp add: moves_def)

lemma dom_AList_delete: "fst ` set (AList.delete k al) = fst ` set al - {k}"
  using AList.delete_keys [of k al] by (metis list.set_map set_removeAll)

lemma outbox_wfD: "outbox_wf s \<Longrightarrow> (cid, o1) \<in> set (ob_held s) \<union> set (ob_unacked s) \<Longrightarrow> is_outcome o1 \<and> outcome_id o1 = cid"
  by (auto simp: outbox_wf_def)

lemma outbox_wfI:
  assumes wf: "outbox_wf s" and sub: "set (ob_held s') \<union> set (ob_unacked s') \<subseteq> A \<union> (set (ob_held s) \<union> set (ob_unacked s))"
    and new: "\<And>cid o1. (cid, o1) \<in> A \<Longrightarrow> is_outcome o1 \<and> outcome_id o1 = cid"
    and same: "ob_tasks s' = ob_tasks s" "ob_log s' = ob_log s" "ob_sentOnSocket s' = ob_sentOnSocket s"
  shows "outbox_wf s'"
proof -
  have keys: "awaits s' = awaits s" "sent_outcome s' = sent_outcome s"
    by (simp_all add: awaits_def sent_outcome_def same fun_eq_iff)
  have "\<forall>(cid, o1) \<in> set (ob_held s') \<union> set (ob_unacked s'). is_outcome o1 \<and> outcome_id o1 = cid"
  proof (clarify, goal_cases)
    case (1 cid o1)
    then have "(cid, o1) \<in> A \<or> (cid, o1) \<in> set (ob_held s) \<union> set (ob_unacked s)" using sub by blast
    then show ?case using new [of cid o1] outbox_wfD [OF wf, of cid o1] by blast
  qed
  then show ?thesis using wf by (simp add: outbox_wf_def keys same)
qed

lemma moves_keep:
  assumes "is_outcome o1"
  shows "moves old s (s\<lparr>ob_unacked := AList.update (outcome_id o1) o1 (ob_unacked s)\<rparr>)" (is "moves old s ?u")
    and "moves old s (s\<lparr>ob_held := AList.update (outcome_id o1) o1 (ob_held s)\<rparr>)" (is "moves old s ?h")
proof -
  have "outbox_wf s \<Longrightarrow> outbox_wf ?u" "outbox_wf s \<Longrightarrow> outbox_wf ?h"
    using assms by (auto elim!: outbox_wfI [where A = "{(outcome_id o1, o1)}"] dest: set_update_subset [THEN subsetD])
  then show "moves old s ?u" "moves old s ?h"
    by (auto simp: moves_def present_def kept_def delivering_def awaits_def removing_def dom_update)
qed

lemma moves_deliver_journaled:
  assumes w: "(ts, Delivering ws outcome) \<in> set (ob_tasks s)" and o: "old \<or> keepsUntilAck env s"
  shows "moves old s (deliver_journaled env ws outcome (s\<lparr>ob_tasks := remove1 (ts, Delivering ws outcome) (ob_tasks s)\<rparr>))"
proof (rule moves_wfI)
  assume wf: "outbox_wf s"
  have "awaits s outcome" using w by (auto simp: awaits_def)
  then have io: "is_outcome outcome" using wf by (simp add: outbox_wf_def)
  define cid where "cid = outcome_id outcome"
  define s0 where "s0 = s\<lparr>ob_tasks := remove1 (ts, Delivering ws outcome) (ob_tasks s)\<rparr>"
  define sa where "sa = s0\<lparr>ob_acceptedAt := (ob_acceptedAt s0)(cid := None)\<rparr>"
  have ma: "moves old s0 sa" by (rule moves_sameI) (simp_all add: sa_def awaits_def removing_def)
  obtain sent s1 where send: "sendLive env (Some ws) outcome sa = (sent, s1)" by fastforce
  have m1: "moves old s0 s1" using moves_trans [OF ma traffic_moves [OF sendLive_facts(1) [OF io send]]] .
  have "ob_peer s1 = ob_peer s"
    using sendLive_facts(1) [OF io send] by (simp add: traffic_def same_work_def sa_def s0_def)
  then have keeps: "keepsUntilAck env s1 = keepsUntilAck env s"
    by (simp add: keepsUntilAck_def recovers_def)
  have "moves old s0 (deliver_journaled env ws outcome s0)
      \<and> (present (deliver_journaled env ws outcome s0) cid \<or> released old (deliver_journaled env ws outcome s0) cid)"
  proof (cases "keepsUntilAck env s1")
    case True
    define s2 where "s2 = s1\<lparr>ob_unacked := AList.update cid outcome (ob_unacked s1)\<rparr>"
    have e: "deliver_journaled env ws outcome s0 = scheduleResend s2"
      using True send by (simp add: deliver_journaled_def cid_def [symmetric] sa_def [symmetric] s2_def)
    have "moves old s0 (scheduleResend s2)"
      using moves_trans [OF moves_trans [OF m1 moves_keep(1) [OF io]] moves_scheduleResend] by (simp add: s2_def cid_def)
    moreover have "present (scheduleResend s2) cid" by (simp add: present_def kept_def scheduleResend_def s2_def dom_update)
    ultimately show ?thesis by (simp add: e)
  next
    case False
    with o keeps have old: "old" by simp
    show ?thesis
    proof (cases sent)
      case True
      have e: "deliver_journaled env ws outcome s0 = snd (removeJournal cid s1)"
        using False True send by (simp add: deliver_journaled_def cid_def [symmetric] sa_def [symmetric])
      have r: "released old s1 cid"
        using sendLive_facts(2) [OF io send] True old by (simp add: released_def cid_def)
      then have "released old (snd (removeJournal cid s1)) cid" by (simp add: released_def sent_outcome_def)
      then show ?thesis using moves_trans [OF m1 moves_removeJournal [OF r]] by (simp add: e)
    next
      case False
      then have e: "deliver_journaled env ws outcome s0 = s1\<lparr>ob_held := AList.update cid outcome (ob_held s1)\<rparr>"
        using \<open>\<not> keepsUntilAck env s1\<close> send by (simp add: deliver_journaled_def cid_def [symmetric] sa_def [symmetric])
      moreover have "present (deliver_journaled env ws outcome s0) cid"
        by (simp add: e present_def kept_def dom_update)
      ultimately show ?thesis using moves_trans [OF m1 moves_keep(2) [OF io]] by (simp add: cid_def)
    qed
  qed
  then show "moves old s (deliver_journaled env ws outcome (s\<lparr>ob_tasks := remove1 (ts, Delivering ws outcome) (ob_tasks s)\<rparr>))"
    using moves_handover [OF w] by (simp add: s0_def cid_def)
qed

lemma set_updates:
  "fst ` set (fold (\<lambda>(cid, outcome). AList.update cid outcome) hs us) = fst ` set hs \<union> fst ` set us"
  "set (fold (\<lambda>(cid, outcome). AList.update cid outcome) hs us) \<subseteq> set hs \<union> set us"
proof (induction hs arbitrary: us)
  case (Cons h hs)
  obtain k v where h: "h = (k, v)" by fastforce
  { case 1 show ?case using Cons.IH(1) [of "AList.update k v us"] by (simp add: h dom_update) }
  { case 2 show ?case using Cons.IH(2) [of "AList.update k v us"] set_update_subset [of k v us] by (auto simp: h) }
qed simp_all

lemma moves_merge:
  assumes "set (ob_held s') \<union> set (ob_unacked s') \<subseteq> set (ob_held s) \<union> set (ob_unacked s)"
    and "fst ` set (ob_held s') \<union> fst ` set (ob_unacked s') = fst ` set (ob_held s) \<union> fst ` set (ob_unacked s)"
    and "ob_running s' = ob_running s" "ob_tasks s' = ob_tasks s" "ob_io s' = ob_io s" "ob_files s' = ob_files s"
    and "ob_log s' = ob_log s" "ob_sentOnSocket s' = ob_sentOnSocket s"
  shows "moves old s s'"
proof -
  have wf: "outbox_wf s \<Longrightarrow> outbox_wf s'"
    by (erule outbox_wfI [where A = "{}"]) (use assms(1) in \<open>simp_all add: assms(4,7,8)\<close>)
  have keys: "kept s' = kept s" "awaits s' = awaits s" "removing s' = removing s"
    using assms(2) by (auto simp: kept_def fun_eq_iff awaits_def removing_def assms(4,5))
  show ?thesis using wf by (simp add: moves_def present_def delivering_def keys assms(3,6,7))
qed

lemma moves_releaseForOlderPeer: "moves old s (releaseForOlderPeer env s)"
  using set_updates [of "ob_unacked s" "ob_held s"]
  by (intro moves_merge) (auto simp: releaseForOlderPeer_def)

lemma flush_held_loop_facts:
  assumes "outbox_wf s" "\<forall>(cid, o1) \<in> set hs. is_outcome o1 \<and> outcome_id o1 = cid" "flush_held_loop env hs s = (cids, s')"
  shows "moves True s s' \<and> (\<forall>cid \<in> set cids. sent_outcome s' cid)"
  using assms
proof (induction hs arbitrary: s cids)
  case (Cons h hs)
  obtain cid o1 where h: "h = (cid, o1)" by fastforce
  then have o1: "is_outcome o1" "outcome_id o1 = cid" using Cons.prems(2) by auto
  obtain fine s1 where one: "(if ob_sentOnSocket s cid = None then sendKept env o1 s else (True, s)) = (fine, s1)" by fastforce
  have t1: "traffic s s1" using one sendKept_facts(1) [OF o1(1)] traffic_refl by (auto split: if_splits)
  have sent: "fine \<Longrightarrow> sent_outcome s1 cid"
    using one sendKept_facts(2) [OF o1(1)] o1(2) Cons.prems(1) by (auto simp: outbox_wf_def split: if_splits)
  show ?case
  proof (cases fine)
    case True
    define s2 where "s2 = s1\<lparr>ob_held := AList.delete cid (ob_held s1)\<rparr>"
    obtain rest where rest: "flush_held_loop env hs s2 = (rest, s')" "cids = cid # rest"
      using Cons.prems(3) one True by (auto simp: h s2_def Let_def split: prod.splits)
    have s2: "sent_outcome s2 cid" using sent [OF True] by (simp add: s2_def sent_outcome_def)
    have wf1: "outbox_wf s1" using wf_moves [OF traffic_moves [OF t1] Cons.prems(1)] .
    have "outbox_wf s2"
      by (rule outbox_wfI [OF wf1, where A = "{}"]) (auto simp: s2_def AList.delete_eq)
    moreover have "present s1 c \<Longrightarrow> present s2 c \<or> c = cid" for c
      by (auto simp: s2_def present_def kept_def delivering_def awaits_def dom_AList_delete)
    ultimately have "moves True s1 s2"
      using s2 by (auto simp: moves_def released_def s2_def removing_def)
    then have m2: "moves True s s2" using moves_trans [OF traffic_moves [OF t1]] by blast
    have ih: "moves True s2 s' \<and> (\<forall>cid \<in> set rest. sent_outcome s' cid)"
      using Cons.IH [OF wf_moves [OF m2 Cons.prems(1)] _ rest(1)] Cons.prems(2) by simp
    moreover obtain l where "ob_log s' = ob_log s2 @ l"
      using ih wf_log wf_moves [OF m2 Cons.prems(1)] by blast
    ultimately show ?thesis
      using moves_trans [OF m2] sent_outcome_mono [OF s2] by (simp add: rest(2))
  next
    case False
    then show ?thesis using Cons.prems(3) one traffic_moves [OF t1] by (auto simp: h)
  qed
qed simp

lemma moves_flushHeld:
  assumes "old \<or> recovers env s"
  shows "moves old s (snd (flushHeld env s))"
proof (cases "recovers env s")
  case True
  have "moves old s (s\<lparr>ob_unacked := fold (\<lambda>(cid, outcome). AList.update cid outcome) (ob_held s) (ob_unacked s), ob_held := []\<rparr>)"
    using set_updates [of "ob_held s" "ob_unacked s"] by (intro moves_merge) auto
  then show ?thesis using True by (simp add: flushHeld_def)
next
  case False
  with assms have old: "old" by simp
  obtain cids s1 where l: "flush_held_loop env (ob_held s) s = (cids, s1)" by fastforce
  have "moves True s (snd (removeJournals cids s1))"
  proof (rule moves_wfI)
    assume wf: "outbox_wf s"
    have f: "moves True s s1" "\<forall>cid \<in> set cids. sent_outcome s1 cid"
      using flush_held_loop_facts [OF wf _ l] wf by (auto simp: outbox_wf_def)
    then show "moves True s (snd (removeJournals cids s1))"
      by (intro moves_trans [OF f(1) moves_removeJournals]) (simp add: released_def)
  qed
  then show ?thesis using False l old by (simp add: flushHeld_def)
qed

lemma flushHeld_peer [simp]: "ob_peer (snd (removeJournals cids s)) = ob_peer s"
  by (induction cids s rule: removeJournals.induct) (auto simp: removeJournal_def split: prod.splits if_splits)

lemma orphanReply_outcome:
  assumes "orphanReply env cid entry = Inr reply"
  shows "is_outcome reply" "outcome_id reply = cid"
proof -
  have "is_outcome reply \<and> outcome_id reply = cid"
  proof (cases "journaledOutcome entry cid")
    case (Some o1)
    then have "is_outcome o1" "outcome_id o1 = cid"
      by (auto simp: journaledOutcome_def outcome_id_def split: option.splits json.splits if_splits)
    then show ?thesis using assms Some by (auto simp: orphanReply_def)
  next
    case None
    then show ?thesis
      using assms by (auto simp: orphanReply_def result_simps Let_def is_outcome_def outcome_id_def obj_get_def)
  qed
  then show "is_outcome reply" "outcome_id reply = cid" by simp_all
qed

lemma set_replies_facts:
  "moves old s (snd (set_replies env keep entries s)) \<and> ob_peer (snd (set_replies env keep entries s)) = ob_peer s"
proof (induction env keep entries s rule: set_replies.induct)
  case (2 env keep cid entry rest s)
  define s1 where "s1 = (case entryRecordedMs env entry of None \<Rightarrow> s
    | Some recorded \<Rightarrow> s\<lparr>ob_keptSince := (ob_keptSince s)(cid := Some recorded)\<rparr>)"
  have m1: "moves old s s1" "ob_peer s1 = ob_peer s"
    by (auto simp: s1_def awaits_def removing_def intro: moves_sameI split: option.splits)
  show ?case
  proof (cases "orphanReply env cid entry")
    case (Inl e)
    then show ?thesis using m1 by (simp add: s1_def [symmetric] Let_def)
  next
    case (Inr reply)
    define s2 where "s2 = (if keep then s1\<lparr>ob_unacked := AList.update cid reply (ob_unacked s1)\<rparr>
      else s1\<lparr>ob_held := AList.update cid reply (ob_held s1)\<rparr>)"
    have "moves old s1 s2"
      using moves_keep [OF orphanReply_outcome(1) [OF Inr]] orphanReply_outcome(2) [OF Inr] by (simp add: s2_def)
    moreover have "moves old s2 (snd (set_replies env keep rest s2)) \<and> ob_peer (snd (set_replies env keep rest s2)) = ob_peer s2"
      using "2.IH" [OF s1_def Inr] unfolding s2_def .
    moreover have "ob_peer s2 = ob_peer s1" by (simp add: s2_def)
    ultimately show ?thesis
      using m1 moves_trans [OF m1(1)] moves_trans Inr by (simp add: s1_def [symmetric] s2_def [symmetric] Let_def)
  qed
qed simp

lemma moves_queue_reply: "moves old s (snd (queue_reply cid entry s))"
  using moves_queueWrite [of old s cid]
  by (auto simp: queue_reply_def split: option.splits prod.splits) (metis snd_conv)

lemma moves_queue_replies: "moves old s (snd (queue_replies entries s))"
proof (induction entries arbitrary: s)
  case (Cons e rest)
  obtain cid entry where e: "e = (cid, entry)" by fastforce
  obtain ts s1 where one: "queue_reply cid entry s = (ts, s1)" by fastforce
  then have "moves old s s1" using moves_queue_reply [of old s cid entry] by simp
  then show ?case using one moves_trans [OF _ Cons.IH [of s1]] by (auto simp: e split: prod.splits)
qed simp

lemma moves_answerOrphans:
  assumes "old \<or> recovers env s"
  shows "moves old s (snd (answerOrphans env entries s))"
proof -
  obtain fine s1 where r: "set_replies env (recovers env s) entries s = (fine, s1)" by fastforce
  have m1: "moves old s s1" and p: "ob_peer s1 = ob_peer s"
    using set_replies_facts [of old s env "recovers env s" entries] r by simp_all
  have "recovers env s1 = recovers env s" by (simp add: recovers_def p)
  then have "moves old s1 (snd (flushHeld env s1))" using assms by (intro moves_flushHeld) simp
  then show ?thesis
    using r m1 moves_trans [OF m1 moves_queue_replies] moves_trans [OF m1]
    by (simp add: answerOrphans_def Let_def split: prod.splits) (metis snd_conv)
qed

lemma moves_note_log: "\<forall>cid. e \<noteq> Started cid \<Longrightarrow> moves old s (note_log e s)"
  by (rule traffic_moves) (auto simp: traffic_def same_work_def note_log_def sent_outcome_def)

lemma noted_log: "ob_log (fold (\<lambda>cid. note_log (f cid)) cids s) = ob_log s @ map f cids"
  by (induction cids arbitrary: s) (simp_all add: note_log_def)

lemma moves_pruneUnacked: "moves old s (snd (pruneUnacked env s))"
  unfolding pruneUnacked_def Let_def
  by (intro moves_trans [OF mv.noted moves_acknowledge_all] moves_note_log) (simp_all add: released_def noted_log)

lemma moves_resendUnacked: "moves old s (resendUnacked env age s)"
  and resendUnacked_peer: "outbox_wf s \<Longrightarrow> ob_peer (resendUnacked env age s) = ob_peer s"
proof -
  have "outbox_wf s \<Longrightarrow> traffic s (resendUnacked env age s)"
    by (auto simp: resendUnacked_def due_outcomes_def Let_def traffic_refl intro!: traffic_sendKept_while
      split: option.splits) (metis UnCI kept_outcome image_eqI snd_conv)
  then show "moves old s (resendUnacked env age s)" "outbox_wf s \<Longrightarrow> ob_peer (resendUnacked env age s) = ob_peer s"
    using moves_wfI traffic_moves by (blast, simp add: traffic_def same_work_def)
qed

lemma moves_noteSessionOpen: "moves old s (noteSessionOpen env ws peer s)"
proof (rule moves_wfI)
  assume wf: "outbox_wf s"
  have p: "moves old s (set_peer peer s)"
    by (rule moves_sameI) (auto simp: set_peer_def awaits_def removing_def split: option.splits)
  define s1 where "s1 = useSocket env ws (set_peer peer s)"
  have m1: "moves old s s1" using moves_trans [OF p traffic_moves [OF traffic_useSocket]] by (simp add: s1_def)
  have "traffic s1 (sendKept_while env (map snd (ob_unacked s1) @ map snd (ob_held s1)) s1)"
    by (rule traffic_sendKept_while) (use kept_outcome [OF wf_moves [OF m1 wf]] in force)
  then have "moves old s1 (scheduleResend (sendKept_while env (map snd (ob_unacked s1) @ map snd (ob_held s1)) s1))"
    using moves_trans [OF traffic_moves moves_scheduleResend] by blast
  then show "moves old s (noteSessionOpen env ws peer s)"
    using p moves_trans [OF m1] by (simp add: noteSessionOpen_def Let_def s1_def [symmetric])
qed

section \<open>One event\<close>

text \<open>
  The control plane confirms results wherever the outbox asks it: at the end of a delivery and at a
  resend it may still be unknown whether it does, at an attach and when orphans are answered it
  must be known.
\<close>

definition confirms :: "ob_env \<Rightarrow> ob_event \<Rightarrow> outbox \<Rightarrow> bool" where
  "confirms env ev s = (case ev of
     Attached ws peer \<Rightarrow> recovers env (set_peer peer s)
   | TimerFires \<Rightarrow> keepsUntilAck env s
   | Resumes w \<Rightarrow> (case snd w of Delivering ws o1 \<Rightarrow> keepsUntilAck env s | FlushRead ws entries \<Rightarrow> recovers env s | _ \<Rightarrow> True)
   | _ \<Rightarrow> True)"

lemma traffic_send_or_throw: "traffic s (snd (send_or_throw env ws m s))"
  by (simp add: send_or_throw_def traffic_refl traffic_trySend)

lemma moves_handleCommandDispatch: "moves old s (handleCommandDispatch env ws cid commandId s)"
proof -
  obtain b s1 where one: "send_or_throw env ws (ack_frame env cid) s = (b, s1)" by fastforce
  obtain c s2 where two: "answerRepeatedDispatch env ws cid commandId s1 = (c, s2)" by fastforce
  have "moves old s s1" using traffic_moves [OF traffic_send_or_throw] one by (metis snd_conv)
  moreover have "moves old s1 s2" using moves_answerRepeatedDispatch [of old s1 env ws cid commandId] two by simp
  ultimately have "moves old s s1" "moves old s s2" using moves_trans by blast+
  then show ?thesis
    using one two moves_trans [OF _ moves_started]
    by (cases b; cases c) (simp_all add: handleCommandDispatch_def)
qed

lemma moves_receive_dispatch: "moves old s (receive_dispatch env ws cid commandId s)"
proof -
  obtain seen ids where k: "seenBefore cid (oe_now env) (ob_seen s) = (seen, ids)" by fastforce
  define s1 where "s1 = s\<lparr>ob_seen := ids\<rparr>"
  have m1: "moves old s s1" by (rule moves_sameI) (simp_all add: s1_def awaits_def removing_def)
  obtain b s2 where one: "send_or_throw env ws (ack_frame env cid) s1 = (b, s2)" by fastforce
  have "moves old s1 s2" using traffic_moves [OF traffic_send_or_throw] one by (metis snd_conv)
  then have "moves old s s2" using moves_trans [OF m1] by blast
  then show ?thesis
    using k one moves_trans [OF m1 moves_handleCommandDispatch] moves_trans [OF _ moves_answerRepeatedDispatch]
    by (cases seen; cases b) (simp_all add: receive_dispatch_def s1_def [symmetric])
qed

lemma moves_flushCommandOutcomes:
  assumes "old \<or> recovers env (set_peer peer s)"
  shows "moves old s (flushCommandOutcomes env ws peer s)"
proof -
  define s1 where "s1 = set_peer peer (useSocket env ws s)"
  have "moves old (useSocket env ws s) s1"
    by (rule moves_sameI) (auto simp: s1_def set_peer_def awaits_def removing_def split: option.splits)
  then have m1: "moves old s s1" using moves_trans [OF traffic_moves [OF traffic_useSocket]] by blast
  have "ob_peer s1 = ob_peer (set_peer peer s)"
    by (auto simp: s1_def set_peer_def useSocket_def note_log_def split: option.splits)
  then have "recovers env (releaseForOlderPeer env s1) = recovers env (set_peer peer s)"
    by (auto simp: recovers_def releaseForOlderPeer_def)
  then have "moves old s (snd (flushHeld env (releaseForOlderPeer env s1)))"
    using assms by (intro moves_trans [OF m1 moves_trans [OF moves_releaseForOlderPeer moves_flushHeld]]) simp
  then show ?thesis
    using moves_trans [OF _ moves_add_task]
    by (auto simp: flushCommandOutcomes_def s1_def [symmetric] split: prod.splits)
qed

lemma moves_resend_timer:
  assumes "old \<or> keepsUntilAck env s"
  shows "moves old s (resend_timer env s)"
proof (rule moves_wfI)
  assume wf: "outbox_wf s"
  define s0 where "s0 = s\<lparr>ob_timer := False\<rparr>"
  have m0: "moves old s s0" by (rule moves_sameI) (simp_all add: s0_def awaits_def removing_def)
  define s1 where "s1 = resendUnacked env (Some RESEND_INTERVAL_MS) s0"
  have m1: "moves old s s1" using moves_trans [OF m0 moves_resendUnacked] by (simp add: s1_def)
  have "ob_peer s1 = ob_peer s"
    using resendUnacked_peer [OF wf_moves [OF m0 wf]] by (simp add: s1_def s0_def)
  then have k: "keepsUntilAck env s1 = keepsUntilAck env s" by (simp add: keepsUntilAck_def recovers_def)
  have "moves old s (if \<not> keepsUntilAck env s1 then snd (flushHeld env s1) else s1)"
  proof (cases "keepsUntilAck env s1")
    case False
    then have "old" using assms k by simp
    then show ?thesis using False moves_trans [OF m1 moves_flushHeld] by simp
  qed (simp add: m1)
  then show "moves old s (resend_timer env s)"
    using moves_trans [OF _ moves_scheduleResend] by (simp add: resend_timer_def s0_def [symmetric] s1_def [symmetric] Let_def)
qed

lemma moves_end_io: "moves old s (end_io t s)"
  by (rule moves_sameI) (auto simp: end_io_def awaits_def removing_def AList.delete_eq)

lemma moves_start_write: "moves old s (start_write env t s)"
proof -
  have "removing (s\<lparr>ob_io := AList.update t (Writing chain cid content) (ob_io s)\<rparr>) c \<Longrightarrow> removing s c" for chain cid content c
    using set_update_subset [of t "Writing chain cid content" "ob_io s"] by (auto simp: removing_def)
  then have "moves old s (s\<lparr>ob_io := AList.update t (Writing chain cid content) (ob_io s)\<rparr>)" for chain cid content
    by (intro moves_sameI) (simp_all add: awaits_def)
  then show ?thesis
    using moves_end_io by (auto simp: start_write_def split: option.splits io.splits)
qed

lemma moves_end_write: "moves old s (end_write t fine s)"
proof -
  have "moves old s (s\<lparr>ob_files := (ob_files s)(cid := Some content)\<rparr>)" for cid content
    by (intro moves_sameI) (auto simp: awaits_def removing_def)
  then show ?thesis
    using moves_end_io moves_trans [OF _ moves_end_io] by (auto simp: end_write_def split: option.splits io.splits)
qed

lemma moves_end_remove: "moves old s (end_remove t fine s)"
proof (cases "\<exists>cid. map_of (ob_io s) t = Some (Removing cid)")
  case True
  then obtain cid where cid: "map_of (ob_io s) t = Some (Removing cid)" by blast
  then have "removing s cid" by (auto simp: removing_def dest: map_of_SomeD)
  then have "moves old s (s\<lparr>ob_files := (ob_files s)(cid := None)\<rparr>)"
    by (auto simp: moves_def outbox_wf_def present_def kept_def delivering_def awaits_def removing_def sent_outcome_def)
  then show ?thesis using cid moves_end_io moves_trans [OF _ moves_end_io] by (simp add: end_remove_def)
qed (auto simp: end_remove_def split: option.splits io.splits)

lemma moves_set_task:
  assumes "\<And>ws o1. snd w \<noteq> Delivering ws o1" "\<And>ws o1. t \<noteq> Delivering ws o1"
  shows "moves old s (set_task w t s)"
  using moves_trans [OF moves_other_task [OF assms(1)] moves_add_task [OF assms(2), of _ _ "[]"]]
  by (simp add: set_task_def add_task_def)

lemma moves_resume_task:
  assumes w: "w \<in> set (ob_tasks s)" and c: "old \<or> confirms env (Resumes w) s"
  shows "moves old s (resume_task env (snd w) (s\<lparr>ob_tasks := remove1 w (ob_tasks s)\<rparr>))" (is "moves old s (resume_task env _ ?s0)")
proof (cases "\<exists>ws o1. snd w = Delivering ws o1")
  case True
  then obtain ts ws o1 where d: "w = (ts, Delivering ws o1)" by (metis prod.collapse)
  then show ?thesis using moves_deliver_journaled [of ts ws o1 s] w c by (simp add: resume_task_def confirms_def)
next
  case False
  then have m0: "moves old s ?s0" by (intro moves_other_task) auto
  have r: "recovers env ?s0 = recovers env s" by (simp add: recovers_def)
  have "moves old ?s0 (resume_task env (snd w) ?s0)"
  proof (cases "snd w")
    case (FlushRead ws entries)
    define es where "es = map (\<lambda>(cid, e). (cid, Option.bind e (\<lambda>x. x))) entries"
    obtain ts s1 where a: "answerOrphans env es ?s0 = (ts, s1)" by fastforce
    have "old \<or> recovers env ?s0" using c FlushRead r by (simp add: confirms_def)
    then have "moves old ?s0 s1" using moves_answerOrphans [of old env ?s0 es] a by simp
    then show ?thesis
      using a moves_trans [OF _ moves_add_task] by (cases ts) (simp_all add: resume_task_def FlushRead es_def [symmetric])
  next
    case (FlushPrune ws)
    obtain ts s1 where a: "pruneUnacked env ?s0 = (ts, s1)" by fastforce
    then have "moves old ?s0 s1" using moves_pruneUnacked [of old ?s0 env] by simp
    then show ?thesis using a moves_trans [OF _ moves_add_task] by (simp add: resume_task_def FlushPrune)
  next
    case (FlushResend ws)
    then show ?thesis using moves_trans [OF moves_resendUnacked moves_scheduleResend] by (simp add: resume_task_def)
  qed (use False moves_add_task in \<open>simp_all add: resume_task_def\<close>)
  then show ?thesis using moves_trans [OF m0] by blast
qed

lemma moves_step:
  assumes "enabled ev s" "ev \<noteq> Killed" "old \<or> confirms env ev s"
  shows "moves old s (outbox_step env ev s)"
proof (cases ev)
  case (Lists w listing)
  then show ?thesis using assms(1) moves_set_task
    by (auto simp: outbox_step_def list_journal_def enabled_def split: task.splits)
next
  case (Reads w cid fine)
  then show ?thesis using assms(1) moves_set_task
    by (auto simp: outbox_step_def read_journal_def enabled_def split: task.splits)
next
  case (AckFrame cid)
  have "moves old (note_log (Confirmed cid) s) (snd (acknowledgeCommandOutcome cid (note_log (Confirmed cid) s)))"
    by (rule moves_acknowledge) (simp add: released_def note_log_def)
  then show ?thesis using moves_trans [OF moves_note_log [of "Confirmed cid"]] by (simp add: AckFrame outbox_step_def)
qed (use assms in \<open>simp_all add: outbox_step_def enabled_def confirms_def [of _ "Attached _ _"] confirms_def [of _ TimerFires]
  moves_receive_dispatch moves_noteCommandProgress moves_deliverCommandOutcome moves_noteSessionOpen
  moves_flushCommandOutcomes moves_resend_timer moves_start_write moves_end_write moves_end_remove moves_resume_task\<close>)

end
