(* ===== verification/Outbox_Runs.thy ===== *)
theory Outbox_Runs
  imports Outbox_Laws
begin

text \<open>
  The outbox over the life of a server: any sequence of frames, results, timers, file operations and
  kills, in any interleaving.
\<close>

section \<open>Runs\<close>

text \<open>The control plane confirms results throughout a run.\<close>

fun confirmed_run :: "(ob_env \<times> ob_event) list \<Rightarrow> outbox \<Rightarrow> bool" where
  "confirmed_run [] s \<longleftrightarrow> True"
| "confirmed_run ((env, ev) # es) s \<longleftrightarrow> confirms env ev s \<and> confirmed_run es (outbox_step env ev s)"

definition sound :: "bool \<Rightarrow> outbox \<Rightarrow> bool" where
  "sound old s \<longleftrightarrow> outbox_wf s \<and> (\<forall>cid. removing s cid \<longrightarrow> released old s cid)"

lemma sound_new_process: "sound old (new_process files n log)"
  by (simp add: sound_def outbox_wf_def removing_def awaits_def new_process_def)

lemma sound_moves:
  assumes "moves old s s'" "sound old s"
  shows "sound old s'"
proof -
  obtain l where l: "ob_log s' = ob_log s @ l" using wf_log [OF assms(1)] assms(2) unfolding sound_def by blast
  show ?thesis
    using assms released_mono [OF _ l] unfolding sound_def moves_def by blast
qed

lemma run_step_induct [consumes 1, case_names start event]:
  assumes "outbox_run es s = Some s'" "P [] s'"
    and "\<And>env ev es s1. outbox_run es (outbox_step env ev s1) = Some s' \<Longrightarrow> enabled ev s1
      \<Longrightarrow> P es (outbox_step env ev s1) \<Longrightarrow> P ((env, ev) # es) s1"
  shows "P es s"
  using assms(1)
proof (induction es s rule: outbox_run.induct)
  case (1 s)
  then show ?case using assms(2) by simp
next
  case (2 env ev es s)
  then show ?case using assms(3) by (auto split: if_splits)
qed

text \<open>A file that was there is there at the end, unless its outcome was released.\<close>

lemma run_keeps_files:
  assumes "outbox_run es s = Some s'" "sound old s" "old \<or> confirmed_run es s"
  shows "sound old s' \<and> (\<exists>l. ob_log s' = ob_log s @ l)
    \<and> (\<forall>cid. ob_files s cid \<noteq> None \<longrightarrow> ob_files s' cid \<noteq> None \<or> released old s' cid)"
  using assms
proof (induction rule: run_step_induct)
  case (event env ev es s1)
  have c: "old \<or> confirms env ev s1" "old \<or> confirmed_run es (outbox_step env ev s1)" using event.prems(2) by auto
  show ?case
  proof (cases "ev = Killed")
    case True
    then have "outbox_step env ev s1 = new_process (ob_files s1) (ob_next s1) (ob_log s1)" by (simp add: outbox_step_def)
    then show ?thesis using event.IH [OF _ c(2)] sound_new_process by (simp add: new_process_def)
  next
    case False
    have m: "moves old s1 (outbox_step env ev s1)" using moves_step [OF event.hyps(2) False c(1)] .
    have ih: "sound old s' \<and> (\<exists>l. ob_log s' = ob_log (outbox_step env ev s1) @ l)
        \<and> (\<forall>cid. ob_files (outbox_step env ev s1) cid \<noteq> None \<longrightarrow> ob_files s' cid \<noteq> None \<or> released old s' cid)"
      using event.IH [OF sound_moves [OF m event.prems(1)] c(2)] .
    then obtain l where l: "ob_log s' = ob_log (outbox_step env ev s1) @ l" by blast
    have wf: "outbox_wf s1" using event.prems(1) by (simp add: sound_def)
    then obtain k where k: "ob_log (outbox_step env ev s1) = ob_log s1 @ k" using wf_log [OF m] by blast
    have "ob_files s1 cid \<noteq> None \<Longrightarrow> ob_files (outbox_step env ev s1) cid \<noteq> None \<or> released old (outbox_step env ev s1) cid" for cid
      using m wf event.prems(1) released_mono [OF _ k] unfolding moves_def sound_def by blast
    then show ?thesis using ih k l released_mono [OF _ l] by (metis append.assoc)
  qed
qed auto

lemma run_accounts:
  assumes "outbox_run es s = Some s'" "outbox_wf s" "old \<or> confirmed_run es s" "Killed \<notin> snd ` set es"
    and "\<forall>cid. Started cid \<in> set (ob_log s) \<longrightarrow> present s cid \<or> released old s cid"
  shows "\<forall>cid. Started cid \<in> set (ob_log s') \<longrightarrow> present s' cid \<or> released old s' cid"
  using assms
proof (induction rule: run_step_induct)
  case (event env ev es s1)
  have m: "moves old s1 (outbox_step env ev s1)"
    using moves_step [OF event.hyps(2)] event.prems(2,3) by auto
  obtain k where k: "ob_log (outbox_step env ev s1) = ob_log s1 @ k"
      "\<forall>cid. Started cid \<in> set k \<longrightarrow> present (outbox_step env ev s1) cid \<or> released old (outbox_step env ev s1) cid"
    using m event.prems(1) unfolding moves_def by blast
  have "\<forall>cid. present s1 cid \<longrightarrow> present (outbox_step env ev s1) cid \<or> released old (outbox_step env ev s1) cid"
    using m event.prems(1) unfolding moves_def by blast
  then have "\<forall>cid. Started cid \<in> set (ob_log (outbox_step env ev s1))
      \<longrightarrow> present (outbox_step env ev s1) cid \<or> released old (outbox_step env ev s1) cid"
    using k event.prems(4) released_mono [OF _ k(1)] by (metis Un_iff set_append)
  then show ?case using event.IH [OF wf_moves [OF m event.prems(1)]] event.prems(2,3) by auto
qed blast

end
