(* ===== verification/Outbox_Promises.thy ===== *)
theory Outbox_Promises
  imports Outbox_Runs
begin

text \<open>
  What the outbox promises about a command, over every run, and the three interleavings in which
  it does less than its comments say.
\<close>

section \<open>No command is lost\<close>

text \<open>C3: A journal entry outlives everything: whatever frames, results, file failures, timers and kills
  come in which order, the file of a command that was on disk is still there at any later moment,
  unless the control plane confirmed the outcome, or it was dropped past the retention bound, or the
  outcome was sent and the control plane was not one that confirms wherever the outbox asked.
\<close>

theorem journal_stays_until_released:
  assumes "outbox_run es (new_process files n log) = Some s1" "outbox_run es' s1 = Some s2"
    and "ob_files s1 cid \<noteq> None"
  shows "ob_files s2 cid \<noteq> None \<or> Confirmed cid \<in> set (ob_log s2) \<or> Dropped cid \<in> set (ob_log s2)
    \<or> sent_outcome s2 cid \<and> \<not> confirmed_run (es @ es') (new_process files n log)"
proof -
  define old where "old \<longleftrightarrow> \<not> confirmed_run (es @ es') (new_process files n log)"
  have split: "confirmed_run (xs @ ys) s \<longleftrightarrow> confirmed_run xs s \<and> confirmed_run ys t"
    if "outbox_run xs s = Some t" for xs ys s t
    using that by (induction rule: run_step_induct) simp_all
  then have c: "old \<or> confirmed_run es (new_process files n log)" "old \<or> confirmed_run es' s1"
    using assms(1) by (auto simp: old_def)
  have "sound old s1" using run_keeps_files [OF assms(1) sound_new_process c(1)] by blast
  then have "ob_files s2 cid \<noteq> None \<or> released old s2 cid"
    using run_keeps_files [OF assms(2) _ c(2)] assms(3) by blast
  then show ?thesis by (auto simp: released_def old_def)
qed

text \<open>C7: No command is forgotten: in every state of a daemon that was not killed, a command it gave to
  its handler runs, or its outcome is being journaled, or its outcome is kept to be sent, or it was
  confirmed, dropped past the retention bound, or sent to a control plane that was not one that
  confirms wherever the outbox asked.
\<close>

theorem started_commands_are_accounted_for:
  assumes "outbox_run es (new_process files n []) = Some s" "Killed \<notin> snd ` set es" "Started cid \<in> set (ob_log s)"
  shows "cid \<in> set (ob_running s) \<or> delivering s cid \<or> kept s cid
    \<or> Confirmed cid \<in> set (ob_log s) \<or> Dropped cid \<in> set (ob_log s)
    \<or> sent_outcome s cid \<and> \<not> confirmed_run es (new_process files n [])"
proof -
  define old where "old \<longleftrightarrow> \<not> confirmed_run es (new_process files n [])"
  have "present s cid \<or> released old s cid"
    using run_accounts [OF assms(1) _ _ assms(2), of old] assms(3) sound_new_process [of False files n "[]"]
    by (auto simp: sound_def old_def new_process_def)
  then show ?thesis by (auto simp: present_def released_def old_def)
qed

section \<open>A command runs once\<close>

text \<open>Only the arrival of a command and a new process touch the ids the client has seen.\<close>

lemma seen_small [simp]:
  "ob_seen (note_log e s) = ob_seen s" "ob_seen (useSocket env ws s) = ob_seen s"
  "ob_seen (snd (burstLeft env s)) = ob_seen s" "ob_seen (noteSent env cid s) = ob_seen s"
  "ob_seen (snd (trySend env p w m s)) = ob_seen s" "ob_seen (scheduleResend s) = ob_seen s"
  "ob_seen (snd (removeJournal cid s)) = ob_seen s" "ob_seen (snd (queueWrite cid kind s)) = ob_seen s"
  "ob_seen (add_task ts t s) = ob_seen s" "ob_seen (set_peer peer s) = ob_seen s"
  "ob_seen (releaseForOlderPeer env s) = ob_seen s" "ob_seen (end_io i s) = ob_seen s" "ob_seen (set_task v t s) = ob_seen s"
  by (simp_all add: note_log_def useSocket_def burstLeft_def noteSent_def trySend_def scheduleResend_def removeJournal_def
    queueWrite_def add_task_def set_peer_def releaseForOlderPeer_def end_io_def set_task_def Let_def split: option.splits)

lemma seen_sends [simp]:
  "ob_seen (snd (sendLive env w m s)) = ob_seen s" "ob_seen (snd (sendKept env m s)) = ob_seen s"
  "ob_seen (snd (sendCommandFrame env v m s)) = ob_seen s" "ob_seen (snd (send_or_throw env v m s)) = ob_seen s"
  by (simp_all add: sendLive_def sendKept_def sendCommandFrame_def send_or_throw_def split_beta split: bool.splits)

interpretation sn: section_law "\<lambda>s s'. ob_seen s' = ob_seen s"
  by unfold_locales simp_all

lemma seen_loops [simp]:
  "ob_seen (sendKept_while env os s) = ob_seen s" "ob_seen (snd (acknowledgeCommandOutcome cid s)) = ob_seen s"
  "ob_seen (snd (acknowledge_all cids s)) = ob_seen s" "ob_seen (snd (removeJournals cids s)) = ob_seen s"
  "ob_seen (snd (set_replies env keep entries s)) = ob_seen s" "ob_seen (snd (queue_reply cid entry s)) = ob_seen s"
  "ob_seen (snd (queue_replies entries s)) = ob_seen s" "ob_seen (snd (flush_held_loop env hs s)) = ob_seen s"
proof -
  show 1: "ob_seen (sendKept_while env os s) = ob_seen s" by (rule sn.sendKept_while) simp
  show 2: "ob_seen (snd (acknowledgeCommandOutcome cid s)) = ob_seen s" for cid s
    by (simp add: acknowledgeCommandOutcome_def)
  show "ob_seen (snd (acknowledge_all cids s)) = ob_seen s"
    by (induction cids arbitrary: s) (simp_all add: Let_def 2 split_beta)
  show "ob_seen (snd (removeJournals cids s)) = ob_seen s"
    by (induction cids arbitrary: s) (simp_all add: Let_def split_beta)
  show "ob_seen (snd (set_replies env keep entries s)) = ob_seen s"
    by (induction env keep entries s rule: set_replies.induct) (simp_all add: Let_def split: option.splits sum.splits)
  show 3: "ob_seen (snd (queue_reply cid entry s)) = ob_seen s" for cid entry s
    by (simp add: queue_reply_def Let_def split_beta split: option.splits)
  show "ob_seen (snd (queue_replies entries s)) = ob_seen s"
    by (induction entries arbitrary: s) (auto simp: Let_def 3 split_beta)
  show "ob_seen (snd (flush_held_loop env hs s)) = ob_seen s"
    by (induction hs arbitrary: s) (auto simp: Let_def split_beta)
qed

lemma seen_sections [simp]:
  "ob_seen (snd (flushHeld env s)) = ob_seen s" "ob_seen (resendUnacked env age s) = ob_seen s"
  "ob_seen (snd (answerOrphans env entries s)) = ob_seen s" "ob_seen (snd (pruneUnacked env s)) = ob_seen s"
  "ob_seen (deliver_journaled env ws o1 s) = ob_seen s" "ob_seen (snd (answerRepeatedDispatch env ws cid k s)) = ob_seen s"
  "ob_seen (markCommandInFlight env cid s) = ob_seen s"
proof -
  show 1: "ob_seen (snd (flushHeld env s)) = ob_seen s" for s by (simp add: flushHeld_def split_beta)
  show "ob_seen (resendUnacked env age s) = ob_seen s" by (simp add: resendUnacked_def split: option.splits)
  show "ob_seen (snd (answerOrphans env entries s)) = ob_seen s"
    by (simp add: answerOrphans_def Let_def split_beta 1)
  show "ob_seen (snd (pruneUnacked env s)) = ob_seen s"
    using sn.noted [of _ Dropped s] by (simp add: pruneUnacked_def Let_def)
  show "ob_seen (deliver_journaled env ws o1 s) = ob_seen s"
    by (simp add: deliver_journaled_def Let_def split_beta)
  show "ob_seen (snd (answerRepeatedDispatch env ws cid k s)) = ob_seen s"
    by (simp add: answerRepeatedDispatch_def Let_def sendOutcome_def split: option.splits)
  show "ob_seen (markCommandInFlight env cid s) = ob_seen s" by (simp add: markCommandInFlight_def)
qed

lemma seen_step:
  assumes "\<And>ws cid k. ev \<noteq> Dispatch ws cid k" "ev \<noteq> Killed"
  shows "ob_seen (outbox_step env ev s) = ob_seen s"
proof (cases ev)
  case (Resumes w)
  then show ?thesis
    by (simp add: outbox_step_def resume_task_def split_beta split: task.splits option.splits)
next
  case (Progress cid progress)
  then show ?thesis by (simp add: outbox_step_def noteCommandProgress_def Let_def split: option.splits)
next
  case (Opened ws peer)
  then show ?thesis by (simp add: outbox_step_def noteSessionOpen_def Let_def)
next
  case TimerFires
  then show ?thesis by (simp add: outbox_step_def resend_timer_def Let_def)
next
  case (Finish ws o1)
  then show ?thesis by (simp add: outbox_step_def deliverCommandOutcome_def Let_def split_beta)
next
  case (Attached ws peer)
  then show ?thesis by (simp add: outbox_step_def flushCommandOutcomes_def Let_def split_beta)
qed (use assms in \<open>simp_all add: outbox_step_def start_write_def end_write_def end_remove_def list_journal_def read_journal_def
  split: option.splits io.splits task.splits\<close>)

lemma evict_holds:
  assumes "now - at < SEEN_TTL_MS" "length post < SEEN_MAX"
  shows "\<exists>pre'. evict now (pre @ (cid, at) # post) = pre' @ (cid, at) # post"
proof (induction pre)
  case (Cons x pre)
  obtain c a where x: "x = (c, a)" by fastforce
  show ?case
  proof (cases "now - a < SEEN_TTL_MS \<and> length ((c, a) # pre @ (cid, at) # post) \<le> SEEN_MAX")
    case True
    then have "evict now ((x # pre) @ (cid, at) # post) = (x # pre) @ (cid, at) # post" by (simp add: x)
    then show ?thesis by blast
  next
    case False
    then show ?thesis using Cons.IH by (auto simp: x)
  qed
qed (use assms in simp)

definition remembers :: "string \<Rightarrow> int \<Rightarrow> nat \<Rightarrow> outbox \<Rightarrow> bool" where
  "remembers cid at k s \<longleftrightarrow> (\<exists>pre post. ob_seen s = pre @ (cid, at) # post \<and> length post \<le> k)"

fun dispatches :: "(ob_env \<times> ob_event) list \<Rightarrow> nat" where
  "dispatches [] = 0"
| "dispatches ((env, ev) # es) = (case ev of Dispatch ws cid k \<Rightarrow> 1 | _ \<Rightarrow> 0) + dispatches es"

lemma seen_dispatch:
  "ob_seen (outbox_step env (Dispatch ws cid k) s) = snd (seenBefore cid (oe_now env) (ob_seen s))"
proof -
  obtain b ids where k: "seenBefore cid (oe_now env) (ob_seen s) = (b, ids)" by fastforce
  have "ob_seen (handleCommandDispatch env ws cid k t) = ob_seen t" for t
    by (simp add: handleCommandDispatch_def split_beta split: bool.splits)
  then show ?thesis
    by (simp add: outbox_step_def receive_dispatch_def k Let_def split_beta split: bool.splits)
qed

lemma remembers_step:
  assumes "remembers cid at k s" "k < SEEN_MAX" "oe_now env - at < SEEN_TTL_MS" "ev \<noteq> Killed"
  shows "remembers cid at (k + dispatches [(env, ev)]) (outbox_step env ev s)"
proof (cases "\<exists>ws c j. ev = Dispatch ws c j")
  case True
  then obtain ws c j where ev: "ev = Dispatch ws c j" by blast
  obtain pre post where p: "ob_seen s = pre @ (cid, at) # post" "length post \<le> k"
    using assms(1) by (auto simp: remembers_def)
  then obtain pre' where e: "evict (oe_now env) (ob_seen s) = pre' @ (cid, at) # post"
    using evict_holds [OF assms(3), of post pre cid] assms(2) by auto
  then have "snd (seenBefore c (oe_now env) (ob_seen s)) \<in> {pre' @ (cid, at) # post, pre' @ (cid, at) # (post @ [(c, oe_now env)])}"
    by (simp add: seenBefore_def Let_def)
  then show ?thesis using p(2) seen_dispatch [of env ws c j s] by (fastforce simp: remembers_def ev)
next
  case False
  then have "ob_seen (outbox_step env ev s) = ob_seen s" using seen_step assms(4) by blast
  moreover have "dispatches [(env, ev)] = 0" using False by (simp split: ob_event.splits)
  ultimately show ?thesis using assms(1) by (simp add: remembers_def)
qed

lemma remembers_run:
  assumes "outbox_run es s = Some s'" "remembers cid at k s" "k + dispatches es < SEEN_MAX"
    and "\<forall>(env, ev) \<in> set es. oe_now env - at < SEEN_TTL_MS \<and> ev \<noteq> Killed"
  shows "remembers cid at (k + dispatches es) s'"
  using assms
proof (induction arbitrary: k rule: run_step_induct)
  case (event env ev es s1)
  have d: "dispatches ((env, ev) # es) = dispatches [(env, ev)] + dispatches es" by simp
  have "remembers cid at (k + dispatches [(env, ev)]) (outbox_step env ev s1)"
    using event.prems d by (intro remembers_step) auto
  then show ?case using event.IH [of "k + dispatches [(env, ev)]"] event.prems d by (simp add: add.assoc)
qed simp

lemma started_is_new:
  assumes "outbox_wf s" "ob_log (outbox_step env (Dispatch ws cid k) s) = ob_log s @ l" "Started cid' \<in> set l"
  shows "\<not> fst (seenBefore cid (oe_now env) (ob_seen s))"
proof
  assume seen: "fst (seenBefore cid (oe_now env) (ob_seen s))"
  define s1 where "s1 = s\<lparr>ob_seen := snd (seenBefore cid (oe_now env) (ob_seen s))\<rparr>"
  obtain b s2 where two: "send_or_throw env ws (ack_frame env cid) s1 = (b, s2)" by fastforce
  have t: "traffic s1 s2" using traffic_send_or_throw [of s1 env ws "ack_frame env cid"] two by simp
  have "outbox_wf s1" using assms(1) by (simp add: outbox_wf_def s1_def awaits_def sent_outcome_def)
  then have "traffic s2 (snd (answerRepeatedDispatch env ws cid k s2))"
    using traffic_answerRepeatedDispatch wf_moves [OF traffic_moves [OF t]] by blast
  then have "traffic s1 (outbox_step env (Dispatch ws cid k) s)"
    using seen t traffic_trans [OF t] two
    by (cases b) (simp_all add: outbox_step_def receive_dispatch_def split_beta s1_def [symmetric])
  then show False using assms(2,3) by (auto simp: traffic_def s1_def)
qed


section \<open>Concrete runs\<close>

definition demo_ob_env :: "bool \<Rightarrow> int \<Rightarrow> ob_env" where
  "demo_ob_env known now = \<lparr>oe_now = now, oe_open = (\<lambda>_. True), oe_takes = (\<lambda>_ _. True), oe_supports = (\<lambda>_ _. known),
     oe_known = (\<lambda>_. Some known), oe_iso = (\<lambda>_. ''t''), oe_dateParse = (\<lambda>_. None), oe_num = (\<lambda>m e. int_text m)\<rparr>"

definition demo_outcome :: fields where
  "demo_outcome = [(''type'', JStr ''command-outcome''), (''id'', JStr ''c''), (''ok'', JBool True)]"

definition demo_entry :: json where
  "demo_entry = JObj [(''v'', JNum 1 0), (''id'', JStr ''c''), (''acceptedAt'', JStr ''t'')]"

lemma demo_entry_read: "json_parse (json_text (\<lambda>m e. int_text m) demo_entry) = Some demo_entry"
  by (rule json_parse_text) code_simp

lemmas outbox_eval = demo_ob_env_def demo_outcome_def demo_entry_def outbox_step_def enabled_def new_process_def receive_dispatch_def
  seenBefore_def handleCommandDispatch_def send_or_throw_def ack_frame_def trySend_def note_log_def
  answerRepeatedDispatch_def useSocket_def markCommandInFlight_def queueWrite_def noteSessionOpen_def set_peer_def
  scheduleResend_def start_write_def write_entry_def entryFor_def UNSAFE_ID_def is_alnum_def is_digit_def is_lower_def is_upper_def
  end_write_def end_io_def flushCommandOutcomes_def flushHeld_def recovers_def releaseForOlderPeer_def add_task_def
  resume_task_def deliverCommandOutcome_def outcome_id_def obj_get_def is_outcome_def list_journal_def orphanedIds_def
  set_task_def read_journal_def readJournalEntry_def first_in_chain_def chain_of_def tickets_done_def
  deliver_journaled_def sendLive_def noteSent_def keepsUntilAck_def answerOrphans_def entryRecordedMs_def orphanReply_def
  journaledOutcome_def interruptedFacts_def interruptedMessage_def releaseNote_def stamped_def queue_reply_def
  removeJournal_def end_remove_def sendKept_def burstLeft_def OUTCOME_BURST_MAX_def RESEND_INTERVAL_MS_def confirms_def
  SEEN_TTL_MS_def SEEN_MAX_def demo_entry_read [unfolded demo_entry_def] Let_def

definition first_run :: "ob_event list" where
  "first_run = [Opened 1 (Some 0), Dispatch 1 ''c'' ''c'', WriteStarts 1, WriteEnds 1 True]"

theorem journal_stays_until_released_witness:
  "\<exists>s1 s2. outbox_run (map (Pair (demo_ob_env True 0)) first_run) (new_process (\<lambda>_. None) 0 []) = Some s1
    \<and> outbox_run [(demo_ob_env True 0, Killed)] s1 = Some s2 \<and> ob_files s1 ''c'' \<noteq> None
    \<and> (ob_files s2 ''c'' \<noteq> None \<or> Confirmed ''c'' \<in> set (ob_log s2) \<or> Dropped ''c'' \<in> set (ob_log s2)
      \<or> sent_outcome s2 ''c'' \<and> \<not> confirmed_run (map (Pair (demo_ob_env True 0)) first_run @ [(demo_ob_env True 0, Killed)])
          (new_process (\<lambda>_. None) 0 []))"
proof -
  obtain s1 where s1: "outbox_run (map (Pair (demo_ob_env True 0)) first_run) (new_process (\<lambda>_. None) 0 []) = Some s1"
      "ob_files s1 ''c'' \<noteq> None"
    by (simp add: first_run_def outbox_eval del: json_text.simps)
  obtain s2 where s2: "outbox_run [(demo_ob_env True 0, Killed)] s1 = Some s2" by (simp add: enabled_def)
  show ?thesis using s1 s2 journal_stays_until_released [OF s1(1) s2 s1(2)] by blast
qed

theorem started_commands_are_accounted_for_witness:
  "\<exists>s. outbox_run (map (Pair (demo_ob_env True 0)) first_run) (new_process (\<lambda>_. None) 0 []) = Some s
    \<and> (''c'' \<in> set (ob_running s) \<or> delivering s ''c'' \<or> kept s ''c''
      \<or> Confirmed ''c'' \<in> set (ob_log s) \<or> Dropped ''c'' \<in> set (ob_log s)
      \<or> sent_outcome s ''c'' \<and> \<not> confirmed_run (map (Pair (demo_ob_env True 0)) first_run) (new_process (\<lambda>_. None) 0 []))"
proof -
  obtain s where s: "outbox_run (map (Pair (demo_ob_env True 0)) first_run) (new_process (\<lambda>_. None) 0 []) = Some s"
      "Started ''c'' \<in> set (ob_log s)"
    by (simp add: first_run_def outbox_eval del: json_text.simps)
  have "Killed \<notin> snd ` set (map (Pair (demo_ob_env True 0)) first_run)" by (simp add: first_run_def)
  then show ?thesis using s started_commands_are_accounted_for [OF s(1) _ s(2)] by blast
qed


section \<open>Three interleavings\<close>

text \<open>
  While the outcome of a finished command is being written to its journal, the command is neither
  running nor kept. An attach that reads the journals at that moment takes it for a command of a
  dead daemon: the kept outcome of a command that succeeded becomes \<open>interrupted\<close>, in memory and
  on disk.
\<close>

lemma attach_interrupts_a_finished_command:
  "\<exists>es s reply. outbox_run (map (Pair (demo_ob_env True 0)) es) (new_process (\<lambda>_. None) 0 []) = Some s
    \<and> confirmed_run (map (Pair (demo_ob_env True 0)) es) (new_process (\<lambda>_. None) 0 [])
    \<and> Finish 1 demo_outcome \<in> set es \<and> Killed \<notin> set es \<and> obj_get demo_outcome ''ok'' = Some (JBool True)
    \<and> ob_unacked s = [(''c'', reply)] \<and> obj_get reply ''ok'' = Some (JBool False)
    \<and> ob_files s ''c'' = Some (json_text (\<lambda>m e. int_text m) (JObj [(''v'', JNum 1 0), (''id'', JStr ''c''),
        (''acceptedAt'', JStr ''t''), (''outcome'', JObj reply), (''journaledAt'', JStr ''t'')]))"
  by (rule exI [of _ "first_run @ [Attached 1 (Some 0), Resumes ([], FlushOpen 1), Finish 1 demo_outcome,
     Lists ([], FlushList 1) (Some [''c'']), Reads ([], FlushRead 1 [(''c'', None)]) ''c'' True, WriteStarts 3, WriteEnds 3 True,
     Resumes ([3], Delivering 1 demo_outcome), Resumes ([], FlushRead 1 [(''c'', Some (Some demo_entry))]),
     WriteStarts 5, WriteEnds 5 True]"]) (simp add: first_run_def outbox_eval outcomeTimeIso_def del: json_text.simps)

text \<open>
  In the same moment a repeated dispatch finds the command neither running nor kept, and once the
  client has forgotten the id (an hour after the first dispatch) it runs a second time.
\<close>

lemma long_command_can_run_twice:
  "\<exists>es s. outbox_run es (new_process (\<lambda>_. None) 0 []) = Some s \<and> confirmed_run es (new_process (\<lambda>_. None) 0 [])
    \<and> Killed \<notin> snd ` set es \<and> filter (\<lambda>e. e = Started ''c'') (ob_log s) = [Started ''c'', Started ''c'']"
  by (rule exI [of _ "map (Pair (demo_ob_env True 0)) first_run
     @ [(demo_ob_env True 3600000, Finish 1 demo_outcome), (demo_ob_env True 3600000, Dispatch 1 ''c'' ''c'')]"]) (simp add: first_run_def outbox_eval del: json_text.simps)

text \<open>
  An attach that has read the journals answers the orphans by what the peer says then. When a new
  socket has opened meanwhile and its features are not known yet, they are sent on it and their
  journals cleared at once, although nothing was confirmed.
\<close>

lemma orphan_cleared_while_features_are_unknown:
  "\<exists>es s. outbox_run es (new_process (\<lambda>cid. if cid = ''c'' then Some (json_text (\<lambda>m e. int_text m) demo_entry) else None) 0 []) = Some s
    \<and> (\<forall>(env, ev) \<in> set es. \<forall>p. oe_supports env p COMMAND_RECOVERY_FEATURE \<or> oe_known env p = Some False)
    \<and> ob_files s ''c'' = None \<and> \<not> kept s ''c'' \<and> Confirmed ''c'' \<notin> set (ob_log s) \<and> Dropped ''c'' \<notin> set (ob_log s)"
  by (rule exI [of _ "map (Pair (demo_ob_env True 0)) [Opened 1 (Some 0), Attached 1 (Some 0), Resumes ([], FlushOpen 1),
     Lists ([], FlushList 1) (Some [''c'']), Reads ([], FlushRead 1 [(''c'', None)]) ''c'' True]
     @ map (Pair (demo_ob_env False 0)) [Opened 2 (Some 0), Resumes ([], FlushRead 1 [(''c'', Some (Some demo_entry))]), RemoveEnds 0 True]"]) (simp add: outbox_eval dom_def kept_def del: json_text.simps)

end
