(* ===== verification/Outbox_Recovery.thy ===== *)
theory Outbox_Recovery
  imports Outbox_Promises
begin

text \<open>
  What happens to a journaled command after its daemon has died: the next attach of a control plane
  that confirms keeps an answer for every journal file, and an outcome that was journaled before
  the death is the answer.
\<close>

section \<open>Reading the journal\<close>

lemma read_tasks: "readJournalEntry (s\<lparr>ob_tasks := ts\<rparr>) cid = readJournalEntry s cid"
  by (simp add: readJournalEntry_def)

lemma update_middle:
  "cid \<notin> fst ` set ds \<Longrightarrow> AList.update cid v (ds @ (cid, w) # rest) = ds @ (cid, v) # rest"
  by (induction ds) auto

lemma read_all:
  assumes "ob_tasks s = [([], FlushRead ws (ds @ map (\<lambda>c. (c, None)) cs))]" "distinct (map fst ds @ cs)"
  shows "\<exists>es. outbox_run (map (Pair env) es) s
    = Some (s\<lparr>ob_tasks := [([], FlushRead ws (ds @ map (\<lambda>c. (c, Some (readJournalEntry s c))) cs))]\<rparr>)"
  using assms
proof (induction cs arbitrary: s ds)
  case Nil
  then show ?case by (intro exI [of _ "[]"]) simp
next
  case (Cons c cs)
  define w where "w = ([] :: nat list, FlushRead ws (ds @ (c, None) # map (\<lambda>c. (c, None)) cs))"
  define s1 where "s1 = s\<lparr>ob_tasks := [([], FlushRead ws ((ds @ [(c, Some (readJournalEntry s c))]) @ map (\<lambda>c. (c, None)) cs))]\<rparr>"
  have new: "c \<notin> fst ` set ds" using Cons.prems(2) by (force simp: image_iff)
  then have none: "map_of ds c = None" by (metis map_of_eq_None_iff)
  have en: "enabled (Reads w c True) s"
    using Cons.prems(1) none by (simp add: enabled_def w_def map_add_def)
  have st: "outbox_step env (Reads w c True) s = s1"
    using Cons.prems(1) update_middle [OF new] by (simp add: outbox_step_def read_journal_def set_task_def w_def s1_def)
  have reads: "readJournalEntry s1 = readJournalEntry s" by (simp add: readJournalEntry_def s1_def fun_eq_iff)
  obtain es where "outbox_run (map (Pair env) es) s1
      = Some (s1\<lparr>ob_tasks := [([], FlushRead ws ((ds @ [(c, Some (readJournalEntry s c))]) @ map (\<lambda>c. (c, Some (readJournalEntry s1 c))) cs))]\<rparr>)"
    using Cons.IH [of s1 "ds @ [(c, Some (readJournalEntry s c))]"] Cons.prems(2) by (auto simp: s1_def)
  then show ?case
    by (intro exI [of _ "Reads w c True # es"]) (simp add: en st reads, simp add: s1_def)
qed

lemma set_replies_keeps:
  assumes "\<forall>cid \<in> set cids. orphanReply env cid (entry cid) = Inr (reply cid)" "distinct cids"
  shows "\<exists>s'. set_replies env True (map (\<lambda>cid. (cid, entry cid)) cids) s = (True, s')
    \<and> (\<forall>cid. map_of (ob_unacked s') cid = (if cid \<in> set cids then Some (reply cid) else map_of (ob_unacked s) cid))
    \<and> ob_tasks s' = ob_tasks s \<and> ob_peer s' = ob_peer s"
  using assms
proof (induction cids arbitrary: s)
  case (Cons c cs)
  define s1 where "s1 = (case entryRecordedMs env (entry c) of None \<Rightarrow> s
    | Some recorded \<Rightarrow> s\<lparr>ob_keptSince := (ob_keptSince s)(c := Some recorded)\<rparr>)"
  define s2 where "s2 = s1\<lparr>ob_unacked := AList.update c (reply c) (ob_unacked s1)\<rparr>"
  have s1: "ob_unacked s1 = ob_unacked s" "ob_tasks s1 = ob_tasks s" "ob_peer s1 = ob_peer s"
    by (simp_all add: s1_def split: option.splits)
  have run: "set_replies env True (map (\<lambda>cid. (cid, entry cid)) (c # cs)) s
      = set_replies env True (map (\<lambda>cid. (cid, entry cid)) cs) s2"
    using Cons.prems(1) by (simp add: s1_def [symmetric] s2_def Let_def)
  obtain s' where s': "set_replies env True (map (\<lambda>cid. (cid, entry cid)) cs) s2 = (True, s')"
      "\<forall>cid. map_of (ob_unacked s') cid = (if cid \<in> set cs then Some (reply cid) else map_of (ob_unacked s2) cid)"
      "ob_tasks s' = ob_tasks s2" "ob_peer s' = ob_peer s2"
    using Cons.IH [of s2] Cons.prems by auto
  have "map_of (ob_unacked s') cid = (if cid \<in> set (c # cs) then Some (reply cid) else map_of (ob_unacked s) cid)" for cid
    using s'(2) Cons.prems(2) by (simp add: s2_def s1 update_conv')
  then show ?case using run s'(1,3,4) s1 by (simp add: s2_def)
qed simp

lemma queue_replies_keeps:
  "ob_unacked (snd (queue_replies entries s)) = ob_unacked s"
proof (induction entries arbitrary: s)
  case (Cons e rest)
  have "ob_unacked (snd (queue_reply cid entry s)) = ob_unacked s" for cid entry
    by (simp add: queue_reply_def queueWrite_def Let_def split: option.splits)
  then show ?case using Cons by (cases e) (simp add: Let_def split_beta)
qed simp

section \<open>The answers\<close>


definition ENTRY_KEYS :: "string list" where
  "ENTRY_KEYS = [''v'', ''id'', ''acceptedAt'', ''outcome'', ''journaledAt'']"

lemma entry_keys: "\<forall>k \<in> set ENTRY_KEYS. \<not> is_array_index k \<and> utf8_valid k"
  by code_simp

text \<open>C29: An outcome that reached its journal is the answer after a restart: what the next daemon reads back
  from the file is the outcome the command ended with, member for member, and the reply is that
  outcome with the time of sending.
\<close>

theorem journaled_outcome_is_the_answer:
  assumes "is_outcome outcome" "obj_get outcome ''id'' = Some (JStr cid)" "\<not> UNSAFE_ID cid"
    and "plain_json num (JObj outcome)" "utf8_valid cid" "num 1 0 = ''1''"
    and "utf8_valid (oe_iso env0 (oe_now env0))" "\<forall>at. ob_acceptedAt s0 cid = Some at \<longrightarrow> utf8_valid at"
    and "ob_files s cid = Some (json_text num (JObj (entryFor env0 s0 cid
      [(''outcome'', JObj outcome), (''journaledAt'', JStr (oe_iso env0 (oe_now env0)))])))"
  shows "orphanReply env cid (readJournalEntry s cid) = Inr (stamped env outcome)"
proof -
  define entry where "entry = entryFor env0 s0 cid
      [(''outcome'', JObj outcome), (''journaledAt'', JStr (oe_iso env0 (oe_now env0)))]"
  have keys: "map fst entry = ENTRY_KEYS" by (simp add: entry_def entryFor_def ENTRY_KEYS_def)
  then have fsts: "fst ` set entry = set ENTRY_KEYS" by (metis list.set_map)
  have names: "object_keys entry = map fst entry" by (rule object_keys_named) (use entry_keys fsts in simp)
  have valid: "utf8_valid k" if "(k, v) \<in> set entry" for k v
  proof -
    have "k \<in> fst ` set entry" using that by force
    then show ?thesis using entry_keys fsts by blast
  qed
  have dist: "distinct (map fst entry)" by (simp add: keys ENTRY_KEYS_def)
  have one: "int_text 1 = ''1''" by code_simp
  have "plain_json num (JObj entry)"
  proof -
    have "plain_json num v" if "(k, v) \<in> set entry" for k v
      using that assms(4-8) one by (auto simp: entry_def entryFor_def split: option.splits)
    then show ?thesis using names dist valid by (auto simp del: object_keys_def)
  qed
  then have "json_parse (json_text num (JObj entry)) = Some (JObj entry)" by (rule json_parse_text)
  then have "readJournalEntry s cid = Some (JObj entry)"
    using assms(3,9) by (simp add: readJournalEntry_def entry_def [symmetric])
  then show ?thesis
    using assms(1,2) by (simp add: orphanReply_def journaledOutcome_def entry_def entryFor_def obj_get_def)
qed


theorem journaled_outcome_is_the_answer_witness:
  "\<exists>files. orphanReply (demo_ob_env True 9) ''c'' (readJournalEntry (new_process files 0 []) ''c'')
    = Inr (stamped (demo_ob_env True 9) demo_outcome)"
proof -
  define s0 where "s0 = new_process (\<lambda>_. None) 0 []"
  define files where "files = (\<lambda>_. None)(''c'' := Some (json_text (\<lambda>m e. int_text m)
      (JObj (entryFor (demo_ob_env True 0) s0 ''c'' [(''outcome'', JObj demo_outcome),
        (''journaledAt'', JStr (oe_iso (demo_ob_env True 0) (oe_now (demo_ob_env True 0))))]))))"
  have o: "is_outcome demo_outcome" "obj_get demo_outcome ''id'' = Some (JStr ''c'')"
    by (simp_all add: is_outcome_def demo_outcome_def obj_get_def)
  have p: "\<not> UNSAFE_ID ''c''" "plain_json (\<lambda>m e. int_text m) (JObj demo_outcome)" "utf8_valid ''c''" "int_text 1 = ''1''"
    by code_simp+
  have "utf8_valid ''t''" by code_simp
  then have t: "utf8_valid (oe_iso (demo_ob_env True 0) (oe_now (demo_ob_env True 0)))" by (simp add: demo_ob_env_def)
  have a: "\<forall>at. ob_acceptedAt s0 ''c'' = Some at \<longrightarrow> utf8_valid at" by (simp add: s0_def new_process_def)
  have f: "ob_files (new_process files 0 []) ''c'' = Some (json_text (\<lambda>m e. int_text m)
      (JObj (entryFor (demo_ob_env True 0) s0 ''c'' [(''outcome'', JObj demo_outcome),
        (''journaledAt'', JStr (oe_iso (demo_ob_env True 0) (oe_now (demo_ob_env True 0))))])))"
    by (simp add: files_def new_process_def del: json_text.simps)
  show ?thesis
    using journaled_outcome_is_the_answer [OF o p(1,2,3) _ t a f] p(4) by (intro exI [of _ files]) simp
qed

end
