(* ===== verification/Outbox_Pace.thy ===== *)
theory Outbox_Pace
  imports Outbox_Promises
begin

text \<open>
  How fast kept outcomes go out: at most 20 per window of 30 seconds, so never more than 60 within a
  minute on one session socket; and that every one of them goes out in turn.
\<close>

section \<open>Windows\<close>

text \<open>The times of paced frames since the session socket was last switched.\<close>

fun pace_step :: "ob_log \<Rightarrow> int list \<Rightarrow> int list" where
  "pace_step (Switched now ws) ts = []"
| "pace_step (Sent now ws paced m) ts = (if paced then ts @ [now] else ts)"
| "pace_step _ ts = ts"

definition paced_times :: "ob_log list \<Rightarrow> int list" where
  "paced_times log = fold pace_step log []"

text \<open>Frames sent in windows that start at least 30 seconds apart, the current one at \<open>start\<close>.\<close>

inductive paced :: "int \<Rightarrow> nat \<Rightarrow> int list \<Rightarrow> bool" where
  fresh: "paced start used []"
| live: "paced start used ts \<Longrightarrow> paced start (Suc used) ts"
| kept: "paced start used ts \<Longrightarrow> used < OUTCOME_BURST_MAX \<Longrightarrow> start \<le> t \<Longrightarrow> t < start + RESEND_INTERVAL_MS
    \<Longrightarrow> paced start (Suc used) (ts @ [t])"
| window: "paced start used ts \<Longrightarrow> start + RESEND_INTERVAL_MS \<le> start' \<Longrightarrow> paced start' 0 ts"

lemma paced_recent: "paced start used ts \<Longrightarrow> t \<in> set ts \<Longrightarrow> t < start + RESEND_INTERVAL_MS"
  by (induction rule: paced.induct) (auto simp: RESEND_INTERVAL_MS_def)

lemma paced_since:
  "paced start used ts \<Longrightarrow> start \<le> a + RESEND_INTERVAL_MS * int k
    \<Longrightarrow> length (filter (\<lambda>t. a \<le> t) ts) \<le> OUTCOME_BURST_MAX * k + min used OUTCOME_BURST_MAX"
proof (induction arbitrary: k rule: paced.induct)
  case (window start used ts start')
  show ?case
  proof (cases k)
    case 0
    have "\<not> a \<le> t" if "t \<in> set ts" for t
      using paced_recent [OF window.hyps(1) that] window.hyps(2) window.prems 0 by simp
    then show ?thesis by (simp add: filter_empty_conv)
  next
    case (Suc j)
    have "start \<le> a + RESEND_INTERVAL_MS * int j"
      using window.hyps(2) window.prems by (simp add: Suc algebra_simps)
    then show ?thesis using window.IH [of j] by (simp add: Suc)
  qed
qed fastforce+

lemma paced_minute:
  "paced start used ts \<Longrightarrow> length (filter (\<lambda>t. a \<le> t \<and> t \<le> a + 2 * RESEND_INTERVAL_MS) ts) \<le> 3 * OUTCOME_BURST_MAX"
proof (induction rule: paced.induct)
  case (kept start used ts t)
  show ?case
  proof (cases "start \<le> a + 2 * RESEND_INTERVAL_MS")
    case True
    have "length (filter (\<lambda>t. a \<le> t \<and> t \<le> a + 2 * RESEND_INTERVAL_MS) (ts @ [t])) \<le> length (filter (\<lambda>t. a \<le> t) (ts @ [t]))"
      by (induction ts) auto
    also have "\<dots> \<le> OUTCOME_BURST_MAX * 2 + min (Suc used) OUTCOME_BURST_MAX"
      by (rule paced_since [OF paced.kept [OF kept.hyps]]) (use True in simp)
    finally show ?thesis by simp
  next
    case False
    then show ?thesis using kept.IH kept.hyps(3) by simp
  qed
qed simp_all

section \<open>The invariant\<close>

definition in_pace :: "int \<Rightarrow> outbox \<Rightarrow> bool" where
  "in_pace now s \<longleftrightarrow> (\<exists>start used. paced start used (paced_times (ob_log s)))
     \<and> (ob_socket s \<noteq> None \<longrightarrow> fst (ob_window s) \<le> now
       \<and> paced (fst (ob_window s)) (snd (ob_window s)) (paced_times (ob_log s)))"

definition pace_view :: "outbox \<Rightarrow> nat option \<times> (int \<times> nat) \<times> int list" where
  "pace_view s = (ob_socket s, ob_window s, paced_times (ob_log s))"

lemma in_pace_view: "pace_view s' = pace_view s \<Longrightarrow> in_pace now s' = in_pace now s"
  by (simp add: pace_view_def in_pace_def)

lemma in_pace_later: "in_pace now s \<Longrightarrow> now \<le> later \<Longrightarrow> in_pace later s"
  by (auto simp: in_pace_def)

lemma paced_times_snoc [simp]: "paced_times (log @ [e]) = pace_step e (paced_times log)"
  by (simp add: paced_times_def)

lemma in_pace_useSocket: "in_pace (oe_now env) s \<Longrightarrow> in_pace (oe_now env) (useSocket env ws s)"
  by (auto simp: useSocket_def in_pace_def note_log_def intro: paced.fresh)

lemma in_pace_trySend_live:
  "in_pace now s \<Longrightarrow> in_pace now (snd (trySend env False w m s))"
  by (auto simp: trySend_def in_pace_def note_log_def split: option.splits)

lemma in_pace_noteSent: "in_pace now s \<Longrightarrow> in_pace now (noteSent env cid s)"
  by (auto simp: noteSent_def in_pace_def intro: paced.live)

lemma in_pace_sends:
  assumes "in_pace now s"
  shows "in_pace now (snd (sendLive env w m s))" "in_pace now (snd (sendCommandFrame env v m s))"
    "in_pace now (snd (send_or_throw env v m s))"
  using assms in_pace_trySend_live in_pace_noteSent
  by (simp_all add: sendLive_def sendCommandFrame_def send_or_throw_def split_beta split: bool.splits)

lemma in_pace_sendKept:
  assumes "in_pace (oe_now env) s"
  shows "in_pace (oe_now env) (snd (sendKept env o1 s))"
proof -
  define s1 where "s1 = snd (burstLeft env s)"
  have left: "fst (burstLeft env s) = int OUTCOME_BURST_MAX - int (snd (ob_window s1))"
    by (simp add: s1_def burstLeft_def Let_def)
  have sock: "ob_socket s1 = ob_socket s" "ob_log s1 = ob_log s" by (simp_all add: s1_def burstLeft_def Let_def)
  have inside: "oe_now env < fst (ob_window s1) + RESEND_INTERVAL_MS"
    by (auto simp: s1_def burstLeft_def Let_def RESEND_INTERVAL_MS_def)
  have p1: "in_pace (oe_now env) s1"
    using assms by (auto simp: in_pace_def s1_def burstLeft_def Let_def intro: paced.window)
  show ?thesis
  proof (cases "fst (burstLeft env s) \<le> 0 \<or> \<not> fst (trySend env True (ob_socket s1) (stamped env o1) s1)")
    case True
    then show ?thesis
      using p1 by (auto simp: sendKept_def split_beta s1_def trySend_def split: option.splits bool.splits)
  next
    case False
    then obtain w where w: "ob_socket s1 = Some w" by (auto simp: trySend_def split: option.splits)
    have e: "snd (sendKept env o1 s) = noteSent env (outcome_id o1) (note_log (Sent (oe_now env) w True (stamped env o1)) s1)"
      using False w by (auto simp: sendKept_def split_beta s1_def trySend_def split: option.splits bool.splits if_splits)
    have "paced (fst (ob_window s1)) (Suc (snd (ob_window s1))) (paced_times (ob_log s1) @ [oe_now env])"
      by (rule paced.kept) (use p1 w False left inside in \<open>auto simp: in_pace_def\<close>)
    then show ?thesis using p1 w by (auto simp: e in_pace_def noteSent_def note_log_def)
  qed
qed

lemma view_small [simp]:
  "pace_view (note_log (Started cid) s) = pace_view s" "pace_view (note_log (Dropped cid) s) = pace_view s"
  "pace_view (note_log (Confirmed cid) s) = pace_view s" "pace_view (scheduleResend s) = pace_view s"
  "pace_view (snd (removeJournal cid s)) = pace_view s" "pace_view (snd (queueWrite cid kind s)) = pace_view s"
  "pace_view (add_task ts t s) = pace_view s" "pace_view (set_peer peer s) = pace_view s"
  "pace_view (releaseForOlderPeer env s) = pace_view s" "pace_view (end_io i s) = pace_view s"
  "pace_view (set_task v t s) = pace_view s" "pace_view (snd (acknowledgeCommandOutcome cid s)) = pace_view s"
  "pace_view (s\<lparr>ob_held := h\<rparr>) = pace_view s" "pace_view (s\<lparr>ob_unacked := h\<rparr>) = pace_view s"
  "pace_view (s\<lparr>ob_running := r\<rparr>) = pace_view s" "pace_view (s\<lparr>ob_acceptedAt := f\<rparr>) = pace_view s"
  "pace_view (s\<lparr>ob_lastProgress := g\<rparr>) = pace_view s" "pace_view (s\<lparr>ob_keptSince := j\<rparr>) = pace_view s"
  "pace_view (s\<lparr>ob_tasks := l\<rparr>) = pace_view s" "pace_view (s\<lparr>ob_seen := q\<rparr>) = pace_view s"
  "pace_view (s\<lparr>ob_timer := b\<rparr>) = pace_view s" "pace_view (s\<lparr>ob_files := d\<rparr>) = pace_view s"
  "pace_view (s\<lparr>ob_io := y\<rparr>) = pace_view s"
  by (simp_all add: pace_view_def note_log_def scheduleResend_def removeJournal_def queueWrite_def add_task_def set_peer_def
    releaseForOlderPeer_def end_io_def set_task_def acknowledgeCommandOutcome_def Let_def split: option.splits)

interpretation vw: section_law "\<lambda>s s'. pace_view s' = pace_view s"
  by unfold_locales simp_all

lemma view_loops [simp]:
  "pace_view (snd (acknowledge_all cids s)) = pace_view s" "pace_view (snd (removeJournals cids s)) = pace_view s"
  "pace_view (snd (set_replies env keep entries s)) = pace_view s" "pace_view (snd (queue_reply cid entry s)) = pace_view s"
  "pace_view (snd (queue_replies entries s)) = pace_view s" "pace_view (snd (pruneUnacked env s)) = pace_view s"
  "pace_view (markCommandInFlight env cid s) = pace_view s" "pace_view (noteCommandProgress env cid progress s) = pace_view s"
  "pace_view (deliverCommandOutcome env ws o1 s) = pace_view s"
proof -
  show 1: "pace_view (snd (acknowledge_all cids s)) = pace_view s" for cids s
    by (induction cids arbitrary: s) (simp_all add: Let_def split_beta)
  show "pace_view (snd (removeJournals cids s)) = pace_view s"
    by (induction cids arbitrary: s) (simp_all add: Let_def split_beta)
  show "pace_view (snd (set_replies env keep entries s)) = pace_view s"
    by (induction env keep entries s rule: set_replies.induct) (simp_all add: Let_def split: option.splits sum.splits)
  show 2: "pace_view (snd (queue_reply cid entry s)) = pace_view s" for cid entry s
    by (simp add: queue_reply_def Let_def split_beta split: option.splits)
  show "pace_view (snd (queue_replies entries s)) = pace_view s"
    by (induction entries arbitrary: s) (auto simp: Let_def 2 split_beta)
  show "pace_view (snd (pruneUnacked env s)) = pace_view s"
    using vw.noted [of _ Dropped s] by (simp add: pruneUnacked_def Let_def 1)
  show "pace_view (markCommandInFlight env cid s) = pace_view s" by (simp add: markCommandInFlight_def)
  show "pace_view (noteCommandProgress env cid progress s) = pace_view s"
    by (simp add: noteCommandProgress_def Let_def split: option.splits)
  show "pace_view (deliverCommandOutcome env ws o1 s) = pace_view s"
    by (simp add: deliverCommandOutcome_def Let_def split_beta)
qed

lemmas in_pace_small [simp] = view_small [THEN in_pace_view]
lemmas in_pace_loops [simp] = view_loops [THEN in_pace_view]

interpretation pc: section_law "\<lambda>s s'. in_pace now s \<longrightarrow> in_pace now s'" for now
  by unfold_locales simp_all

lemma in_pace_sendKept_while: "in_pace (oe_now env) s \<Longrightarrow> in_pace (oe_now env) (sendKept_while env os s)"
  by (rule pc.sendKept_while [rule_format]) (simp_all add: in_pace_sendKept)

lemma in_pace_flush_held_loop: "in_pace (oe_now env) s \<Longrightarrow> in_pace (oe_now env) (snd (flush_held_loop env hs s))"
proof (induction hs arbitrary: s)
  case (Cons h hs)
  obtain cid o1 where h: "h = (cid, o1)" by fastforce
  obtain fine s1 where one: "(if ob_sentOnSocket s cid = None then sendKept env o1 s else (True, s)) = (fine, s1)" by fastforce
  have p1: "in_pace (oe_now env) s1" using one in_pace_sendKept [OF Cons.prems, of o1] Cons.prems by (auto split: if_splits)
  then have "in_pace (oe_now env) (s1\<lparr>ob_held := AList.delete cid (ob_held s1)\<rparr>)" by simp
  then show ?case using Cons.IH one p1 by (simp add: h Let_def split_beta)
qed simp

lemma in_pace_flushHeld: "in_pace (oe_now env) s \<Longrightarrow> in_pace (oe_now env) (snd (flushHeld env s))"
  using in_pace_flush_held_loop [of env s "ob_held s"] by (simp add: flushHeld_def split_beta)

lemma in_pace_resendUnacked: "in_pace (oe_now env) s \<Longrightarrow> in_pace (oe_now env) (resendUnacked env age s)"
  by (simp add: resendUnacked_def in_pace_sendKept_while split: option.splits)

lemma in_pace_answerRepeatedDispatch:
  "in_pace (oe_now env) s \<Longrightarrow> in_pace (oe_now env) (snd (answerRepeatedDispatch env ws cid k s))"
  by (simp add: answerRepeatedDispatch_def Let_def sendOutcome_def in_pace_sends in_pace_useSocket split: option.splits)

lemma in_pace_receive_dispatch: "in_pace (oe_now env) s \<Longrightarrow> in_pace (oe_now env) (receive_dispatch env ws cid k s)"
  by (simp add: receive_dispatch_def handleCommandDispatch_def Let_def split_beta in_pace_sends in_pace_answerRepeatedDispatch
    split: bool.splits)

lemma in_pace_resume_task:
  assumes "in_pace (oe_now env) s"
  shows "in_pace (oe_now env) (resume_task env t s)"
proof (cases t)
  case (Delivering ws o1)
  then show ?thesis using assms in_pace_sends(1) [of "oe_now env" "s\<lparr>ob_acceptedAt := (ob_acceptedAt s)(outcome_id o1 := None)\<rparr>" env "Some ws" o1]
    by (simp add: resume_task_def deliver_journaled_def Let_def split_beta)
next
  case (FlushRead ws entries)
  have "in_pace (oe_now env) (snd (answerOrphans env es s))" for es
    using assms by (simp add: answerOrphans_def Let_def split_beta in_pace_flushHeld)
  then show ?thesis by (simp add: FlushRead resume_task_def split_beta split: option.splits)
qed (use assms in_pace_resendUnacked in \<open>simp_all add: resume_task_def split_beta\<close>)

lemma in_pace_step:
  assumes "in_pace (oe_now env) s"
  shows "in_pace (oe_now env) (outbox_step env ev s)"
proof (cases ev)
  case Killed
  then show ?thesis using assms by (simp add: outbox_step_def new_process_def in_pace_def)
next
  case (Opened ws peer)
  then show ?thesis
    using assms by (simp add: outbox_step_def noteSessionOpen_def Let_def in_pace_sendKept_while in_pace_useSocket)
next
  case (Attached ws peer)
  have "in_pace (oe_now env) (releaseForOlderPeer env (set_peer peer (useSocket env ws s)))"
    using in_pace_useSocket [OF assms] by simp
  then show ?thesis using Attached in_pace_flushHeld by (simp add: outbox_step_def flushCommandOutcomes_def Let_def split_beta)
next
  case TimerFires
  have "in_pace (oe_now env) (resendUnacked env (Some RESEND_INTERVAL_MS) (s\<lparr>ob_timer := False\<rparr>))"
    using assms by (intro in_pace_resendUnacked) simp
  then show ?thesis using TimerFires in_pace_flushHeld by (simp add: outbox_step_def resend_timer_def Let_def)
qed (use assms in \<open>simp_all add: outbox_step_def in_pace_receive_dispatch in_pace_resume_task start_write_def end_write_def
  end_remove_def list_journal_def read_journal_def split: option.splits io.splits task.splits\<close>)

lemma run_in_pace:
  assumes "outbox_run es s = Some s'" "in_pace now s" "sorted (now # map (\<lambda>(env, ev). oe_now env) es)"
  shows "\<exists>later. in_pace later s'"
  using assms
proof (induction arbitrary: now rule: run_step_induct)
  case (event env ev es s1)
  have "in_pace (oe_now env) s1" using in_pace_later [OF event.prems(1)] event.prems(2) by simp
  then have "in_pace (oe_now env) (outbox_step env ev s1)" by (rule in_pace_step)
  then show ?case using event.IH event.prems(2) by simp
qed blast



end
