(* ===== verification/Outbox_Resend.thy ===== *)
theory Outbox_Resend
  imports Outbox_Pace "HOL-Library.Multiset"
begin

text \<open>
  The bound on what is kept, and the order of resends: the oldest outcomes are dropped first, and
  those that have waited longest are sent first, so that with an open socket every unconfirmed
  outcome goes out again in turn.
\<close>

section \<open>Sorted lists\<close>

lemma sorted_split:
  "sorted (map f xs) \<Longrightarrow> filter (\<lambda>x. f x < c) xs @ filter (\<lambda>x. \<not> f x < c) xs = xs"
proof (induction xs)
  case (Cons x xs)
  then show ?case
  proof (cases "f x < c")
    case False
    then have "\<not> f y < c" if "y \<in> set xs" for y using Cons.prems that by fastforce
    then show ?thesis using False by (simp add: filter_empty_conv filter_id_conv)
  qed simp
qed simp

lemma take_sorted_small:
  fixes f :: "'a \<Rightarrow> 'b :: linorder"
  assumes "sorted (map f xs)"
  shows "length (filter (\<lambda>x. f x < c) (drop m xs)) = length (filter (\<lambda>x. f x < c) xs) - m"
proof -
  define small big where "small = filter (\<lambda>x. f x < c) xs" and "big = filter (\<lambda>x. \<not> f x < c) xs"
  have xs: "xs = small @ big" using sorted_split [OF assms] by (simp add: small_def big_def)
  have "filter (\<lambda>x. f x < c) (drop m big) = []"
    by (auto simp: filter_empty_conv big_def dest: in_set_dropD)
  moreover have "filter (\<lambda>x. f x < c) (drop m small) = drop m small"
    by (auto simp: filter_id_conv small_def dest: in_set_dropD)
  moreover have "filter (\<lambda>x. f x < c) (drop (m - length small) big) = []"
    by (auto simp: filter_empty_conv big_def dest: in_set_dropD)
  ultimately have "filter (\<lambda>x. f x < c) (drop m xs) = drop m small" by (simp add: xs)
  then show ?thesis by (simp add: small_def)
qed

section \<open>What is dropped\<close>

lemma acknowledge_all_unacked:
  assumes "\<forall>cid \<in> set cids. cid \<notin> set (ob_running s)"
  shows "ob_unacked (snd (acknowledge_all cids s)) = filter (\<lambda>(cid, o1). cid \<notin> set cids) (ob_unacked s)"
  using assms
proof (induction cids arbitrary: s)
  case (Cons c cs)
  define s1 where "s1 = snd (acknowledgeCommandOutcome c s)"
  have s1: "ob_unacked s1 = filter (\<lambda>(cid, o1). cid \<noteq> c) (ob_unacked s)" "ob_running s1 = ob_running s"
    using Cons.prems by (auto simp: s1_def acknowledgeCommandOutcome_def removeJournal_def AList.delete_eq intro: filter_cong)
  have "ob_unacked (snd (acknowledge_all (c # cs) s)) = ob_unacked (snd (acknowledge_all cs s1))"
    by (simp add: Let_def split_beta s1_def)
  also have "\<dots> = filter (\<lambda>(cid, o1). cid \<notin> set cs) (ob_unacked s1)" using Cons by (simp add: s1)
  finally show ?case by (auto simp: s1 intro: filter_cong)
qed simp

lemma noted_work [simp]:
  "ob_unacked (fold (\<lambda>cid. note_log (f cid)) cids s) = ob_unacked s"
  "ob_running (fold (\<lambda>cid. note_log (f cid)) cids s) = ob_running s"
  by (induction cids arbitrary: s) (simp_all add: note_log_def)

definition too_old :: "ob_env \<Rightarrow> outbox \<Rightarrow> string \<Rightarrow> bool" where
  "too_old env s cid \<longleftrightarrow> (case recordedAtMs env s cid of None \<Rightarrow> False | Some at \<Rightarrow> at < oe_now env - UNACKED_RETENTION_MS)"

lemma drop_parts:
  assumes "distinct (map fst (ob_unacked s))"
  shows "\<exists>over rest. outcomes_to_drop env s = filter (too_old env s) (map fst (ob_unacked s)) @ over
    \<and> set over \<union> set rest = {cid \<in> fst ` set (ob_unacked s). \<not> too_old env s cid} \<and> set over \<inter> set rest = {}
    \<and> length rest \<le> UNACKED_MAX_ENTRIES \<and> (\<forall>a \<in> set over. \<forall>b \<in> set rest. recordedAtMs env s a \<le> recordedAtMs env s b)"
proof -
  define cids where "cids = map fst (ob_unacked s)"
  define stale where "stale = filter (too_old env s) cids"
  define young where "young = sort_key (recordedAtMs env s) (filter (\<lambda>cid. \<not> too_old env s cid) cids)"
  define k where "k = length cids - length stale - UNACKED_MAX_ENTRIES"
  have f: "filter (\<lambda>cid. cid \<notin> set stale) cids = filter (\<lambda>cid. \<not> too_old env s cid) cids"
    by (auto simp: stale_def intro: filter_cong)
  have g: "(\<lambda>cid. case recordedAtMs env s cid of None \<Rightarrow> False | Some at \<Rightarrow> at < oe_now env - UNACKED_RETENTION_MS) = too_old env s"
    by (simp add: too_old_def fun_eq_iff)
  have d: "outcomes_to_drop env s = stale @ take k young"
    unfolding outcomes_to_drop_def Let_def cids_def [symmetric] g stale_def [symmetric] f young_def [symmetric] k_def [symmetric] ..
  have "length young = length cids - length stale"
    using sum_length_filter_compl [of "too_old env s" cids] by (simp add: young_def stale_def)
  then have len: "length (drop k young) \<le> UNACKED_MAX_ENTRIES" by (simp add: k_def)
  have dist: "distinct young" using assms by (simp add: young_def cids_def)
  have srt: "sorted (map (recordedAtMs env s) (take k young @ drop k young))" by (simp add: young_def)
  have "set (take k young) \<union> set (drop k young) = {cid \<in> fst ` set (ob_unacked s). \<not> too_old env s cid}"
    unfolding set_append [symmetric] append_take_drop_id by (auto simp: young_def cids_def)
  moreover have "set (take k young) \<inter> set (drop k young) = {}"
    using dist by (metis append_take_drop_id distinct_append)
  moreover have "\<forall>a \<in> set (take k young). \<forall>b \<in> set (drop k young). recordedAtMs env s a \<le> recordedAtMs env s b"
    using srt unfolding map_append sorted_append by auto
  ultimately show ?thesis using d len unfolding stale_def cids_def by blast
qed


section \<open>Who is sent\<close>

definition sentAt :: "outbox \<Rightarrow> string \<Rightarrow> int" where
  "sentAt s cid = (case ob_sentOnSocket s cid of Some at \<Rightarrow> at | None \<Rightarrow> -1)"

definition takes_all :: "ob_env \<Rightarrow> nat \<Rightarrow> bool" where
  "takes_all env ws \<longleftrightarrow> oe_open env ws \<and> (\<forall>m. oe_takes env ws m)"

text \<open>The frames of one section, with what they leave of the session.\<close>

definition sent_now :: "ob_env \<Rightarrow> nat \<Rightarrow> fields list \<Rightarrow> outbox \<Rightarrow> outbox \<Rightarrow> bool" where
  "sent_now env ws os s s' \<longleftrightarrow> ob_unacked s' = ob_unacked s \<and> ob_socket s' = ob_socket s \<and> ob_peer s' = ob_peer s
     \<and> ob_sentOnSocket s' = (\<lambda>cid. if cid \<in> outcome_id ` set os then Some (oe_now env) else ob_sentOnSocket s cid)
     \<and> ob_log s' = ob_log s @ map (\<lambda>o1. Sent (oe_now env) ws True (stamped env o1)) os
     \<and> (fst (ob_window s') = oe_now env \<or> os = [] \<and> ob_window s' = ob_window s)"

lemma sendKept_in_window:
  assumes "ob_socket s = Some ws" "takes_all env ws" "ob_window s = (oe_now env, u)" "u < OUTCOME_BURST_MAX"
  shows "sendKept env o1 s = (True, noteSent env (outcome_id o1) (note_log (Sent (oe_now env) ws True (stamped env o1)) s))"
  using assms by (simp add: sendKept_def burstLeft_def trySend_def takes_all_def Let_def RESEND_INTERVAL_MS_def)

lemma sendKept_while_in_window:
  assumes "ob_socket s = Some ws" "takes_all env ws" "ob_window s = (oe_now env, u)"
  shows "sent_now env ws (take (OUTCOME_BURST_MAX - u) os) s (sendKept_while env os s)"
  using assms
proof (induction os arbitrary: s u)
  case Nil
  then show ?case by (simp add: sent_now_def)
next
  case (Cons o1 os)
  show ?case
  proof (cases "u < OUTCOME_BURST_MAX")
    case True
    define s1 where "s1 = noteSent env (outcome_id o1) (note_log (Sent (oe_now env) ws True (stamped env o1)) s)"
    have "sendKept_while env (o1 # os) s = sendKept_while env os s1"
      using sendKept_in_window [OF Cons.prems True] by (simp add: s1_def)
    moreover have "sent_now env ws (take (OUTCOME_BURST_MAX - Suc u) os) s1 (sendKept_while env os s1)"
      using Cons.IH [of s1 "Suc u"] Cons.prems by (simp add: s1_def noteSent_def note_log_def)
    moreover have "take (OUTCOME_BURST_MAX - u) (o1 # os) = o1 # take (OUTCOME_BURST_MAX - Suc u) os"
      using True by (metis Suc_diff_Suc take_Suc_Cons)
    ultimately show ?thesis
      using Cons.prems(3) by (auto simp: sent_now_def s1_def noteSent_def note_log_def)
  next
    case False
    have "sendKept env o1 s = (False, s)"
      using False Cons.prems by (simp add: sendKept_def burstLeft_def Let_def RESEND_INTERVAL_MS_def)
    then show ?thesis using False Cons.prems(3) by (simp add: sent_now_def)
  qed
qed

lemma sendKept_while_new_window:
  assumes "ob_socket s = Some ws" "takes_all env ws" "fst (ob_window s) + RESEND_INTERVAL_MS \<le> oe_now env"
  shows "sent_now env ws (take OUTCOME_BURST_MAX os) s (sendKept_while env os s)"
proof (cases os)
  case Nil
  then show ?thesis by (simp add: sent_now_def)
next
  case (Cons o1 rest)
  define s0 where "s0 = s\<lparr>ob_window := (oe_now env, 0)\<rparr>"
  have "sendKept env o1 s = sendKept env o1 s0"
    using assms(3) by (simp add: sendKept_def burstLeft_def s0_def Let_def RESEND_INTERVAL_MS_def)
  then have e: "sendKept_while env os s = sendKept_while env os s0" by (simp add: Cons)
  have "sent_now env ws (take OUTCOME_BURST_MAX os) s0 (sendKept_while env os s0)"
    using sendKept_while_in_window [of s0 ws env 0 os] assms(1,2) by (simp add: s0_def)
  moreover have "OUTCOME_BURST_MAX \<noteq> 0" by (simp add: OUTCOME_BURST_MAX_def)
  ultimately show ?thesis unfolding e by (auto simp: sent_now_def s0_def Cons)
qed

section \<open>Rounds\<close>

text \<open>
  Between two rounds: nothing was sent after \<open>latest\<close>, and what was sent since \<open>first\<close> is in the log.
\<close>

definition between :: "nat \<Rightarrow> int \<Rightarrow> int \<Rightarrow> outbox \<Rightarrow> bool" where
  "between ws first latest s \<longleftrightarrow> outbox_wf s \<and> distinct (map fst (ob_unacked s)) \<and> ob_socket s = Some ws \<and> ob_timer s
     \<and> ob_unacked s \<noteq> [] \<and> fst (ob_window s) \<le> latest \<and> (\<forall>cid at. ob_sentOnSocket s cid = Some at \<longrightarrow> at \<le> latest)
     \<and> (\<forall>cid at. ob_sentOnSocket s cid = Some at \<longrightarrow> first \<le> at
          \<longrightarrow> (\<exists>m. Sent at ws True m \<in> set (ob_log s) \<and> is_outcome m \<and> outcome_id m = cid))"

definition waiting :: "int \<Rightarrow> outbox \<Rightarrow> nat" where
  "waiting first s = length (filter (\<lambda>o1. sentAt s (outcome_id o1) < first) (map snd (ob_unacked s)))"

lemma waiting_after:
  assumes sent: "sent_now env ws (take m ds) s s'" and ds: "mset ds = mset (map snd (ob_unacked s))"
    and "sorted (map (\<lambda>o1. sentAt s (outcome_id o1)) ds)" "distinct (map outcome_id ds)" "first \<le> oe_now env"
  shows "waiting first s' = waiting first s - m"
proof -
  have at: "sentAt s' (outcome_id o1) = oe_now env" if "o1 \<in> set (take m ds)" for o1
    using that sent by (simp add: sentAt_def sent_now_def)
  have disj: "outcome_id ` set (take m ds) \<inter> outcome_id ` set (drop m ds) = {}"
    using assms(4) append_take_drop_id [of m ds] by (metis distinct_append list.set_map map_append)
  then have other: "sentAt s' (outcome_id o1) = sentAt s (outcome_id o1)" if "o1 \<in> set (drop m ds)" for o1
    using that sent by (auto simp: sentAt_def sent_now_def)
  have count: "length (filter P (map snd (ob_unacked s))) = length (filter P ds)" for P
    using ds by (metis mset_filter size_mset)
  have "waiting first s' = length (filter (\<lambda>o1. sentAt s' (outcome_id o1) < first) (take m ds @ drop m ds))"
    using sent count by (simp add: waiting_def sent_now_def)
  also have "\<dots> = length (filter (\<lambda>o1. sentAt s' (outcome_id o1) < first) (drop m ds))"
    using at assms(5) by (simp only: filter_append length_append) (auto simp: filter_empty_conv)
  also have "\<dots> = length (filter (\<lambda>o1. sentAt s (outcome_id o1) < first) (drop m ds))"
    using other by (metis (mono_tags, lifting) filter_cong)
  also have "\<dots> = waiting first s - m"
    using take_sorted_small [OF assms(3), of first m] count by (simp add: waiting_def)
  finally show ?thesis .
qed

lemma due_is_sorted:
  assumes "\<And>cid at. ob_sentOnSocket s cid = Some at \<Longrightarrow> at + RESEND_INTERVAL_MS \<le> oe_now env"
  shows "due_outcomes env (Some RESEND_INTERVAL_MS) s = sort_key (\<lambda>o1. sentAt s (outcome_id o1)) (map snd (ob_unacked s))"
proof -
  have all: "ob_sentOnSocket s (outcome_id o1) = None \<or> RESEND_INTERVAL_MS \<le> oe_now env - sentAt s (outcome_id o1)" for o1
    using assms by (cases "ob_sentOnSocket s (outcome_id o1)") (force simp: sentAt_def)+
  have "due_outcomes env (Some RESEND_INTERVAL_MS) s = sort_key (\<lambda>o1. sentAt s (outcome_id o1))
      (filter (\<lambda>o1. ob_sentOnSocket s (outcome_id o1) = None \<or> RESEND_INTERVAL_MS \<le> oe_now env - sentAt s (outcome_id o1))
        (map snd (ob_unacked s)))"
    by (simp add: due_outcomes_def sentAt_def Let_def)
  then show ?thesis using all by (simp add: filter_True)
qed

lemma resend_round:
  assumes b: "between ws first latest s" and env: "takes_all env ws" "keepsUntilAck env s"
    and t: "latest + RESEND_INTERVAL_MS \<le> oe_now env" "first \<le> oe_now env"
  shows "between ws first (oe_now env) (resend_timer env s) \<and> ob_unacked (resend_timer env s) = ob_unacked s
    \<and> ob_peer (resend_timer env s) = ob_peer s \<and> waiting first (resend_timer env s) = waiting first s - OUTCOME_BURST_MAX"
proof -
  have wf: "outbox_wf s" using b by (simp add: between_def)
  define s0 where "s0 = s\<lparr>ob_timer := False\<rparr>"
  define ds where "ds = sort_key (\<lambda>o1. sentAt s0 (outcome_id o1)) (map snd (ob_unacked s0))"
  define s1 where "s1 = sendKept_while env ds s0"
  have old: "at + RESEND_INTERVAL_MS \<le> oe_now env" if "ob_sentOnSocket s0 cid = Some at" for cid at
    using that b t(1) by (fastforce simp: between_def s0_def)
  have r: "resendUnacked env (Some RESEND_INTERVAL_MS) s0 = s1"
    using b env(1) due_is_sorted [of s0 env, OF old]
    by (simp add: resendUnacked_def s1_def ds_def between_def s0_def takes_all_def)
  have sent: "sent_now env ws (take OUTCOME_BURST_MAX ds) s0 s1"
    unfolding s1_def by (rule sendKept_while_new_window) (use b env t in \<open>auto simp: between_def s0_def\<close>)
  have "keepsUntilAck env s1" using sent env(2) by (simp add: sent_now_def keepsUntilAck_def recovers_def s0_def)
  then have e: "resend_timer env s = scheduleResend s1" by (simp add: resend_timer_def s0_def [symmetric] r Let_def)
  define s' where "s' = resend_timer env s"
  have s': "ob_unacked s' = ob_unacked s" "ob_peer s' = ob_peer s" "ob_socket s' = Some ws" "ob_timer s'"
      "ob_sentOnSocket s' = ob_sentOnSocket s1" "ob_log s' = ob_log s1" "ob_window s' = ob_window s1"
    using sent b by (auto simp: s'_def e scheduleResend_def sent_now_def s0_def between_def)
  have outs: "is_outcome o1" if "o1 \<in> set ds" for o1
    using that kept_outcome [OF wf] by (auto simp: ds_def s0_def)
  have ids: "map outcome_id (map snd (ob_unacked s)) = map fst (ob_unacked s)"
    unfolding map_map by (rule map_cong [OF refl]) (use outbox_wfD [OF wf] in force)
  have perm: "mset ds = mset (map snd (ob_unacked s0))" by (simp add: ds_def)
  have dist: "distinct (map outcome_id ds)"
  proof -
    have "mset (map outcome_id ds) = mset (map fst (ob_unacked s))"
      unfolding ids [symmetric] mset_map using perm by (simp add: s0_def)
    then show ?thesis using b by (metis between_def mset_eq_imp_distinct_iff)
  qed
  have srt: "sorted (map (\<lambda>o1. sentAt s0 (outcome_id o1)) ds)" by (simp add: ds_def)
  have "waiting first s1 = waiting first s0 - OUTCOME_BURST_MAX"
    using waiting_after [OF sent perm srt dist t(2)] .
  then have w: "waiting first s' = waiting first s - OUTCOME_BURST_MAX"
    using s'(1,5) sent by (simp add: waiting_def sentAt_def sent_now_def s0_def)
  have "outbox_wf s'" unfolding s'_def using wf_moves [OF moves_resend_timer wf] env(2) by blast
  moreover have "fst (ob_window s') \<le> oe_now env"
    using sent b t(1) by (auto simp: s'(7) sent_now_def s0_def between_def RESEND_INTERVAL_MS_def)
  moreover have "at \<le> oe_now env" if "ob_sentOnSocket s' cid = Some at" for cid at
    using that sent old [of cid at] by (auto simp: s'(5) sent_now_def RESEND_INTERVAL_MS_def split: if_splits)
  moreover have "\<exists>m. Sent at ws True m \<in> set (ob_log s') \<and> is_outcome m \<and> outcome_id m = cid"
    if since: "ob_sentOnSocket s' cid = Some at" "first \<le> at" for cid at
  proof (cases "cid \<in> outcome_id ` set (take OUTCOME_BURST_MAX ds)")
    case True
    then obtain o1 where o1: "o1 \<in> set (take OUTCOME_BURST_MAX ds)" "outcome_id o1 = cid" by auto
    then have "at = oe_now env" using since(1) sent True by (simp add: s'(5) sent_now_def)
    moreover have "Sent (oe_now env) ws True (stamped env o1) \<in> set (ob_log s')"
      using sent o1(1) by (auto simp: s'(6) sent_now_def)
    ultimately show ?thesis using o1 outs [OF in_set_takeD [OF o1(1)]] by (metis stamped_outcome)
  next
    case False
    then have "ob_sentOnSocket s cid = Some at" using since(1) sent by (simp add: s'(5) sent_now_def s0_def)
    then obtain m where "Sent at ws True m \<in> set (ob_log s)" "is_outcome m" "outcome_id m = cid"
      using b since(2) by (fastforce simp: between_def)
    then show ?thesis using sent by (auto simp: s'(6) sent_now_def s0_def)
  qed
  ultimately have "between ws first (oe_now env) s'"
    using b s'(1,3,4) by (simp add: between_def)
  then show ?thesis using w s'(1,2) by (simp add: s'_def [symmetric])
qed

lemma resend_rounds:
  assumes "between ws first latest s" "\<forall>env \<in> set envs. takes_all env ws \<and> keepsUntilAck env s \<and> first \<le> oe_now env"
    and "sorted_wrt (\<lambda>a b. a + RESEND_INTERVAL_MS \<le> b) (latest # map oe_now envs)"
  shows "\<exists>s' l. outbox_run (map (\<lambda>env. (env, TimerFires)) envs) s = Some s' \<and> between ws first l s'
    \<and> ob_unacked s' = ob_unacked s \<and> waiting first s' \<le> waiting first s - OUTCOME_BURST_MAX * length envs"
  using assms
proof (induction envs arbitrary: s latest)
  case (Cons env envs)
  define s1 where "s1 = resend_timer env s"
  have r: "between ws first (oe_now env) s1" "ob_unacked s1 = ob_unacked s" "ob_peer s1 = ob_peer s"
      "waiting first s1 = waiting first s - OUTCOME_BURST_MAX"
    using resend_round [OF Cons.prems(1)] Cons.prems(2,3) by (simp_all add: s1_def)
  have "keepsUntilAck e s1 = keepsUntilAck e s" for e by (simp add: keepsUntilAck_def recovers_def r(3))
  then obtain s' l where s': "outbox_run (map (\<lambda>env. (env, TimerFires)) envs) s1 = Some s'" "between ws first l s'"
      "ob_unacked s' = ob_unacked s1" "waiting first s' \<le> waiting first s1 - OUTCOME_BURST_MAX * length envs"
    using Cons.IH [OF r(1)] Cons.prems(2,3) by auto
  have "outbox_run (map (\<lambda>env. (env, TimerFires)) (env # envs)) s = Some s'"
    using s'(1) Cons.prems(1) by (simp add: enabled_def outbox_step_def between_def s1_def)
  then show ?case using s' r(2,4) by auto
qed auto

text \<open>C10: Every unconfirmed outcome is sent again: while the session socket takes frames and the control plane
  keeps results until it confirms them, the timer keeps firing, and by the time it has fired, at its
  interval, once per 20 unconfirmed outcomes, each of them has been sent in one of these rounds,
  and all are still kept.
\<close>

theorem unconfirmed_outcomes_are_sent_again:
  assumes "outbox_run es (new_process files n log) = Some s" "distinct (map fst (ob_unacked s))" "ob_unacked s \<noteq> []"
    and "ob_socket s = Some ws" "ob_timer s" "\<forall>env \<in> set envs. takes_all env ws \<and> keepsUntilAck env s"
    and "0 \<le> latest" "fst (ob_window s) \<le> latest" "\<forall>cid at. ob_sentOnSocket s cid = Some at \<longrightarrow> at \<le> latest"
    and "sorted_wrt (\<lambda>a b. a + RESEND_INTERVAL_MS \<le> b) (latest # map oe_now envs)"
    and "length (ob_unacked s) \<le> OUTCOME_BURST_MAX * length envs"
  shows "\<exists>s'. outbox_run (map (\<lambda>env. (env, TimerFires)) envs) s = Some s' \<and> ob_unacked s' = ob_unacked s
    \<and> (\<forall>cid \<in> fst ` set (ob_unacked s). \<exists>now m. latest < now \<and> Sent now ws True m \<in> set (ob_log s')
         \<and> is_outcome m \<and> outcome_id m = cid)"
proof -
  have wf: "outbox_wf s" using run_keeps_files [OF assms(1) sound_new_process, of True] by (simp add: sound_def)
  define first where "first = latest + RESEND_INTERVAL_MS"
  have old: "\<not> first \<le> at" if "ob_sentOnSocket s cid = Some at" for cid at
    using that assms(9) by (auto simp: first_def RESEND_INTERVAL_MS_def) (metis add_le_same_cancel1 not_numeral_le_zero order_trans)
  have b: "between ws first latest s"
    using assms(2-5,8,9) wf old by (auto simp: between_def)
  have "\<forall>env \<in> set envs. takes_all env ws \<and> keepsUntilAck env s \<and> first \<le> oe_now env"
    using assms(6,10) by (auto simp: first_def)
  then obtain s' l where s': "outbox_run (map (\<lambda>env. (env, TimerFires)) envs) s = Some s'" "between ws first l s'"
      "ob_unacked s' = ob_unacked s" "waiting first s' \<le> waiting first s - OUTCOME_BURST_MAX * length envs"
    using resend_rounds [OF b _ assms(10)] by blast
  have "waiting first s \<le> length (ob_unacked s)" unfolding waiting_def by (metis length_filter_le length_map)
  then have "waiting first s' = 0" using s'(4) assms(11) by simp
  then have none: "\<not> sentAt s' (outcome_id o1) < first" if "o1 \<in> snd ` set (ob_unacked s)" for o1
    using that s'(3) by (auto simp: waiting_def filter_empty_conv)
  have "\<exists>now m. latest < now \<and> Sent now ws True m \<in> set (ob_log s') \<and> is_outcome m \<and> outcome_id m = cid"
    if in_u: "cid \<in> fst ` set (ob_unacked s)" for cid
  proof -
    obtain o1 where o1: "(cid, o1) \<in> set (ob_unacked s)" using in_u by auto
    then have cid: "outcome_id o1 = cid" using outbox_wfD [OF wf] by blast
    have "\<not> sentAt s' cid < first" using none [of o1] o1 cid by force
    then obtain at where at: "ob_sentOnSocket s' cid = Some at" "first \<le> at"
      using assms(7) by (auto simp: sentAt_def first_def RESEND_INTERVAL_MS_def split: option.splits)
    then obtain m where "Sent at ws True m \<in> set (ob_log s')" "is_outcome m" "outcome_id m = cid"
      using s'(2) by (fastforce simp: between_def)
    then show ?thesis using at(2) by (intro exI [of _ at] exI [of _ m]) (simp add: first_def RESEND_INTERVAL_MS_def)
  qed
  then show ?thesis using s'(1,3) by blast
qed

definition kept_run :: "(ob_env \<times> ob_event) list" where
  "kept_run = map (Pair (demo_ob_env True 0)) [Opened 1 (Some 0), Finish 1 demo_outcome, WriteStarts 1, WriteEnds 1 True,
     Resumes ([1], Delivering 1 demo_outcome)]"

lemma kept_run_state:
  "\<exists>s. outbox_run kept_run (new_process (\<lambda>_. None) 0 []) = Some s \<and> ob_unacked s = [(''c'', demo_outcome)] \<and> ob_running s = []
    \<and> ob_socket s = Some 1 \<and> ob_timer s \<and> ob_peer s = Some 0 \<and> ob_window s = (0, 1) \<and> ob_sentOnSocket s = (\<lambda>_. None)(''c'' := Some 0)
    \<and> ob_keptSince s = (\<lambda>_. None)"
  by (simp add: kept_run_def outbox_eval fun_eq_iff del: json_text.simps)

theorem unconfirmed_outcomes_are_sent_again_witness:
  "\<exists>s s' now m. outbox_run kept_run (new_process (\<lambda>_. None) 0 []) = Some s
    \<and> outbox_run [(demo_ob_env True 30000, TimerFires)] s = Some s' \<and> ob_unacked s' = ob_unacked s
    \<and> 0 < now \<and> Sent now 1 True m \<in> set (ob_log s') \<and> is_outcome m \<and> outcome_id m = ''c''"
proof -
  obtain s where s: "outbox_run kept_run (new_process (\<lambda>_. None) 0 []) = Some s" "ob_unacked s = [(''c'', demo_outcome)]"
      "ob_socket s = Some 1" "ob_timer s" "ob_peer s = Some 0" "ob_window s = (0, 1)" "ob_sentOnSocket s = (\<lambda>_. None)(''c'' := Some 0)"
    using kept_run_state by blast
  have envs: "\<forall>env \<in> set [demo_ob_env True 30000]. takes_all env 1 \<and> keepsUntilAck env s"
    using s(5) by (simp add: takes_all_def keepsUntilAck_def recovers_def demo_ob_env_def)
  have times: "sorted_wrt (\<lambda>a b. a + RESEND_INTERVAL_MS \<le> b) (0 # map oe_now [demo_ob_env True 30000])"
    by (simp add: demo_ob_env_def RESEND_INTERVAL_MS_def)
  have state: "distinct (map fst (ob_unacked s))" "ob_unacked s \<noteq> []" "fst (ob_window s) \<le> 0"
      "\<forall>cid at. ob_sentOnSocket s cid = Some at \<longrightarrow> at \<le> 0" "length (ob_unacked s) \<le> OUTCOME_BURST_MAX * length [demo_ob_env True 30000]"
    using s by (auto simp: OUTCOME_BURST_MAX_def split: if_splits)
  obtain s' where s': "outbox_run (map (\<lambda>env. (env, TimerFires)) [demo_ob_env True 30000]) s = Some s'" "ob_unacked s' = ob_unacked s"
      "\<forall>cid \<in> fst ` set (ob_unacked s). \<exists>now m. 0 < now \<and> Sent now 1 True m \<in> set (ob_log s') \<and> is_outcome m \<and> outcome_id m = cid"
    using unconfirmed_outcomes_are_sent_again [OF s(1) state(1,2) s(3,4) envs order_refl state(3,4) times state(5)] by blast
  then obtain now m where "0 < now" "Sent now 1 True m \<in> set (ob_log s')" "is_outcome m" "outcome_id m = ''c''"
    using s(2) by auto
  moreover have "outbox_run [(demo_ob_env True 30000, TimerFires)] s = Some s'" using s'(1) by (simp only: list.map)
  ultimately show ?thesis using s(1) s'(2) by blast
qed


end
