(* ===== verification/Logs_Lines.thy ===== *)
theory Logs_Lines
  imports Text_Encoding
begin

text \<open>
  The lines of a child process's output (\<open>src/logs/line-stream.ts\<close>): decoded chunks are cut into
  lines, and the text, or its tail, is kept. Lengths and cuts count UTF-16 code units, so a text is
  the list of its units here. What the code hands to \<open>onLine\<close> is returned as a list.
\<close>

type_synonym units = "nat list"

section \<open>The line splitter\<close>

definition NEWLINE :: nat where "NEWLINE = 10"
definition CARRIAGE_RETURN :: nat where "CARRIAGE_RETURN = 13"

text \<open>What \<open>trim\<close> removes at either end.\<close>

definition space_unit :: "nat \<Rightarrow> bool" where
  "space_unit u \<longleftrightarrow> 9 \<le> u \<and> u \<le> 13 \<or> 8192 \<le> u \<and> u \<le> 8202
     \<or> u \<in> {32, 160, 5760, 8232, 8233, 8239, 8287, 12288, 65279}"

definition trim_units :: "units \<Rightarrow> units" where
  "trim_units s = rev (dropWhile space_unit (rev (dropWhile space_unit s)))"

definition stripCarriageReturn :: "units \<Rightarrow> units" where
  "stripCarriageReturn line = (if line \<noteq> [] \<and> last line = CARRIAGE_RETURN then butlast line else line)"

record pump_limits =
  lim_tailChars :: "nat option"
  lim_maxLineChars :: "nat option"
  lim_maxTotalChars :: "nat option"

definition splitter_emit :: "units \<Rightarrow> units list" where
  "splitter_emit raw = (let line = stripCarriageReturn raw in if line \<noteq> [] then [line] else [])"

text \<open>The loop over the newlines of a chunk: the lines it completes, and what is pending after it.\<close>

function push_lines :: "units \<Rightarrow> units \<Rightarrow> units list \<times> units" where
  "push_lines pending value =
     (case dropWhile (\<lambda>u. u \<noteq> NEWLINE) value of
        [] \<Rightarrow> ([], pending @ value)
      | _ # rest \<Rightarrow> (let line = splitter_emit (pending @ takeWhile (\<lambda>u. u \<noteq> NEWLINE) value);
            (ls, p) = push_lines [] rest in (line @ ls, p)))"
  by pat_completeness auto
termination
proof (relation "measure (length \<circ> snd)", simp_all)
  fix v :: units and x rest
  assume "dropWhile (\<lambda>u. u \<noteq> NEWLINE) v = (x :: nat) # rest"
  then show "length rest < length v"
    by (metis Suc_le_lessD length_Cons length_dropWhile_le)
qed

declare push_lines.simps [simp del]

text \<open>A limit of 0 makes the loop run forever: it does not return.\<close>

function splitLongPending :: "nat option \<Rightarrow> units \<Rightarrow> (units list \<times> units) option" where
  "splitLongPending None pending = Some ([], pending)"
| "splitLongPending (Some maxc) pending =
     (if length pending \<le> maxc then Some ([], pending)
      else if maxc = 0 then None
      else map_option (\<lambda>(ls, p). (splitter_emit (take maxc pending) @ ls, p)) (splitLongPending (Some maxc) (drop maxc pending)))"
  by pat_completeness auto
termination by (relation "measure (length \<circ> snd)") auto

declare splitLongPending.simps [simp del]

definition splitter_push :: "nat option \<Rightarrow> units \<Rightarrow> units \<Rightarrow> (units list \<times> units) option" where
  "splitter_push maxc pending value =
     (let (ls, p) = push_lines pending value in map_option (\<lambda>(ms, q). (ls @ ms, q)) (splitLongPending maxc p))"

definition splitter_finish :: "units \<Rightarrow> units list" where
  "splitter_finish pending = (if trim_units pending \<noteq> [] then splitter_emit pending else [])"

section \<open>The text keeper\<close>

text \<open>\<open>text.slice(-n)\<close>: for \<open>n = 0\<close> it is \<open>text.slice(0)\<close>, the whole text.\<close>

definition slice_tail :: "nat \<Rightarrow> 'a list \<Rightarrow> 'a list" where
  "slice_tail n s = (if n = 0 then s else drop (length s - n) s)"

record text_keeper =
  tk_parts :: "units list"
  tk_chars :: nat

definition new_keeper :: text_keeper where
  "new_keeper = \<lparr>tk_parts = [], tk_chars = 0\<rparr>"

definition keeper_push :: "nat option \<Rightarrow> units \<Rightarrow> text_keeper \<Rightarrow> text_keeper" where
  "keeper_push tailChars value k =
     (let parts = tk_parts k @ [value]; chars = tk_chars k + length value
      in case tailChars of
           Some n \<Rightarrow> if chars > n * 2
             then (let joined = slice_tail n (concat parts) in \<lparr>tk_parts = [joined], tk_chars = length joined\<rparr>)
             else \<lparr>tk_parts = parts, tk_chars = chars\<rparr>
         | None \<Rightarrow> \<lparr>tk_parts = parts, tk_chars = chars\<rparr>)"

definition keeper_text :: "nat option \<Rightarrow> text_keeper \<Rightarrow> units" where
  "keeper_text tailChars k = (case tailChars of None \<Rightarrow> concat (tk_parts k) | Some n \<Rightarrow> slice_tail n (concat (tk_parts k)))"

section \<open>The pump\<close>

record pump =
  pm_keeper :: text_keeper
  pm_pending :: units
  pm_lines :: "units list"
  pm_total :: nat
  pm_limitHit :: bool
  pm_limitCalls :: nat

definition new_pump :: pump where
  "new_pump = \<lparr>pm_keeper = new_keeper, pm_pending = [], pm_lines = [], pm_total = 0, pm_limitHit = False, pm_limitCalls = 0\<rparr>"

definition over_total :: "pump_limits \<Rightarrow> nat \<Rightarrow> bool" where
  "over_total limits chars = (case lim_maxTotalChars limits of None \<Rightarrow> False | Some m \<Rightarrow> chars > m)"

text \<open>One chunk that was read; \<open>lines\<close> says whether there is an \<open>onLine\<close>.\<close>

definition pump_chunk :: "pump_limits \<Rightarrow> bool \<Rightarrow> units \<Rightarrow> pump \<Rightarrow> pump option" where
  "pump_chunk limits lines value s =
     (if value = [] \<or> pm_limitHit s then Some s
      else let s1 = s\<lparr>pm_total := pm_total s + length value\<rparr>
        in if over_total limits (pm_total s1)
           then Some (s1\<lparr>pm_limitHit := True, pm_limitCalls := pm_limitCalls s1 + 1\<rparr>)
           else let s2 = s1\<lparr>pm_keeper := keeper_push (lim_tailChars limits) value (pm_keeper s1)\<rparr>
             in if \<not> lines then Some s2
                else map_option (\<lambda>(ls, p). s2\<lparr>pm_lines := pm_lines s2 @ ls, pm_pending := p\<rparr>)
                       (splitter_push (lim_maxLineChars limits) (pm_pending s2) value))"

fun pump_chunks :: "pump_limits \<Rightarrow> bool \<Rightarrow> units list \<Rightarrow> pump \<Rightarrow> pump option" where
  "pump_chunks limits lines [] s = Some s"
| "pump_chunks limits lines (v # vs) s = Option.bind (pump_chunk limits lines v s) (pump_chunks limits lines vs)"

text \<open>
  The stream gives its chunks and then ends, or a read fails: the lines handed on, the calls of
  \<open>onLimit\<close>, and the text or the error. \<open>None\<close> means that it does not return.
\<close>

definition pumpLines :: "pump_limits \<Rightarrow> bool \<Rightarrow> units list \<Rightarrow> string option
    \<Rightarrow> (units list \<times> nat \<times> (string, units) result) option" where
  "pumpLines limits lines values readError =
     map_option (\<lambda>s. case readError of
         Some e \<Rightarrow> (pm_lines s, pm_limitCalls s, Inl e)
       | None \<Rightarrow> (pm_lines s @ (if lines then splitter_finish (pm_pending s) else []), pm_limitCalls s,
           Inr (keeper_text (lim_tailChars limits) (pm_keeper s))))
       (pump_chunks limits lines values new_pump)"

fun split_newlines :: "units \<Rightarrow> units list" where
  "split_newlines [] = [[]]"
| "split_newlines (u # us) = (if u = NEWLINE then [] # split_newlines us
     else (case split_newlines us of l # ls \<Rightarrow> (u # l) # ls | [] \<Rightarrow> [[u]]))"

definition emitBufferedLines :: "units \<Rightarrow> units list" where
  "emitBufferedLines text = (if text = [] then [] else concat (map splitter_emit (split_newlines text)))"

definition BUILD_OUTPUT_LIMITS :: pump_limits where
  "BUILD_OUTPUT_LIMITS = \<lparr>lim_tailChars = Some (64 * 1024), lim_maxLineChars = Some (64 * 1024),
     lim_maxTotalChars = Some (128 * 1024 * 1024)\<rparr>"


section \<open>Lines do not depend on the chunks\<close>

lemma dropWhile_newline:
  "dropWhile (\<lambda>u. u \<noteq> NEWLINE) v = [] \<longleftrightarrow> NEWLINE \<notin> set v"
  by (auto simp: dropWhile_eq_Nil_conv)

lemma push_lines_plain: "NEWLINE \<notin> set v \<Longrightarrow> push_lines p v = ([], p @ v)"
  by (subst push_lines.simps) (simp add: dropWhile_newline [THEN iffD2])

lemma push_lines_newline:
  assumes "NEWLINE \<notin> set l"
  shows "push_lines p (l @ NEWLINE # r) = (splitter_emit (p @ l) @ fst (push_lines [] r), snd (push_lines [] r))"
  using assms by (subst push_lines.simps) (auto simp: dropWhile_append takeWhile_append split_beta dropWhile_newline [THEN iffD2])

lemma first_newline:
  obtains (plain) "NEWLINE \<notin> set v" | (cut) l r where "v = l @ NEWLINE # r" "NEWLINE \<notin> set l"
  by (meson split_list_first)

lemma push_lines_append:
  "push_lines p (a @ b) = (let (ls, q) = push_lines p a; (ms, r) = push_lines q b in (ls @ ms, r))"
proof (induction "length a" arbitrary: a p rule: less_induct)
  case less
  show ?case
  proof (cases a rule: first_newline)
    case plain
    show ?thesis
    proof (cases b rule: first_newline)
      case bplain: plain
      with plain show ?thesis by (simp add: push_lines_plain)
    next
      case (cut l r)
      have "push_lines p (a @ b) = (splitter_emit (p @ a @ l) @ fst (push_lines [] r), snd (push_lines [] r))"
        using push_lines_newline [of "a @ l" p r] plain cut by simp
      then show ?thesis using plain cut by (simp add: push_lines_plain push_lines_newline)
    qed
  next
    case (cut l r)
    then have "push_lines [] (r @ b) = (let (ls, q) = push_lines [] r; (ms, r) = push_lines q b in (ls @ ms, r))"
      using less by simp
    then show ?thesis
      using push_lines_newline [OF cut(2), of p r] push_lines_newline [OF cut(2), of p "r @ b"] cut(1)
      by (simp add: split_beta Let_def)
  qed
qed

lemma split_newlines_plain: "NEWLINE \<notin> set v \<Longrightarrow> split_newlines v = [v]"
  by (induction v) auto

lemma split_newlines_ne [simp]: "split_newlines v \<noteq> []"
  by (induction v) (auto split: list.splits)

lemma split_newlines_cut: "NEWLINE \<notin> set l \<Longrightarrow> split_newlines (l @ NEWLINE # r) = l # split_newlines r"
  by (induction l) auto

lemma push_lines_split:
  assumes "NEWLINE \<notin> set p"
  shows "push_lines p v = (concat (map splitter_emit (butlast (split_newlines (p @ v)))), last (split_newlines (p @ v)))"
  using assms
proof (induction "length v" arbitrary: v p rule: less_induct)
  case less
  show ?case
  proof (cases v rule: first_newline)
    case plain
    then show ?thesis using less.prems by (simp add: push_lines_plain split_newlines_plain)
  next
    case (cut l r)
    then have "split_newlines (p @ v) = (p @ l) # split_newlines r"
      using split_newlines_cut [of "p @ l" r] less.prems by simp
    moreover have "push_lines [] r = (concat (map splitter_emit (butlast (split_newlines r))), last (split_newlines r))"
      using less.hyps [of r "[]"] cut by simp
    ultimately show ?thesis using cut by (simp add: push_lines_newline)
  qed
qed

section \<open>What is kept of the text\<close>

definition keeps :: "nat option \<Rightarrow> units \<Rightarrow> text_keeper \<Rightarrow> bool" where
  "keeps tailChars t k \<longleftrightarrow> tk_chars k = length (concat (tk_parts k))
     \<and> (\<exists>pre. t = pre @ concat (tk_parts k)
          \<and> (pre = [] \<or> (\<exists>n. tailChars = Some n \<and> 0 < n \<and> n \<le> length (concat (tk_parts k)))))"

lemma keeps_new: "keeps tailChars [] new_keeper"
  by (simp add: keeps_def new_keeper_def)

lemma slice_tail_pre: "0 < n \<Longrightarrow> n \<le> length c \<Longrightarrow> slice_tail n (pre @ c) = slice_tail n c"
  by (simp add: slice_tail_def)

lemma keeper_text_keeps:
  assumes "keeps tailChars t k"
  shows "keeper_text tailChars k = (case tailChars of None \<Rightarrow> t | Some n \<Rightarrow> slice_tail n t)"
  using assms by (auto simp: keeps_def keeper_text_def slice_tail_pre split: option.splits)

lemma keeps_push:
  assumes "keeps tailChars t k"
  shows "keeps tailChars (t @ v) (keeper_push tailChars v k)"
proof -
  obtain pre where pre: "t = pre @ concat (tk_parts k)"
      "pre = [] \<or> (\<exists>n. tailChars = Some n \<and> 0 < n \<and> n \<le> length (concat (tk_parts k)))"
    and chars: "tk_chars k = length (concat (tk_parts k))"
    using assms by (auto simp: keeps_def)
  show ?thesis
  proof (cases "\<exists>n. tailChars = Some n \<and> tk_chars k + length v > n * 2 \<and> 0 < n")
    case True
    then obtain n where n: "tailChars = Some n" "tk_chars k + length v > n * 2" "0 < n" by blast
    let ?c = "concat (tk_parts k) @ v"
    have "t @ v = (pre @ take (length ?c - n) ?c) @ slice_tail n ?c"
      using pre(1) n(3) append_take_drop_id [of "length ?c - n" ?c] by (simp add: slice_tail_def del: append_take_drop_id)
    moreover have "n \<le> length (slice_tail n ?c)"
      using n(2,3) chars by (simp add: slice_tail_def)
    ultimately show ?thesis using n by (auto simp: keeps_def keeper_push_def Let_def)
  next
    case False
    then have "concat (tk_parts (keeper_push tailChars v k)) = concat (tk_parts k) @ v
        \<and> tk_chars (keeper_push tailChars v k) = length (concat (tk_parts k) @ v)"
      using chars by (auto simp: keeper_push_def slice_tail_def Let_def split: option.splits)
    then show ?thesis using pre unfolding keeps_def by fastforce
  qed
qed

text \<open>The chunks up to the first that passes the limit of the total.\<close>

fun counted :: "pump_limits \<Rightarrow> nat \<Rightarrow> units list \<Rightarrow> units list" where
  "counted limits n [] = []"
| "counted limits n (v # vs) = (if over_total limits (n + length v) then [] else v # counted limits (n + length v) vs)"

lemma pump_after_limit: "pm_limitHit s \<Longrightarrow> pump_chunks limits lines vs s = Some s"
  by (induction vs) (simp_all add: pump_chunk_def)

definition pumped :: "pump_limits \<Rightarrow> units \<Rightarrow> pump \<Rightarrow> bool" where
  "pumped limits t s \<longleftrightarrow> keeps (lim_tailChars limits) t (pm_keeper s) \<and> (pm_lines s, pm_pending s) = push_lines [] t
     \<and> pm_total s = length t"

lemma pumped_chunk:
  assumes "pumped limits t s" "lim_maxLineChars limits = None" "\<not> pm_limitHit s" "\<not> over_total limits (length t)"
  shows "\<exists>s'. pump_chunk limits True v s = Some s' \<and> pm_limitCalls s' = pm_limitCalls s + (if over_total limits (length t + length v) then 1 else 0)
    \<and> pm_limitHit s' = over_total limits (length t + length v)
    \<and> (if over_total limits (length t + length v) then (pm_lines s', pm_pending s', pm_keeper s') = (pm_lines s, pm_pending s, pm_keeper s)
       else pumped limits (t @ v) s')"
proof (cases "v = []")
  case True
  then show ?thesis using assms by (simp add: pump_chunk_def)
next
  case False
  have "push_lines [] (t @ v) = (let (ls, p) = push_lines (pm_pending s) v in (pm_lines s @ ls, p))"
    using assms(1) push_lines_append [of "[]" t v] unfolding pumped_def by (metis case_prod_conv)
  then show ?thesis
    using assms False keeps_push [of "lim_tailChars limits" t "pm_keeper s" v]
    by (simp add: pump_chunk_def pumped_def splitter_push_def splitLongPending.simps split_beta Let_def)
qed

lemma pumped_chunks:
  assumes "pumped limits t s" "lim_maxLineChars limits = None" "\<not> pm_limitHit s" "\<not> over_total limits (length t)"
  shows "\<exists>s'. pump_chunks limits True vs s = Some s'
    \<and> pm_limitCalls s' = pm_limitCalls s + (if counted limits (length t) vs = vs then 0 else 1)
    \<and> keeps (lim_tailChars limits) (t @ concat (counted limits (length t) vs)) (pm_keeper s')
    \<and> (pm_lines s', pm_pending s') = push_lines [] (t @ concat (counted limits (length t) vs))"
  using assms
proof (induction vs arbitrary: t s)
  case Nil
  then show ?case by (simp add: pumped_def)
next
  case (Cons v vs)
  obtain s1 where s1: "pump_chunk limits True v s = Some s1"
      "pm_limitCalls s1 = pm_limitCalls s + (if over_total limits (length t + length v) then 1 else 0)"
      "pm_limitHit s1 = over_total limits (length t + length v)"
      "if over_total limits (length t + length v) then (pm_lines s1, pm_pending s1, pm_keeper s1) = (pm_lines s, pm_pending s, pm_keeper s)
       else pumped limits (t @ v) s1"
    using pumped_chunk [OF Cons.prems] by blast
  show ?case
  proof (cases "over_total limits (length t + length v)")
    case True
    then show ?thesis using s1 Cons.prems(1) by (simp add: pump_after_limit pumped_def)
  next
    case False
    then show ?thesis using s1 Cons.IH [of "t @ v" s1] Cons.prems(2) by simp
  qed
qed

text \<open>C30: The lines of a child process do not depend on how its output arrives: without a limit on
  the length of a line, \<open>pumpLines\<close> always returns, the lines it hands on are the newline-separated
  pieces of the text up to the total limit, less one carriage return each and less empty ones, the last piece
  only when it is not blank; \<open>onLimit\<close> is called once when the limit is passed and never otherwise; and the
  text it returns is the tail of that text.
\<close>

theorem pumped_lines_are_the_lines_of_the_text:
  assumes "lim_maxLineChars limits = None"
  shows "pumpLines limits True vs None =
    (let t = concat (counted limits 0 vs); pieces = split_newlines t
     in Some (concat (map splitter_emit (butlast pieces)) @ splitter_finish (last pieces),
          if counted limits 0 vs = vs then 0 else 1,
          Inr (case lim_tailChars limits of None \<Rightarrow> t | Some n \<Rightarrow> slice_tail n t)))"
proof -
  let ?t = "concat (counted limits 0 vs)"
  have "pumped limits [] new_pump" "\<not> pm_limitHit new_pump" "\<not> over_total limits (length ([] :: units))"
    using push_lines_plain [of "[]" "[]"] keeps_new by (simp_all add: pumped_def new_pump_def over_total_def split: option.splits)
  from pumped_chunks [OF this(1) assms this(2,3), of vs] obtain s where
    s: "pump_chunks limits True vs new_pump = Some s" "pm_limitCalls s = (if counted limits 0 vs = vs then 0 else 1)"
      "keeps (lim_tailChars limits) ?t (pm_keeper s)" "(pm_lines s, pm_pending s) = push_lines [] ?t"
    by (auto simp: new_pump_def)
  then show ?thesis
    using push_lines_split [of "[]" ?t] keeper_text_keeps [OF s(3)] by (simp add: pumpLines_def Let_def)
qed

theorem pumped_lines_are_the_lines_of_the_text_witness:
  "pumpLines \<lparr>lim_tailChars = Some 4, lim_maxLineChars = None, lim_maxTotalChars = Some 11\<rparr> True
     [[97, 98], [13], [10, 10, 99], [], [32, 100, 10, 101], [102], [103]] None
   = Some ([[97, 98], [99, 32, 100], [101, 102]], 1, Inr [100, 10, 101, 102])"
  by (subst pumped_lines_are_the_lines_of_the_text)
    (simp_all add: over_total_def Let_def NEWLINE_def CARRIAGE_RETURN_def splitter_emit_def stripCarriageReturn_def
      splitter_finish_def trim_units_def space_unit_def slice_tail_def)

section \<open>Bounds\<close>

lemma splitLongPending_returns:
  assumes "0 < m"
  shows "\<exists>ls p. splitLongPending (Some m) q = Some (ls, p) \<and> length p \<le> m"
proof (induction "length q" arbitrary: q rule: less_induct)
  case less
  show ?case
  proof (cases "length q \<le> m")
    case False
    then obtain ls p where "splitLongPending (Some m) (drop m q) = Some (ls, p)" "length p \<le> m"
      using assms less [of "drop m q"] by fastforce
    then show ?thesis using assms by (subst splitLongPending.simps) auto
  qed (simp add: splitLongPending.simps)
qed

definition pump_small :: "nat \<Rightarrow> nat \<Rightarrow> pump \<Rightarrow> bool" where
  "pump_small tailChars maxLine s \<longleftrightarrow> tk_chars (pm_keeper s) = length (concat (tk_parts (pm_keeper s)))
     \<and> tk_chars (pm_keeper s) \<le> tailChars * 2 \<and> length (pm_pending s) \<le> maxLine"

lemma keeper_push_small:
  assumes "tk_chars k = length (concat (tk_parts k))" "0 < n"
  shows "tk_chars (keeper_push (Some n) v k) = length (concat (tk_parts (keeper_push (Some n) v k)))
    \<and> tk_chars (keeper_push (Some n) v k) \<le> n * 2"
  using assms by (auto simp: keeper_push_def slice_tail_def Let_def)

lemma pump_chunk_small:
  assumes "lim_tailChars limits = Some n" "0 < n" "lim_maxLineChars limits = Some m" "0 < m" "pump_small n m s"
  shows "\<exists>s'. pump_chunk limits lines v s = Some s' \<and> pump_small n m s'"
proof -
  obtain ls p where "splitter_push (Some m) (pm_pending s) v = Some (ls, p)" "length p \<le> m"
    using splitLongPending_returns [OF assms(4), of "snd (push_lines (pm_pending s) v)"]
    by (auto simp: splitter_push_def split_beta)
  then show ?thesis
    using assms keeper_push_small [of "pm_keeper s" n v] by (auto simp: pump_chunk_def pump_small_def Let_def)
qed

text \<open>
  Whatever arrives, under the limits of a build: every read is worked off, and between two reads
  at most twice the tail and one line limit are held.
\<close>

lemma pump_holds_little:
  assumes "lim_tailChars limits = Some n" "0 < n" "lim_maxLineChars limits = Some m" "0 < m"
  shows "\<exists>s. pump_chunks limits lines vs new_pump = Some s \<and> pump_small n m s"
proof -
  have "pump_small n m s \<Longrightarrow> \<exists>s'. pump_chunks limits lines vs s = Some s' \<and> pump_small n m s'" for s
  proof (induction vs arbitrary: s)
    case (Cons v vs)
    then show ?case using pump_chunk_small [OF assms, of s lines v] by auto
  qed simp
  then show ?thesis by (simp add: pump_small_def new_pump_def new_keeper_def)
qed

text \<open>The limit on a line does not hold for a line that arrives whole: it is handed on uncut.\<close>

lemma whole_line_is_not_cut:
  assumes "NEWLINE \<notin> set l" "CARRIAGE_RETURN \<notin> set l" "l \<noteq> []" "lim_maxTotalChars limits = None"
  shows "\<exists>calls text. pumpLines limits True [l @ [NEWLINE]] None = Some ([l], calls, Inr text)"
proof -
  have "last l \<noteq> CARRIAGE_RETURN" using assms(2,3) last_in_set by metis
  then have "push_lines [] (l @ [NEWLINE]) = ([l], [])"
    using assms push_lines_newline [OF assms(1), of "[]" "[]"]
    by (simp add: push_lines_plain splitter_emit_def stripCarriageReturn_def)
  moreover have "splitLongPending (lim_maxLineChars limits) [] = Some ([], [])"
    by (cases "lim_maxLineChars limits") (simp_all add: splitLongPending.simps)
  ultimately show ?thesis
    using assms(4) by (simp add: pumpLines_def pump_chunk_def over_total_def splitter_push_def new_pump_def Let_def
        splitter_finish_def trim_units_def)
qed

end
