(* ===== verification/Logs_Redact.thy ===== *)
theory Logs_Redact
  imports Log_Text Json_Print Text_Laws
begin

text \<open>
  The redaction of transcripts and summaries (\<open>src/logs/redactor.ts\<close>): the deny-set of decrypted
  values, their lines and their encoded copies, and the literal replacement of each of them.

  The two caches of derived encodings change no result (\<open>encodingsOf_cached\<close> models the one with
  a bound); the other functions use the encodings directly. A text is the list of its UTF-8 bytes; on decoded
  text a literal search finds the same places in the bytes and in the code units.
\<close>

definition REDACTED :: string where "REDACTED = ''***''"

text \<open>\<open>text.replaceAll(pattern, replacement)\<close> for a pattern that is not empty.\<close>

function replace_all :: "string \<Rightarrow> string \<Rightarrow> string \<Rightarrow> string" where
  "replace_all p r [] = []"
| "replace_all p r (x # xs) =
     (if p \<noteq> [] \<and> starts_with p (x # xs) then r @ replace_all p r (drop (length p) (x # xs))
      else x # replace_all p r xs)"
  by pat_completeness auto
termination
  by (relation "measure (\<lambda>(p, r, t). length t)") (auto simp: neq_Nil_conv)

section \<open>Encoded copies\<close>

definition MIN_ENCODED_SECRET_LENGTH :: nat where "MIN_ENCODED_SECRET_LENGTH = 8"
definition DERIVED_CACHE_MAX :: nat where "DERIVED_CACHE_MAX = 2048"

definition std_b64_char :: "nat \<Rightarrow> char" where
  "std_b64_char n = (if n < 26 then char_of (65 + n) else if n < 52 then char_of (71 + n)
     else if n < 62 then char_of (n - 4) else if n = 62 then CHR ''+'' else CHR ''/'')"

fun btoa :: "nat list \<Rightarrow> string" where
  "btoa [] = []"
| "btoa [a] = [std_b64_char (a div 4), std_b64_char ((a mod 4) * 16), CHR ''='', CHR ''='']"
| "btoa [a, b] = [std_b64_char (a div 4), std_b64_char ((a mod 4) * 16 + b div 16), std_b64_char ((b mod 16) * 4), CHR ''='']"
| "btoa (a # b # c # r) = std_b64_char (a div 4) # std_b64_char ((a mod 4) * 16 + b div 16)
     # std_b64_char ((b mod 16) * 4 + c div 64) # std_b64_char (c mod 64) # btoa r"

definition base64Of :: "string \<Rightarrow> string" where
  "base64Of s = btoa (map code s)"

definition low_hex :: "nat \<Rightarrow> char" where
  "low_hex n = (if n < 10 then char_of (48 + n) else char_of (87 + n))"

definition hexOf :: "string \<Rightarrow> string" where
  "hexOf s = concat (map (\<lambda>c. [low_hex (code c div 16), low_hex (code c mod 16)]) s)"

text \<open>\<open>encodeURIComponent\<close> throws on a lone surrogate.\<close>

definition deriveEncodings :: "string \<Rightarrow> (string, string list) result" where
  "deriveEncodings secret =
     (if \<not> utf8_valid secret then Inl ''URIError: URI malformed''
      else let b64 = base64Of secret;
               b64url = replace_all ''/'' ''_'' (replace_all ''+'' ''-'' b64);
               url = encode_uri_component secret;
               hex = hexOf secret;
               candidates = [b64, replace_all ''='' [] b64, b64url, replace_all ''='' [] b64url, url,
                 replace_all ''%20'' ''+'' url, butlast (tl (json_string secret)), hex, to_upper hex]
           in Inr (filter (\<lambda>c. c \<noteq> secret \<and> js_length c \<ge> MIN_ENCODED_SECRET_LENGTH) candidates))"

definition encodingsOf :: "string \<Rightarrow> (string, string list) result" where
  "encodingsOf secret = (if js_length secret < MIN_ENCODED_SECRET_LENGTH then Inr [] else deriveEncodings secret)"

text \<open>With its cache, a map in the order of insertion that is cleared when it is full.\<close>

definition encodingsOf_cached :: "string \<Rightarrow> (string \<times> string list) list
    \<Rightarrow> (string, string list) result \<times> (string \<times> string list) list" where
  "encodingsOf_cached secret cache =
     (if js_length secret < MIN_ENCODED_SECRET_LENGTH then (Inr [], cache)
      else case map_of cache secret of
          Some derived \<Rightarrow> (Inr derived, cache)
        | None \<Rightarrow> (case deriveEncodings secret of
              Inl e \<Rightarrow> (Inl e, cache)
            | Inr derived \<Rightarrow> (Inr derived, (if length cache \<ge> DERIVED_CACHE_MAX then [] else cache) @ [(secret, derived)])))"

section \<open>The deny-set\<close>

definition set_add :: "string \<Rightarrow> string list \<Rightarrow> string list" where
  "set_add v xs = (if v \<in> set xs then xs else xs @ [v])"

text \<open>The order of both sorts: longest first, then by code units.\<close>

definition deny_before :: "string \<Rightarrow> string \<Rightarrow> bool" where
  "deny_before a b \<longleftrightarrow> js_length b < js_length a \<or> js_length a = js_length b \<and> js_less a b"

fun deny_insert :: "string \<Rightarrow> string list \<Rightarrow> string list" where
  "deny_insert x [] = [x]"
| "deny_insert x (y # ys) = (if deny_before y x then y # deny_insert x ys else x # y # ys)"

definition deny_sort :: "string list \<Rightarrow> string list" where
  "deny_sort xs = foldr deny_insert xs []"

fun expand_secrets :: "string list \<Rightarrow> string list \<Rightarrow> (string, string list) result" where
  "expand_secrets [] uniq = Inr uniq"
| "expand_secrets (secret # rest) uniq =
     (if secret = [] then expand_secrets rest uniq
      else rbind (encodingsOf secret) (\<lambda>encs. expand_secrets rest (fold set_add encs (set_add secret uniq))))"

definition expandedDenySet :: "string list \<Rightarrow> (string, string list) result" where
  "expandedDenySet plaintexts = rbind (expand_secrets plaintexts []) (\<lambda>uniq. Inr (deny_sort uniq))"

definition redactSecretValues :: "string \<Rightarrow> string list \<Rightarrow> (string, string) result" where
  "redactSecretValues text1 plaintexts =
     rbind (expandedDenySet plaintexts) (\<lambda>denied. Inr (fold (\<lambda>secret out. replace_all secret REDACTED out) denied text1))"

definition MIN_SECRET_LENGTH :: nat where "MIN_SECRET_LENGTH = 2"

definition addDenyCandidate :: "string \<Rightarrow> string list \<Rightarrow> string list" where
  "addDenyCandidate v into =
     (let trimmed = js_trim v
      in if js_length trimmed < MIN_SECRET_LENGTH then into
         else let into1 = set_add v into in if trimmed \<noteq> v then set_add trimmed into1 else into1)"

text \<open>\<open>split(/\r?\n/)\<close>.\<close>

definition split_lines :: "string \<Rightarrow> string list" where
  "split_lines v = (let ps = split_on (CHR 0x0A) v
     in map (\<lambda>p. if p \<noteq> [] \<and> last p = CHR 0x0D then butlast p else p) (butlast ps) @ [last ps])"

definition add_deny_value :: "string option \<Rightarrow> string list \<Rightarrow> string list" where
  "add_deny_value v uniq = (case v of
     None \<Rightarrow> uniq
   | Some s \<Rightarrow> let u = addDenyCandidate s uniq
       in if CHR 0x0A \<notin> set s then u else fold addDenyCandidate (split_lines s) u)"

definition normalizeDenySet :: "string option list \<Rightarrow> string list" where
  "normalizeDenySet vs = deny_sort (fold add_deny_value vs [])"

definition redactPlaintexts :: "string \<Rightarrow> string option list \<Rightarrow> (string, string) result" where
  "redactPlaintexts text1 plaintexts = redactSecretValues text1 (normalizeDenySet plaintexts)"

section \<open>Redactors\<close>

definition createTranscriptRedactor :: "string list \<Rightarrow> string \<Rightarrow> (string, string) result" where
  "createTranscriptRedactor secrets line =
     rbind (redactSecretValues line (normalizeDenySet (map Some secrets))) (\<lambda>out. Inr (stripLogInjection out))"

text \<open>A mutable redactor is its deny-set; the redactor it holds is the one made of that deny-set.\<close>

definition createMutableTranscriptRedactor :: "string option list \<Rightarrow> string list" where
  "createMutableTranscriptRedactor initial = normalizeDenySet initial"

definition redactor_add :: "string option list \<Rightarrow> string list \<Rightarrow> string list" where
  "redactor_add vs denySet =
     (let merged = normalizeDenySet (map Some denySet @ vs)
      in if length merged = length denySet then denySet else merged)"

definition redactor_redact :: "string list \<Rightarrow> string \<Rightarrow> (string, string) result" where
  "redactor_redact denySet line = createTranscriptRedactor denySet line"

text \<open>The process-wide deny-set is created empty on first use.\<close>

definition sharedSecretRedactor :: "string list option \<Rightarrow> string list" where
  "sharedSecretRedactor shared = (case shared of None \<Rightarrow> createMutableTranscriptRedactor [] | Some d \<Rightarrow> d)"

definition rememberSecretPlaintexts :: "string option list \<Rightarrow> string list option \<Rightarrow> string list option" where
  "rememberSecretPlaintexts vs shared = Some (redactor_add vs (sharedSecretRedactor shared))"

definition redactCommandSummary :: "string list option \<Rightarrow> string \<Rightarrow> string list \<Rightarrow> (string, string) result" where
  "redactCommandSummary shared text1 locals =
     rbind (redactSecretValues text1 locals) (\<lambda>out. redactSecretValues out (sharedSecretRedactor shared))"

section \<open>Literal replacement\<close>

lemma replace_all_hit:
  "p \<noteq> [] \<Longrightarrow> starts_with p t \<Longrightarrow> replace_all p r t = r @ replace_all p r (drop (length p) t)"
  by (cases t) (auto simp: starts_with_def)

lemma replace_all_miss: "\<not> (p \<noteq> [] \<and> starts_with p (x # xs)) \<Longrightarrow> replace_all p r (x # xs) = x # replace_all p r xs"
  by (simp only: replace_all.simps if_False)

lemma replace_induct [case_names Nil hit miss]:
  assumes "P []"
    and "\<And>t. p \<noteq> [] \<Longrightarrow> starts_with p t \<Longrightarrow> P (drop (length p) t) \<Longrightarrow> P t"
    and "\<And>x xs. \<not> (p \<noteq> [] \<and> starts_with p (x # xs)) \<Longrightarrow> P xs \<Longrightarrow> P (x # xs)"
  shows "P t"
proof (induction "length t" arbitrary: t rule: less_induct)
  case less
  show ?case
  proof (cases t)
    case (Cons x xs)
    show ?thesis
    proof (cases "p \<noteq> [] \<and> starts_with p t")
      case True
      then have "P (drop (length p) t)" using less Cons by simp
      then show ?thesis using True assms(2) by blast
    next
      case False
      then show ?thesis using less Cons assms(3) by simp
    qed
  qed (use assms(1) in simp)
qed

lemma starts_with_replaced:
  "starts_with v (replace_all p REDACTED t) \<Longrightarrow> CHR ''*'' \<notin> set v \<Longrightarrow> starts_with v t"
proof (induction t arbitrary: v rule: replace_induct [where p = p])
  case (hit t)
  have "starts_with v (REDACTED @ replace_all p REDACTED (drop (length p) t))"
    using hit.prems(1) unfolding replace_all_hit [OF hit.hyps] .
  then show ?case using hit.prems(2) by (cases v) (auto simp: starts_with_def REDACTED_def)
next
  case (miss x xs)
  then show ?case by (cases v) (auto simp: starts_with_def replace_all_miss simp del: replace_all.simps(2))
qed simp

lemma includes_suffix: "includes_str v (drop n t) \<Longrightarrow> includes_str v t"
  unfolding includes_str_iff by (metis append.assoc append_take_drop_id)

lemma includes_after_stars:
  assumes "includes_str v (REDACTED @ t)" "v \<noteq> []" "CHR ''*'' \<notin> set v"
  shows "includes_str v t"
  using assms by (cases v) (auto simp: REDACTED_def starts_with_def)

lemma includes_replaced:
  assumes "v \<noteq> []" "CHR ''*'' \<notin> set v"
  shows "includes_str v (replace_all p REDACTED t) \<Longrightarrow> includes_str v t"
proof (induction t rule: replace_induct [where p = p])
  case (hit t)
  have "includes_str v (REDACTED @ replace_all p REDACTED (drop (length p) t))"
    using hit.prems unfolding replace_all_hit [OF hit.hyps] .
  then show ?case using includes_after_stars [OF _ assms] hit.IH includes_suffix by blast
next
  case (miss x xs)
  have "starts_with v (replace_all p REDACTED (x # xs)) \<or> includes_str v (replace_all p REDACTED xs)"
    using miss.prems unfolding replace_all_miss [OF miss.hyps] by simp
  then show ?case using miss.IH starts_with_replaced [OF _ assms(2), of p "x # xs"] by auto
qed (use assms in simp)

lemma replaced_is_gone:
  assumes "p \<noteq> []" "CHR ''*'' \<notin> set p"
  shows "\<not> includes_str p (replace_all p REDACTED t)"
proof (induction t rule: replace_induct [where p = p])
  case (hit t)
  then show ?case using includes_after_stars [OF _ assms] unfolding replace_all_hit [OF hit.hyps] by blast
next
  case (miss x xs)
  then show ?case
    using starts_with_replaced [OF _ assms(2), of p "x # xs"] assms(1) by (auto simp: replace_all_miss simp del: replace_all.simps(2))
qed (use assms in simp)

lemma denied_is_gone:
  assumes "v \<in> set denied" "v \<noteq> []" "CHR ''*'' \<notin> set v"
  shows "\<not> includes_str v (fold (\<lambda>secret out. replace_all secret REDACTED out) denied t)"
  using assms(1)
proof (induction denied rule: rev_induct)
  case (snoc d denied)
  then show ?case
    using replaced_is_gone [OF assms(2,3)] includes_replaced [OF assms(2,3)] by (cases "d = v") auto
qed simp

section \<open>What a deny-set holds\<close>

lemma set_deny_insert [simp]: "set (deny_insert x ys) = insert x (set ys)"
  by (induction ys) auto

lemma set_deny_sort [simp]: "set (deny_sort xs) = set xs"
  unfolding deny_sort_def by (induction xs) auto

lemma distinct_deny_insert: "distinct ys \<Longrightarrow> x \<notin> set ys \<Longrightarrow> distinct (deny_insert x ys)"
  by (induction ys) auto

lemma distinct_deny_sort: "distinct xs \<Longrightarrow> distinct (deny_sort xs)"
  unfolding deny_sort_def
proof (induction xs)
  case (Cons x xs)
  then show ?case using set_deny_sort [of xs, unfolded deny_sort_def] by (simp add: distinct_deny_insert)
qed simp

lemma set_set_add [simp]: "set (set_add v xs) = insert v (set xs)"
  by (auto simp: set_add_def)

lemma distinct_set_add: "distinct xs \<Longrightarrow> distinct (set_add v xs)"
  by (simp add: set_add_def)

lemma set_fold_set_add [simp]: "set (fold set_add vs xs) = set vs \<union> set xs"
  by (induction vs arbitrary: xs) auto

definition deniable :: "string \<Rightarrow> bool" where
  "deniable v \<longleftrightarrow> MIN_SECRET_LENGTH \<le> js_length (js_trim v)"

definition deny_forms :: "string \<Rightarrow> string set" where
  "deny_forms v = (if deniable v then {v, js_trim v} else {})"

lemma set_addDenyCandidate: "set (addDenyCandidate v u) = deny_forms v \<union> set u"
  by (auto simp: addDenyCandidate_def deny_forms_def deniable_def Let_def)

lemma distinct_addDenyCandidate: "distinct u \<Longrightarrow> distinct (addDenyCandidate v u)"
  by (simp add: addDenyCandidate_def distinct_set_add Let_def)

lemma fold_addDenyCandidate:
  "set (fold addDenyCandidate vs u) = (\<Union>v \<in> set vs. deny_forms v) \<union> set u"
  "distinct u \<Longrightarrow> distinct (fold addDenyCandidate vs u)"
  by (induction vs arbitrary: u) (auto simp: set_addDenyCandidate distinct_addDenyCandidate)

text \<open>The value itself and, when it has several lines, each of them.\<close>

definition secret_texts :: "string \<Rightarrow> string set" where
  "secret_texts v = insert v (if CHR 0x0A \<in> set v then set (split_lines v) else {})"

lemma set_add_deny_value:
  "set (add_deny_value (Some v) u) = (\<Union>s \<in> secret_texts v. deny_forms s) \<union> set u"
  "set (add_deny_value None u) = set u"
  "distinct u \<Longrightarrow> distinct (add_deny_value w u)"
  by (auto simp: add_deny_value_def secret_texts_def set_addDenyCandidate fold_addDenyCandidate distinct_addDenyCandidate
      Let_def split: option.splits)

lemma fold_add_deny_value:
  "set (fold add_deny_value vs u) = (\<Union>v \<in> {v. Some v \<in> set vs}. \<Union>s \<in> secret_texts v. deny_forms s) \<union> set u"
  "distinct u \<Longrightarrow> distinct (fold add_deny_value vs u)"
proof (induction vs arbitrary: u)
  case (Cons w vs)
  {
    case 1
    show ?case using Cons.IH(1) [of "add_deny_value w u"] by (cases w) (auto simp: set_add_deny_value)
  next
    case 2
    then show ?case using Cons.IH(2) by (simp add: set_add_deny_value)
  }
qed simp_all

lemma set_normalizeDenySet:
  "set (normalizeDenySet vs) = (\<Union>v \<in> {v. Some v \<in> set vs}. \<Union>s \<in> secret_texts v. deny_forms s)"
  by (simp add: normalizeDenySet_def fold_add_deny_value)

lemma distinct_normalizeDenySet: "distinct (normalizeDenySet vs)"
  by (simp add: normalizeDenySet_def distinct_deny_sort fold_add_deny_value)

section \<open>Valid text\<close>

lemma utf8_valid_split_lines:
  assumes "utf8_valid s" "p \<in> set (split_lines s)"
  shows "utf8_valid p"
proof -
  have c: "code (CHR 0x0A) < 128" "code (CHR 0x0D) < 128" by code_simp+
  obtain q where q: "q \<in> set (split_on (CHR 0x0A) s)" "p = q \<or> q \<noteq> [] \<and> last q = CHR 0x0D \<and> p = butlast q"
  proof (cases "p = last (split_on (CHR 0x0A) s)")
    case True
    then show ?thesis using that [of p] by simp
  next
    case False
    then obtain r where "r \<in> set (split_on (CHR 0x0A) s)" "p = (if r \<noteq> [] \<and> last r = CHR 0x0D then butlast r else r)"
      using assms(2) by (auto simp: split_lines_def Let_def dest: in_set_butlastD)
    then show ?thesis using that [of r] by (auto split: if_splits)
  qed
  have "utf8_valid q" using utf8_valid_split [OF c(1) assms(1) q(1)] .
  moreover have "q \<noteq> [] \<Longrightarrow> last q = CHR 0x0D \<Longrightarrow> q = butlast q @ CHR 0x0D # []" by (metis append_butlast_last_id)
  ultimately show ?thesis using q(2) utf8_valid_cut [OF _ c(2)] by metis
qed

lemma normalized_valid:
  assumes "\<forall>v. Some v \<in> set vs \<longrightarrow> utf8_valid v" "d \<in> set (normalizeDenySet vs)"
  shows "utf8_valid d"
proof -
  obtain v s where "Some v \<in> set vs" "s \<in> secret_texts v" "d \<in> deny_forms s"
    using assms(2) by (auto simp: set_normalizeDenySet)
  moreover from this assms(1) have "utf8_valid s" by (auto simp: secret_texts_def utf8_valid_split_lines split: if_splits)
  ultimately show ?thesis by (auto simp: deny_forms_def utf8_valid_trim split: if_splits)
qed

section \<open>Redaction\<close>

lemma encodingsOf_valid: "utf8_valid s \<Longrightarrow> \<exists>encs. encodingsOf s = Inr encs"
  by (simp add: encodingsOf_def deriveEncodings_def Let_def)

definition encoded_copies :: "string \<Rightarrow> string set" where
  "encoded_copies s = (case encodingsOf s of Inl _ \<Rightarrow> {} | Inr encs \<Rightarrow> set encs)"

lemma expand_secrets_all:
  assumes "\<forall>s \<in> set ps. utf8_valid s"
  shows "\<exists>d. expand_secrets ps u = Inr d \<and> set d = set u \<union> (\<Union>s \<in> {s \<in> set ps. s \<noteq> []}. insert s (encoded_copies s))"
  using assms
proof (induction ps arbitrary: u)
  case (Cons s ps)
  obtain encs where e: "encodingsOf s = Inr encs" using Cons.prems encodingsOf_valid by auto
  show ?case
  proof (cases "s = []")
    case True
    then have "{x \<in> set (s # ps). x \<noteq> []} = {x \<in> set ps. x \<noteq> []}" by auto
    then show ?thesis using Cons.IH [of u] Cons.prems True by simp
  next
    case False
    then have "{x \<in> set (s # ps). x \<noteq> []} = insert s {x \<in> set ps. x \<noteq> []}" by auto
    moreover obtain d where "expand_secrets ps (fold set_add encs (set_add s u)) = Inr d"
        "set d = set encs \<union> insert s (set u) \<union> (\<Union>x \<in> {x \<in> set ps. x \<noteq> []}. insert x (encoded_copies x))"
      using Cons.IH [of "fold set_add encs (set_add s u)"] Cons.prems by auto
    ultimately show ?thesis using False e by (simp add: encoded_copies_def Un_ac)
  qed
qed simp

lemma redactSecretValues_returns:
  assumes "\<forall>s \<in> set ps. utf8_valid s"
  obtains out where "redactSecretValues t ps = Inr out"
    "\<And>s e. s \<in> set ps \<Longrightarrow> s \<noteq> [] \<Longrightarrow> e \<in> insert s (encoded_copies s) \<Longrightarrow> e \<noteq> [] \<Longrightarrow> CHR ''*'' \<notin> set e \<Longrightarrow> \<not> includes_str e out"
    "\<And>v. v \<noteq> [] \<Longrightarrow> CHR ''*'' \<notin> set v \<Longrightarrow> includes_str v out \<Longrightarrow> includes_str v t"
proof -
  obtain d where d: "expand_secrets ps [] = Inr d" "set d = (\<Union>s \<in> {s \<in> set ps. s \<noteq> []}. insert s (encoded_copies s))"
    using expand_secrets_all [OF assms, of "[]"] by auto
  let ?out = "fold (\<lambda>secret out. replace_all secret REDACTED out) (deny_sort d) t"
  have "redactSecretValues t ps = Inr ?out" by (simp add: redactSecretValues_def expandedDenySet_def d)
  moreover have "\<not> includes_str e ?out"
    if "s \<in> set ps" "s \<noteq> []" "e \<in> insert s (encoded_copies s)" "e \<noteq> []" "CHR ''*'' \<notin> set e" for s e
    using that d(2) denied_is_gone [of e "deny_sort d" t] by auto
  moreover have "includes_str v (fold (\<lambda>secret out. replace_all secret REDACTED out) ds t) \<Longrightarrow> includes_str v t"
    if "v \<noteq> []" "CHR ''*'' \<notin> set v" for v ds
    using includes_replaced [OF that] by (induction ds rule: rev_induct) auto
  ultimately show ?thesis using that by metis
qed

section \<open>A growing deny-set\<close>

definition deny_ok :: "string list \<Rightarrow> bool" where
  "deny_ok d \<longleftrightarrow> distinct d \<and> (\<forall>c \<in> set d. deniable c)"

lemma deniable_trim [simp]: "deniable (js_trim v) = deniable v"
  by (simp add: deniable_def)

lemma deny_ok_normalize: "deny_ok (normalizeDenySet vs)"
  by (auto simp: deny_ok_def distinct_normalizeDenySet set_normalizeDenySet deny_forms_def split: if_splits)

lemma deny_ok_again: "deny_ok d \<Longrightarrow> set d \<subseteq> set (normalizeDenySet (map Some d @ vs))"
  by (auto simp: deny_ok_def set_normalizeDenySet secret_texts_def deny_forms_def)

lemma normalize_append: "set (normalizeDenySet vs) \<subseteq> set (normalizeDenySet (ws @ vs))"
  by (auto simp: set_normalizeDenySet)

lemma set_redactor_add:
  assumes "deny_ok d"
  shows "set (redactor_add vs d) = set (normalizeDenySet (map Some d @ vs))" "deny_ok (redactor_add vs d)"
proof -
  let ?m = "normalizeDenySet (map Some d @ vs)"
  have sub: "set d \<subseteq> set ?m" using deny_ok_again [OF assms] .
  have "set d = set ?m" if "length ?m = length d"
  proof -
    have "card (set ?m) = card (set d)"
      using that assms distinct_card [of ?m] distinct_card [of d] distinct_normalizeDenySet by (simp add: deny_ok_def)
    then show ?thesis using card_subset_eq [OF _ sub] by simp
  qed
  then show "set (redactor_add vs d) = set ?m" "deny_ok (redactor_add vs d)"
    using assms deny_ok_normalize by (simp_all add: redactor_add_def Let_def)
qed

lemma redactor_add_keeps: "deny_ok d \<Longrightarrow> set d \<union> set (normalizeDenySet vs) \<subseteq> set (redactor_add vs d)"
  using set_redactor_add(1) deny_ok_again normalize_append by blast

definition all_valid :: "string option list \<Rightarrow> bool" where
  "all_valid vs \<longleftrightarrow> (\<forall>v. Some v \<in> set vs \<longrightarrow> utf8_valid v)"

lemma redactor_add_valid:
  assumes "deny_ok d" "\<forall>s \<in> set d. utf8_valid s" "all_valid vs"
  shows "\<forall>s \<in> set (redactor_add vs d). utf8_valid s"
proof
  fix s assume "s \<in> set (redactor_add vs d)"
  then have "s \<in> set (normalizeDenySet (map Some d @ vs))" by (simp add: set_redactor_add(1) [OF assms(1)])
  moreover have "\<forall>v. Some v \<in> set (map Some d @ vs) \<longrightarrow> utf8_valid v" using assms(2,3) by (auto simp: all_valid_def)
  ultimately show "utf8_valid s" using normalized_valid by blast
qed

text \<open>Everything that was ever added is denied.\<close>

lemma redactor_adds:
  assumes "deny_ok d" "\<forall>s \<in> set d. utf8_valid s" "\<forall>vs \<in> set batches. all_valid vs"
  shows "deny_ok (fold redactor_add batches d) \<and> (\<forall>s \<in> set (fold redactor_add batches d). utf8_valid s)
    \<and> set d \<union> (\<Union>vs \<in> set batches. set (normalizeDenySet vs)) \<subseteq> set (fold redactor_add batches d)"
  using assms
proof (induction batches arbitrary: d)
  case (Cons vs batches)
  have v: "all_valid vs" using Cons.prems(3) by simp
  have "deny_ok (redactor_add vs d)" "\<forall>s \<in> set (redactor_add vs d). utf8_valid s"
    using set_redactor_add(2) [OF Cons.prems(1)] redactor_add_valid [OF Cons.prems(1,2) v] by blast+
  from Cons.IH [OF this] show ?case using redactor_add_keeps [OF Cons.prems(1), of vs] Cons.prems(3) by auto
qed simp

lemma fold_remember:
  "batches \<noteq> [] \<Longrightarrow> fold rememberSecretPlaintexts batches shared = Some (fold redactor_add batches (sharedSecretRedactor shared))"
proof (induction batches arbitrary: shared)
  case (Cons vs batches)
  then show ?case
    by (cases "batches = []") (simp_all add: rememberSecretPlaintexts_def sharedSecretRedactor_def)
qed simp

text \<open>
  The forms in which a decrypted value may not appear: the value, its trimmed form and its lines, and their
  encoded copies.
\<close>

definition forbidden_forms :: "string \<Rightarrow> string set" where
  "forbidden_forms v = (\<Union>s \<in> secret_texts v. \<Union>d \<in> deny_forms s. insert d (encoded_copies d))"

lemma deniable_ne: "deniable v \<Longrightarrow> v \<noteq> []"
  by (auto simp: deniable_def MIN_SECRET_LENGTH_def js_trim_def strip_left_def js_length_def)

lemma derived_long: "deriveEncodings d = Inr encs \<Longrightarrow> e \<in> set encs \<Longrightarrow> MIN_ENCODED_SECRET_LENGTH \<le> js_length e"
  unfolding deriveEncodings_def Let_def by (clarsimp split: if_splits simp del: filter.simps list.set replace_all.simps)

lemma encoded_ne: "e \<in> encoded_copies d \<Longrightarrow> e \<noteq> []"
  using derived_long [of d _ "[]"]
  by (auto simp: encoded_copies_def encodingsOf_def MIN_ENCODED_SECRET_LENGTH_def js_length_def split: if_splits sum.splits)

lemma forbidden_denied:
  assumes "e \<in> forbidden_forms v" "Some v \<in> set vs"
  obtains d where "d \<in> set (normalizeDenySet vs)" "d \<noteq> []" "e \<in> insert d (encoded_copies d)" "e \<noteq> []"
proof -
  obtain s d where d: "s \<in> secret_texts v" "d \<in> deny_forms s" "e \<in> insert d (encoded_copies d)"
    using assms(1) by (auto simp: forbidden_forms_def)
  have "d \<in> set (normalizeDenySet vs)" using d assms(2) by (auto simp: set_normalizeDenySet)
  moreover have "d \<noteq> []" using d(2) deniable_ne [of s] deniable_ne [of "js_trim s"] by (auto simp: deny_forms_def split: if_splits)
  ultimately show ?thesis using that d(3) encoded_ne by blast
qed

section \<open>Control characters\<close>

lemma set_replace_all: "set (replace_all p r t) \<subseteq> set r \<union> set t"
proof (induction t rule: replace_induct [where p = p])
  case (hit t)
  then show ?case unfolding replace_all_hit [OF hit.hyps] using set_drop_subset [of "length p" t] by auto
next
  case (miss x xs)
  then show ?case unfolding replace_all_miss [OF miss.hyps] by auto
qed simp

lemma set_redacted:
  assumes "redactSecretValues t ps = Inr out"
  shows "set out \<subseteq> insert (CHR ''*'') (set t)"
proof -
  have "set (fold (\<lambda>secret out. replace_all secret REDACTED out) ds t) \<subseteq> insert (CHR ''*'') (set t)" for ds
    by (induction ds rule: rev_induct) (use set_replace_all [of _ REDACTED] in \<open>fastforce simp: REDACTED_def\<close>)+
  then show ?thesis using assms by (auto simp: redactSecretValues_def result_simps)
qed

lemma starts_with_stripped:
  "starts_with v (stripTerminalControls t) \<Longrightarrow> CHR ''_'' \<notin> set v \<Longrightarrow> \<forall>c \<in> set t. code c \<noteq> 27 \<Longrightarrow> starts_with v t"
proof (induction t arbitrary: v rule: stripTerminalControls.induct)
  case (2 c s)
  then show ?case by (cases v) (auto simp: starts_with_def split: if_splits)
qed simp

lemma includes_stripped:
  assumes "v \<noteq> []" "CHR ''_'' \<notin> set v"
  shows "includes_str v (stripTerminalControls t) \<Longrightarrow> \<forall>c \<in> set t. code c \<noteq> 27 \<Longrightarrow> includes_str v t"
proof (induction t rule: stripTerminalControls.induct)
  case (2 c s)
  have n: "code c \<noteq> 27" using "2.prems"(2) by simp
  have "\<not> starts_with v (CHR ''_'' # x)" for x using assms by (cases v) (auto simp: starts_with_def)
  then consider (here) "starts_with v (stripTerminalControls (c # s))" | (next1) "includes_str v (stripTerminalControls s)"
      "isLoneControl c \<or> \<not> (code c = 194 \<and> s \<noteq> [] \<and> byte_in 128 159 (hd s))"
    | (next2) "includes_str v (stripTerminalControls (tl s))" "\<not> isLoneControl c" "code c = 194 \<and> s \<noteq> [] \<and> byte_in 128 159 (hd s)"
    using "2.prems"(1) n by (auto split: if_splits)
  then show ?case
  proof cases
    case here
    then show ?thesis using starts_with_stripped [OF _ assms(2) "2.prems"(2)] by simp
  next
    case next1
    then show ?thesis using 2 n by auto
  next
    case next2
    then have "includes_str v (tl s)" using 2 n by (cases s) auto
    then show ?thesis using includes_suffix [of v 2 "c # s"] by (simp add: drop_Suc)
  qed
qed simp

lemma includes_underscored:
  assumes "v \<noteq> []" "CHR ''_'' \<notin> set v" "includes_str v (map (\<lambda>c. if P c then CHR ''_'' else c) t)"
  shows "includes_str v t"
proof -
  define f where "f = (\<lambda>c. if P c then CHR ''_'' else c)"
  obtain a b c where abc: "t = a @ b @ c" "v = map f b"
    using assms(3) unfolding includes_str_iff f_def [symmetric] by (auto simp: map_eq_append_conv append_eq_map_conv)
  have "f x = x" if "x \<in> set b" for x
  proof -
    have "f x \<in> set v" using that abc(2) by simp
    then show ?thesis using assms(2) by (auto simp: f_def split: if_splits)
  qed
  then have "v = b" using abc(2) by (simp add: map_idI)
  then show ?thesis using abc(1) by (auto simp: includes_str_iff)
qed

section \<open>What a reader sees\<close>

definition demo_secret :: string where "demo_secret = ''hunter2''"


lemma demo_secret_trim: "js_trim demo_secret = demo_secret"
  by (rule js_trim_visible) (simp_all add: demo_secret_def visible_def code_def)

lemma demo_secret_facts: "js_length demo_secret = 7" "deniable demo_secret" "utf8_valid demo_secret"
  unfolding deniable_def demo_secret_trim by (simp_all add: demo_secret_def js_length_def MIN_SECRET_LENGTH_def code_def)

lemma demo_secret_forms: "demo_secret \<in> forbidden_forms demo_secret" "all_valid [Some demo_secret, None]"
  using demo_secret_facts by (auto simp: forbidden_forms_def secret_texts_def deny_forms_def all_valid_def)

lemma demo_deny_set: "normalizeDenySet [Some demo_secret, None] = [demo_secret]"
  using demo_secret_facts by (simp add: normalizeDenySet_def add_deny_value_def addDenyCandidate_def demo_secret_trim deniable_def
      set_add_def deny_sort_def Let_def) (simp add: demo_secret_def)




text \<open>
  The line is redacted before its escape sequences are removed: one in the middle of a value hides it from the
  redaction, and its removal puts the value together again.
\<close>

definition escaped_secret_line :: string where
  "escaped_secret_line = ''hun'' @ [CHR 0x1B, CHR ''['', CHR ''0'', CHR ''m''] @ ''ter2''"

lemma escape_uncovers_a_secret:
  "redactor_redact (createMutableTranscriptRedactor [Some demo_secret, None]) escaped_secret_line = Inr ''hunter2''"
proof -
  have n: "normalizeDenySet (map Some [demo_secret]) = [demo_secret]"
    using demo_deny_set by (simp add: normalizeDenySet_def add_deny_value_def)
  have "expandedDenySet [demo_secret] = Inr [demo_secret]"
    using demo_secret_facts by (simp add: expandedDenySet_def encodingsOf_def MIN_ENCODED_SECRET_LENGTH_def set_add_def deny_sort_def)
      (simp add: demo_secret_def)
  moreover have "replace_all demo_secret REDACTED escaped_secret_line = escaped_secret_line" by code_simp
  ultimately have "redactSecretValues escaped_secret_line [demo_secret] = Inr escaped_secret_line"
    by (simp add: redactSecretValues_def)
  moreover have "stripLogInjection escaped_secret_line = ''hunter2''" by code_simp
  ultimately show ?thesis
    using n by (simp add: redactor_redact_def createTranscriptRedactor_def createMutableTranscriptRedactor_def demo_deny_set)
qed

section \<open>The cache of encodings\<close>

definition cache_ok :: "(string \<times> string list) list \<Rightarrow> bool" where
  "cache_ok cache \<longleftrightarrow> (\<forall>(s, encs) \<in> set cache. deriveEncodings s = Inr encs) \<and> length cache \<le> DERIVED_CACHE_MAX"

lemma encodingsOf_cached_is_encodingsOf:
  assumes "cache_ok cache"
  shows "fst (encodingsOf_cached s cache) = encodingsOf s \<and> cache_ok (snd (encodingsOf_cached s cache))"
  using assms
  by (auto simp: encodingsOf_cached_def encodingsOf_def cache_ok_def DERIVED_CACHE_MAX_def dest!: map_of_SomeD
      split: option.splits sum.splits)

end
