(* ===== verification/Spec2Isabelle.thy ===== *)
theory Spec2Isabelle
  imports Gate_Http_Laws Gate_Reader_Laws Gate_Policy_Laws Gate_Replay Gate_Relay_Laws Gate_Config
    Firewall_Guard Firewall_Exchange Firewall_Fold_Laws Outbox_Recovery Outbox_Resend Logs_Lines Logs_Redact
begin

text \<open>
  The verification of the core of the TurboPanel daemon, the program on a customer's server that takes
  commands from a control plane. Four parts of it decide what may happen to the server and what
  leaves it, and these are modelled, function by function:

  \<^item> the Docker gate (\<open>orchestration/roles/docker-gate/files\<close>), a proxy before the engine's
    socket that lets a tenant's tools use the engine within a strict profile;
  \<^item> the host firewall (\<open>src/firewall\<close>, \<open>src/commands/firewall-*.ts\<close>), which turns a rule set of
    the control plane into iptables documents, loads them under a rollback timer and makes them
    durable when they are confirmed;
  \<^item> the command outbox (\<open>src/commands/command-outbox.ts\<close>, \<open>src/instance/dispatch-dedupe.ts\<close>), which
    sees to it that a command is run once and that its outcome arrives, across lost
    connections and killed daemons;
  \<^item> the lines and the redaction of command transcripts (\<open>src/logs/line-stream.ts\<close>,
    \<open>src/logs/redactor.ts\<close>), which keep decrypted values out of what is stored and sent.

  \<^bold>\<open>How the parts work together\<close>

  Gate: a client connection is read by the buffered reader and the head parser (\<open>http.ts\<close>), its
  target is classified and its body parsed strictly (\<open>body.ts\<close>), the request is reviewed
  (\<open>review.ts\<close>): the policy (\<open>policy.ts\<close>, with \<open>resolve.ts\<close> for bind paths) gives findings, the
  platform rules (\<open>platform.ts\<close>) and a signed approval (\<open>approval.ts\<close>, \<open>replay.ts\<close>) may allow some of
  them, and the owner of the object, looked up on the engine (\<open>inspect.ts\<close>), is checked. The
  proxy (\<open>proxy.ts\<close>) then refuses or forwards and relays the response; \<open>stats.ts\<close> counts, and
  \<open>main.ts\<close> reads the settings and opens the three listeners (\<open>readonly.ts\<close>, \<open>build-session.ts\<close>).

  Firewall: a payload is parsed by the contract, rendered into two documents, written as pending
  with a marker, the rollback timer of the root guard is armed, the documents are loaded, and a
  confirm, of the control plane or of the daemon itself, promotes them; the legacy chains of
  managed databases are folded in when the new chains cover them.

  Outbox: the client drops ids it has seen, the router marks a command in the journal and runs it, the
  outbox journals its outcome, sends it, keeps it until the control plane confirms, and after a
  restart answers every journal file that is found.

  Transcripts: the output of a child process is cut into lines, every value that is decrypted joins a
  deny-set, and lines and summaries pass the redactor before they are kept.

  \<^bold>\<open>Theories\<close>

  Language and library. \<open>Prelude\<close>: results of code that throws, string functions. \<open>Regex\<close>:
  anchored expressions by derivatives, proved equal to their languages. \<open>Text_Encoding\<close>,
  \<open>Numbers\<close>: UTF-8, UTF-16 length, percent decoding, doubles. \<open>Text_Laws\<close>: trimmed and valid text. \<open>Json\<close>, \<open>Json_Print\<close>, \<open>Json_Text\<close>:
  \<open>JSON.parse\<close> and \<open>JSON.stringify\<close> with their round trips. \<open>Log_Text\<close>: the log sanitizer of
  \<open>src/util/logger.ts\<close>.

  Gate. \<open>Gate_Http\<close>, \<open>Gate_Reader\<close> model \<open>http.ts\<close>; \<open>Gate_Body\<close>, \<open>Gate_Platform\<close>, \<open>Gate_Policy\<close>,
  \<open>Gate_Resolve\<close>, \<open>Gate_Approval\<close>, \<open>Gate_Replay\<close>, \<open>Gate_Stats\<close>, \<open>Gate_Inspect\<close>, \<open>Gate_Review\<close>,
  \<open>Gate_Proxy\<close> the file of that name; \<open>Gate_Listeners\<close> the two special listeners, \<open>Gate_Config\<close> the
  start, \<open>Gate_State\<close> the state of a connection (what the client still sends, what went to the
  engine and to the client, counters, log). The \<open>_Laws\<close> theories prove: a head and its framing
  have one reading (\<open>Gate_Http_Laws\<close>); the relays pass bytes on unchanged and always return
  (\<open>Gate_Reader_Laws\<close>); an accepted body means to the policy what a case-insensitive decoder reads
  (\<open>Gate_Body_Laws\<close>); a create without finding is exactly one of the strict profile, and its
  binds stay below their roots (\<open>Gate_Policy_Laws\<close>); what reaches the engine was parsed,
  judged and permitted (\<open>Gate_Proxy_Laws\<close>); and what the client sees of it (\<open>Gate_Relay_Laws\<close>).
  An approval id is never accepted twice (\<open>Gate_Replay\<close>).

  Firewall. \<open>Firewall_Contracts\<close> models the payload parsers of \<open>src/contracts/commands-contracts.ts\<close>,
  \<open>Firewall_Render\<close> \<open>render.ts\<close>, \<open>Firewall_Pending\<close> \<open>run.ts\<close> and \<open>pending.ts\<close>, \<open>Firewall_Fold\<close>
  \<open>fold.ts\<close>, \<open>Firewall_Commit\<close> \<open>apply.ts\<close>, \<open>confirm.ts\<close>, \<open>auto-confirm.ts\<close> and both handlers,
  \<open>Firewall_Guard\<close> the document check of the root guard script. A rendered chain is given a
  packet semantics (\<open>Firewall_Render_Laws\<close>), in which the verdict on every packet is
  computed; \<open>Firewall_Host_Laws\<close> is a small program logic for the handlers, from which follow the
  order of writes, guard and loads (\<open>Firewall_Commit_Laws\<close>), the invariant over the life of a host
  (\<open>Firewall_Life\<close>, \<open>Firewall_Exchange\<close>) and the conditions of a fold (\<open>Firewall_Fold_Laws\<close>).

  Outbox. \<open>Outbox\<close> holds the state of one daemon, the journal files and the small functions,
  \<open>Outbox_Session\<close> each operation in sections between two awaits, and \<open>Outbox_Runs\<close> the step
  relation that interleaves them with frames, timers, file operations and kills.
  \<open>Outbox_Laws\<close> proves for each section where the outcome of a command goes (the locale
  \<open>section_law\<close>); \<open>Outbox_Promises\<close>, \<open>Outbox_Recovery\<close>, \<open>Outbox_Pace\<close> and \<open>Outbox_Resend\<close> derive the
  promises over all runs.

  Transcripts. \<open>Logs_Lines\<close> models \<open>line-stream.ts\<close> over UTF-16 code units and proves that the lines do not
  depend on the chunks in which the output arrives, and what the limits hold back. \<open>Logs_Redact\<close> models
  \<open>redactor.ts\<close> and proves that no form of a decrypted value is left in a redacted summary, or in a redacted line
  that has no escape sequence.

  This theory holds the properties that span the parts of the gate.

  \<^bold>\<open>Conventions\<close>

  \<^item> A string is the list of its UTF-8 bytes; \<open>undefined\<close> and \<open>null\<close> are \<open>None\<close> where the code
    does not tell them apart; a thrown error is \<open>Inl\<close> with its text.
  \<^item> An object decoded from JSON is an association list in the order of its members; a number is an
    integer times a power of ten, rounded to a double where the code computes with it.
  \<^item> SHA-256, Ed25519, the text of a double or of a date, the collation of a locale, the clock,
    the file system and other programs are arguments or answers of an environment; no law is
    assumed of them that a property does not name.
  \<^item> The gate's upload and response of one request run one after the other, a socket takes all
    that is written, and the bytes a failing relay wrote before it failed are not kept.
  \<^item> The firewall's state is the trace of file operations and programs with the answers of an
    arbitrary environment (\<open>fw_env\<close>, \<open>fw_state\<close>); its log lines and the time limits of programs
    are not kept.
  \<^item> In the outbox a section between two awaits is one step and reads the clock once; the file
    operations of one command are done in the order of their chain, and a kill may come between
    any two steps.

  \<^bold>\<open>Bounds and fuel\<close>

  The JSON parsers recurse on fuel, of which twice the length of the text plus one is enough: every
  second call takes a character (\<open>pvalue_enough\<close>, \<open>svalue_fuel\<close>). Trimming white space takes at
  least one byte per round, so the length of the text is enough. The symbolic-link walk
  has the limit of the code, 40 links, and the removal of a legacy jump is tried at most eight
  times, as in the code. Every other function is total by its own recursion.

  \<^bold>\<open>Not modelled\<close>

  The parts that drive docker, systemd, ansible, git, restic or a cloud interface and have little
  logic of their own between the calls (\<open>backups\<close>, \<open>deploy\<close>, \<open>managed\<close>, \<open>orchestration\<close>, \<open>tunnels\<close>,
  \<open>update\<close>, \<open>dev-host\<close>, \<open>dev-sync\<close>, the other command handlers), the collectors of host facts
  (\<open>host\<close>, \<open>metrics\<close>, \<open>monitor\<close>), the spool and the upload of transcripts (\<open>logs\<close>), the transport of the control-plane client
  (\<open>instance\<close>), cryptographic wrappers (\<open>crypto\<close>), tables (\<open>paths\<close>, \<open>permissions\<close>), tests and
  scripts. Of the gate's \<open>main.ts\<close> the stop, the summary timer and the process entry are left
  out, of the root guard the rollback itself, which is a step of the host in \<open>Firewall_Life\<close>.
\<close>

section \<open>A running gate\<close>


definition demo_io :: gate_io where
  "demo_io = \<lparr>io_keyFile = Inl ''NotFound'', io_openMain = Inr (), io_switchIsFile = False, io_openRo = Inr (),
     io_openBuild = Inr (), io_stateRead = Readable, io_stateFile = None, io_writes = []\<rparr>"

definition demo_policy :: policy_config where
  "demo_policy = DEFAULT_POLICY_CONFIG\<lparr>bindRoots := [''/data'', ''/srv'']\<rparr>"

definition demo_config :: gate_config where
  "demo_config = \<lparr>cfg_mode = Enforce, cfg_socket = ''/run/turbopanel-gate/docker.sock'', cfg_roSocket = None,
     cfg_ingressSwitchFile = None, cfg_upstream = ''/var/run/docker.sock'', cfg_socketGid = None,
     cfg_policy = demo_policy, cfg_summarySeconds = 60, cfg_approvalKeyFile = None, cfg_approvalStateFile = None,
     cfg_buildSocket = Some ''/run/gate/build/docker.sock'', cfg_buildGid = Some 990\<rparr>"

definition build_deps :: "(unit, replay_memory) gate_deps" where
  "build_deps = (gate_base_deps plain_env demo_probe (\<lambda>_. 0) demo_config [])\<lparr>deps_buildSocket := True\<rparr>"

definition build_state :: "replay_memory gate_state" where
  "build_state = \<lparr>g_stats = new_stats, g_log = [], g_replay = InMemory [], g_ticks = 0,
     g_reader = new_reader [req_raw session_head], g_client = new_sink,
     g_conns = [Inr \<lparr>answers = [ok_answer ''OK''], in_time = True\<rparr>], g_sent = []\<rparr>"

lemma demo_config_loads: "loadConfig demo_env = Inr demo_config"
  by code_simp

lemma demo_gate_starts:
  "\<exists>g. fst (startGate plain_env demo_probe (\<lambda>_. 0) demo_config demo_io []) = Inr g
     \<and> (''/run/gate/build/docker.sock'', build_deps) \<in> set (run_listeners g)"
  by (simp add: startGate_def demo_io_def demo_config_def loadApprovalKeys_def openReadOnlyListener_def
      openBuildListener_def build_deps_def Let_def)

lemma build_session_served:
  "g_sent (handleConnection build_deps build_state) = [req_raw session_head]"
  by code_simp


end
